(* ===== verification/Prelude.thy ===== *)
theory Prelude
  imports Main "HOL-Library.List_Lexorder"
begin

text \<open>
  Shared vocabulary of the development.

  Python's \<^verbatim>\<open>str\<close> is a sequence of code points, so it is modelled as \<open>nat list\<close>
  (\<open>str\<close>): \<open>length\<close>, slices (\<open>take\<close>, \<open>drop\<close>) and comparison (the lexicographic order
  of \<open>HOL-Library.List_Lexorder\<close>) are those of Python.  A literal of the source is written
  \<open>u ''text''\<close>.  The operations of \<^verbatim>\<open>str\<close> the code uses (\<^verbatim>\<open>strip\<close>,
  \<^verbatim>\<open>splitlines\<close>, \<^verbatim>\<open>split\<close>, \<^verbatim>\<open>join\<close>, \<^verbatim>\<open>isspace\<close>) are defined here.  The tables of
  the Unicode character database (case mappings, NFC, word characters) are data, not code; they are the fields
  of a record \<open>unicode_db\<close> that the functions using them take as an argument.
\<close>

section \<open>Lemma collections\<close>

named_theorems step_rules \<open>rules that lift a preorder between states through the operations\<close>
named_theorems op_defs \<open>definitions of the primitive operations of the error monad\<close>
named_theorems str_simps \<open>simplification of string operations\<close>

section \<open>Lists\<close>

lemma find_SomeD: "find P xs = Some x \<Longrightarrow> x \<in> set xs \<and> P x"
  by (auto simp: find_Some_iff)

lemma find_filter: "find P xs = (case filter P xs of [] \<Rightarrow> None | y # ys \<Rightarrow> Some y)"
  by (induction xs) auto

lemma sum_list_mono_elem: "x \<in> set xs \<Longrightarrow> f x \<le> (sum_list (map f xs) :: nat)"
  by (induction xs) auto

section \<open>Strings as code point lists\<close>

type_synonym str = "nat list"

definition u :: "string \<Rightarrow> str" where
  "u s = map of_char s"

lemma u_Nil [simp]: "u [] = []"
  by (simp add: u_def)

lemma u_eq_Nil [simp]: "u s = [] \<longleftrightarrow> s = []" "[] = u s \<longleftrightarrow> s = []"
  by (auto simp: u_def)

lemma inj_u: "inj u"
  unfolding u_def by (intro inj_mapI injI) simp

lemma u_eq_iff [simp]: "u s = u t \<longleftrightarrow> s = t"
  using inj_u by (auto dest: injD)

lemma u_append: "u (s @ t) = u s @ u t"
  by (simp add: u_def)

lemma u_Cons: "u (c # s) = of_char c # u s"
  by (simp add: u_def)

lemma length_u [simp]: "length (u s) = length s"
  by (simp add: u_def)

lemma set_u_bound: "c \<in> set (u s) \<Longrightarrow> c < 256"
  by (auto simp: u_def)

definition prefixes_str :: "str \<Rightarrow> str \<Rightarrow> bool" where
  "prefixes_str p s \<longleftrightarrow> take (length p) s = p"

definition suffixes_str :: "str \<Rightarrow> str \<Rightarrow> bool" where
  "suffixes_str p s \<longleftrightarrow> length p \<le> length s \<and> drop (length s - length p) s = p"

text \<open>Python's \<^verbatim>\<open>sub in text\<close>.\<close>

fun occurs_in :: "str \<Rightarrow> str \<Rightarrow> bool" where
  "occurs_in p [] \<longleftrightarrow> p = []"
| "occurs_in p (c # cs) \<longleftrightarrow> prefixes_str p (c # cs) \<or> occurs_in p cs"

lemma occurs_in_iff: "occurs_in p s \<longleftrightarrow> (\<exists>a b. s = a @ p @ b)"
proof (induction s)
  case Nil
  show ?case by auto
next
  case (Cons c cs)
  have head: "prefixes_str p (c # cs) \<longleftrightarrow> (\<exists>b. c # cs = p @ b)"
    by (metis append_eq_conv_conj prefixes_str_def)
  have "(\<exists>a b. c # cs = a @ p @ b) \<longleftrightarrow> (\<exists>b. c # cs = p @ b) \<or> (\<exists>a b. cs = a @ p @ b)"
    by (metis append_Cons append_Nil list.exhaust list.sel(3))
  with Cons head show ?case by simp
qed

section \<open>Whitespace, stripping, splitting and joining\<close>

text \<open>The code points with \<^verbatim>\<open>str.isspace()\<close> and those at which \<^verbatim>\<open>str.splitlines()\<close> breaks.\<close>

definition is_space :: "nat \<Rightarrow> bool" where
  "is_space c \<longleftrightarrow>
     (9 \<le> c \<and> c \<le> 13) \<or> (28 \<le> c \<and> c \<le> 32) \<or> c = 133 \<or> c = 160 \<or> c = 5760 \<or>
     (8192 \<le> c \<and> c \<le> 8202) \<or> c = 8232 \<or> c = 8233 \<or> c = 8239 \<or> c = 8287 \<or> c = 12288"

definition is_linebreak :: "nat \<Rightarrow> bool" where
  "is_linebreak c \<longleftrightarrow>
     (10 \<le> c \<and> c \<le> 13) \<or> (28 \<le> c \<and> c \<le> 30) \<or> c = 133 \<or> c = 8232 \<or> c = 8233"

lemma is_linebreak_space: "is_linebreak c \<Longrightarrow> is_space c"
  by (auto simp: is_linebreak_def is_space_def)

definition lstrip :: "str \<Rightarrow> str" where
  "lstrip s = dropWhile is_space s"

definition rstrip :: "str \<Rightarrow> str" where
  "rstrip s = rev (dropWhile is_space (rev s))"

definition strip :: "str \<Rightarrow> str" where
  "strip s = rstrip (lstrip s)"

lemma strip_Nil [simp]: "strip [] = []"
  by (simp add: strip_def lstrip_def rstrip_def)

lemma rstrip_decomp: "\<exists>b. s = rstrip s @ b \<and> (\<forall>c\<in>set b. is_space c)"
proof -
  have "rev s = takeWhile is_space (rev s) @ dropWhile is_space (rev s)" by simp
  then have "s = rev (dropWhile is_space (rev s)) @ rev (takeWhile is_space (rev s))"
    by (metis rev_append rev_rev_ident)
  then show ?thesis
    unfolding rstrip_def by (auto dest: set_takeWhileD intro!: exI[of _ "rev (takeWhile is_space (rev s))"])
qed

lemma lstrip_decomp: "\<exists>a. s = a @ lstrip s \<and> (\<forall>c\<in>set a. is_space c)"
  unfolding lstrip_def
  by (rule exI[of _ "takeWhile is_space s"]) (auto dest: set_takeWhileD)

lemma strip_decomp:
  "\<exists>a b. s = a @ strip s @ b \<and> (\<forall>c\<in>set a. is_space c) \<and> (\<forall>c\<in>set b. is_space c)"
  unfolding strip_def using lstrip_decomp[of s] rstrip_decomp[of "lstrip s"]
  by (metis append.assoc)

lemma length_strip_le: "length (strip s) \<le> length s"
proof -
  obtain a b where "s = a @ strip s @ b" using strip_decomp by blast
  then have "length s = length a + (length (strip s) + length b)"
    by (metis length_append)
  then show ?thesis by simp
qed

lemma strip_eq_Nil_iff: "strip s = [] \<longleftrightarrow> (\<forall>c\<in>set s. is_space c)"
proof
  assume "strip s = []"
  with strip_decomp[of s] show "\<forall>c\<in>set s. is_space c" by auto
next
  assume "\<forall>c\<in>set s. is_space c"
  then have "lstrip s = []" by (auto simp: lstrip_def dropWhile_eq_Nil_conv)
  then show "strip s = []" by (simp add: strip_def rstrip_def)
qed

lemma filter_nonspace_strip:
  "filter (\<lambda>c. \<not> is_space c) (strip s) = filter (\<lambda>c. \<not> is_space c) s"
proof -
  obtain a b where s: "s = a @ strip s @ b"
    and ab: "\<forall>c\<in>set a. is_space c" "\<forall>c\<in>set b. is_space c"
    using strip_decomp by blast
  have "filter (\<lambda>c. \<not> is_space c) (a @ strip s @ b) = filter (\<lambda>c. \<not> is_space c) (strip s)"
    using ab by simp
  with s show ?thesis by metis
qed

lemma hd_strip: "strip s \<noteq> [] \<Longrightarrow> \<not> is_space (hd (strip s))"
proof -
  assume ne: "strip s \<noteq> []"
  obtain b where b: "lstrip s = strip s @ b"
    unfolding strip_def using rstrip_decomp by blast
  with ne have "lstrip s \<noteq> []" and "hd (lstrip s) = hd (strip s)" by (auto simp: hd_append)
  then show ?thesis unfolding lstrip_def by (metis hd_dropWhile)
qed

lemma last_strip: "strip s \<noteq> [] \<Longrightarrow> \<not> is_space (last (strip s))"
  unfolding strip_def rstrip_def by (metis hd_dropWhile hd_rev rev_rev_ident rev.simps(1))

text \<open>\<^verbatim>\<open>str.splitlines()\<close>: a carriage return followed by a line feed is one break.\<close>

fun split_lines_from :: "str \<Rightarrow> str \<Rightarrow> str list" where
  "split_lines_from acc [] = (if acc = [] then [] else [rev acc])"
| "split_lines_from acc (c # cs) =
     (if is_linebreak c
      then rev acc # split_lines_from [] (if c = 13 \<and> cs \<noteq> [] \<and> hd cs = 10 then tl cs else cs)
      else split_lines_from (c # acc) cs)"

definition splitlines :: "str \<Rightarrow> str list" where
  "splitlines s = split_lines_from [] s"

text \<open>\<^verbatim>\<open>str.split(sep)\<close> for a separator of one character, and \<^verbatim>\<open>sep.join(parts)\<close>.\<close>

fun split_on :: "nat \<Rightarrow> str \<Rightarrow> str list" where
  "split_on d [] = [[]]"
| "split_on d (c # cs) =
     (if c = d then [] # split_on d cs
      else (case split_on d cs of [] \<Rightarrow> [[c]] | p # ps \<Rightarrow> (c # p) # ps))"

fun join :: "str \<Rightarrow> str list \<Rightarrow> str" where
  "join sep [] = []"
| "join sep [x] = x"
| "join sep (x # y # ys) = x @ sep @ join sep (y # ys)"

lemma split_on_nonempty [simp]: "split_on d s \<noteq> []"
  by (induction s) (auto split: list.splits)

lemma join_Cons: "xs \<noteq> [] \<Longrightarrow> join sep (x # xs) = x @ sep @ join sep xs"
  by (cases xs) auto

lemma join_Cons_head: "join sep ((c # p) # ps) = c # join sep (p # ps)"
  by (cases ps) auto

lemma join_split_on: "join [d] (split_on d s) = s"
proof (induction s)
  case Nil
  show ?case by simp
next
  case (Cons c cs)
  show ?case
  proof (cases "split_on d cs")
    case Nil
    then show ?thesis using split_on_nonempty by blast
  next
    case (Cons p ps)
    with Cons.IH show ?thesis by (auto simp: join_Cons_head)
  qed
qed

lemma split_on_no_sep: "p \<in> set (split_on d s) \<Longrightarrow> d \<notin> set p"
  by (induction s arbitrary: p) (auto split: list.splits if_splits)

lemma split_on_subset: "p \<in> set (split_on d s) \<Longrightarrow> set p \<subseteq> set s"
proof (induction s arbitrary: p)
  case (Cons c s)
  note IH = Cons.IH and p = Cons.prems
  show ?case
  proof (cases "split_on d s")
    case (Cons a list)
    with IH[of a] IH[of p] p show ?thesis by (auto split: if_splits)
  qed (use Cons.prems in \<open>auto split: if_splits\<close>)
qed simp

lemma split_on_append_sep: "d \<notin> set p \<Longrightarrow> split_on d (p @ d # s) = p # split_on d s"
  by (induction p) auto

lemma split_on_free: "d \<notin> set p \<Longrightarrow> split_on d p = [p]"
  by (induction p) auto

lemma split_on_join:
  "\<lbrakk>xs \<noteq> []; \<forall>x\<in>set xs. d \<notin> set x\<rbrakk> \<Longrightarrow> split_on d (join [d] xs) = xs"
proof (induction xs)
  case Nil
  then show ?case by simp
next
  case (Cons x xs)
  then show ?case
    by (cases xs) (auto simp: split_on_append_sep split_on_free)
qed

text \<open>\<^verbatim>\<open>str.split()\<close> without an argument: maximal runs of non-space characters.\<close>

fun split_ws_from :: "str \<Rightarrow> str \<Rightarrow> str list" where
  "split_ws_from acc [] = (if acc = [] then [] else [rev acc])"
| "split_ws_from acc (c # cs) =
     (if is_space c then (if acc = [] then split_ws_from [] cs else rev acc # split_ws_from [] cs)
      else split_ws_from (c # acc) cs)"

definition split_ws :: "str \<Rightarrow> str list" where
  "split_ws s = split_ws_from [] s"

lemma concat_split_ws_from:
  "\<forall>c\<in>set acc. \<not> is_space c \<Longrightarrow>
   concat (split_ws_from acc s) = rev acc @ filter (\<lambda>c. \<not> is_space c) s"
  by (induction acc s rule: split_ws_from.induct) auto

lemma concat_split_ws: "concat (split_ws s) = filter (\<lambda>c. \<not> is_space c) s"
  by (simp add: split_ws_def concat_split_ws_from)

text \<open>\<^verbatim>\<open>text.replace(a, b)\<close> for one character \<open>a\<close> and one character \<open>b\<close>.\<close>

definition replace_char :: "nat \<Rightarrow> nat \<Rightarrow> str \<Rightarrow> str" where
  "replace_char a b s = map (\<lambda>c. if c = a then b else c) s"

section \<open>The Unicode database\<close>

text \<open>
  What \<^verbatim>\<open>str\<close>, \<^verbatim>\<open>re\<close> and \<^verbatim>\<open>unicodedata\<close> know of a code point: full case
  mappings, NFC, word characters and decimal digits, equality under \<^verbatim>\<open>IGNORECASE\<close>, general
  category, bidirectional class and name.
\<close>

record unicode_db =
  uc_upper :: "nat \<Rightarrow> str"
  uc_lower :: "nat \<Rightarrow> str"
  uc_fold :: "nat \<Rightarrow> str"
  uc_nfc :: "str \<Rightarrow> str"
  uc_word :: "nat \<Rightarrow> bool"
  uc_digit :: "nat \<Rightarrow> bool"
  uc_same_case :: "nat \<Rightarrow> nat \<Rightarrow> bool"
  uc_category :: "nat \<Rightarrow> str"
  uc_bidi :: "nat \<Rightarrow> str"
  uc_name :: "nat \<Rightarrow> str option"

definition upper :: "unicode_db \<Rightarrow> str \<Rightarrow> str" where
  "upper U s = concat (map (uc_upper U) s)"

definition lower :: "unicode_db \<Rightarrow> str \<Rightarrow> str" where
  "lower U s = concat (map (uc_lower U) s)"

definition casefold :: "unicode_db \<Rightarrow> str \<Rightarrow> str" where
  "casefold U s = concat (map (uc_fold U) s)"

text \<open>The database restricted to ASCII, for concrete runs.\<close>

definition ascii_db :: unicode_db where
  "ascii_db = \<lparr>uc_upper = (\<lambda>c. [if 97 \<le> c \<and> c \<le> 122 then c - 32 else c]),
               uc_lower = (\<lambda>c. [if 65 \<le> c \<and> c \<le> 90 then c + 32 else c]),
               uc_fold = (\<lambda>c. [if 65 \<le> c \<and> c \<le> 90 then c + 32 else c]),
               uc_nfc = (\<lambda>s. s),
               uc_word = (\<lambda>c. (48 \<le> c \<and> c \<le> 57) \<or> (65 \<le> c \<and> c \<le> 90) \<or> c = 95 \<or> (97 \<le> c \<and> c \<le> 122)),
               uc_digit = (\<lambda>c. 48 \<le> c \<and> c \<le> 57),
               uc_same_case = (\<lambda>c d. (if 65 \<le> c \<and> c \<le> 90 then c + 32 else c) = (if 65 \<le> d \<and> d \<le> 90 then d + 32 else d)),
               uc_category = (\<lambda>c. if c < 32 \<or> c = 127 then u ''Cc'' else u ''Lo''),
               uc_bidi = (\<lambda>c. if c < 9 then u ''BN'' else u ''L''),
               uc_name = (\<lambda>c. None)\<rparr>"

text \<open>\<^verbatim>\<open>f"{n:04X}"\<close>.\<close>

fun hex_digits :: "nat \<Rightarrow> str" where
  "hex_digits n = (if n < 16 then [] else hex_digits (n div 16)) @ [if n mod 16 < 10 then 48 + n mod 16 else 55 + n mod 16]"

declare hex_digits.simps [simp del]

definition hex4 :: "nat \<Rightarrow> str" where
  "hex4 n = (let h = hex_digits n in replicate (4 - length h) 48 @ h)"

end
