(* ===== verification/Errors.thy ===== *)
theory Errors
  imports Prelude
begin

text \<open>
  The exception classes of \<^verbatim>\<open>src/indexguard/errors.py\<close> and the Python exceptions the
  modelled code raises or catches, with their wire codes and HTTP status, and the
  error-and-state monad the stateful components are written in.  An operation takes the state
  and returns a result (\<open>Inl\<close> for the raised exception) with the new state: an exception does
  not undo the writes made before it, exactly as in Python; where the code opens a database
  transaction and rolls it back, the operation itself restores the old state.
\<close>

section \<open>Exceptions\<close>

datatype err =
    IndexGuardError bool
  | UnsupportedFormatError
  | UnsupportedLegacyHwpError
  | FormatMismatchError
  | FileTooLargeError
  | UnsafeArchiveError
  | EncryptedDocumentError
  | MalformedDocumentError
  | IntegrityError
  | AnalysisNotFoundError
  | IndexDeniedError
  | StaleBaselineError
  | AuthenticationError
  | ServiceConfigurationError
  | WorkflowConflictError
  | ExternalServiceError bool
  | ValueError
  | ValidationError
  | TypeError
  | KeyError
  | RuntimeError
  | OSError
  | FileNotFoundError
  | AssertionError
  | ScanStateError
  | FileChangedDuringScanError
  | GitWatcherError
  | OtherError str

text \<open>The \<^verbatim>\<open>code\<close> and \<^verbatim>\<open>status_code\<close> class attributes, inherited where a class sets none.\<close>

fun error_code :: "err \<Rightarrow> str option" where
  "error_code (IndexGuardError _) = Some (u ''INDEXGUARD_ERROR'')"
| "error_code UnsupportedFormatError = Some (u ''UNSUPPORTED_FORMAT'')"
| "error_code UnsupportedLegacyHwpError = Some (u ''UNSUPPORTED_LEGACY_HWP'')"
| "error_code FormatMismatchError = Some (u ''FORMAT_MISMATCH'')"
| "error_code FileTooLargeError = Some (u ''FILE_TOO_LARGE'')"
| "error_code UnsafeArchiveError = Some (u ''MALFORMED_ARCHIVE'')"
| "error_code EncryptedDocumentError = Some (u ''ENCRYPTED_DOCUMENT'')"
| "error_code MalformedDocumentError = Some (u ''MALFORMED_DOCUMENT'')"
| "error_code IntegrityError = Some (u ''INTEGRITY_MISMATCH'')"
| "error_code AnalysisNotFoundError = Some (u ''ANALYSIS_NOT_FOUND'')"
| "error_code IndexDeniedError = Some (u ''INDEX_DENIED'')"
| "error_code StaleBaselineError = Some (u ''STALE_BASELINE_VERSION'')"
| "error_code AuthenticationError = Some (u ''AUTHENTICATION_FAILED'')"
| "error_code ServiceConfigurationError = Some (u ''SERVICE_NOT_CONFIGURED'')"
| "error_code WorkflowConflictError = Some (u ''WORKFLOW_CONFLICT'')"
| "error_code (ExternalServiceError _) = Some (u ''RISK_SERVICE_ERROR'')"
| "error_code _ = None"

fun status_code :: "err \<Rightarrow> nat option" where
  "status_code IntegrityError = Some 409"
| "status_code AnalysisNotFoundError = Some 404"
| "status_code IndexDeniedError = Some 409"
| "status_code StaleBaselineError = Some 409"
| "status_code AuthenticationError = Some 401"
| "status_code ServiceConfigurationError = Some 503"
| "status_code WorkflowConflictError = Some 409"
| "status_code (ExternalServiceError _) = Some 502"
| "status_code e = (if error_code e = None then None else Some 422)"

text \<open>\<^verbatim>\<open>exc.retryable\<close>: false unless the raise site asks for it.\<close>

fun retryable :: "err \<Rightarrow> bool" where
  "retryable (IndexGuardError r) = r"
| "retryable (ExternalServiceError r) = r"
| "retryable _ = False"

text \<open>\<^verbatim>\<open>type(exc).__name__\<close>.\<close>

fun exn_name :: "err \<Rightarrow> str" where
  "exn_name (IndexGuardError _) = u ''IndexGuardError''"
| "exn_name UnsupportedFormatError = u ''UnsupportedFormatError''"
| "exn_name UnsupportedLegacyHwpError = u ''UnsupportedLegacyHwpError''"
| "exn_name FormatMismatchError = u ''FormatMismatchError''"
| "exn_name FileTooLargeError = u ''FileTooLargeError''"
| "exn_name UnsafeArchiveError = u ''UnsafeArchiveError''"
| "exn_name EncryptedDocumentError = u ''EncryptedDocumentError''"
| "exn_name MalformedDocumentError = u ''MalformedDocumentError''"
| "exn_name IntegrityError = u ''IntegrityError''"
| "exn_name AnalysisNotFoundError = u ''AnalysisNotFoundError''"
| "exn_name IndexDeniedError = u ''IndexDeniedError''"
| "exn_name StaleBaselineError = u ''StaleBaselineError''"
| "exn_name AuthenticationError = u ''AuthenticationError''"
| "exn_name ServiceConfigurationError = u ''ServiceConfigurationError''"
| "exn_name WorkflowConflictError = u ''WorkflowConflictError''"
| "exn_name (ExternalServiceError _) = u ''ExternalServiceError''"
| "exn_name ValueError = u ''ValueError''"
| "exn_name ValidationError = u ''ValidationError''"
| "exn_name TypeError = u ''TypeError''"
| "exn_name KeyError = u ''KeyError''"
| "exn_name RuntimeError = u ''RuntimeError''"
| "exn_name OSError = u ''OSError''"
| "exn_name FileNotFoundError = u ''FileNotFoundError''"
| "exn_name AssertionError = u ''AssertionError''"
| "exn_name ScanStateError = u ''ScanStateError''"
| "exn_name FileChangedDuringScanError = u ''FileChangedDuringScanError''"
| "exn_name GitWatcherError = u ''GitWatcherError''"
| "exn_name (OtherError n) = n"

text \<open>The classes below \<^verbatim>\<open>IndexGuardError\<close> are exactly those with a wire code.\<close>

definition is_indexguard_error :: "err \<Rightarrow> bool" where
  "is_indexguard_error e \<longleftrightarrow> error_code e \<noteq> None"

lemma status_code_Some_iff: "status_code e \<noteq> None \<longleftrightarrow> is_indexguard_error e"
  by (cases e) (auto simp: is_indexguard_error_def)

text \<open>\<^verbatim>\<open>except OSError\<close>: the class and its subclasses.\<close>

fun is_os_error :: "err \<Rightarrow> bool" where
  "is_os_error OSError = True"
| "is_os_error FileNotFoundError = True"
| "is_os_error FileChangedDuringScanError = True"
| "is_os_error _ = False"

section \<open>The error-and-state monad\<close>

type_synonym 'a res = "err + 'a"
type_synonym ('s, 'a) op = "'s \<Rightarrow> 'a res \<times> 's"

definition retE :: "'a \<Rightarrow> ('s, 'a) op" where
  "retE x s = (Inr x, s)"

definition raiseE :: "err \<Rightarrow> ('s, 'a) op" where
  "raiseE e s = (Inl e, s)"

definition bindE :: "('s, 'a) op \<Rightarrow> ('a \<Rightarrow> ('s, 'b) op) \<Rightarrow> ('s, 'b) op" where
  "bindE m f s = (case m s of (Inl e, t) \<Rightarrow> (Inl e, t) | (Inr x, t) \<Rightarrow> f x t)"

text \<open>\<^verbatim>\<open>try: x = m() except E as e: h(e) else: f(x)\<close>; \<open>h\<close> re-raises what it does not handle.\<close>

definition tryE :: "('s, 'a) op \<Rightarrow> (err \<Rightarrow> ('s, 'b) op) \<Rightarrow> ('a \<Rightarrow> ('s, 'b) op) \<Rightarrow> ('s, 'b) op" where
  "tryE m h f s = (case m s of (Inl e, t) \<Rightarrow> h e t | (Inr x, t) \<Rightarrow> f x t)"

definition whenE :: "bool \<Rightarrow> err \<Rightarrow> ('s, 'a) op \<Rightarrow> ('s, 'a) op" where
  "whenE b e m = (if b then raiseE e else m)"

definition liftE :: "'a res \<Rightarrow> ('s, 'a) op" where
  "liftE r s = (r, s)"

definition readE :: "('s \<Rightarrow> 'a) \<Rightarrow> ('s, 'a) op" where
  "readE f s = (Inr (f s), s)"

lemmas monad_defs = retE_def raiseE_def bindE_def tryE_def whenE_def liftE_def readE_def
declare monad_defs [op_defs]

lemma bindE_Inr_iff:
  "bindE m f s = (Inr y, t) \<longleftrightarrow> (\<exists>x s1. m s = (Inr x, s1) \<and> f x s1 = (Inr y, t))"
  by (auto simp: bindE_def split: prod.splits sum.splits)

lemma bindE_Inl_iff:
  "bindE m f s = (Inl e, t) \<longleftrightarrow> m s = (Inl e, t) \<or> (\<exists>x s1. m s = (Inr x, s1) \<and> f x s1 = (Inl e, t))"
  by (auto simp: bindE_def split: prod.splits sum.splits)

lemma bindE_Inr_simp [simp]: "m s = (Inr x, s1) \<Longrightarrow> bindE m f s = f x s1"
  by (simp add: bindE_def)

lemma bindE_Inl_simp [simp]: "m s = (Inl e, s1) \<Longrightarrow> bindE m f s = (Inl e, s1)"
  by (simp add: bindE_def)

lemma tryE_Inr_simp [simp]: "m s = (Inr x, s1) \<Longrightarrow> tryE m h f s = f x s1"
  by (simp add: tryE_def)

lemma tryE_Inl_simp [simp]: "m s = (Inl e, s1) \<Longrightarrow> tryE m h f s = h e s1"
  by (simp add: tryE_def)

lemma retE_iff [simp]: "retE x s = (r, t) \<longleftrightarrow> r = Inr x \<and> t = s"
  by (auto simp: retE_def)

lemma raiseE_iff [simp]: "raiseE e s = (r, t) \<longleftrightarrow> r = Inl e \<and> t = s"
  by (auto simp: raiseE_def)

lemma liftE_iff [simp]: "liftE x s = (r, t) \<longleftrightarrow> r = x \<and> t = s"
  by (auto simp: liftE_def)

lemma readE_iff [simp]: "readE f s = (r, t) \<longleftrightarrow> r = Inr (f s) \<and> t = s"
  by (auto simp: readE_def)

lemma whenE_simps [simp]: "whenE True e m = raiseE e" "whenE False e m = m"
  by (simp_all add: whenE_def)

lemma whenE_Inr_iff: "whenE b e m s = (Inr y, t) \<longleftrightarrow> \<not> b \<and> m s = (Inr y, t)"
  by (simp add: whenE_def)

section \<open>Preorders kept by an operation\<close>

text \<open>
  \<open>steps R m\<close>: whatever \<open>m\<close> returns or raises, the state after it is related by \<open>R\<close> to the
  state before.  For a preorder \<open>R\<close> (log growth, an invariant implication, an untouched
  component) it composes through every combinator, so a handler's effect is a syntactic
  consequence of the effects of the operations it calls.
\<close>

definition steps :: "('s \<Rightarrow> 's \<Rightarrow> bool) \<Rightarrow> ('s, 'a) op \<Rightarrow> bool" where
  "steps R m \<longleftrightarrow> (\<forall>s. R s (snd (m s)))"

definition preorderR :: "('s \<Rightarrow> 's \<Rightarrow> bool) \<Rightarrow> bool" where
  "preorderR R \<longleftrightarrow> reflp R \<and> transp R"

lemma stepsD: "steps R m \<Longrightarrow> m s = (r, t) \<Longrightarrow> R s t"
  unfolding steps_def by (metis snd_conv)

lemma stepsI: "(\<And>s r t. m s = (r, t) \<Longrightarrow> R s t) \<Longrightarrow> steps R m"
  unfolding steps_def by (metis prod.collapse)

lemma preorderRI: "(\<And>s. R s s) \<Longrightarrow> (\<And>s t v. R s t \<Longrightarrow> R t v \<Longrightarrow> R s v) \<Longrightarrow> preorderR R"
  unfolding preorderR_def by (auto intro: reflpI transpI)

lemma preorderR_refl: "preorderR R \<Longrightarrow> R s s"
  unfolding preorderR_def by (auto dest: reflpD)

lemma preorderR_trans: "preorderR R \<Longrightarrow> R s t \<Longrightarrow> R t v \<Longrightarrow> R s v"
  unfolding preorderR_def by (auto dest: transpD)

lemma preorderR_keeps: "preorderR (\<lambda>s t. P s \<longrightarrow> P t)"
  by (rule preorderRI) auto

lemma preorderR_field: "preorderR (\<lambda>s t. f t = f s)"
  by (rule preorderRI) auto

lemma steps_retE [step_rules]: "preorderR R \<Longrightarrow> steps R (retE x)"
  by (rule stepsI) (auto intro: preorderR_refl)

lemma steps_raiseE [step_rules]: "preorderR R \<Longrightarrow> steps R (raiseE e)"
  by (rule stepsI) (auto intro: preorderR_refl)

lemma steps_liftE [step_rules]: "preorderR R \<Longrightarrow> steps R (liftE r)"
  by (rule stepsI) (auto intro: preorderR_refl)

lemma steps_readE [step_rules]: "preorderR R \<Longrightarrow> steps R (readE f)"
  by (rule stepsI) (auto intro: preorderR_refl)

lemma steps_bindE [step_rules]:
  assumes "preorderR R" and "steps R m" and "\<And>x. steps R (f x)"
  shows "steps R (bindE m f)"
proof (rule stepsI)
  fix s r t
  assume run: "bindE m f s = (r, t)"
  obtain q s1 where m: "m s = (q, s1)" by (cases "m s")
  with assms(2) have 1: "R s s1" by (rule stepsD)
  show "R s t"
  proof (cases q)
    case (Inl e)
    with run m 1 show ?thesis by simp
  next
    case (Inr x)
    with run m have "f x s1 = (r, t)" by simp
    with assms(3) have "R s1 t" by (rule stepsD)
    with 1 show ?thesis by (rule preorderR_trans [OF assms(1)])
  qed
qed

lemma steps_tryE [step_rules]:
  assumes "preorderR R" and "steps R m" and "\<And>e. steps R (h e)" and "\<And>x. steps R (f x)"
  shows "steps R (tryE m h f)"
proof (rule stepsI)
  fix s r t
  assume run: "tryE m h f s = (r, t)"
  obtain q s1 where m: "m s = (q, s1)" by (cases "m s")
  with assms(2) have 1: "R s s1" by (rule stepsD)
  show "R s t"
  proof (cases q)
    case (Inl e)
    with run m have "h e s1 = (r, t)" by simp
    with assms(3) have "R s1 t" by (rule stepsD)
    with 1 show ?thesis by (rule preorderR_trans [OF assms(1)])
  next
    case (Inr x)
    with run m have "f x s1 = (r, t)" by simp
    with assms(4) have "R s1 t" by (rule stepsD)
    with 1 show ?thesis by (rule preorderR_trans [OF assms(1)])
  qed
qed

lemma steps_whenE [step_rules]: "preorderR R \<Longrightarrow> steps R m \<Longrightarrow> steps R (whenE b e m)"
  by (cases b) (auto intro: steps_raiseE)

lemma steps_if [step_rules]: "steps R m \<Longrightarrow> steps R n \<Longrightarrow> steps R (if b then m else n)"
  by simp

lemma steps_case_option [step_rules]:
  "steps R m \<Longrightarrow> (\<And>x. steps R (f x)) \<Longrightarrow> steps R (case v of None \<Rightarrow> m | Some x \<Rightarrow> f x)"
  by (cases v) auto

lemma steps_case_sum [step_rules]:
  "(\<And>x. steps R (f x)) \<Longrightarrow> (\<And>y. steps R (g y)) \<Longrightarrow> steps R (case v of Inl x \<Rightarrow> f x | Inr y \<Rightarrow> g y)"
  by (cases v) auto

lemma steps_case_prod [step_rules]:
  "(\<And>x y. steps R (f x y)) \<Longrightarrow> steps R (case v of (x, y) \<Rightarrow> f x y)"
  by (cases v) auto

lemma steps_Let [step_rules]: "steps R (f x) \<Longrightarrow> steps R (let y = x in f y)"
  by simp

text \<open>Running an operation on one component of a larger state.\<close>

text \<open>A \<^verbatim>\<open>for\<close> loop.\<close>

primrec forE :: "('a \<Rightarrow> ('s, unit) op) \<Rightarrow> 'a list \<Rightarrow> ('s, unit) op" where
  "forE f [] = retE ()"
| "forE f (x # xs) = bindE (f x) (\<lambda>_. forE f xs)"

lemma steps_forE [step_rules]: "preorderR R \<Longrightarrow> (\<And>x. steps R (f x)) \<Longrightarrow> steps R (forE f xs)"
  by (induction xs) (auto intro: steps_retE steps_bindE)

definition onE :: "('s \<Rightarrow> 'c) \<Rightarrow> ('c \<Rightarrow> 's \<Rightarrow> 's) \<Rightarrow> ('c, 'a) op \<Rightarrow> ('s, 'a) op" where
  "onE get put m s = (case m (get s) of (r, c) \<Rightarrow> (r, put c s))"

lemma onE_eq: "m (get s) = (r, c) \<Longrightarrow> onE get put m s = (r, put c s)"
  by (simp add: onE_def)

lemma onE_run: "onE get put m s = (r, t) \<longleftrightarrow> (\<exists>c. m (get s) = (r, c) \<and> t = put c s)"
  by (auto simp: onE_def split: prod.splits)

section \<open>What a returning operation keeps\<close>

text \<open>
  \<open>yields I P m\<close>: from a state with \<open>I\<close>, whenever \<open>m\<close> returns, the state after it has \<open>I\<close> and the value has \<open>P\<close>;
  nothing is said of a raise.
\<close>

definition yields :: "('s \<Rightarrow> bool) \<Rightarrow> ('a \<Rightarrow> bool) \<Rightarrow> ('s, 'a) op \<Rightarrow> bool" where
  "yields I P m \<longleftrightarrow> (\<forall>s x t. I s \<longrightarrow> m s = (Inr x, t) \<longrightarrow> I t \<and> P x)"

named_theorems yields_rules \<open>rules for what a returning operation keeps\<close>

lemma yieldsI: "(\<And>s x t. I s \<Longrightarrow> m s = (Inr x, t) \<Longrightarrow> I t \<and> P x) \<Longrightarrow> yields I P m"
  unfolding yields_def by blast

lemma yieldsD: "yields I P m \<Longrightarrow> I s \<Longrightarrow> m s = (Inr x, t) \<Longrightarrow> I t \<and> P x"
  unfolding yields_def by blast

lemma yields_ret [yields_rules]: "P x \<Longrightarrow> yields I P (retE x)"
  by (rule yieldsI) simp

lemma yields_raise [yields_rules]: "yields I P (raiseE e)"
  by (rule yieldsI) simp

lemma yields_read [yields_rules]: "(\<And>s. I s \<Longrightarrow> P (f s)) \<Longrightarrow> yields I P (readE f)"
  by (rule yieldsI) auto

lemma yields_lift [yields_rules]: "(\<And>x. r = Inr x \<Longrightarrow> P x) \<Longrightarrow> yields I P (liftE r)"
  by (rule yieldsI) auto

lemma yields_bind [yields_rules]:
  assumes "yields I P m" "\<And>x. P x \<Longrightarrow> yields I Q (f x)"
  shows "yields I Q (bindE m f)"
proof (rule yieldsI)
  fix s y t
  assume i: "I s" and "bindE m f s = (Inr y, t)"
  then obtain x s1 where m: "m s = (Inr x, s1)" and f: "f x s1 = (Inr y, t)"
    unfolding bindE_Inr_iff by blast
  from yieldsD[OF assms(1) i m] have "I s1" "P x" by simp_all
  with yieldsD[OF assms(2)] f show "I t \<and> Q y" by blast
qed

lemma yields_if [yields_rules]: "(b \<Longrightarrow> yields I P m) \<Longrightarrow> (\<not> b \<Longrightarrow> yields I P n) \<Longrightarrow> yields I P (if b then m else n)"
  by simp

lemma yields_option [yields_rules]:
  "(v = None \<Longrightarrow> yields I P m) \<Longrightarrow> (\<And>x. v = Some x \<Longrightarrow> yields I P (f x)) \<Longrightarrow>
   yields I P (case v of None \<Rightarrow> m | Some x \<Rightarrow> f x)"
  by (cases v) auto

lemma yields_for [yields_rules]:
  "(\<And>x. x \<in> set xs \<Longrightarrow> yields I (\<lambda>_. True) (f x)) \<Longrightarrow> yields I (\<lambda>_. True) (forE f xs)"
proof (induction xs)
  case (Cons x xs)
  then show ?case by (auto intro: yields_bind[where P = "\<lambda>_. True"])
qed (simp add: yields_ret)

lemma yields_weaken: "yields I P m \<Longrightarrow> (\<And>x. P x \<Longrightarrow> Q x) \<Longrightarrow> yields I Q m"
  unfolding yields_def by blast

text \<open>Functions that may raise and keep no state.\<close>

definition bindR :: "'a res \<Rightarrow> ('a \<Rightarrow> 'b res) \<Rightarrow> 'b res" where
  "bindR r f = (case r of Inl e \<Rightarrow> Inl e | Inr x \<Rightarrow> f x)"

lemma bindR_Inr_iff: "bindR r f = Inr y \<longleftrightarrow> (\<exists>x. r = Inr x \<and> f x = Inr y)"
  by (auto simp: bindR_def split: sum.splits)

section \<open>Weakest preconditions\<close>

text \<open>
  \<open>wp m Q s\<close>: running \<open>m\<close> from \<open>s\<close> ends with a result and a state that satisfy \<open>Q\<close>.  The
  equations of \<open>wp_simps\<close> execute a handler symbolically; a call is replaced by its
  specification with \<open>wp_conseq\<close>.
\<close>

named_theorems wp_simps \<open>symbolic execution of operations\<close>

definition wp :: "('s, 'a) op \<Rightarrow> ('a res \<Rightarrow> 's \<Rightarrow> bool) \<Rightarrow> 's \<Rightarrow> bool" where
  "wp m Q s \<longleftrightarrow> Q (fst (m s)) (snd (m s))"

lemma wpI: "(\<And>r t. m s = (r, t) \<Longrightarrow> Q r t) \<Longrightarrow> wp m Q s"
  unfolding wp_def by (metis prod.collapse)

lemma wpD: "wp m Q s \<Longrightarrow> m s = (r, t) \<Longrightarrow> Q r t"
  by (simp add: wp_def)

lemma wp_conseq: "wp m P s \<Longrightarrow> (\<And>r t. P r t \<Longrightarrow> Q r t) \<Longrightarrow> wp m Q s"
  by (simp add: wp_def)

lemma wp_conj: "wp m P s \<Longrightarrow> wp m Q s \<Longrightarrow> wp m (\<lambda>r t. P r t \<and> Q r t) s"
  by (simp add: wp_def)

lemma wp_retE [wp_simps]: "wp (retE x) Q s = Q (Inr x) s"
  by (simp add: wp_def retE_def)

lemma wp_raiseE [wp_simps]: "wp (raiseE e) Q s = Q (Inl e) s"
  by (simp add: wp_def raiseE_def)

lemma wp_liftE [wp_simps]: "wp (liftE r) Q s = Q r s"
  by (simp add: wp_def liftE_def)

lemma wp_bindE [wp_simps]:
  "wp (bindE m f) Q s = wp m (\<lambda>r t. case r of Inl e \<Rightarrow> Q (Inl e) t | Inr x \<Rightarrow> wp (f x) Q t) s"
  by (simp add: wp_def bindE_def split: prod.splits sum.splits)

lemma wp_tryE [wp_simps]:
  "wp (tryE m h f) Q s = wp m (\<lambda>r t. case r of Inl e \<Rightarrow> wp (h e) Q t | Inr x \<Rightarrow> wp (f x) Q t) s"
  by (simp add: wp_def tryE_def split: prod.splits sum.splits)

lemma wp_whenE [wp_simps]: "wp (whenE b e m) Q s = (if b then Q (Inl e) s else wp m Q s)"
  by (simp add: wp_def raiseE_def)

lemma wp_if [wp_simps]: "wp (if b then m else n) Q s = (if b then wp m Q s else wp n Q s)"
  by simp

lemma wp_onE [wp_simps]: "wp (onE get put m) Q s = wp m (\<lambda>r c. Q r (put c s)) (get s)"
  by (simp add: wp_def onE_def split: prod.splits)

lemma wp_steps: "steps R m \<Longrightarrow> wp m (\<lambda>r t. R s t) s"
  by (simp add: wp_def steps_def)

lemma steps_wp: "(\<And>s. wp m (\<lambda>r t. R s t) s) \<Longrightarrow> steps R m"
  by (simp add: wp_def steps_def)

end
