(* ===== verification/Json.thy ===== *)
theory Json
  imports Errors
begin

text \<open>
  JSON values and the two functions of Python's \<^verbatim>\<open>json\<close> module the gateway relies on:
  \<^verbatim>\<open>canonical_json\<close> of \<^verbatim>\<open>src/indexguard/integrity.py\<close>
  (\<^verbatim>\<open>dumps\<close> with sorted keys, compact separators and no ASCII escaping), whose text is
  hashed and stored, and \<^verbatim>\<open>json.loads\<close>, which reads the stored text back.  A dict is
  an association list in insertion order; a float is carried as the text \<^verbatim>\<open>repr\<close> gives
  it, since nothing modelled here computes with a float it has read from JSON.  The section's
  result is the round trip: reading canonical text gives the value back with its keys sorted.
\<close>

section \<open>Values\<close>

datatype json =
    JNull
  | JBool bool
  | JInt int
  | JFloat str
  | JStr str
  | JArr "json list"
  | JObj "(str \<times> json) list"

text \<open>\<^verbatim>\<open>value.get(key)\<close> on a value that may not be a dict.\<close>

fun jget :: "str \<Rightarrow> json \<Rightarrow> json option" where
  "jget k (JObj kvs) = map_of kvs k"
| "jget k _ = None"

text \<open>\<^verbatim>\<open>sort_keys=True\<close>, applied at every level.\<close>

primrec normalise :: "json \<Rightarrow> json" where
  "normalise JNull = JNull"
| "normalise (JBool b) = JBool b"
| "normalise (JInt i) = JInt i"
| "normalise (JFloat t) = JFloat t"
| "normalise (JStr t) = JStr t"
| "normalise (JArr xs) = JArr (map normalise xs)"
| "normalise (JObj kvs) = JObj (sort_key fst (map (map_prod id normalise) kvs))"

lemma map_of_sort_key: "distinct (map fst kvs) \<Longrightarrow> map_of (sort_key fst kvs) = map_of kvs"
  by (rule map_of_eqI) (auto simp: distinct_map sort_key_def distinct_insort_key image_iff
      intro!: map_of_inject_set[THEN iffD2] dest: map_of_SomeD simp flip: sort_key_def)

lemma map_of_map_prod_id: "map_of (map (map_prod id f) kvs) = map_option f \<circ> map_of kvs"
  by (induction kvs) (auto simp: fun_eq_iff)

lemma fst_map_prod_id: "map fst (map (map_prod id f) kvs) = map fst kvs"
  by (induction kvs) auto

text \<open>Reading a key from a normalised dict gives the normalised entry.\<close>

lemma jget_normalise:
  "distinct (map fst kvs) \<Longrightarrow> jget k (normalise (JObj kvs)) = map_option normalise (map_of kvs k)"
  by (simp add: map_of_sort_key fst_map_prod_id map_of_map_prod_id)

section \<open>Writing\<close>

definition show_digit :: "nat \<Rightarrow> nat" where
  "show_digit d = 48 + d"

fun show_nat :: "nat \<Rightarrow> str" where
  "show_nat n = (if n < 10 then [show_digit n] else show_nat (n div 10) @ [show_digit (n mod 10)])"

declare show_nat.simps [simp del]

definition show_int :: "int \<Rightarrow> str" where
  "show_int i = (if i < 0 then 45 # show_nat (nat (- i)) else show_nat (nat i))"

definition hex_digit :: "nat \<Rightarrow> nat" where
  "hex_digit d = (if d < 10 then 48 + d else 87 + d)"

text \<open>The escapes of \<^verbatim>\<open>ensure_ascii=False\<close>: quote, backslash and the C0 controls only.\<close>

definition escape_char :: "nat \<Rightarrow> str" where
  "escape_char c =
     (if c = 34 then [92, 34] else if c = 92 then [92, 92]
      else if c = 10 then [92, 110] else if c = 13 then [92, 114] else if c = 9 then [92, 116]
      else if c = 12 then [92, 102] else if c = 8 then [92, 98]
      else if c < 32 then [92, 117, 48, 48, hex_digit (c div 16), hex_digit (c mod 16)]
      else [c])"

definition quote :: "str \<Rightarrow> str" where
  "quote s = 34 # concat (map escape_char s) @ [34]"

primrec write_json :: "json \<Rightarrow> str" where
  "write_json JNull = u ''null''"
| "write_json (JBool b) = (if b then u ''true'' else u ''false'')"
| "write_json (JInt i) = show_int i"
| "write_json (JFloat t) = t"
| "write_json (JStr t) = quote t"
| "write_json (JArr xs) = 91 # join [44] (map write_json xs) @ [93]"
| "write_json (JObj kvs) =
     123 # join [44] (map (\<lambda>(k, t). quote k @ 58 # t) (map (map_prod id write_json) kvs)) @ [125]"

definition canonical_json :: "json \<Rightarrow> str" where
  "canonical_json j = write_json (normalise j)"

section \<open>Reading\<close>

definition is_digit :: "nat \<Rightarrow> bool" where
  "is_digit c \<longleftrightarrow> 48 \<le> c \<and> c \<le> 57"

definition nat_of_digits :: "str \<Rightarrow> nat" where
  "nat_of_digits ds = foldl (\<lambda>n d. 10 * n + (d - 48)) 0 ds"

definition scan_int :: "str \<Rightarrow> (str \<times> str) option" where
  "scan_int s =
     (if s = [] \<or> \<not> is_digit (hd s) then None
      else if hd s = 48 then Some ([48], tl s)
      else Some (takeWhile is_digit s, dropWhile is_digit s))"

definition scan_frac :: "str \<Rightarrow> str \<times> str" where
  "scan_frac s =
     (if s \<noteq> [] \<and> hd s = 46 \<and> tl s \<noteq> [] \<and> is_digit (hd (tl s))
      then (46 # takeWhile is_digit (tl s), dropWhile is_digit (tl s)) else ([], s))"

definition scan_sign :: "str \<Rightarrow> str \<times> str" where
  "scan_sign s = (if s \<noteq> [] \<and> (hd s = 43 \<or> hd s = 45) then ([hd s], tl s) else ([], s))"

definition scan_exp :: "str \<Rightarrow> str \<times> str" where
  "scan_exp s =
     (if s \<noteq> [] \<and> (hd s = 101 \<or> hd s = 69)
      then (case scan_sign (tl s) of (sg, ds) \<Rightarrow>
              if ds \<noteq> [] \<and> is_digit (hd ds)
              then (hd s # sg @ takeWhile is_digit ds, dropWhile is_digit ds) else ([], s))
      else ([], s))"

definition scan_number :: "str \<Rightarrow> (json \<times> str) option" where
  "scan_number s =
     (let neg = (s \<noteq> [] \<and> hd s = 45); body = (if neg then tl s else s) in
      case scan_int body of
        None \<Rightarrow> None
      | Some (ip, r1) \<Rightarrow>
          (case scan_frac r1 of (fp, r2) \<Rightarrow>
           (case scan_exp r2 of (ep, r3) \<Rightarrow>
              Some (if fp = [] \<and> ep = []
                    then JInt ((if neg then -1 else 1) * int (nat_of_digits ip))
                    else JFloat ((if neg then [45] else []) @ ip @ fp @ ep), r3))))"

definition hex_value :: "nat \<Rightarrow> nat option" where
  "hex_value c =
     (if 48 \<le> c \<and> c \<le> 57 then Some (c - 48)
      else if 97 \<le> c \<and> c \<le> 102 then Some (c - 87)
      else if 65 \<le> c \<and> c \<le> 70 then Some (c - 55) else None)"

fun scan_hex4 :: "str \<Rightarrow> (nat \<times> str) option" where
  "scan_hex4 (a # b # c # d # r) =
     (case (hex_value a, hex_value b, hex_value c, hex_value d) of
        (Some w, Some x, Some y, Some z) \<Rightarrow> Some (4096 * w + 256 * x + 16 * y + z, r)
      | _ \<Rightarrow> None)"
| "scan_hex4 _ = None"

lemma scan_hex4_length [termination_simp]: "scan_hex4 s = Some (n, r) \<Longrightarrow> length r < length s"
  by (induction s rule: scan_hex4.induct) (auto split: option.splits)

text \<open>A \<^verbatim>\<open>\u\<close> escape; a high surrogate joins a low surrogate that follows it.\<close>

definition scan_unicode :: "str \<Rightarrow> (nat \<times> str) option" where
  "scan_unicode s =
     (case scan_hex4 s of
        None \<Rightarrow> None
      | Some (n, r) \<Rightarrow>
          if 55296 \<le> n \<and> n \<le> 56319 \<and> prefixes_str [92, 117] r
          then (case scan_hex4 (drop 2 r) of
                  None \<Rightarrow> None
                | Some (m, r2) \<Rightarrow>
                    if 56320 \<le> m \<and> m \<le> 57343
                    then Some (65536 + 1024 * (n - 55296) + (m - 56320), r2) else Some (n, r))
          else Some (n, r))"

lemma scan_unicode_length [termination_simp]:
  "scan_unicode s = Some (n, r) \<Longrightarrow> length r < length s"
  unfolding scan_unicode_def
  by (auto split: option.splits if_splits dest!: scan_hex4_length)

definition simple_escape :: "nat \<Rightarrow> nat option" where
  "simple_escape c =
     (if c = 34 then Some 34 else if c = 92 then Some 92 else if c = 47 then Some 47
      else if c = 98 then Some 8 else if c = 102 then Some 12 else if c = 110 then Some 10
      else if c = 114 then Some 13 else if c = 116 then Some 9 else None)"

text \<open>The characters after an opening quote, up to and past the closing one.\<close>

fun scan_string :: "str \<Rightarrow> (str \<times> str) option" where
  "scan_string [] = None"
| "scan_string (c # cs) =
     (if c = 34 then Some ([], cs)
      else if c = 92
      then (case cs of
              [] \<Rightarrow> None
            | e # es \<Rightarrow>
                if e = 117
                then (case scan_unicode es of
                        None \<Rightarrow> None
                      | Some (n, r) \<Rightarrow> map_option (map_prod ((#) n) id) (scan_string r))
                else (case simple_escape e of
                        None \<Rightarrow> None
                      | Some n \<Rightarrow> map_option (map_prod ((#) n) id) (scan_string es)))
      else if c < 32 then None
      else map_option (map_prod ((#) c) id) (scan_string cs))"

definition skip_ws :: "str \<Rightarrow> str" where
  "skip_ws s = dropWhile (\<lambda>c. c = 32 \<or> c = 9 \<or> c = 10 \<or> c = 13) s"

text \<open>\<^verbatim>\<open>dict(pairs)\<close>: a repeated key keeps its first place and its last value.\<close>

fun dict_set :: "str \<Rightarrow> json \<Rightarrow> (str \<times> json) list \<Rightarrow> (str \<times> json) list" where
  "dict_set k v [] = [(k, v)]"
| "dict_set k v ((a, b) # kvs) = (if a = k then (k, v) # kvs else (a, b) # dict_set k v kvs)"

definition dict_of :: "(str \<times> json) list \<Rightarrow> (str \<times> json) list" where
  "dict_of kvs = foldl (\<lambda>d (k, v). dict_set k v d) [] kvs"

definition scan_atom :: "str \<Rightarrow> (json \<times> str) option" where
  "scan_atom s =
     (if prefixes_str (u ''null'') s then Some (JNull, drop 4 s)
      else if prefixes_str (u ''true'') s then Some (JBool True, drop 4 s)
      else if prefixes_str (u ''false'') s then Some (JBool False, drop 5 s)
      else case scan_number s of
             Some r \<Rightarrow> Some r
           | None \<Rightarrow>
               if prefixes_str (u ''NaN'') s then Some (JFloat (u ''NaN''), drop 3 s)
               else if prefixes_str (u ''Infinity'') s then Some (JFloat (u ''Infinity''), drop 8 s)
               else if prefixes_str (u ''-Infinity'') s then Some (JFloat (u ''-Infinity''), drop 9 s)
               else None)"

text \<open>
  The scanner's recursion, with one unit of fuel per call; \<open>json_loads\<close> supplies more fuel
  than the text has characters.
\<close>

fun scan_value :: "nat \<Rightarrow> str \<Rightarrow> (json \<times> str) option"
  and scan_elems :: "nat \<Rightarrow> str \<Rightarrow> (json list \<times> str) option"
  and scan_members :: "nat \<Rightarrow> str \<Rightarrow> ((str \<times> json) list \<times> str) option" where
  "scan_value 0 s = None"
| "scan_value (Suc n) s =
     (case s of
        [] \<Rightarrow> None
      | c # cs \<Rightarrow>
          if c = 34 then map_option (map_prod JStr id) (scan_string cs)
          else if c = 123
          then (case skip_ws cs of
                  [] \<Rightarrow> None
                | d # ds \<Rightarrow> if d = 125 then Some (JObj [], ds)
                            else map_option (map_prod (JObj \<circ> dict_of) id) (scan_members n (d # ds)))
          else if c = 91
          then (case skip_ws cs of
                  [] \<Rightarrow> None
                | d # ds \<Rightarrow> if d = 93 then Some (JArr [], ds)
                            else map_option (map_prod JArr id) (scan_elems n (d # ds)))
          else scan_atom s)"
| "scan_elems 0 s = None"
| "scan_elems (Suc n) s =
     (case scan_value n s of
        None \<Rightarrow> None
      | Some (v, r) \<Rightarrow>
          (case skip_ws r of
             [] \<Rightarrow> None
           | d # ds \<Rightarrow> if d = 93 then Some ([v], ds)
                       else if d = 44
                       then map_option (map_prod ((#) v) id) (scan_elems n (skip_ws ds))
                       else None))"
| "scan_members 0 s = None"
| "scan_members (Suc n) s =
     (case s of
        [] \<Rightarrow> None
      | c # cs \<Rightarrow>
          if c \<noteq> 34 then None
          else (case scan_string cs of
                  None \<Rightarrow> None
                | Some (k, r) \<Rightarrow>
                    (case skip_ws r of
                       [] \<Rightarrow> None
                     | d # ds \<Rightarrow>
                         if d \<noteq> 58 then None
                         else (case scan_value n (skip_ws ds) of
                                 None \<Rightarrow> None
                               | Some (v, r2) \<Rightarrow>
                                   (case skip_ws r2 of
                                      [] \<Rightarrow> None
                                    | e # es \<Rightarrow>
                                        if e = 125 then Some ([(k, v)], es)
                                        else if e = 44
                                        then map_option (map_prod ((#) (k, v)) id)
                                               (scan_members n (skip_ws es))
                                        else None)))))"

definition json_loads :: "str \<Rightarrow> json option" where
  "json_loads s =
     (case scan_value (2 * length s + 2) (skip_ws s) of
        None \<Rightarrow> None
      | Some (j, r) \<Rightarrow> if skip_ws r = [] then Some j else None)"

section \<open>Round trip\<close>

text \<open>The texts \<^verbatim>\<open>repr\<close> gives a float: a number with a fraction or an exponent, or a
  non-finite constant.\<close>

definition float_lexeme :: "str \<Rightarrow> bool" where
  "float_lexeme t \<longleftrightarrow> scan_number t = Some (JFloat t, []) \<or>
     t = u ''NaN'' \<or> t = u ''Infinity'' \<or> t = u ''-Infinity''"

primrec wf_json :: "json \<Rightarrow> bool" where
  "wf_json JNull = True"
| "wf_json (JBool b) = True"
| "wf_json (JInt i) = True"
| "wf_json (JFloat t) = float_lexeme t"
| "wf_json (JStr t) = True"
| "wf_json (JArr xs) = list_all id (map wf_json xs)"
| "wf_json (JObj kvs) = (distinct (map fst kvs) \<and> list_all snd (map (map_prod id wf_json) kvs))"

definition delimited :: "str \<Rightarrow> bool" where
  "delimited r \<longleftrightarrow> r = [] \<or> hd r = 44 \<or> hd r = 93 \<or> hd r = 125"

lemma delimited_simps [simp]:
  "delimited []" "delimited (44 # r)" "delimited (93 # r)" "delimited (125 # r)"
  by (simp_all add: delimited_def)

lemma u_lits: "u ''null'' = [110, 117, 108, 108]" "u ''true'' = [116, 114, 117, 101]"
  "u ''false'' = [102, 97, 108, 115, 101]" "u ''NaN'' = [78, 97, 78]"
  "u ''Infinity'' = [73, 110, 102, 105, 110, 105, 116, 121]"
  "u ''-Infinity'' = [45, 73, 110, 102, 105, 110, 105, 116, 121]"
  by (simp_all add: u_def)

subsection \<open>Strings\<close>

lemma hex_value_digit: "d < 16 \<Longrightarrow> hex_value (hex_digit d) = Some d"
  by (auto simp: hex_value_def hex_digit_def)

lemma scan_unicode_control:
  "c < 32 \<Longrightarrow> scan_unicode (48 # 48 # hex_digit (c div 16) # hex_digit (c mod 16) # r) = Some (c, r)"
proof -
  assume c: "c < 32"
  have z: "hex_value 48 = Some 0" by (simp add: hex_value_def)
  have "c div 16 < 16" "c mod 16 < 16" "16 * (c div 16) + c mod 16 = c" using c by auto
  then have "scan_hex4 (48 # 48 # hex_digit (c div 16) # hex_digit (c mod 16) # r) = Some (c, r)"
    by (simp add: hex_value_digit z)
  with c show ?thesis by (simp add: scan_unicode_def)
qed

lemma scan_string_escape:
  "scan_string (escape_char c @ r) = map_option (map_prod ((#) c) id) (scan_string r)"
proof (cases "c < 32 \<and> c \<noteq> 10 \<and> c \<noteq> 13 \<and> c \<noteq> 9 \<and> c \<noteq> 12 \<and> c \<noteq> 8")
  case True
  then show ?thesis by (simp add: escape_char_def scan_unicode_control)
next
  case False
  then show ?thesis by (auto simp: escape_char_def simple_escape_def)
qed

lemma scan_string_quoted:
  "scan_string (concat (map escape_char s) @ 34 # r) = Some (s, r)"
  by (induction s) (simp_all add: scan_string_escape)

subsection \<open>Numbers\<close>

lemma delimited_not_digit: "delimited r \<Longrightarrow> r \<noteq> [] \<Longrightarrow> \<not> is_digit (hd r)"
  by (auto simp: delimited_def is_digit_def)

lemma takeWhile_digits_append:
  "delimited r \<Longrightarrow> takeWhile is_digit (s @ r) = takeWhile is_digit s"
  "delimited r \<Longrightarrow> dropWhile is_digit (s @ r) = dropWhile is_digit s @ r"
  by (induction s) (cases r; auto dest: delimited_not_digit)+

lemma takeWhile_digits_delimited:
  "delimited r \<Longrightarrow> takeWhile is_digit r = []" "delimited r \<Longrightarrow> dropWhile is_digit r = r"
  using takeWhile_digits_append[of r "[]"] by simp_all

lemma scan_int_append:
  "scan_int s = Some (p, q) \<Longrightarrow> delimited r \<Longrightarrow> scan_int (s @ r) = Some (p, q @ r)"
  by (auto simp: scan_int_def takeWhile_digits_append split: if_splits)

lemma scan_frac_append:
  "scan_frac s = (p, q) \<Longrightarrow> delimited r \<Longrightarrow> scan_frac (s @ r) = (p, q @ r)"
  by (cases s; cases "tl s"; cases r)
     (auto simp: scan_frac_def takeWhile_digits_append dest: delimited_not_digit simp: delimited_def is_digit_def split: if_splits)

lemma scan_sign_append:
  "s \<noteq> [] \<Longrightarrow> scan_sign (s @ r) = (fst (scan_sign s), snd (scan_sign s) @ r)"
  by (cases s) (auto simp: scan_sign_def)

lemma scan_sign_delimited: "delimited r \<Longrightarrow> scan_sign r = ([], r)"
  by (auto simp: scan_sign_def delimited_def)

lemma scan_exp_append:
  assumes "scan_exp s = (p, q)" "delimited r"
  shows "scan_exp (s @ r) = (p, q @ r)"
proof (cases s)
  case Nil
  with assms show ?thesis by (auto simp: scan_exp_def delimited_def split: prod.splits if_splits)
next
  case (Cons c cs)
  have sg: "scan_sign (cs @ r) = (fst (scan_sign cs), snd (scan_sign cs) @ r)"
    using assms(2) by (cases cs; cases r) (auto simp: scan_sign_def delimited_def)
  have nd: "r \<noteq> [] \<Longrightarrow> \<not> is_digit (hd r)" using assms(2) by (rule delimited_not_digit)
  show ?thesis
    using assms nd sg Cons
    by (cases "snd (scan_sign cs)")
       (auto simp: scan_exp_def takeWhile_digits_append split: prod.splits if_splits)
qed

lemma scan_number_append:
  assumes "scan_number s = Some (j, q)" "delimited r"
  shows "scan_number (s @ r) = Some (j, q @ r)"
proof -
  let ?b = "if s \<noteq> [] \<and> hd s = 45 then tl s else s"
  obtain ip r1 where i: "scan_int ?b = Some (ip, r1)"
    using assms(1) by (auto simp: scan_number_def Let_def split: option.splits)
  then have ne: "?b \<noteq> []" "s \<noteq> []" by (auto simp: scan_int_def split: if_splits)
  obtain fp r2 where f: "scan_frac r1 = (fp, r2)" by fastforce
  obtain ep r3 where e: "scan_exp r2 = (ep, r3)" by fastforce
  have b: "(if s @ r \<noteq> [] \<and> hd (s @ r) = 45 then tl (s @ r) else s @ r) = ?b @ r"
    using ne by auto
  show ?thesis
    using assms(1) i f e ne
      scan_int_append[OF i assms(2)] scan_frac_append[OF f assms(2)] scan_exp_append[OF e assms(2)]
    unfolding scan_number_def Let_def b by (auto simp: hd_append)
qed

lemma show_nat_digits: "\<forall>d\<in>set (show_nat n). is_digit d"
proof (induction n rule: show_nat.induct)
  case (1 n)
  then show ?case
    by (subst show_nat.simps) (auto simp: is_digit_def show_digit_def)
qed

lemma show_nat_ne [simp]: "show_nat n \<noteq> []"
  by (subst show_nat.simps) auto

lemma nat_of_digits_snoc: "nat_of_digits (ds @ [d]) = 10 * nat_of_digits ds + (d - 48)"
  by (simp add: nat_of_digits_def)

lemma nat_of_show_nat: "nat_of_digits (show_nat n) = n"
proof (induction n rule: show_nat.induct)
  case (1 n)
  show ?case
  proof (cases "n < 10")
    case True
    then show ?thesis by (subst show_nat.simps) (simp add: nat_of_digits_def show_digit_def)
  next
    case False
    with 1 show ?thesis by (subst show_nat.simps) (simp add: nat_of_digits_snoc show_digit_def)
  qed
qed

lemma hd_show_nat: "hd (show_nat n) = 48 \<Longrightarrow> n = 0"
proof (induction n rule: show_nat.induct)
  case (1 n)
  show ?case
  proof (cases "n < 10")
    case True
    with 1(2) show ?thesis by (subst (asm) show_nat.simps) (auto simp: show_digit_def)
  next
    case False
    then have "show_nat n = show_nat (n div 10) @ [show_digit (n mod 10)]" by (subst show_nat.simps) simp
    with 1(2) have "hd (show_nat (n div 10)) = 48" by (simp add: hd_append)
    with False 1(1) have "n div 10 = 0" by blast
    with False show ?thesis by auto
  qed
qed

lemma scan_int_show_nat: "delimited r \<Longrightarrow> scan_int (show_nat n @ r) = Some (show_nat n, r)"
proof -
  assume r: "delimited r"
  have "\<forall>d\<in>set (show_nat n). is_digit d" by (rule show_nat_digits)
  then have d: "is_digit (hd (show_nat n))" "takeWhile is_digit (show_nat n) = show_nat n"
    "dropWhile is_digit (show_nat n) = []"
    by (simp_all add: takeWhile_eq_all_conv dropWhile_eq_Nil_conv)
  show ?thesis
  proof (cases "hd (show_nat n) = 48")
    case True
    then have "n = 0" by (rule hd_show_nat)
    then have "show_nat n = [48]" by (subst show_nat.simps) (simp add: show_digit_def)
    then show ?thesis by (simp add: scan_int_def is_digit_def)
  next
    case False
    with d r show ?thesis by (simp add: scan_int_def takeWhile_digits_append takeWhile_digits_delimited)
  qed
qed

lemma scan_tail_delimited:
  "delimited r \<Longrightarrow> scan_frac r = ([], r)" "delimited r \<Longrightarrow> scan_exp r = ([], r)"
  by (auto simp: scan_frac_def scan_exp_def delimited_def)

lemma hd_show_nat_minus: "hd (show_nat n) \<noteq> 45"
  using show_nat_digits[of n] by (cases "show_nat n") (auto simp: is_digit_def)

lemma scan_number_show_int: "delimited r \<Longrightarrow> scan_number (show_int i @ r) = Some (JInt i, r)"
  using hd_show_nat_minus
  by (cases "i < 0") (simp_all add: show_int_def scan_number_def Let_def scan_int_show_nat
      scan_tail_delimited nat_of_show_nat)
subsection \<open>Values\<close>

text \<open>The fuel a value needs, and a bound by the length of its text.\<close>

primrec need :: "json \<Rightarrow> nat" where
  "need JNull = 1"
| "need (JBool b) = 1"
| "need (JInt i) = 1"
| "need (JFloat t) = 1"
| "need (JStr t) = 1"
| "need (JArr xs) = Suc (sum_list (map Suc (map need xs)))"
| "need (JObj kvs) = Suc (sum_list (map (Suc \<circ> snd) (map (map_prod id need) kvs)))"

lemma length_join: "length (join [44] xs) \<ge> sum_list (map length xs)"
  by (induction "[44::nat]" xs rule: join.induct) auto

lemma scan_number_ne: "scan_number t = Some x \<Longrightarrow> t \<noteq> [] \<and> (is_digit (hd t) \<or> hd t = 45)"
  by (cases t) (auto simp: scan_number_def scan_int_def Let_def split: if_splits)

lemma float_lexeme_hd: "float_lexeme t \<Longrightarrow> t \<noteq> [] \<and> (is_digit (hd t) \<or> hd t = 45 \<or> hd t = 78 \<or> hd t = 73)"
  by (auto simp: float_lexeme_def u_lits dest: scan_number_ne)

lemma show_int_hd: "show_int i \<noteq> [] \<and> (is_digit (hd (show_int i)) \<or> hd (show_int i) = 45)"
  using show_nat_digits[of "nat i"] show_nat_ne[of "nat i"]
  by (auto simp: show_int_def intro: hd_in_set)

definition value_start :: "nat \<Rightarrow> bool" where
  "value_start c \<longleftrightarrow> c \<notin> {32, 9, 10, 13, 93, 125, 44}"

lemma write_json_start: "wf_json j \<Longrightarrow> write_json j \<noteq> [] \<and> value_start (hd (write_json j))"
proof (cases j)
  case (JInt i)
  with show_int_hd[of i] show ?thesis by (auto simp: value_start_def is_digit_def)
next
  case (JFloat t)
  moreover assume "wf_json j"
  ultimately show ?thesis using float_lexeme_hd[of t] by (auto simp: value_start_def is_digit_def)
qed (auto simp: u_lits value_start_def quote_def)

lemma skip_ws_start: "value_start (hd s) \<Longrightarrow> skip_ws (s @ r) = s @ r" if "s \<noteq> []"
  using that by (cases s) (auto simp: skip_ws_def value_start_def)

lemma skip_ws_delim [simp]: "delimited s \<Longrightarrow> skip_ws s = s"
  by (cases s) (auto simp: skip_ws_def delimited_def)

lemma need_le_length: "wf_json j \<Longrightarrow> Suc (need j) \<le> 2 * length (write_json j)"
proof (induction j)
  case (JArr xs)
  have "sum_list (map Suc (map need xs)) \<le> 2 * sum_list (map length (map write_json xs))"
  proof -
    have "\<And>x. x \<in> set xs \<Longrightarrow> Suc (need x) \<le> 2 * length (write_json x)"
      using JArr by (fastforce simp: list_all_iff)
    then show ?thesis by (induction xs) fastforce+
  qed
  also have "\<dots> \<le> 2 * length (join [44] (map write_json xs))"
    using length_join[of "map write_json xs"] by simp
  finally show ?case by simp
next
  case (JObj kvs)
  let ?t = "\<lambda>(k, v). quote k @ 58 # write_json v"
  have "sum_list (map (Suc \<circ> snd) (map (map_prod id need) kvs)) \<le> 2 * sum_list (map length (map ?t kvs))"
  proof -
    have "\<And>k v. (k, v) \<in> set kvs \<Longrightarrow> Suc (need v) \<le> 2 * length (?t (k, v))"
      using JObj by (fastforce simp: list_all_iff)
    then show ?thesis by (induction kvs) fastforce+
  qed
  also have "\<dots> \<le> 2 * length (join [44] (map ?t kvs))"
    using length_join[of "map ?t kvs"] by simp
  finally show ?case by (simp add: o_def case_prod_unfold)
next
  case (JFloat t)
  then have "t \<noteq> []" using float_lexeme_hd by auto
  then show ?case by (cases t) auto
next
  case (JInt i)
  show ?case using show_int_hd[of i] by (cases "show_int i") auto
qed (auto simp: u_lits quote_def)

definition reads :: "json \<Rightarrow> bool" where
  "reads j \<longleftrightarrow> (\<forall>n r. need j \<le> n \<longrightarrow> delimited r \<longrightarrow> scan_value n (write_json j @ r) = Some (j, r))"

lemma scan_elems_written:
  assumes "xs \<noteq> []" "\<forall>x\<in>set xs. wf_json x \<and> reads x"
    "sum_list (map Suc (map need xs)) \<le> n"
  shows "scan_elems n (join [44] (map write_json xs) @ 93 # r) = Some (xs, r)"
  using assms
proof (induction xs arbitrary: n)
  case Nil
  then show ?case by simp
next
  case (Cons x xs)
  then obtain m where n: "n = Suc m" and m: "need x \<le> m" by (cases n) auto
  have rx: "\<And>q. delimited q \<Longrightarrow> scan_value m (write_json x @ q) = Some (x, q)"
    using Cons.prems(2) m by (simp add: reads_def)
  show ?case
  proof (cases "xs = []")
    case True
    then show ?thesis by (simp add: n rx)
  next
    case False
    let ?j = "join [44] (map write_json xs)"
    have ih: "scan_elems m (?j @ 93 # r) = Some (xs, r)"
      using Cons False n by (intro Cons.IH) auto
    obtain y ys where xs: "xs = y # ys" using False by (cases xs) auto
    have st: "write_json y \<noteq> []" "value_start (hd (write_json y))"
      using write_json_start[of y] Cons.prems(2) xs by auto
    have "?j \<noteq> [] \<and> value_start (hd ?j)" using st unfolding xs by (cases ys) (auto simp: hd_append)
    then have "skip_ws (?j @ 93 # r) = ?j @ 93 # r" using skip_ws_start by blast
    then show ?thesis using False by (simp add: n rx ih join_Cons)
  qed
qed

lemma scan_members_written:
  assumes "kvs \<noteq> []" "\<forall>kv\<in>set kvs. wf_json (snd kv) \<and> reads (snd kv)"
    "sum_list (map (Suc \<circ> snd) (map (map_prod id need) kvs)) \<le> n"
  shows "scan_members n (join [44] (map (\<lambda>(k, v). quote k @ 58 # write_json v) kvs) @ 125 # r) = Some (kvs, r)"
  using assms
proof (induction kvs arbitrary: n)
  case Nil
  then show ?case by simp
next
  case (Cons kv kvs)
  obtain k v where kv: "kv = (k, v)" by (cases kv)
  from Cons obtain m where n: "n = Suc m" and m: "need v \<le> m" unfolding kv by (cases n) auto
  have rv: "\<And>q. delimited q \<Longrightarrow> scan_value m (write_json v @ q) = Some (v, q)"
    using Cons.prems(2) m by (simp add: reads_def kv)
  have st: "write_json v \<noteq> []" "value_start (hd (write_json v))"
    using write_json_start[of v] Cons.prems(2) kv by auto
  have sk: "\<And>q. skip_ws (write_json v @ q) = write_json v @ q" using skip_ws_start st by blast
  have c58: "\<And>q. skip_ws (58 # q) = 58 # q" "\<And>q. skip_ws (34 # q) = 34 # q" by (simp_all add: skip_ws_def)
  show ?case
  proof (cases "kvs = []")
    case True
    then show ?thesis by (simp add: n kv quote_def scan_string_quoted c58 sk rv)
  next
    case False
    let ?j = "join [44] (map (\<lambda>(k, v). quote k @ 58 # write_json v) kvs)"
    have ih: "scan_members m (?j @ 125 # r) = Some (kvs, r)"
      using Cons.prems False n kv by (intro Cons.IH) auto
    obtain k2 v2 ys where kvs: "kvs = (k2, v2) # ys" using False by (cases kvs) auto
    have "?j \<noteq> [] \<and> value_start (hd ?j)" unfolding kvs
      by (cases ys) (auto simp: quote_def value_start_def)
    then have "skip_ws (?j @ 125 # r) = ?j @ 125 # r" using skip_ws_start by blast
    then show ?thesis using False
      by (simp add: n kv quote_def[of k] scan_string_quoted c58 sk rv ih join_Cons)
  qed
qed

lemma dict_set_fresh: "k \<notin> set (map fst d) \<Longrightarrow> dict_set k v d = d @ [(k, v)]"
  by (induction d) auto

lemma dict_of_distinct: "distinct (map fst kvs) \<Longrightarrow> dict_of kvs = kvs"
proof (induction kvs rule: rev_induct)
  case Nil
  show ?case by (simp add: dict_of_def)
next
  case (snoc kv kvs)
  then show ?case by (cases kv) (auto simp: dict_of_def dict_set_fresh)
qed

lemma scan_atom_number:
  "scan_number s = Some x \<Longrightarrow> s \<noteq> [] \<Longrightarrow> is_digit (hd s) \<or> hd s = 45 \<Longrightarrow> scan_atom s = Some x"
  by (cases s) (auto simp: scan_atom_def prefixes_str_def u_lits is_digit_def)

lemma scan_value_atom:
  "s \<noteq> [] \<Longrightarrow> hd s \<notin> {34, 123, 91} \<Longrightarrow> scan_value (Suc n) s = scan_atom s"
  by (cases s) auto

lemma scan_atom_float: "float_lexeme t \<Longrightarrow> delimited r \<Longrightarrow> scan_atom (t @ r) = Some (JFloat t, r)"
proof -
  assume r: "delimited r" and t: "float_lexeme t"
  have nonfin: "scan_atom (u ''NaN'' @ r) = Some (JFloat (u ''NaN''), r)"
    "scan_atom (u ''Infinity'' @ r) = Some (JFloat (u ''Infinity''), r)"
    "scan_atom (u ''-Infinity'' @ r) = Some (JFloat (u ''-Infinity''), r)"
    by (simp_all add: scan_atom_def u_lits prefixes_str_def scan_number_def scan_int_def is_digit_def)
  show ?thesis
  proof (cases "scan_number t = Some (JFloat t, [])")
    case True
    then have "scan_number (t @ r) = Some (JFloat t, r)" using scan_number_append r by fastforce
    moreover have "t \<noteq> []" "is_digit (hd t) \<or> hd t = 45" using scan_number_ne True by auto
    ultimately show ?thesis by (intro scan_atom_number) auto
  next
    case False
    with t nonfin show ?thesis by (auto simp: float_lexeme_def)
  qed
qed

text \<open>An object's closing brace delimits it, whatever follows.\<close>

lemma scan_object_written:
  assumes kvs: "\<forall>kv\<in>set kvs. wf_json (snd kv) \<and> reads (snd kv)" and d: "distinct (map fst kvs)"
    and n: "need (JObj kvs) \<le> n"
  shows "scan_value n (write_json (JObj kvs) @ r) = Some (JObj kvs, r)"
proof -
  have w: "map (\<lambda>(k, t). quote k @ 58 # t) (map (map_prod id write_json) kvs)
      = map (\<lambda>(k, v). quote k @ 58 # write_json v) kvs" by auto
  from n obtain m where m: "n = Suc m" by (cases n) auto
  show ?thesis
  proof (cases kvs)
    case Nil
    then show ?thesis by (simp add: m)
  next
    case (Cons y ys)
    let ?j = "join [44] (map (\<lambda>(k, v). quote k @ 58 # write_json v) kvs)"
    have el: "scan_members m (?j @ 125 # r) = Some (kvs, r)"
      using kvs n m Cons by (intro scan_members_written) auto
    have j: "?j \<noteq> []" "hd ?j = 34" unfolding Cons by (cases y; cases ys; auto simp: quote_def)+
    then have "skip_ws (?j @ 125 # r) = ?j @ 125 # r"
      using skip_ws_start[of ?j "125 # r"] by (simp add: value_start_def)
    moreover obtain cs where "?j = 34 # cs" using j by (cases ?j) auto
    ultimately show ?thesis using el j d
      unfolding write_json.simps w by (simp add: m dict_of_distinct)
  qed
qed

lemma reads_written: "wf_json j \<Longrightarrow> reads j"
proof (induction j)
  case (JArr xs)
  have xs: "\<forall>x\<in>set xs. wf_json x \<and> reads x" using JArr by (auto simp: list_all_iff)
  show ?case unfolding reads_def
  proof (intro allI impI)
    fix n r
    assume n: "need (JArr xs) \<le> n"
    then obtain m where m: "n = Suc m" by (cases n) auto
    show "scan_value n (write_json (JArr xs) @ r) = Some (JArr xs, r)"
    proof (cases xs)
      case Nil
      then show ?thesis by (simp add: m)
    next
      case (Cons y ys)
      let ?j = "join [44] (map write_json xs)"
      have el: "scan_elems m (?j @ 93 # r) = Some (xs, r)"
        using xs n m Cons by (intro scan_elems_written) auto
      have "write_json y \<noteq> []" "value_start (hd (write_json y))"
        using write_json_start[of y] xs Cons by auto
      then have j: "?j \<noteq> []" "value_start (hd ?j)" unfolding Cons by (cases ys; auto simp: hd_append)+
      then have "skip_ws (?j @ 93 # r) = ?j @ 93 # r" using skip_ws_start by blast
      moreover obtain c cs where "?j = c # cs" using j by (cases ?j) auto
      ultimately show ?thesis using el j by (simp add: m value_start_def)
    qed
  qed
next
  case (JObj kvs)
  have kvs: "\<forall>kv\<in>set kvs. wf_json (snd kv) \<and> reads (snd kv)"
    using JObj by (fastforce simp: list_all_iff)
  have d: "distinct (map fst kvs)" using JObj by simp
  show ?case unfolding reads_def using scan_object_written[OF kvs d] by blast
next
  case (JInt i)
  show ?case unfolding reads_def
  proof (intro allI impI)
    fix n r
    assume n: "need (JInt i) \<le> n" and r: "delimited r"
    then obtain m where m: "n = Suc m" by (cases n) auto
    have "scan_atom (show_int i @ r) = Some (JInt i, r)"
      using scan_number_show_int[OF r, of i] show_int_hd[of i] by (intro scan_atom_number) auto
    then show "scan_value n (write_json (JInt i) @ r) = Some (JInt i, r)"
      using show_int_hd[of i] by (auto simp: m is_digit_def scan_value_atom simp del: scan_value.simps)
  qed
next
  case (JFloat t)
  then have t: "float_lexeme t" by simp
  show ?case unfolding reads_def
  proof (intro allI impI)
    fix n r
    assume n: "need (JFloat t) \<le> n" and r: "delimited r"
    then obtain m where m: "n = Suc m" by (cases n) auto
    show "scan_value n (write_json (JFloat t) @ r) = Some (JFloat t, r)"
      using float_lexeme_hd[OF t] scan_atom_float[OF t r]
      by (auto simp: m is_digit_def scan_value_atom simp del: scan_value.simps)
  qed
next
  case (JStr t)
  show ?case unfolding reads_def
    by (auto simp: quote_def scan_string_quoted Suc_le_eq gr0_conv_Suc)
next
  case JNull
  show ?case unfolding reads_def
    by (auto simp: Suc_le_eq gr0_conv_Suc u_lits scan_atom_def prefixes_str_def)
next
  case (JBool b)
  show ?case unfolding reads_def
    by (auto simp: Suc_le_eq gr0_conv_Suc u_lits scan_atom_def prefixes_str_def)
qed

lemma json_loads_write: "wf_json j \<Longrightarrow> json_loads (write_json j) = Some j"
proof -
  assume j: "wf_json j"
  have "skip_ws (write_json j) = write_json j"
    using skip_ws_start[of "write_json j" "[]"] write_json_start[OF j] by simp
  moreover have "scan_value (2 * length (write_json j) + 2) (write_json j @ []) = Some (j, [])"
    using reads_written[OF j] need_le_length[OF j] unfolding reads_def
    by (metis Suc_leD delimited_simps(1) trans_le_add1)
  ultimately show ?thesis by (simp add: json_loads_def skip_ws_def)
qed

text \<open>White space after an object, such as the final newline of a file, is ignored.\<close>

lemma json_loads_object_line:
  assumes j: "wf_json (JObj kvs)" and r: "skip_ws r = []"
  shows "json_loads (write_json (JObj kvs) @ r) = Some (JObj kvs)"
proof -
  let ?s = "write_json (JObj kvs)"
  have kvs: "\<forall>kv\<in>set kvs. wf_json (snd kv) \<and> reads (snd kv)" and d: "distinct (map fst kvs)"
    using j reads_written by (fastforce simp: list_all_iff)+
  have "need (JObj kvs) \<le> 2 * length (?s @ r) + 2" using need_le_length[OF j] by simp
  from scan_object_written[OF kvs d this, of r]
  have "scan_value (2 * length (?s @ r) + 2) (?s @ r) = Some (JObj kvs, r)" .
  moreover have "skip_ws (?s @ r) = ?s @ r"
    using skip_ws_start[of ?s r] write_json_start[OF j] by blast
  ultimately show ?thesis using r by (simp only: json_loads_def) simp
qed

lemma distinct_keys_sort: "distinct (map fst (sort_key fst kvs)) = distinct (map fst kvs)"
  by (simp add: distinct_map)

lemma wf_normalise: "wf_json j \<Longrightarrow> wf_json (normalise j)"
proof (induction j)
  case (JObj kvs)
  have "\<forall>kv\<in>set kvs. wf_json (normalise (snd kv))" using JObj by (fastforce simp: list_all_iff)
  with JObj.prems show ?case
    by (auto simp: list_all_iff distinct_keys_sort fst_map_prod_id)
qed (auto simp: list_all_iff)

lemma json_loads_canonical: "wf_json j \<Longrightarrow> json_loads (canonical_json j) = Some (normalise j)"
  unfolding canonical_json_def by (intro json_loads_write wf_normalise)

lemma canonical_json_inj:
  "\<lbrakk>wf_json a; wf_json b; canonical_json a = canonical_json b\<rbrakk> \<Longrightarrow> normalise a = normalise b"
  using json_loads_canonical by (metis option.inject)

section \<open>Properties\<close>

text \<open>Canonical JSON text, which the audit store hashes and keeps, reads back as the value it
  was written from with its keys sorted, whatever strings, numbers and nesting the value has.\<close>

lemma canonical_json_roundtrip:
  "wf_json j \<Longrightarrow> json_loads (canonical_json j) = Some (normalise j)"
  by (rule json_loads_canonical)

lemma canonical_json_roundtrip_witness:
  "json_loads (canonical_json (JObj [(u ''b'', JInt (- 12)), (u ''a'', JArr [JNull, JStr [34, 10, 955]])]))
     = Some (JObj [(u ''a'', JArr [JNull, JStr [34, 10, 955]]), (u ''b'', JInt (- 12))])"
  using canonical_json_roundtrip [of "JObj [(u ''b'', JInt (- 12)), (u ''a'', JArr [JNull, JStr [34, 10, 955]])]"]
  by (simp add: u_def)

end
