(* ===== verification/Contracts.thy ===== *)
theory Contracts
  imports Json "HOL-Library.Monad_Syntax"
begin

text \<open>
  The data contracts of \<^verbatim>\<open>src/indexguard/contracts.py\<close>: one datatype per enumeration, one
  record per model class (the field \<^verbatim>\<open>f\<close> of class \<^verbatim>\<open>C\<close> is \<open>c_f\<close>), and for each
  class the two directions the gateway uses: \<open>dump_C\<close> (\<^verbatim>\<open>model_dump(mode="json")\<close>) and
  \<open>validate_C\<close> (\<^verbatim>\<open>model_validate\<close> on the dict read back from JSON, with
  \<^verbatim>\<open>extra="forbid"\<close>, the field constraints, the defaults and the class's own validator).
  A float is its \<^verbatim>\<open>repr\<close> text, a datetime its JSON text; a \<^verbatim>\<open>dict[str, Any]\<close> is
  its sorted association list, so that equality of records is Python's equality of models.
  A field accepts the JSON type it declares; the coercions between JSON types that pydantic
  offers (a numeric string for an integer) are not modelled: the data read back was written by
  \<open>dump_C\<close>.  \<open>wf_C\<close> is the class invariant; \<open>rt_C\<close> says that reading what was
  written gives the record back.
\<close>

section \<open>Field codecs\<close>

type_synonym float_text = str
type_synonym dict = "(str \<times> json) list"
type_synonym bbox = "float_text \<times> float_text \<times> float_text \<times> float_text"

definition d_opt :: "('a \<Rightarrow> json) \<Rightarrow> 'a option \<Rightarrow> json" where
  "d_opt f v = (case v of None \<Rightarrow> JNull | Some x \<Rightarrow> f x)"

definition d_list :: "('a \<Rightarrow> json) \<Rightarrow> 'a list \<Rightarrow> json" where
  "d_list f xs = JArr (map f xs)"

definition d_enum :: "('a \<Rightarrow> str) \<Rightarrow> 'a \<Rightarrow> json" where
  "d_enum f x = JStr (f x)"

definition d_bbox :: "bbox \<Rightarrow> json" where
  "d_bbox b = (case b of (x0, y0, x1, y1) \<Rightarrow> JArr [JFloat x0, JFloat y0, JFloat x1, JFloat y1])"

fun v_str :: "json \<Rightarrow> str option" where
  "v_str (JStr s) = Some s"
| "v_str _ = None"

fun v_int :: "json \<Rightarrow> int option" where
  "v_int (JInt i) = Some i"
| "v_int _ = None"

fun v_bool :: "json \<Rightarrow> bool option" where
  "v_bool (JBool b) = Some b"
| "v_bool _ = None"

fun v_float :: "json \<Rightarrow> float_text option" where
  "v_float (JFloat t) = Some t"
| "v_float _ = None"

fun v_dict :: "json \<Rightarrow> dict option" where
  "v_dict (JObj kvs) = Some kvs"
| "v_dict _ = None"

fun v_bbox :: "json \<Rightarrow> bbox option" where
  "v_bbox (JArr [JFloat x0, JFloat y0, JFloat x1, JFloat y1]) = Some (x0, y0, x1, y1)"
| "v_bbox _ = None"

definition v_opt :: "(json \<Rightarrow> 'a option) \<Rightarrow> json \<Rightarrow> 'a option option" where
  "v_opt v j = (if j = JNull then Some None else map_option Some (v j))"

fun v_list :: "(json \<Rightarrow> 'a option) \<Rightarrow> json \<Rightarrow> 'a list option" where
  "v_list v (JArr xs) = those (map v xs)"
| "v_list v _ = None"

fun v_enum :: "('a \<Rightarrow> str) \<Rightarrow> 'a list \<Rightarrow> json \<Rightarrow> 'a option" where
  "v_enum f xs (JStr s) = find (\<lambda>x. f x = s) xs"
| "v_enum f xs _ = None"

fun v_model :: "str list \<Rightarrow> ((str \<Rightarrow> json option) \<Rightarrow> 'a option) \<Rightarrow> json \<Rightarrow> 'a option" where
  "v_model names f (JObj kvs) = (if set (map fst kvs) \<subseteq> set names then f (map_of kvs) else None)"
| "v_model names f _ = None"

definition req :: "(str \<Rightarrow> json option) \<Rightarrow> str \<Rightarrow> (json \<Rightarrow> 'a option) \<Rightarrow> 'a option" where
  "req m k v = (case m k of None \<Rightarrow> None | Some j \<Rightarrow> v j)"

definition dflt :: "(str \<Rightarrow> json option) \<Rightarrow> str \<Rightarrow> 'a \<Rightarrow> (json \<Rightarrow> 'a option) \<Rightarrow> 'a option" where
  "dflt m k d v = (case m k of None \<Rightarrow> Some d | Some j \<Rightarrow> v j)"

definition guarded :: "('a \<Rightarrow> bool) \<Rightarrow> 'a \<Rightarrow> 'a option" where
  "guarded p x = (if p x then Some x else None)"

definition wf_dict :: "dict \<Rightarrow> bool" where
  "wf_dict m \<longleftrightarrow> wf_json (JObj m) \<and> normalise (JObj m) = JObj m"

definition wf_bbox :: "bbox \<Rightarrow> bool" where
  "wf_bbox b \<longleftrightarrow> (case b of (x0, y0, x1, y1) \<Rightarrow>
     float_lexeme x0 \<and> float_lexeme y0 \<and> float_lexeme x1 \<and> float_lexeme y1)"

definition d_dict :: "dict \<Rightarrow> json" where
  "d_dict m = JObj m"

text \<open>
  Reading back what was written.  A rule per codec, used as rewriting by the classes below: the
  sorted text of a written field is read as the field.
\<close>

named_theorems rt \<open>round trips of the field codecs and of the contract classes\<close>

lemma rt_dict [rt]: "wf_dict m \<Longrightarrow> v_dict (normalise (d_dict m)) = Some m" "wf_dict m \<Longrightarrow> wf_json (d_dict m)"
  by (simp_all add: wf_dict_def d_dict_def)

lemma rt_bbox [rt]: "v_bbox (normalise (d_bbox b)) = Some b" "wf_json (d_bbox b) = wf_bbox b"
  by (auto simp: wf_bbox_def d_bbox_def split: prod.splits)

lemma rt_opt [rt]:
  "\<lbrakk>\<And>y. x = Some y \<Longrightarrow> v (normalise (d y)) = Some y; v JNull = None\<rbrakk> \<Longrightarrow>
   v_opt v (normalise (d_opt d x)) = Some x"
  "wf_json (d_opt d x) \<longleftrightarrow> (\<forall>y. x = Some y \<longrightarrow> wf_json (d y))"
  by (cases x; auto simp: v_opt_def d_opt_def)+

lemma those_map_Some: "(\<And>x. x \<in> set xs \<Longrightarrow> f x = Some (g x)) \<Longrightarrow> those (map f xs) = Some (map g xs)"
  by (induction xs) auto

lemma rt_list [rt]:
  "(\<And>y. y \<in> set xs \<Longrightarrow> v (normalise (d y)) = Some y) \<Longrightarrow> v_list v (normalise (d_list d xs)) = Some xs"
  "wf_json (d_list d xs) \<longleftrightarrow> (\<forall>y\<in>set xs. wf_json (d y))"
  by (auto simp: d_list_def list_all_iff o_def those_map_Some[where g = id, simplified])

lemma rt_enum [rt]: "v_enum f xs (normalise (d_enum f x)) = find (\<lambda>y. f y = f x) xs"
  "wf_json (d_enum f x)"
  by (simp_all add: d_enum_def)

lemma read_model:
  assumes "j = JObj kvs" "distinct (map fst kvs)" "set (map fst kvs) \<subseteq> set names"
    "f (map_option normalise \<circ> map_of kvs) = Some x"
  shows "v_model names f (normalise j) = Some x"
proof -
  have "map_of (sort_key fst (map (map_prod id normalise) kvs)) = map_option normalise \<circ> map_of kvs"
    by (simp add: map_of_sort_key fst_map_prod_id assms(2) map_of_map_prod_id)
  then show ?thesis using assms(1,3,4) by (auto simp: image_iff)
qed

lemma v_model_null [simp]: "v_model names f JNull = None" by simp

section \<open>Enumerations\<close>

datatype document_format = PDF | DOCX | HWPX | MARKDOWN

fun document_format_value :: "document_format \<Rightarrow> str" where
  "document_format_value PDF = u ''PDF''"
| "document_format_value DOCX = u ''DOCX''"
| "document_format_value HWPX = u ''HWPX''"
| "document_format_value MARKDOWN = u ''MARKDOWN''"

definition all_document_format :: "document_format list" where
  "all_document_format = [PDF, DOCX, HWPX, MARKDOWN]"

lemma enum_document_format [rt]: "find (\<lambda>y. document_format_value y = document_format_value x) all_document_format = Some x"
  by (cases x) (simp_all add: all_document_format_def)

datatype source_scope = BODY | AUXILIARY

fun source_scope_value :: "source_scope \<Rightarrow> str" where
  "source_scope_value BODY = u ''BODY''"
| "source_scope_value AUXILIARY = u ''AUXILIARY''"

definition all_source_scope :: "source_scope list" where
  "all_source_scope = [BODY, AUXILIARY]"

lemma enum_source_scope [rt]: "find (\<lambda>y. source_scope_value y = source_scope_value x) all_source_scope = Some x"
  by (cases x) (simp_all add: all_source_scope_def)

datatype visibility = VISIBLE | HIDDEN_SUSPECTED

fun visibility_value :: "visibility \<Rightarrow> str" where
  "visibility_value VISIBLE = u ''VISIBLE''"
| "visibility_value HIDDEN_SUSPECTED = u ''HIDDEN_SUSPECTED''"

definition all_visibility :: "visibility list" where
  "all_visibility = [VISIBLE, HIDDEN_SUSPECTED]"

lemma enum_visibility [rt]: "find (\<lambda>y. visibility_value y = visibility_value x) all_visibility = Some x"
  by (cases x) (simp_all add: all_visibility_def)

datatype analysis_status = COMPLETED | FAILED

fun analysis_status_value :: "analysis_status \<Rightarrow> str" where
  "analysis_status_value COMPLETED = u ''COMPLETED''"
| "analysis_status_value FAILED = u ''FAILED''"

definition all_analysis_status :: "analysis_status list" where
  "all_analysis_status = [COMPLETED, FAILED]"

lemma enum_analysis_status [rt]: "find (\<lambda>y. analysis_status_value y = analysis_status_value x) all_analysis_status = Some x"
  by (cases x) (simp_all add: all_analysis_status_def)

datatype decision = ALLOW | REVIEW | BLOCK

fun decision_value :: "decision \<Rightarrow> str" where
  "decision_value ALLOW = u ''ALLOW''"
| "decision_value REVIEW = u ''REVIEW''"
| "decision_value BLOCK = u ''BLOCK''"

definition all_decision :: "decision list" where
  "all_decision = [ALLOW, REVIEW, BLOCK]"

lemma enum_decision [rt]: "find (\<lambda>y. decision_value y = decision_value x) all_decision = Some x"
  by (cases x) (simp_all add: all_decision_def)

datatype index_action = INDEX | HOLD | QUARANTINE

fun index_action_value :: "index_action \<Rightarrow> str" where
  "index_action_value INDEX = u ''INDEX''"
| "index_action_value HOLD = u ''HOLD''"
| "index_action_value QUARANTINE = u ''QUARANTINE''"

definition all_index_action :: "index_action list" where
  "all_index_action = [INDEX, HOLD, QUARANTINE]"

lemma enum_index_action [rt]: "find (\<lambda>y. index_action_value y = index_action_value x) all_index_action = Some x"
  by (cases x) (simp_all add: all_index_action_def)

datatype workflow_state = PREPARED | ANALYSIS_REQUESTED | ANALYSIS_FAILED | AWAITING_APPROVAL | WF_HOLD | INDEXED | QUARANTINED | SUPERSEDED

fun workflow_state_value :: "workflow_state \<Rightarrow> str" where
  "workflow_state_value PREPARED = u ''PREPARED''"
| "workflow_state_value ANALYSIS_REQUESTED = u ''ANALYSIS_REQUESTED''"
| "workflow_state_value ANALYSIS_FAILED = u ''ANALYSIS_FAILED''"
| "workflow_state_value AWAITING_APPROVAL = u ''AWAITING_APPROVAL''"
| "workflow_state_value WF_HOLD = u ''HOLD''"
| "workflow_state_value INDEXED = u ''INDEXED''"
| "workflow_state_value QUARANTINED = u ''QUARANTINED''"
| "workflow_state_value SUPERSEDED = u ''SUPERSEDED''"

definition all_workflow_state :: "workflow_state list" where
  "all_workflow_state = [PREPARED, ANALYSIS_REQUESTED, ANALYSIS_FAILED, AWAITING_APPROVAL, WF_HOLD, INDEXED, QUARANTINED, SUPERSEDED]"

lemma enum_workflow_state [rt]: "find (\<lambda>y. workflow_state_value y = workflow_state_value x) all_workflow_state = Some x"
  by (cases x) (simp_all add: all_workflow_state_def)

datatype operator_action = APPROVE | OP_HOLD | REANALYZE

fun operator_action_value :: "operator_action \<Rightarrow> str" where
  "operator_action_value APPROVE = u ''APPROVE''"
| "operator_action_value OP_HOLD = u ''HOLD''"
| "operator_action_value REANALYZE = u ''REANALYZE''"

definition all_operator_action :: "operator_action list" where
  "all_operator_action = [APPROVE, OP_HOLD, REANALYZE]"

lemma enum_operator_action [rt]: "find (\<lambda>y. operator_action_value y = operator_action_value x) all_operator_action = Some x"
  by (cases x) (simp_all add: all_operator_action_def)

datatype change_kind = ADD | DELETE | REPLACE

fun change_kind_value :: "change_kind \<Rightarrow> str" where
  "change_kind_value ADD = u ''ADD''"
| "change_kind_value DELETE = u ''DELETE''"
| "change_kind_value REPLACE = u ''REPLACE''"

definition all_change_kind :: "change_kind list" where
  "all_change_kind = [ADD, DELETE, REPLACE]"

lemma enum_change_kind [rt]: "find (\<lambda>y. change_kind_value y = change_kind_value x) all_change_kind = Some x"
  by (cases x) (simp_all add: all_change_kind_def)

section \<open>Records\<close>

record text_location =
  tl_page :: "int option"
  tl_section :: "int option"
  tl_paragraph_id :: "str option"
  tl_run_index :: "int option"
  tl_part :: "str option"
  tl_bbox :: "bbox option"

definition dump_text_location :: "text_location \<Rightarrow> json" where
  "dump_text_location x = JObj
     [(u ''page'', d_opt JInt (tl_page x)),
      (u ''section'', d_opt JInt (tl_section x)),
      (u ''paragraph_id'', d_opt JStr (tl_paragraph_id x)),
      (u ''run_index'', d_opt JInt (tl_run_index x)),
      (u ''part'', d_opt JStr (tl_part x)),
      (u ''bbox'', d_opt d_bbox (tl_bbox x))]"

definition validate_text_location :: "json \<Rightarrow> text_location option" where
  "validate_text_location = v_model
     [u ''page'', u ''section'', u ''paragraph_id'', u ''run_index'', u ''part'', u ''bbox'']
     (\<lambda>m. do {
        page_v \<leftarrow> dflt m (u ''page'') None (v_opt v_int);
        section_v \<leftarrow> dflt m (u ''section'') None (v_opt v_int);
        paragraph_id_v \<leftarrow> dflt m (u ''paragraph_id'') None (v_opt v_str);
        run_index_v \<leftarrow> dflt m (u ''run_index'') None (v_opt v_int);
        part_v \<leftarrow> dflt m (u ''part'') None (v_opt v_str);
        bbox_v \<leftarrow> dflt m (u ''bbox'') None (v_opt v_bbox);
        Some \<lparr>tl_page = page_v,
          tl_section = section_v,
          tl_paragraph_id = paragraph_id_v,
          tl_run_index = run_index_v,
          tl_part = part_v,
          tl_bbox = bbox_v\<rparr>})"

definition wf_text_location :: "text_location \<Rightarrow> bool" where
  "wf_text_location x \<longleftrightarrow> (\<forall>y\<in>set_option (tl_bbox x). wf_bbox y)"

lemma rt_text_location [rt]:
  "wf_text_location x \<Longrightarrow> validate_text_location (normalise (dump_text_location x)) = Some x"
  "wf_text_location x \<Longrightarrow> wf_json (dump_text_location x)"
  "validate_text_location JNull = None"
  subgoal unfolding validate_text_location_def
    by (rule read_model [OF dump_text_location_def]) (simp_all add: rt req_def dflt_def guarded_def wf_text_location_def)
  subgoal by (simp add: dump_text_location_def rt wf_text_location_def)
  subgoal by (simp add: validate_text_location_def)
  done

record text_style =
  ts_color_hex :: "str option"
  ts_font_size_pt :: "float_text option"
  ts_hidden :: "bool option"
  ts_opacity :: "float_text option"
  ts_render_mode :: "int option"
  ts_style_ref :: "str option"

definition default_text_style :: text_style where
  "default_text_style = \<lparr>ts_color_hex = None, ts_font_size_pt = None, ts_hidden = None,
     ts_opacity = None, ts_render_mode = None, ts_style_ref = None\<rparr>"

definition dump_text_style :: "text_style \<Rightarrow> json" where
  "dump_text_style x = JObj
     [(u ''color_hex'', d_opt JStr (ts_color_hex x)),
      (u ''font_size_pt'', d_opt JFloat (ts_font_size_pt x)),
      (u ''hidden'', d_opt JBool (ts_hidden x)),
      (u ''opacity'', d_opt JFloat (ts_opacity x)),
      (u ''render_mode'', d_opt JInt (ts_render_mode x)),
      (u ''style_ref'', d_opt JStr (ts_style_ref x))]"

definition validate_text_style :: "json \<Rightarrow> text_style option" where
  "validate_text_style = v_model
     [u ''color_hex'', u ''font_size_pt'', u ''hidden'', u ''opacity'', u ''render_mode'', u ''style_ref'']
     (\<lambda>m. do {
        color_hex_v \<leftarrow> dflt m (u ''color_hex'') None (v_opt v_str);
        font_size_pt_v \<leftarrow> dflt m (u ''font_size_pt'') None (v_opt v_float);
        hidden_v \<leftarrow> dflt m (u ''hidden'') None (v_opt v_bool);
        opacity_v \<leftarrow> dflt m (u ''opacity'') None (v_opt v_float);
        render_mode_v \<leftarrow> dflt m (u ''render_mode'') None (v_opt v_int);
        style_ref_v \<leftarrow> dflt m (u ''style_ref'') None (v_opt v_str);
        Some \<lparr>ts_color_hex = color_hex_v,
          ts_font_size_pt = font_size_pt_v,
          ts_hidden = hidden_v,
          ts_opacity = opacity_v,
          ts_render_mode = render_mode_v,
          ts_style_ref = style_ref_v\<rparr>})"

definition wf_text_style :: "text_style \<Rightarrow> bool" where
  "wf_text_style x \<longleftrightarrow> (\<forall>y\<in>set_option (ts_font_size_pt x). float_lexeme y) \<and>
     (\<forall>y\<in>set_option (ts_opacity x). float_lexeme y)"

lemma rt_text_style [rt]:
  "wf_text_style x \<Longrightarrow> validate_text_style (normalise (dump_text_style x)) = Some x"
  "wf_text_style x \<Longrightarrow> wf_json (dump_text_style x)"
  "validate_text_style JNull = None"
  subgoal unfolding validate_text_style_def
    by (rule read_model [OF dump_text_style_def]) (simp_all add: rt req_def dflt_def guarded_def wf_text_style_def)
  subgoal by (simp add: dump_text_style_def rt wf_text_style_def)
  subgoal by (simp add: validate_text_style_def)
  done

record text_unit =
  tu_id :: "str"
  tu_text :: "str"
  tu_location :: "text_location"
  tu_style :: "text_style"
  tu_visibility :: "visibility"
  tu_source_scope :: "source_scope"

definition dump_text_unit :: "text_unit \<Rightarrow> json" where
  "dump_text_unit x = JObj
     [(u ''id'', JStr (tu_id x)),
      (u ''text'', JStr (tu_text x)),
      (u ''location'', dump_text_location (tu_location x)),
      (u ''style'', dump_text_style (tu_style x)),
      (u ''visibility'', d_enum visibility_value (tu_visibility x)),
      (u ''source_scope'', d_enum source_scope_value (tu_source_scope x))]"

definition validate_text_unit :: "json \<Rightarrow> text_unit option" where
  "validate_text_unit = v_model
     [u ''id'', u ''text'', u ''location'', u ''style'', u ''visibility'', u ''source_scope'']
     (\<lambda>m. do {
        id_v \<leftarrow> req m (u ''id'') (v_str);
        text_v \<leftarrow> req m (u ''text'') (v_str);
        location_v \<leftarrow> req m (u ''location'') (validate_text_location);
        style_v \<leftarrow> dflt m (u ''style'') default_text_style (validate_text_style);
        visibility_v \<leftarrow> dflt m (u ''visibility'') VISIBLE (v_enum visibility_value all_visibility);
        source_scope_v \<leftarrow> dflt m (u ''source_scope'') BODY (v_enum source_scope_value all_source_scope);
        Some \<lparr>tu_id = id_v,
          tu_text = text_v,
          tu_location = location_v,
          tu_style = style_v,
          tu_visibility = visibility_v,
          tu_source_scope = source_scope_v\<rparr>})"

definition wf_text_unit :: "text_unit \<Rightarrow> bool" where
  "wf_text_unit x \<longleftrightarrow> wf_text_location (tu_location x) \<and>
     wf_text_style (tu_style x)"

lemma rt_text_unit [rt]:
  "wf_text_unit x \<Longrightarrow> validate_text_unit (normalise (dump_text_unit x)) = Some x"
  "wf_text_unit x \<Longrightarrow> wf_json (dump_text_unit x)"
  "validate_text_unit JNull = None"
  subgoal unfolding validate_text_unit_def
    by (rule read_model [OF dump_text_unit_def]) (simp_all add: rt req_def dflt_def guarded_def wf_text_unit_def)
  subgoal by (simp add: dump_text_unit_def rt wf_text_unit_def)
  subgoal by (simp add: validate_text_unit_def)
  done

record artifact =
  ar_type :: "str"
  ar_reason :: "str"
  ar_path :: "str option"
  ar_location :: "text_location option"
  ar_metadata :: "dict"

definition dump_artifact :: "artifact \<Rightarrow> json" where
  "dump_artifact x = JObj
     [(u ''type'', JStr (ar_type x)),
      (u ''reason'', JStr (ar_reason x)),
      (u ''path'', d_opt JStr (ar_path x)),
      (u ''location'', d_opt dump_text_location (ar_location x)),
      (u ''metadata'', d_dict (ar_metadata x))]"

definition validate_artifact :: "json \<Rightarrow> artifact option" where
  "validate_artifact = v_model
     [u ''type'', u ''reason'', u ''path'', u ''location'', u ''metadata'']
     (\<lambda>m. do {
        type_v \<leftarrow> req m (u ''type'') (v_str);
        reason_v \<leftarrow> req m (u ''reason'') (v_str);
        path_v \<leftarrow> dflt m (u ''path'') None (v_opt v_str);
        location_v \<leftarrow> dflt m (u ''location'') None (v_opt validate_text_location);
        metadata_v \<leftarrow> dflt m (u ''metadata'') [] (v_dict);
        Some \<lparr>ar_type = type_v,
          ar_reason = reason_v,
          ar_path = path_v,
          ar_location = location_v,
          ar_metadata = metadata_v\<rparr>})"

definition wf_artifact :: "artifact \<Rightarrow> bool" where
  "wf_artifact x \<longleftrightarrow> (\<forall>y\<in>set_option (ar_location x). wf_text_location y) \<and>
     wf_dict (ar_metadata x)"

lemma rt_artifact [rt]:
  "wf_artifact x \<Longrightarrow> validate_artifact (normalise (dump_artifact x)) = Some x"
  "wf_artifact x \<Longrightarrow> wf_json (dump_artifact x)"
  "validate_artifact JNull = None"
  subgoal unfolding validate_artifact_def
    by (rule read_model [OF dump_artifact_def]) (simp_all add: rt req_def dflt_def guarded_def wf_artifact_def)
  subgoal by (simp add: dump_artifact_def rt wf_artifact_def)
  subgoal by (simp add: validate_artifact_def)
  done

record document_snapshot =
  ds_document_id :: "str"
  ds_filename :: "str"
  ds_format :: "document_format"
  ds_sha256 :: "str"
  ds_parser_name :: "str"
  ds_parser_version :: "str"
  ds_text :: "str"
  ds_units :: "text_unit list"
  ds_artifacts :: "artifact list"
  ds_metadata :: "dict"
  ds_normalized_sha256 :: "str option"

definition dump_document_snapshot :: "document_snapshot \<Rightarrow> json" where
  "dump_document_snapshot x = JObj
     [(u ''document_id'', JStr (ds_document_id x)),
      (u ''filename'', JStr (ds_filename x)),
      (u ''format'', d_enum document_format_value (ds_format x)),
      (u ''sha256'', JStr (ds_sha256 x)),
      (u ''parser_name'', JStr (ds_parser_name x)),
      (u ''parser_version'', JStr (ds_parser_version x)),
      (u ''text'', JStr (ds_text x)),
      (u ''units'', d_list dump_text_unit (ds_units x)),
      (u ''artifacts'', d_list dump_artifact (ds_artifacts x)),
      (u ''metadata'', d_dict (ds_metadata x)),
      (u ''normalized_sha256'', d_opt JStr (ds_normalized_sha256 x))]"

definition validate_document_snapshot :: "json \<Rightarrow> document_snapshot option" where
  "validate_document_snapshot = v_model
     [u ''document_id'', u ''filename'', u ''format'', u ''sha256'', u ''parser_name'', u ''parser_version'', u ''text'', u ''units'', u ''artifacts'', u ''metadata'', u ''normalized_sha256'']
     (\<lambda>m. do {
        document_id_v \<leftarrow> req m (u ''document_id'') (v_str);
        filename_v \<leftarrow> req m (u ''filename'') (v_str);
        format_v \<leftarrow> req m (u ''format'') (v_enum document_format_value all_document_format);
        sha256_v \<leftarrow> req m (u ''sha256'') (v_str);
        parser_name_v \<leftarrow> req m (u ''parser_name'') (v_str);
        parser_version_v \<leftarrow> req m (u ''parser_version'') (v_str);
        text_v \<leftarrow> req m (u ''text'') (v_str);
        units_v \<leftarrow> req m (u ''units'') (v_list validate_text_unit);
        artifacts_v \<leftarrow> dflt m (u ''artifacts'') [] (v_list validate_artifact);
        metadata_v \<leftarrow> dflt m (u ''metadata'') [] (v_dict);
        normalized_sha256_v \<leftarrow> dflt m (u ''normalized_sha256'') None (v_opt v_str);
        Some \<lparr>ds_document_id = document_id_v,
          ds_filename = filename_v,
          ds_format = format_v,
          ds_sha256 = sha256_v,
          ds_parser_name = parser_name_v,
          ds_parser_version = parser_version_v,
          ds_text = text_v,
          ds_units = units_v,
          ds_artifacts = artifacts_v,
          ds_metadata = metadata_v,
          ds_normalized_sha256 = normalized_sha256_v\<rparr>})"

definition wf_document_snapshot :: "document_snapshot \<Rightarrow> bool" where
  "wf_document_snapshot x \<longleftrightarrow> (\<forall>y\<in>set (ds_units x). wf_text_unit y) \<and>
     (\<forall>y\<in>set (ds_artifacts x). wf_artifact y) \<and>
     wf_dict (ds_metadata x)"

lemma rt_document_snapshot [rt]:
  "wf_document_snapshot x \<Longrightarrow> validate_document_snapshot (normalise (dump_document_snapshot x)) = Some x"
  "wf_document_snapshot x \<Longrightarrow> wf_json (dump_document_snapshot x)"
  "validate_document_snapshot JNull = None"
  subgoal unfolding validate_document_snapshot_def
    by (rule read_model [OF dump_document_snapshot_def]) (simp_all add: rt req_def dflt_def guarded_def wf_document_snapshot_def)
  subgoal by (simp add: dump_document_snapshot_def rt wf_document_snapshot_def)
  subgoal by (simp add: validate_document_snapshot_def)
  done

record document_change =
  dc_kind :: "change_kind"
  dc_before :: "str option"
  dc_after :: "str option"
  dc_before_locations :: "text_location list"
  dc_after_locations :: "text_location list"

definition dump_document_change :: "document_change \<Rightarrow> json" where
  "dump_document_change x = JObj
     [(u ''kind'', d_enum change_kind_value (dc_kind x)),
      (u ''before'', d_opt JStr (dc_before x)),
      (u ''after'', d_opt JStr (dc_after x)),
      (u ''before_locations'', d_list dump_text_location (dc_before_locations x)),
      (u ''after_locations'', d_list dump_text_location (dc_after_locations x))]"

definition validate_document_change :: "json \<Rightarrow> document_change option" where
  "validate_document_change = v_model
     [u ''kind'', u ''before'', u ''after'', u ''before_locations'', u ''after_locations'']
     (\<lambda>m. do {
        kind_v \<leftarrow> req m (u ''kind'') (v_enum change_kind_value all_change_kind);
        before_v \<leftarrow> dflt m (u ''before'') None (v_opt v_str);
        after_v \<leftarrow> dflt m (u ''after'') None (v_opt v_str);
        before_locations_v \<leftarrow> dflt m (u ''before_locations'') [] (v_list validate_text_location);
        after_locations_v \<leftarrow> dflt m (u ''after_locations'') [] (v_list validate_text_location);
        Some \<lparr>dc_kind = kind_v,
          dc_before = before_v,
          dc_after = after_v,
          dc_before_locations = before_locations_v,
          dc_after_locations = after_locations_v\<rparr>})"

definition wf_document_change :: "document_change \<Rightarrow> bool" where
  "wf_document_change x \<longleftrightarrow> (\<forall>y\<in>set (dc_before_locations x). wf_text_location y) \<and>
     (\<forall>y\<in>set (dc_after_locations x). wf_text_location y)"

lemma rt_document_change [rt]:
  "wf_document_change x \<Longrightarrow> validate_document_change (normalise (dump_document_change x)) = Some x"
  "wf_document_change x \<Longrightarrow> wf_json (dump_document_change x)"
  "validate_document_change JNull = None"
  subgoal unfolding validate_document_change_def
    by (rule read_model [OF dump_document_change_def]) (simp_all add: rt req_def dflt_def guarded_def wf_document_change_def)
  subgoal by (simp add: dump_document_change_def rt wf_document_change_def)
  subgoal by (simp add: validate_document_change_def)
  done

record numeric_change =
  nc_before :: "str list"
  nc_after :: "str list"
  nc_change_index :: "int"

definition dump_numeric_change :: "numeric_change \<Rightarrow> json" where
  "dump_numeric_change x = JObj
     [(u ''before'', d_list JStr (nc_before x)),
      (u ''after'', d_list JStr (nc_after x)),
      (u ''change_index'', JInt (nc_change_index x))]"

definition validate_numeric_change :: "json \<Rightarrow> numeric_change option" where
  "validate_numeric_change = v_model
     [u ''before'', u ''after'', u ''change_index'']
     (\<lambda>m. do {
        before_v \<leftarrow> dflt m (u ''before'') [] (v_list v_str);
        after_v \<leftarrow> dflt m (u ''after'') [] (v_list v_str);
        change_index_v \<leftarrow> req m (u ''change_index'') (v_int);
        Some \<lparr>nc_before = before_v,
          nc_after = after_v,
          nc_change_index = change_index_v\<rparr>})"

lemma rt_numeric_change [rt]:
  "validate_numeric_change (normalise (dump_numeric_change x)) = Some x"
  "wf_json (dump_numeric_change x)"
  "validate_numeric_change JNull = None"
  subgoal unfolding validate_numeric_change_def
    by (rule read_model [OF dump_numeric_change_def]) (simp_all add: rt req_def dflt_def guarded_def)
  subgoal by (simp add: dump_numeric_change_def rt)
  subgoal by (simp add: validate_numeric_change_def)
  done

record diff_report =
  dr_baseline_sha256 :: "str"
  dr_candidate_sha256 :: "str"
  dr_normalization_version :: "str"
  dr_changes :: "document_change list"
  dr_numeric_changes :: "numeric_change list"

definition dump_diff_report :: "diff_report \<Rightarrow> json" where
  "dump_diff_report x = JObj
     [(u ''baseline_sha256'', JStr (dr_baseline_sha256 x)),
      (u ''candidate_sha256'', JStr (dr_candidate_sha256 x)),
      (u ''normalization_version'', JStr (dr_normalization_version x)),
      (u ''changes'', d_list dump_document_change (dr_changes x)),
      (u ''numeric_changes'', d_list dump_numeric_change (dr_numeric_changes x))]"

definition validate_diff_report :: "json \<Rightarrow> diff_report option" where
  "validate_diff_report = v_model
     [u ''baseline_sha256'', u ''candidate_sha256'', u ''normalization_version'', u ''changes'', u ''numeric_changes'']
     (\<lambda>m. do {
        baseline_sha256_v \<leftarrow> req m (u ''baseline_sha256'') (v_str);
        candidate_sha256_v \<leftarrow> req m (u ''candidate_sha256'') (v_str);
        normalization_version_v \<leftarrow> req m (u ''normalization_version'') (v_str);
        changes_v \<leftarrow> req m (u ''changes'') (v_list validate_document_change);
        numeric_changes_v \<leftarrow> dflt m (u ''numeric_changes'') [] (v_list validate_numeric_change);
        Some \<lparr>dr_baseline_sha256 = baseline_sha256_v,
          dr_candidate_sha256 = candidate_sha256_v,
          dr_normalization_version = normalization_version_v,
          dr_changes = changes_v,
          dr_numeric_changes = numeric_changes_v\<rparr>})"

definition wf_diff_report :: "diff_report \<Rightarrow> bool" where
  "wf_diff_report x \<longleftrightarrow> (\<forall>y\<in>set (dr_changes x). wf_document_change y)"

lemma rt_diff_report [rt]:
  "wf_diff_report x \<Longrightarrow> validate_diff_report (normalise (dump_diff_report x)) = Some x"
  "wf_diff_report x \<Longrightarrow> wf_json (dump_diff_report x)"
  "validate_diff_report JNull = None"
  subgoal unfolding validate_diff_report_def
    by (rule read_model [OF dump_diff_report_def]) (simp_all add: rt req_def dflt_def guarded_def wf_diff_report_def)
  subgoal by (simp add: dump_diff_report_def rt wf_diff_report_def)
  subgoal by (simp add: validate_diff_report_def)
  done

record finding =
  fi_type :: "str"
  fi_before :: "str option"
  fi_after :: "str option"
  fi_reason :: "str"
  fi_severity :: "str option"
  fi_source :: "str option"
  fi_location :: "dict option"

definition dump_finding :: "finding \<Rightarrow> json" where
  "dump_finding x = JObj
     [(u ''type'', JStr (fi_type x)),
      (u ''before'', d_opt JStr (fi_before x)),
      (u ''after'', d_opt JStr (fi_after x)),
      (u ''reason'', JStr (fi_reason x)),
      (u ''severity'', d_opt JStr (fi_severity x)),
      (u ''source'', d_opt JStr (fi_source x)),
      (u ''location'', d_opt d_dict (fi_location x))]"

definition validate_finding :: "json \<Rightarrow> finding option" where
  "validate_finding = v_model
     [u ''type'', u ''before'', u ''after'', u ''reason'', u ''severity'', u ''source'', u ''location'']
     (\<lambda>m. do {
        type_v \<leftarrow> req m (u ''type'') (v_str);
        before_v \<leftarrow> dflt m (u ''before'') None (v_opt v_str);
        after_v \<leftarrow> dflt m (u ''after'') None (v_opt v_str);
        reason_v \<leftarrow> req m (u ''reason'') (v_str);
        severity_v \<leftarrow> dflt m (u ''severity'') None (v_opt v_str);
        source_v \<leftarrow> dflt m (u ''source'') None (v_opt v_str);
        location_v \<leftarrow> dflt m (u ''location'') None (v_opt v_dict);
        Some \<lparr>fi_type = type_v,
          fi_before = before_v,
          fi_after = after_v,
          fi_reason = reason_v,
          fi_severity = severity_v,
          fi_source = source_v,
          fi_location = location_v\<rparr>})"

definition wf_finding :: "finding \<Rightarrow> bool" where
  "wf_finding x \<longleftrightarrow> (\<forall>y\<in>set_option (fi_location x). wf_dict y)"

lemma rt_finding [rt]:
  "wf_finding x \<Longrightarrow> validate_finding (normalise (dump_finding x)) = Some x"
  "wf_finding x \<Longrightarrow> wf_json (dump_finding x)"
  "validate_finding JNull = None"
  subgoal unfolding validate_finding_def
    by (rule read_model [OF dump_finding_def]) (simp_all add: rt req_def dflt_def guarded_def wf_finding_def)
  subgoal by (simp add: dump_finding_def rt wf_finding_def)
  subgoal by (simp add: validate_finding_def)
  done

record policy_result =
  po_schema_version :: "str"
  po_analysis_status :: "analysis_status"
  po_decision :: "decision"
  po_risk_score :: "int"
  po_findings :: "finding list"
  po_index_action :: "index_action"
  po_candidate_sha256 :: "str option"

text \<open>\<^verbatim>\<open>PolicyResult.validate_safe_combination\<close>.\<close>

definition safe_combination :: "policy_result \<Rightarrow> bool" where
  "safe_combination x \<longleftrightarrow>
     (po_decision x, po_index_action x) \<in> {(ALLOW, INDEX), (REVIEW, HOLD), (BLOCK, QUARANTINE)} \<and>
     \<not> (po_analysis_status x = FAILED \<and> (po_decision x \<noteq> BLOCK \<or> po_index_action x \<noteq> QUARANTINE))"

definition dump_policy_result :: "policy_result \<Rightarrow> json" where
  "dump_policy_result x = JObj
     [(u ''schema_version'', JStr (po_schema_version x)),
      (u ''analysis_status'', d_enum analysis_status_value (po_analysis_status x)),
      (u ''decision'', d_enum decision_value (po_decision x)),
      (u ''risk_score'', JInt (po_risk_score x)),
      (u ''findings'', d_list dump_finding (po_findings x)),
      (u ''index_action'', d_enum index_action_value (po_index_action x)),
      (u ''candidate_sha256'', d_opt JStr (po_candidate_sha256 x))]"

definition check_policy_result :: "policy_result \<Rightarrow> bool" where
  "check_policy_result x \<longleftrightarrow> 0 \<le> po_risk_score x \<and> po_risk_score x \<le> 100 \<and> safe_combination x"

definition validate_policy_result :: "json \<Rightarrow> policy_result option" where
  "validate_policy_result = v_model
     [u ''schema_version'', u ''analysis_status'', u ''decision'', u ''risk_score'', u ''findings'', u ''index_action'', u ''candidate_sha256'']
     (\<lambda>m. do {
        schema_version_v \<leftarrow> dflt m (u ''schema_version'') (u ''0.1'') (v_str);
        analysis_status_v \<leftarrow> dflt m (u ''analysis_status'') COMPLETED (v_enum analysis_status_value all_analysis_status);
        decision_v \<leftarrow> req m (u ''decision'') (v_enum decision_value all_decision);
        risk_score_v \<leftarrow> req m (u ''risk_score'') (v_int);
        findings_v \<leftarrow> dflt m (u ''findings'') [] (v_list validate_finding);
        index_action_v \<leftarrow> req m (u ''index_action'') (v_enum index_action_value all_index_action);
        candidate_sha256_v \<leftarrow> dflt m (u ''candidate_sha256'') None (v_opt v_str);
        guarded check_policy_result
         \<lparr>po_schema_version = schema_version_v,
          po_analysis_status = analysis_status_v,
          po_decision = decision_v,
          po_risk_score = risk_score_v,
          po_findings = findings_v,
          po_index_action = index_action_v,
          po_candidate_sha256 = candidate_sha256_v\<rparr>})"

definition wf_policy_result :: "policy_result \<Rightarrow> bool" where
  "wf_policy_result x \<longleftrightarrow> (\<forall>y\<in>set (po_findings x). wf_finding y) \<and>
     check_policy_result x"

lemma rt_policy_result [rt]:
  "wf_policy_result x \<Longrightarrow> validate_policy_result (normalise (dump_policy_result x)) = Some x"
  "wf_policy_result x \<Longrightarrow> wf_json (dump_policy_result x)"
  "validate_policy_result JNull = None"
  subgoal unfolding validate_policy_result_def
    by (rule read_model [OF dump_policy_result_def]) (simp_all add: rt req_def dflt_def guarded_def wf_policy_result_def check_policy_result_def safe_combination_def)
  subgoal by (simp add: dump_policy_result_def rt wf_policy_result_def)
  subgoal by (simp add: validate_policy_result_def)
  done

record prepared_analysis =
  pa_analysis_id :: "str"
  pa_document_id :: "str"
  pa_baseline :: "document_snapshot"
  pa_candidate :: "document_snapshot"
  pa_diff :: "diff_report"
  pa_expected_current_sha256 :: "str option"
  pa_code_revision :: "str option"
  pa_version :: "int"
  pa_changed_by :: "str"
  pa_source_mtime_ns :: "int option"
  pa_prepared_at :: "str option"
  pa_analysis_attempt :: "int"
  pa_supersedes_analysis_id :: "str option"

definition dump_prepared_analysis :: "prepared_analysis \<Rightarrow> json" where
  "dump_prepared_analysis x = JObj
     [(u ''analysis_id'', JStr (pa_analysis_id x)),
      (u ''document_id'', JStr (pa_document_id x)),
      (u ''baseline'', dump_document_snapshot (pa_baseline x)),
      (u ''candidate'', dump_document_snapshot (pa_candidate x)),
      (u ''diff'', dump_diff_report (pa_diff x)),
      (u ''expected_current_sha256'', d_opt JStr (pa_expected_current_sha256 x)),
      (u ''code_revision'', d_opt JStr (pa_code_revision x)),
      (u ''version'', JInt (pa_version x)),
      (u ''changed_by'', JStr (pa_changed_by x)),
      (u ''source_mtime_ns'', d_opt JInt (pa_source_mtime_ns x)),
      (u ''prepared_at'', d_opt JStr (pa_prepared_at x)),
      (u ''analysis_attempt'', JInt (pa_analysis_attempt x)),
      (u ''supersedes_analysis_id'', d_opt JStr (pa_supersedes_analysis_id x))]"

definition check_prepared_analysis :: "prepared_analysis \<Rightarrow> bool" where
  "check_prepared_analysis x \<longleftrightarrow> 1 \<le> pa_version x \<and> 1 \<le> pa_analysis_attempt x \<and> (case pa_source_mtime_ns x of None \<Rightarrow> True | Some n \<Rightarrow> 0 \<le> n)"

definition validate_prepared_analysis :: "json \<Rightarrow> prepared_analysis option" where
  "validate_prepared_analysis = v_model
     [u ''analysis_id'', u ''document_id'', u ''baseline'', u ''candidate'', u ''diff'', u ''expected_current_sha256'', u ''code_revision'', u ''version'', u ''changed_by'', u ''source_mtime_ns'', u ''prepared_at'', u ''analysis_attempt'', u ''supersedes_analysis_id'']
     (\<lambda>m. do {
        analysis_id_v \<leftarrow> req m (u ''analysis_id'') (v_str);
        document_id_v \<leftarrow> req m (u ''document_id'') (v_str);
        baseline_v \<leftarrow> req m (u ''baseline'') (validate_document_snapshot);
        candidate_v \<leftarrow> req m (u ''candidate'') (validate_document_snapshot);
        diff_v \<leftarrow> req m (u ''diff'') (validate_diff_report);
        expected_current_sha256_v \<leftarrow> dflt m (u ''expected_current_sha256'') None (v_opt v_str);
        code_revision_v \<leftarrow> dflt m (u ''code_revision'') None (v_opt v_str);
        version_v \<leftarrow> dflt m (u ''version'') 1 (v_int);
        changed_by_v \<leftarrow> dflt m (u ''changed_by'') (u ''unknown'') (v_str);
        source_mtime_ns_v \<leftarrow> dflt m (u ''source_mtime_ns'') None (v_opt v_int);
        prepared_at_v \<leftarrow> dflt m (u ''prepared_at'') None (v_opt v_str);
        analysis_attempt_v \<leftarrow> dflt m (u ''analysis_attempt'') 1 (v_int);
        supersedes_analysis_id_v \<leftarrow> dflt m (u ''supersedes_analysis_id'') None (v_opt v_str);
        guarded check_prepared_analysis
         \<lparr>pa_analysis_id = analysis_id_v,
          pa_document_id = document_id_v,
          pa_baseline = baseline_v,
          pa_candidate = candidate_v,
          pa_diff = diff_v,
          pa_expected_current_sha256 = expected_current_sha256_v,
          pa_code_revision = code_revision_v,
          pa_version = version_v,
          pa_changed_by = changed_by_v,
          pa_source_mtime_ns = source_mtime_ns_v,
          pa_prepared_at = prepared_at_v,
          pa_analysis_attempt = analysis_attempt_v,
          pa_supersedes_analysis_id = supersedes_analysis_id_v\<rparr>})"

definition wf_prepared_analysis :: "prepared_analysis \<Rightarrow> bool" where
  "wf_prepared_analysis x \<longleftrightarrow> wf_document_snapshot (pa_baseline x) \<and>
     wf_document_snapshot (pa_candidate x) \<and>
     wf_diff_report (pa_diff x) \<and>
     check_prepared_analysis x"

lemma rt_prepared_analysis [rt]:
  "wf_prepared_analysis x \<Longrightarrow> validate_prepared_analysis (normalise (dump_prepared_analysis x)) = Some x"
  "wf_prepared_analysis x \<Longrightarrow> wf_json (dump_prepared_analysis x)"
  "validate_prepared_analysis JNull = None"
  subgoal unfolding validate_prepared_analysis_def
    by (rule read_model [OF dump_prepared_analysis_def]) (simp_all add: rt req_def dflt_def guarded_def wf_prepared_analysis_def check_prepared_analysis_def)
  subgoal by (simp add: dump_prepared_analysis_def rt wf_prepared_analysis_def)
  subgoal by (simp add: validate_prepared_analysis_def)
  done

record index_outcome =
  io_analysis_id :: "str"
  io_document_id :: "str"
  io_candidate_sha256 :: "str"
  io_indexed :: "bool"
  io_chunk_count :: "int"
  io_action :: "index_action"
  io_reason :: "str"

definition dump_index_outcome :: "index_outcome \<Rightarrow> json" where
  "dump_index_outcome x = JObj
     [(u ''analysis_id'', JStr (io_analysis_id x)),
      (u ''document_id'', JStr (io_document_id x)),
      (u ''candidate_sha256'', JStr (io_candidate_sha256 x)),
      (u ''indexed'', JBool (io_indexed x)),
      (u ''chunk_count'', JInt (io_chunk_count x)),
      (u ''action'', d_enum index_action_value (io_action x)),
      (u ''reason'', JStr (io_reason x))]"

definition check_index_outcome :: "index_outcome \<Rightarrow> bool" where
  "check_index_outcome x \<longleftrightarrow> 0 \<le> io_chunk_count x"

definition validate_index_outcome :: "json \<Rightarrow> index_outcome option" where
  "validate_index_outcome = v_model
     [u ''analysis_id'', u ''document_id'', u ''candidate_sha256'', u ''indexed'', u ''chunk_count'', u ''action'', u ''reason'']
     (\<lambda>m. do {
        analysis_id_v \<leftarrow> req m (u ''analysis_id'') (v_str);
        document_id_v \<leftarrow> req m (u ''document_id'') (v_str);
        candidate_sha256_v \<leftarrow> req m (u ''candidate_sha256'') (v_str);
        indexed_v \<leftarrow> req m (u ''indexed'') (v_bool);
        chunk_count_v \<leftarrow> req m (u ''chunk_count'') (v_int);
        action_v \<leftarrow> req m (u ''action'') (v_enum index_action_value all_index_action);
        reason_v \<leftarrow> req m (u ''reason'') (v_str);
        guarded check_index_outcome
         \<lparr>io_analysis_id = analysis_id_v,
          io_document_id = document_id_v,
          io_candidate_sha256 = candidate_sha256_v,
          io_indexed = indexed_v,
          io_chunk_count = chunk_count_v,
          io_action = action_v,
          io_reason = reason_v\<rparr>})"

definition wf_index_outcome :: "index_outcome \<Rightarrow> bool" where
  "wf_index_outcome x \<longleftrightarrow> check_index_outcome x"

lemma rt_index_outcome [rt]:
  "wf_index_outcome x \<Longrightarrow> validate_index_outcome (normalise (dump_index_outcome x)) = Some x"
  "wf_index_outcome x \<Longrightarrow> wf_json (dump_index_outcome x)"
  "validate_index_outcome JNull = None"
  subgoal unfolding validate_index_outcome_def
    by (rule read_model [OF dump_index_outcome_def]) (simp_all add: rt req_def dflt_def guarded_def wf_index_outcome_def check_index_outcome_def)
  subgoal by (simp add: dump_index_outcome_def rt wf_index_outcome_def)
  subgoal by (simp add: validate_index_outcome_def)
  done

record risk_analysis_request =
  rq_schema_version :: "str"
  rq_request_id :: "str"
  rq_analysis_id :: "str"
  rq_document_id :: "str"
  rq_version :: "int"
  rq_attempt :: "int"
  rq_requested_at :: "str"
  rq_changed_by :: "str"
  rq_baseline_sha256 :: "str"
  rq_candidate_sha256 :: "str"
  rq_baseline_normalized_sha256 :: "str"
  rq_candidate_normalized_sha256 :: "str"
  rq_before_text :: "str"
  rq_after_text :: "str"
  rq_diff :: "diff_report"
  rq_candidate_units :: "text_unit list"
  rq_candidate_artifacts :: "artifact list"

definition dump_risk_analysis_request :: "risk_analysis_request \<Rightarrow> json" where
  "dump_risk_analysis_request x = JObj
     [(u ''schema_version'', JStr (rq_schema_version x)),
      (u ''request_id'', JStr (rq_request_id x)),
      (u ''analysis_id'', JStr (rq_analysis_id x)),
      (u ''document_id'', JStr (rq_document_id x)),
      (u ''version'', JInt (rq_version x)),
      (u ''attempt'', JInt (rq_attempt x)),
      (u ''requested_at'', JStr (rq_requested_at x)),
      (u ''changed_by'', JStr (rq_changed_by x)),
      (u ''baseline_sha256'', JStr (rq_baseline_sha256 x)),
      (u ''candidate_sha256'', JStr (rq_candidate_sha256 x)),
      (u ''baseline_normalized_sha256'', JStr (rq_baseline_normalized_sha256 x)),
      (u ''candidate_normalized_sha256'', JStr (rq_candidate_normalized_sha256 x)),
      (u ''before_text'', JStr (rq_before_text x)),
      (u ''after_text'', JStr (rq_after_text x)),
      (u ''diff'', dump_diff_report (rq_diff x)),
      (u ''candidate_units'', d_list dump_text_unit (rq_candidate_units x)),
      (u ''candidate_artifacts'', d_list dump_artifact (rq_candidate_artifacts x))]"

definition check_risk_analysis_request :: "risk_analysis_request \<Rightarrow> bool" where
  "check_risk_analysis_request x \<longleftrightarrow> 1 \<le> rq_version x \<and> 1 \<le> rq_attempt x"

definition validate_risk_analysis_request :: "json \<Rightarrow> risk_analysis_request option" where
  "validate_risk_analysis_request = v_model
     [u ''schema_version'', u ''request_id'', u ''analysis_id'', u ''document_id'', u ''version'', u ''attempt'', u ''requested_at'', u ''changed_by'', u ''baseline_sha256'', u ''candidate_sha256'', u ''baseline_normalized_sha256'', u ''candidate_normalized_sha256'', u ''before_text'', u ''after_text'', u ''diff'', u ''candidate_units'', u ''candidate_artifacts'']
     (\<lambda>m. do {
        schema_version_v \<leftarrow> dflt m (u ''schema_version'') (u ''0.1'') (v_str);
        request_id_v \<leftarrow> req m (u ''request_id'') (v_str);
        analysis_id_v \<leftarrow> req m (u ''analysis_id'') (v_str);
        document_id_v \<leftarrow> req m (u ''document_id'') (v_str);
        version_v \<leftarrow> req m (u ''version'') (v_int);
        attempt_v \<leftarrow> req m (u ''attempt'') (v_int);
        requested_at_v \<leftarrow> req m (u ''requested_at'') (v_str);
        changed_by_v \<leftarrow> req m (u ''changed_by'') (v_str);
        baseline_sha256_v \<leftarrow> req m (u ''baseline_sha256'') (v_str);
        candidate_sha256_v \<leftarrow> req m (u ''candidate_sha256'') (v_str);
        baseline_normalized_sha256_v \<leftarrow> req m (u ''baseline_normalized_sha256'') (v_str);
        candidate_normalized_sha256_v \<leftarrow> req m (u ''candidate_normalized_sha256'') (v_str);
        before_text_v \<leftarrow> req m (u ''before_text'') (v_str);
        after_text_v \<leftarrow> req m (u ''after_text'') (v_str);
        diff_v \<leftarrow> req m (u ''diff'') (validate_diff_report);
        candidate_units_v \<leftarrow> dflt m (u ''candidate_units'') [] (v_list validate_text_unit);
        candidate_artifacts_v \<leftarrow> dflt m (u ''candidate_artifacts'') [] (v_list validate_artifact);
        guarded check_risk_analysis_request
         \<lparr>rq_schema_version = schema_version_v,
          rq_request_id = request_id_v,
          rq_analysis_id = analysis_id_v,
          rq_document_id = document_id_v,
          rq_version = version_v,
          rq_attempt = attempt_v,
          rq_requested_at = requested_at_v,
          rq_changed_by = changed_by_v,
          rq_baseline_sha256 = baseline_sha256_v,
          rq_candidate_sha256 = candidate_sha256_v,
          rq_baseline_normalized_sha256 = baseline_normalized_sha256_v,
          rq_candidate_normalized_sha256 = candidate_normalized_sha256_v,
          rq_before_text = before_text_v,
          rq_after_text = after_text_v,
          rq_diff = diff_v,
          rq_candidate_units = candidate_units_v,
          rq_candidate_artifacts = candidate_artifacts_v\<rparr>})"

definition wf_risk_analysis_request :: "risk_analysis_request \<Rightarrow> bool" where
  "wf_risk_analysis_request x \<longleftrightarrow> wf_diff_report (rq_diff x) \<and>
     (\<forall>y\<in>set (rq_candidate_units x). wf_text_unit y) \<and>
     (\<forall>y\<in>set (rq_candidate_artifacts x). wf_artifact y) \<and>
     check_risk_analysis_request x"

lemma rt_risk_analysis_request [rt]:
  "wf_risk_analysis_request x \<Longrightarrow> validate_risk_analysis_request (normalise (dump_risk_analysis_request x)) = Some x"
  "wf_risk_analysis_request x \<Longrightarrow> wf_json (dump_risk_analysis_request x)"
  "validate_risk_analysis_request JNull = None"
  subgoal unfolding validate_risk_analysis_request_def
    by (rule read_model [OF dump_risk_analysis_request_def]) (simp_all add: rt req_def dflt_def guarded_def wf_risk_analysis_request_def check_risk_analysis_request_def)
  subgoal by (simp add: dump_risk_analysis_request_def rt wf_risk_analysis_request_def)
  subgoal by (simp add: validate_risk_analysis_request_def)
  done

record policy_submission =
  sb_request_id :: "str"
  sb_submitted_by :: "str"
  sb_policy :: "policy_result"

definition dump_policy_submission :: "policy_submission \<Rightarrow> json" where
  "dump_policy_submission x = JObj
     [(u ''request_id'', JStr (sb_request_id x)),
      (u ''submitted_by'', JStr (sb_submitted_by x)),
      (u ''policy'', dump_policy_result (sb_policy x))]"

definition check_policy_submission :: "policy_submission \<Rightarrow> bool" where
  "check_policy_submission x \<longleftrightarrow> 1 \<le> length (sb_submitted_by x) \<and> length (sb_submitted_by x) \<le> 200"

definition validate_policy_submission :: "json \<Rightarrow> policy_submission option" where
  "validate_policy_submission = v_model
     [u ''request_id'', u ''submitted_by'', u ''policy'']
     (\<lambda>m. do {
        request_id_v \<leftarrow> req m (u ''request_id'') (v_str);
        submitted_by_v \<leftarrow> req m (u ''submitted_by'') (v_str);
        policy_v \<leftarrow> req m (u ''policy'') (validate_policy_result);
        guarded check_policy_submission
         \<lparr>sb_request_id = request_id_v,
          sb_submitted_by = submitted_by_v,
          sb_policy = policy_v\<rparr>})"

definition wf_policy_submission :: "policy_submission \<Rightarrow> bool" where
  "wf_policy_submission x \<longleftrightarrow> wf_policy_result (sb_policy x) \<and>
     check_policy_submission x"

lemma rt_policy_submission [rt]:
  "wf_policy_submission x \<Longrightarrow> validate_policy_submission (normalise (dump_policy_submission x)) = Some x"
  "wf_policy_submission x \<Longrightarrow> wf_json (dump_policy_submission x)"
  "validate_policy_submission JNull = None"
  subgoal unfolding validate_policy_submission_def
    by (rule read_model [OF dump_policy_submission_def]) (simp_all add: rt req_def dflt_def guarded_def wf_policy_submission_def check_policy_submission_def)
  subgoal by (simp add: dump_policy_submission_def rt wf_policy_submission_def)
  subgoal by (simp add: validate_policy_submission_def)
  done

record operator_command =
  oc_action :: "operator_action"
  oc_actor :: "str"
  oc_reason :: "str"
  oc_idempotency_key :: "str"
  oc_expected_candidate_sha256 :: "str"

definition dump_operator_command :: "operator_command \<Rightarrow> json" where
  "dump_operator_command x = JObj
     [(u ''action'', d_enum operator_action_value (oc_action x)),
      (u ''actor'', JStr (oc_actor x)),
      (u ''reason'', JStr (oc_reason x)),
      (u ''idempotency_key'', JStr (oc_idempotency_key x)),
      (u ''expected_candidate_sha256'', JStr (oc_expected_candidate_sha256 x))]"

definition check_operator_command :: "operator_command \<Rightarrow> bool" where
  "check_operator_command x \<longleftrightarrow> 1 \<le> length (oc_actor x) \<and> length (oc_actor x) \<le> 200 \<and> 1 \<le> length (oc_reason x) \<and> length (oc_reason x) \<le> 1000 \<and> 8 \<le> length (oc_idempotency_key x) \<and> length (oc_idempotency_key x) \<le> 200"

definition validate_operator_command :: "json \<Rightarrow> operator_command option" where
  "validate_operator_command = v_model
     [u ''action'', u ''actor'', u ''reason'', u ''idempotency_key'', u ''expected_candidate_sha256'']
     (\<lambda>m. do {
        action_v \<leftarrow> req m (u ''action'') (v_enum operator_action_value all_operator_action);
        actor_v \<leftarrow> req m (u ''actor'') (v_str);
        reason_v \<leftarrow> req m (u ''reason'') (v_str);
        idempotency_key_v \<leftarrow> req m (u ''idempotency_key'') (v_str);
        expected_candidate_sha256_v \<leftarrow> req m (u ''expected_candidate_sha256'') (v_str);
        guarded check_operator_command
         \<lparr>oc_action = action_v,
          oc_actor = actor_v,
          oc_reason = reason_v,
          oc_idempotency_key = idempotency_key_v,
          oc_expected_candidate_sha256 = expected_candidate_sha256_v\<rparr>})"

definition wf_operator_command :: "operator_command \<Rightarrow> bool" where
  "wf_operator_command x \<longleftrightarrow> check_operator_command x"

lemma rt_operator_command [rt]:
  "wf_operator_command x \<Longrightarrow> validate_operator_command (normalise (dump_operator_command x)) = Some x"
  "wf_operator_command x \<Longrightarrow> wf_json (dump_operator_command x)"
  "validate_operator_command JNull = None"
  subgoal unfolding validate_operator_command_def
    by (rule read_model [OF dump_operator_command_def]) (simp_all add: rt req_def dflt_def guarded_def wf_operator_command_def check_operator_command_def)
  subgoal by (simp add: dump_operator_command_def rt wf_operator_command_def)
  subgoal by (simp add: validate_operator_command_def)
  done

section \<open>Responses\<close>

text \<open>
  The remaining classes are only built, never read back, so they have a record and a
  constructor check.  A search score is a sum of occurrence counts; it is kept as the natural
  number the code converts to a float.
\<close>

definition is_sha256_hex :: "str \<Rightarrow> bool" where
  "is_sha256_hex s \<longleftrightarrow> length s = 64 \<and> (\<forall>c\<in>set s. (48 \<le> c \<and> c \<le> 57) \<or> (97 \<le> c \<and> c \<le> 102))"

definition length_between :: "nat \<Rightarrow> nat \<Rightarrow> str \<Rightarrow> bool" where
  "length_between lo hi s \<longleftrightarrow> lo \<le> length s \<and> length s \<le> hi"

record index_search_hit =
  ih_document_id :: str
  ih_sha256 :: str
  ih_chunk_index :: nat
  ih_text :: str
  ih_score :: nat

definition check_index_search_hit :: "index_search_hit \<Rightarrow> bool" where
  "check_index_search_hit h \<longleftrightarrow> length_between 1 200 (ih_document_id h) \<and> is_sha256_hex (ih_sha256 h) \<and>
     length_between 1 16000 (ih_text h) \<and> 0 < ih_score h"

record current_index_view =
  cv_document_id :: str
  cv_sha256 :: "str option"

definition check_current_index_view :: "current_index_view \<Rightarrow> bool" where
  "check_current_index_view v \<longleftrightarrow> length_between 1 200 (cv_document_id v) \<and>
     (\<forall>s\<in>set_option (cv_sha256 v). is_sha256_hex s)"

record index_search_response =
  sr_query :: str
  sr_document_id :: "str option"
  sr_current_sha256 :: "str option"
  sr_results :: "index_search_hit list"

text \<open>\<^verbatim>\<open>IndexSearchResponse.validate_index_generation\<close>.\<close>

definition validate_index_generation :: "index_search_response \<Rightarrow> bool" where
  "validate_index_generation r \<longleftrightarrow>
     (case sr_document_id r of
        None \<Rightarrow> sr_current_sha256 r = None
      | Some d \<Rightarrow>
          \<not> (sr_results r \<noteq> [] \<and> sr_current_sha256 r = None) \<and>
          \<not> list_ex (\<lambda>h. ih_document_id h \<noteq> d) (sr_results r) \<and>
          \<not> list_ex (\<lambda>h. Some (ih_sha256 h) \<noteq> sr_current_sha256 r) (sr_results r)) \<and>
     length (remdups (map (\<lambda>h. (ih_document_id h, ih_sha256 h, ih_chunk_index h)) (sr_results r)))
       = length (sr_results r)"

definition check_index_search_response :: "index_search_response \<Rightarrow> bool" where
  "check_index_search_response r \<longleftrightarrow>
     length_between 1 2000 (sr_query r) \<and>
     (\<forall>d\<in>set_option (sr_document_id r). length_between 1 200 d) \<and>
     (\<forall>s\<in>set_option (sr_current_sha256 r). is_sha256_hex s) \<and>
     length (sr_results r) \<le> 50 \<and> validate_index_generation r"

record analysis_status_view =
  av_analysis_id :: str
  av_document_id :: str
  av_version :: int
  av_attempt :: int
  av_state :: workflow_state
  av_candidate_sha256 :: str
  av_changed_by :: str
  av_prepared_at :: "str option"
  av_latest_request_id :: "str option"
  av_latest_policy :: "policy_result option"
  av_latest_outcome :: "index_outcome option"
  av_allowed_commands :: "operator_action list"
  av_audit_chain_valid :: bool
  av_supersedes_analysis_id :: "str option"

record operator_command_result =
  cr_command :: operator_command
  cr_status :: analysis_status_view
  cr_outcome :: "index_outcome option"
  cr_replacement_analysis_id :: "str option"
  cr_idempotent_replay :: bool

section \<open>Strictness of decisions\<close>

text \<open>\<open>ALLOW < REVIEW < BLOCK\<close>.\<close>

fun strictness :: "decision \<Rightarrow> nat" where
  "strictness ALLOW = 0"
| "strictness REVIEW = 1"
| "strictness BLOCK = 2"

instantiation decision :: linorder
begin

definition less_eq_decision :: "decision \<Rightarrow> decision \<Rightarrow> bool" where
  "less_eq_decision a b \<longleftrightarrow> strictness a \<le> strictness b"

definition less_decision :: "decision \<Rightarrow> decision \<Rightarrow> bool" where
  "less_decision a b \<longleftrightarrow> strictness a < strictness b"

instance
proof
  fix a b :: decision
  show "a \<le> b \<Longrightarrow> b \<le> a \<Longrightarrow> a = b"
    by (cases a; cases b) (simp_all add: less_eq_decision_def)
qed (auto simp: less_eq_decision_def less_decision_def)

end

section \<open>The environment\<close>

text \<open>
  What the components take from outside: the Unicode tables, SHA-256 of a text's UTF-8 bytes
  and of bytes (hexadecimal), the clock and the UUID generator (the \<open>n\<close>-th reading of each; a
  clock reading has the ISO text the stores write and the JSON text of the datetime), and the code revision.  No
  theorem assumes that hashes are injective: where one rests on SHA-256 it names the collision.
\<close>

record env =
  en_udb :: unicode_db
  en_sha_text :: "str \<Rightarrow> str"
  en_sha_bytes :: "nat list \<Rightarrow> str"
  en_now :: "nat \<Rightarrow> str"
  en_datetime :: "nat \<Rightarrow> str"
  en_uuid :: "nat \<Rightarrow> str"
  en_code_revision :: "str option"
  en_error_text :: "err \<Rightarrow> str"

definition hash_canonical :: "env \<Rightarrow> json \<Rightarrow> str" where
  "hash_canonical E j = en_sha_text E (canonical_json j)"

text \<open>Two different texts with one digest.\<close>

definition text_collision :: "env \<Rightarrow> bool" where
  "text_collision E \<longleftrightarrow> (\<exists>x y. x \<noteq> y \<and> en_sha_text E x = en_sha_text E y)"

lemma hash_canonical_eq:
  "\<lbrakk>wf_json a; wf_json b; hash_canonical E a = hash_canonical E b\<rbrakk> \<Longrightarrow>
   normalise a = normalise b \<or> text_collision E"
  unfolding hash_canonical_def text_collision_def using canonical_json_inj by metis

section \<open>Properties\<close>

text \<open>C25: A prepared analysis written as canonical JSON and read back through the model validators
  is the analysis that was written, with all its snapshots, units, artifacts and changes.\<close>

theorem prepared_analysis_roundtrip:
  "wf_prepared_analysis p \<Longrightarrow>
   Option.bind (json_loads (canonical_json (dump_prepared_analysis p))) validate_prepared_analysis = Some p"
  by (simp add: json_loads_canonical rt)

definition sample_snapshot :: "str \<Rightarrow> str \<Rightarrow> document_snapshot" where
  "sample_snapshot sha text =
     \<lparr>ds_document_id = u ''doc'', ds_filename = u ''doc.md'', ds_format = MARKDOWN, ds_sha256 = sha,
      ds_parser_name = u ''markdown'', ds_parser_version = u ''1'', ds_text = text, ds_units = [],
      ds_artifacts = [\<lparr>ar_type = u ''link'', ar_reason = u ''external'', ar_path = None, ar_location = None,
         ar_metadata = [(u ''size'', JInt 3)]\<rparr>],
      ds_metadata = [], ds_normalized_sha256 = None\<rparr>"

lemma sample_snapshot_sel: "ds_document_id (sample_snapshot sha text) = u ''doc''"
  "ds_sha256 (sample_snapshot sha text) = sha" "ds_text (sample_snapshot sha text) = text"
  by (simp_all add: sample_snapshot_def)

definition sample_prepared :: prepared_analysis where
  "sample_prepared =
     \<lparr>pa_analysis_id = u ''anl_1'', pa_document_id = u ''doc'',
      pa_baseline = sample_snapshot (u ''b0'') (u ''old''), pa_candidate = sample_snapshot (u ''c0'') (u ''new''),
      pa_diff = \<lparr>dr_baseline_sha256 = u ''b0'', dr_candidate_sha256 = u ''c0'', dr_normalization_version = u ''1'',
         dr_changes = [\<lparr>dc_kind = REPLACE, dc_before = Some (u ''old''), dc_after = Some (u ''new''),
            dc_before_locations = [], dc_after_locations = []\<rparr>], dr_numeric_changes = []\<rparr>,
      pa_expected_current_sha256 = None, pa_code_revision = None, pa_version = 1, pa_changed_by = u ''alice'',
      pa_source_mtime_ns = None, pa_prepared_at = None, pa_analysis_attempt = 1, pa_supersedes_analysis_id = None\<rparr>"

lemma wf_sample_prepared: "wf_prepared_analysis sample_prepared"
  by (simp add: sample_prepared_def sample_snapshot_def wf_prepared_analysis_def wf_document_snapshot_def
      wf_artifact_def wf_dict_def wf_diff_report_def wf_document_change_def check_prepared_analysis_def)

lemma prepared_analysis_roundtrip_witness:
  "Option.bind (json_loads (canonical_json (dump_prepared_analysis sample_prepared))) validate_prepared_analysis
     = Some sample_prepared"
  by (rule prepared_analysis_roundtrip [OF wf_sample_prepared])

text \<open>A policy result that passes validation is one of ALLOW + INDEX, REVIEW + HOLD and
  BLOCK + QUARANTINE, a failed analysis is BLOCK + QUARANTINE, and its score is in 0..100.\<close>

lemma validated_policy_safe:
  "validate_policy_result j = Some p \<Longrightarrow>
   (po_decision p, po_index_action p) \<in> {(ALLOW, INDEX), (REVIEW, HOLD), (BLOCK, QUARANTINE)} \<and>
   (po_analysis_status p \<noteq> FAILED \<or> (po_decision p = BLOCK \<and> po_index_action p = QUARANTINE)) \<and>
   0 \<le> po_risk_score p \<and> po_risk_score p \<le> 100"
  unfolding validate_policy_result_def
  by (cases j) (auto simp: guarded_def check_policy_result_def safe_combination_def
      split: if_splits bind_splits)

text \<open>A concrete environment for the witnesses: the digest of a text is the text.\<close>

definition sample_env :: env where
  "sample_env = \<lparr>en_udb = ascii_db, en_sha_text = (\<lambda>s. s), en_sha_bytes = (\<lambda>s. s),
     en_now = (\<lambda>n. u ''T'' @ show_nat n), en_datetime = (\<lambda>n. u ''D'' @ show_nat n @ u ''Z''),
     en_uuid = show_nat, en_code_revision = None, en_error_text = exn_name\<rparr>"

lemma sample_env_no_collision: "\<not> text_collision sample_env"
  by (simp add: text_collision_def sample_env_def)

definition sample_policy :: "decision \<Rightarrow> index_action \<Rightarrow> str \<Rightarrow> policy_result" where
  "sample_policy d a sha =
     \<lparr>po_schema_version = u ''0.1'', po_analysis_status = COMPLETED, po_decision = d, po_risk_score = 0,
      po_findings = [], po_index_action = a, po_candidate_sha256 = Some sha\<rparr>"

lemma wf_sample_policy: "wf_policy_result (sample_policy ALLOW INDEX sha)"
  by (simp add: sample_policy_def wf_policy_result_def check_policy_result_def safe_combination_def)

lemma validated_policy_safe_witness:
  "po_risk_score (sample_policy ALLOW INDEX (u ''c0'')) \<le> 100"
  using validated_policy_safe [OF rt_policy_result(1) [OF wf_sample_policy]] by blast

end
