(* ===== verification/Indexer.thy ===== *)
theory Indexer
  imports Contracts "HOL-Library.Product_Lexorder"
begin

text \<open>
  The transactional RAG index of \<^verbatim>\<open>src/indexguard/rag/indexer.py\<close>: the tables of
  \<^verbatim>\<open>SqliteIndexer\<close> as lists of rows, the chunk splitter, the two write operations, the
  readers and the lexical search.  A write runs in a transaction that may be struck by a
  database error: the store carries a script of such faults and each transaction consumes one
  entry, so that the error branches of the callers are reachable.  The locale
  \<open>indexer_contract\<close> is the Indexer protocol the gate relies on; it is interpreted on the
  tables.
\<close>

section \<open>Splitting a text into chunks\<close>

text \<open>\<^verbatim>\<open>s.rfind(c, lo, hi)\<close> for one character and \<open>hi \<le> length s\<close>.\<close>

fun rfind :: "nat \<Rightarrow> str \<Rightarrow> nat \<Rightarrow> nat \<Rightarrow> int" where
  "rfind c s lo hi =
     (if hi \<le> lo then -1
      else if s ! (hi - 1) = c then int (hi - 1) else rfind c s lo (hi - 1))"

declare rfind.simps [simp del]

definition slice :: "str \<Rightarrow> nat \<Rightarrow> nat \<Rightarrow> str" where
  "slice s a e = take (e - a) (drop a s)"

definition chunk_end :: "nat \<Rightarrow> str \<Rightarrow> nat \<Rightarrow> nat" where
  "chunk_end csize s start =
     (let e = min (start + csize) (length s) in
      if e < length s
      then (let search_floor = start + csize div 2;
                newline = rfind 10 s search_floor e;
                space = rfind 32 s search_floor e;
                boundary = max newline space
            in if boundary > int start then nat boundary else e)
      else e)"

text \<open>
  The loop of \<^verbatim>\<open>split_text\<close>, one unit of fuel per iteration; \<open>None\<close> means the fuel
  ran out, which \<open>chunk_loop_total\<close> excludes for the sizes the constructor admits.
\<close>

fun chunk_loop :: "nat \<Rightarrow> nat \<Rightarrow> nat \<Rightarrow> str \<Rightarrow> nat \<Rightarrow> str list option" where
  "chunk_loop 0 csize overlap s start = None"
| "chunk_loop (Suc n) csize overlap s start =
     (if start < length s
      then (let e = chunk_end csize s start;
                chunk = strip (slice s start e);
                next_start = e - overlap;
                rest = (if e \<ge> length s then Some []
                        else chunk_loop n csize overlap s (if next_start > start then next_start else e))
            in if chunk \<noteq> [] then map_option ((#) chunk) rest else rest)
      else Some [])"

definition normalized_body :: "str \<Rightarrow> str" where
  "normalized_body text = strip (join [10] (map strip (splitlines text)))"

definition split_text :: "nat \<Rightarrow> nat \<Rightarrow> str \<Rightarrow> str list" where
  "split_text csize overlap text =
     (let normalized = normalized_body text in
      if normalized = [] then []
      else (case chunk_loop (Suc (length normalized)) csize overlap normalized 0 of
              Some cs \<Rightarrow> cs | None \<Rightarrow> []))"

lemma rfind_bounds: "rfind c s lo hi = -1 \<or> (int lo \<le> rfind c s lo hi \<and> rfind c s lo hi < int hi)"
proof (induction c s lo hi rule: rfind.induct)
  case (1 c s lo hi)
  then show ?case by (subst (1 2 3) rfind.simps) auto
qed

lemma chunk_end_bounds:
  assumes "start < length s" "0 < csize"
  shows "start < chunk_end csize s start" "chunk_end csize s start \<le> length s"
    "chunk_end csize s start \<le> start + csize"
proof -
  define e where "e = min (start + csize) (length s)"
  define b where "b = max (rfind 10 s (start + csize div 2) e) (rfind 32 s (start + csize div 2) e)"
  have b: "b < int e"
    using rfind_bounds[of 10 s "start + csize div 2" e] rfind_bounds[of 32 s "start + csize div 2" e]
    unfolding b_def by linarith
  have e: "start < e" "e \<le> length s" "e \<le> start + csize" using assms by (auto simp: e_def)
  have ce: "chunk_end csize s start = (if e < length s then (if b > int start then nat b else e) else e)"
    by (simp add: chunk_end_def Let_def e_def b_def)
  show "start < chunk_end csize s start" "chunk_end csize s start \<le> length s"
    "chunk_end csize s start \<le> start + csize"
    unfolding ce using b e by (simp_all, linarith+)
qed

lemma chunk_loop_total:
  "\<lbrakk>0 < csize; length s - start < n\<rbrakk> \<Longrightarrow> \<exists>cs. chunk_loop n csize overlap s start = Some cs"
proof (induction n arbitrary: start)
  case 0
  then show ?case by simp
next
  case (Suc n)
  show ?case
  proof (cases "start < length s")
    case True
    let ?e = "chunk_end csize s start"
    let ?nx = "if ?e - overlap > start then ?e - overlap else ?e"
    have "start < ?nx" using chunk_end_bounds[OF True Suc.prems(1)] by auto
    then have "\<exists>cs. chunk_loop n csize overlap s ?nx = Some cs"
      using True Suc.prems by (intro Suc.IH) auto
    with True show ?thesis by (auto simp: Let_def)
  qed simp
qed

lemma chunk_loop_chunks:
  "\<lbrakk>chunk_loop n csize overlap s start = Some cs; 0 < csize; c \<in> set cs\<rbrakk> \<Longrightarrow>
   \<exists>a e. c = strip (slice s a e) \<and> c \<noteq> [] \<and> e \<le> a + csize"
proof (induction n arbitrary: start cs)
  case 0
  then show ?case by simp
next
  case (Suc n)
  show ?case
  proof (cases "start < length s")
    case True
    with Suc show ?thesis
      using chunk_end_bounds[OF True Suc.prems(2)]
      by (fastforce simp: Let_def split: if_splits)
  next
    case False
    with Suc show ?thesis by simp
  qed
qed

lemma chunk_loop_covers:
  "\<lbrakk>chunk_loop n csize overlap s start = Some cs; 0 < csize;
    start \<le> i; i < length s; \<not> is_space (s ! i)\<rbrakk> \<Longrightarrow>
   \<exists>a e. a \<le> i \<and> i < e \<and> e \<le> length s \<and> e \<le> a + csize \<and> strip (slice s a e) \<in> set cs"
proof (induction n arbitrary: start cs)
  case 0
  then show ?case by simp
next
  case (Suc n)
  have True: "start < length s" using Suc.prems by simp
  let ?e = "chunk_end csize s start"
  let ?nx = "if ?e - overlap > start then ?e - overlap else ?e"
  note b = chunk_end_bounds[OF True Suc.prems(2)]
  show ?case
  proof (cases "i < ?e")
    case inside: True
    have "s ! i \<in> set (slice s start ?e)"
      unfolding slice_def using inside Suc.prems(3,4) b
      by (auto simp: in_set_conv_nth intro!: exI[of _ "i - start"])
    then have "strip (slice s start ?e) \<noteq> []"
      using Suc.prems(5) by (auto simp: strip_eq_Nil_iff)
    with Suc.prems(1) True have "strip (slice s start ?e) \<in> set cs"
      by (auto simp: Let_def split: if_splits)
    with inside Suc.prems(3) b show ?thesis by blast
  next
    case outside: False
    then have "\<not> ?e \<ge> length s" using Suc.prems(4) by simp
    then have "\<exists>rest. chunk_loop n csize overlap s ?nx = Some rest \<and> set rest \<subseteq> set cs"
      using Suc.prems(1) True by (auto simp: Let_def split: if_splits)
    then obtain rest where "chunk_loop n csize overlap s ?nx = Some rest" "set rest \<subseteq> set cs"
      by blast
    moreover have "?nx \<le> i" using outside by auto
    ultimately show ?thesis using Suc.IH[of ?nx rest] Suc.prems(2,4,5) by blast
  qed
qed

lemma length_slice_le: "length (slice s a e) \<le> e - a"
  by (simp add: slice_def)

section \<open>The tables\<close>

record index_doc =
  id_document_id :: str
  id_sha256 :: str
  id_indexed_at :: str
  id_text_sha256 :: str
  id_chunk_count :: nat
  id_metadata_json :: str
  id_is_current :: bool

record index_chunk =
  ic_document_id :: str
  ic_sha256 :: str
  ic_chunk_index :: nat
  ic_text :: str

record index_store =
  ix_chunk_size :: nat
  ix_chunk_overlap :: nat
  ix_docs :: "index_doc list"
  ix_chunks :: "index_chunk list"
  ix_clock :: nat
  ix_faults :: "err option list"

record index_receipt =
  rc_document_id :: str
  rc_sha256 :: str
  rc_chunk_count :: nat
  rc_indexed_at :: str

definition doc_key :: "index_doc \<Rightarrow> str \<times> str" where
  "doc_key r = (id_document_id r, id_sha256 r)"

definition chunk_key :: "index_chunk \<Rightarrow> str \<times> str" where
  "chunk_key c = (ic_document_id c, ic_sha256 c)"

text \<open>The constructor \<^verbatim>\<open>SqliteIndexer(db_path, chunk_size, chunk_overlap)\<close> on a new file.\<close>

definition sqlite_indexer_init :: "int \<Rightarrow> int \<Rightarrow> err option list \<Rightarrow> index_store res" where
  "sqlite_indexer_init chunk_size chunk_overlap faults =
     (if chunk_size \<le> 0 then Inl ValueError
      else if chunk_overlap < 0 \<or> chunk_overlap \<ge> chunk_size then Inl ValueError
      else Inr \<lparr>ix_chunk_size = nat chunk_size, ix_chunk_overlap = nat chunk_overlap,
                ix_docs = [], ix_chunks = [], ix_clock = 0, ix_faults = faults\<rparr>)"

text \<open>
  \<^verbatim>\<open>BEGIN IMMEDIATE ... commit()\<close> with \<^verbatim>\<open>rollback()\<close> on any exception: the tables of an
  aborted transaction are the ones before it.
\<close>

definition ix_transaction :: "(index_store, 'a) op \<Rightarrow> (index_store, 'a) op" where
  "ix_transaction body st =
     (let st0 = st\<lparr>ix_faults := tl (ix_faults st)\<rparr> in
      case (if ix_faults st = [] then None else hd (ix_faults st)) of
        Some e \<Rightarrow> (Inl e, st0)
      | None \<Rightarrow> (case body st0 of
                   (Inl e, t) \<Rightarrow> (Inl e, st0)
                 | (Inr x, t) \<Rightarrow> (Inr x, t)))"

section \<open>Writing\<close>

definition current_row :: "index_store \<Rightarrow> str \<Rightarrow> index_doc option" where
  "current_row st d = find (\<lambda>r. id_document_id r = d \<and> id_is_current r) (ix_docs st)"

definition current_sha :: "index_store \<Rightarrow> str \<Rightarrow> str option" where
  "current_sha st d = map_option id_sha256 (current_row st d)"

definition clear_current :: "str \<Rightarrow> index_doc list \<Rightarrow> index_doc list" where
  "clear_current d = map (\<lambda>r. if id_document_id r = d \<and> id_is_current r then r\<lparr>id_is_current := False\<rparr> else r)"

text \<open>\<^verbatim>\<open>INSERT ... ON CONFLICT(document_id, sha256) DO UPDATE\<close>: the new row takes the place of
  the one with its key.\<close>

definition upsert_doc :: "index_doc \<Rightarrow> index_doc list \<Rightarrow> index_doc list" where
  "upsert_doc new docs =
     (if doc_key new \<in> set (map doc_key docs)
      then map (\<lambda>r. if doc_key r = doc_key new then new else r) docs
      else docs @ [new])"

definition write_chunks :: "document_snapshot \<Rightarrow> str list \<Rightarrow> index_chunk list" where
  "write_chunks snapshot chunks =
     map (\<lambda>(i, text). \<lparr>ic_document_id = ds_document_id snapshot, ic_sha256 = ds_sha256 snapshot,
                         ic_chunk_index = i, ic_text = text\<rparr>) (enumerate 0 chunks)"

definition index_metadata :: "document_snapshot \<Rightarrow> json" where
  "index_metadata snapshot = JObj
     [(u ''filename'', JStr (ds_filename snapshot)),
      (u ''format'', d_enum document_format_value (ds_format snapshot)),
      (u ''parser_name'', JStr (ds_parser_name snapshot)),
      (u ''parser_version'', JStr (ds_parser_version snapshot)),
      (u ''normalized_sha256'', d_opt JStr (ds_normalized_sha256 snapshot))]"

text \<open>
  \<^verbatim>\<open>index_atomic\<close>.  \<open>expected\<close> is \<open>None\<close> when the keyword argument is left unset and
  \<open>Some e\<close> when the caller expects the current version \<open>e\<close>, itself possibly none.
\<close>

definition index_atomic ::
  "env \<Rightarrow> document_snapshot \<Rightarrow> str option option \<Rightarrow> (index_store, index_receipt) op" where
  "index_atomic E snapshot expected st =
     (let chunks = split_text (ix_chunk_size st) (ix_chunk_overlap st) (ds_text snapshot) in
      if chunks = [] then (Inl ValueError, st)
      else
        let indexed_at = en_now E (ix_clock st);
            d = ds_document_id snapshot;
            key = (d, ds_sha256 snapshot);
            row = \<lparr>id_document_id = d, id_sha256 = ds_sha256 snapshot, id_indexed_at = indexed_at,
                   id_text_sha256 = en_sha_text E (ds_text snapshot),
                   id_chunk_count = length chunks,
                   id_metadata_json = canonical_json (index_metadata snapshot),
                   id_is_current = True\<rparr>
        in ix_transaction
             (\<lambda>t. if (case expected of None \<Rightarrow> False | Some e \<Rightarrow> current_sha t d \<noteq> e)
                  then (Inl StaleBaselineError, t)
                  else (Inr \<lparr>rc_document_id = d, rc_sha256 = ds_sha256 snapshot,
                             rc_chunk_count = length chunks, rc_indexed_at = indexed_at\<rparr>,
                        t\<lparr>ix_docs := upsert_doc row (clear_current d (ix_docs t)),
                          ix_chunks := filter (\<lambda>c. chunk_key c \<noteq> key) (ix_chunks t)
                                         @ write_chunks snapshot chunks\<rparr>))
             (st\<lparr>ix_clock := Suc (ix_clock st)\<rparr>))"

text \<open>\<^verbatim>\<open>ORDER BY indexed_at DESC, sha256 DESC LIMIT 1\<close>.\<close>

definition newest_version :: "index_doc list \<Rightarrow> index_doc option" where
  "newest_version docs =
     (case sort_key (\<lambda>r. (id_indexed_at r, id_sha256 r)) docs of [] \<Rightarrow> None | r # rs \<Rightarrow> Some (last (r # rs)))"

definition mark_current :: "str \<times> str \<Rightarrow> index_doc list \<Rightarrow> index_doc list" where
  "mark_current key = map (\<lambda>r. if doc_key r = key then r\<lparr>id_is_current := True\<rparr> else r)"

definition remove_atomic :: "str \<Rightarrow> str \<Rightarrow> (index_store, bool) op" where
  "remove_atomic d sha =
     ix_transaction
       (\<lambda>t. case find (\<lambda>r. doc_key r = (d, sha)) (ix_docs t) of
              None \<Rightarrow> (Inr False, t)
            | Some row \<Rightarrow>
                let docs = filter (\<lambda>r. doc_key r \<noteq> (d, sha)) (ix_docs t);
                    chunks = filter (\<lambda>c. chunk_key c \<noteq> (d, sha)) (ix_chunks t);
                    docs = (if id_is_current row
                            then (case newest_version (filter (\<lambda>r. id_document_id r = d) docs) of
                                    None \<Rightarrow> docs
                                  | Some p \<Rightarrow> mark_current (d, id_sha256 p) docs)
                            else docs)
                in (Inr True, t\<lparr>ix_docs := docs, ix_chunks := chunks\<rparr>))"

section \<open>Reading\<close>

record indexed_version =
  iv_document_id :: str
  iv_sha256 :: str
  iv_indexed_at :: str
  iv_chunk_count :: nat
  iv_metadata :: json

definition version_from_row :: "index_doc \<Rightarrow> indexed_version res" where
  "version_from_row r =
     (case json_loads (id_metadata_json r) of
        None \<Rightarrow> Inl ValueError
      | Some m \<Rightarrow> Inr \<lparr>iv_document_id = id_document_id r, iv_sha256 = id_sha256 r,
                        iv_indexed_at = id_indexed_at r, iv_chunk_count = id_chunk_count r,
                        iv_metadata = m\<rparr>)"

definition get_current_version :: "index_store \<Rightarrow> str \<Rightarrow> indexed_version option res" where
  "get_current_version st d =
     (case current_row st d of
        None \<Rightarrow> Inr None
      | Some r \<Rightarrow> (case version_from_row r of Inl e \<Rightarrow> Inl e | Inr v \<Rightarrow> Inr (Some v)))"

text \<open>The inner join of the chunks with their document rows.\<close>

definition chunk_row :: "index_store \<Rightarrow> index_chunk \<Rightarrow> index_doc option" where
  "chunk_row st c = find (\<lambda>r. doc_key r = chunk_key c) (ix_docs st)"

definition joined :: "(index_chunk \<Rightarrow> index_doc \<Rightarrow> bool) \<Rightarrow> index_store \<Rightarrow> index_chunk list" where
  "joined cond st = filter (\<lambda>c. case chunk_row st c of None \<Rightarrow> False | Some r \<Rightarrow> cond c r) (ix_chunks st)"

definition get_chunks :: "index_store \<Rightarrow> str \<Rightarrow> str option \<Rightarrow> index_chunk list" where
  "get_chunks st d sha =
     sort_key ic_chunk_index
       (case sha of
          None \<Rightarrow> joined (\<lambda>c r. ic_document_id c = d \<and> id_is_current r) st
        | Some h \<Rightarrow> joined (\<lambda>c r. ic_document_id c = d \<and> ic_sha256 c = h) st)"

definition chunk_count :: "index_store \<Rightarrow> str \<Rightarrow> str option \<Rightarrow> nat" where
  "chunk_count st d sha =
     (case sha of
        None \<Rightarrow> length (joined (\<lambda>c r. ic_document_id c = d \<and> id_is_current r) st)
      | Some h \<Rightarrow> length (filter (\<lambda>c. chunk_key c = (d, h)) (ix_chunks st)))"

section \<open>Searching\<close>

text \<open>\<^verbatim>\<open>s.count(p)\<close>: occurrences that do not overlap.\<close>

function count_sub :: "str \<Rightarrow> str \<Rightarrow> nat" where
  "count_sub p s =
     (if p = [] then Suc (length s)
      else if s = [] then 0
      else if prefixes_str p s then Suc (count_sub p (drop (length p) s))
      else count_sub p (tl s))"
  by auto
termination
  by (relation "measure (\<lambda>(p, s). length s)") auto

declare count_sub.simps [simp del]

text \<open>\<^verbatim>\<open>re.findall(r"\w+", text)\<close> and \<^verbatim>\<open>dict.fromkeys\<close>: maximal runs of word characters,
  each kept once, in order of first occurrence.\<close>

fun word_runs :: "(nat \<Rightarrow> bool) \<Rightarrow> str \<Rightarrow> str \<Rightarrow> str list" where
  "word_runs w acc [] = (if acc = [] then [] else [rev acc])"
| "word_runs w acc (c # cs) =
     (if w c then word_runs w (c # acc) cs
      else if acc = [] then word_runs w [] cs
      else rev acc # word_runs w [] cs)"

fun dedup :: "'a list \<Rightarrow> 'a list" where
  "dedup [] = []"
| "dedup (x # xs) = x # filter (\<lambda>y. y \<noteq> x) (dedup xs)"

definition tokenize :: "env \<Rightarrow> str \<Rightarrow> str list" where
  "tokenize E text = dedup (word_runs (uc_word (en_udb E)) [] text)"

record search_hit =
  sh_document_id :: str
  sh_sha256 :: str
  sh_chunk_index :: nat
  sh_text :: str
  sh_score :: nat

definition score_text :: "env \<Rightarrow> str \<Rightarrow> str \<Rightarrow> nat" where
  "score_text E query text =
     (let query_lower = casefold (en_udb E) query;
          terms = tokenize E query_lower;
          text_lower = casefold (en_udb E) text
      in count_sub query_lower text_lower * 3
           + sum_list (map (\<lambda>term. count_sub term text_lower) terms))"

definition score_rows :: "env \<Rightarrow> index_chunk list \<Rightarrow> str \<Rightarrow> int \<Rightarrow> search_hit list" where
  "score_rows E rows query limit =
     take (nat limit)
       (sort_key (\<lambda>h. (- int (sh_score h), sh_document_id h, sh_chunk_index h))
          (map (\<lambda>c. \<lparr>sh_document_id = ic_document_id c, sh_sha256 = ic_sha256 c,
                      sh_chunk_index = ic_chunk_index c, sh_text = ic_text c,
                      sh_score = score_text E query (ic_text c)\<rparr>)
             (filter (\<lambda>c. 0 < score_text E query (ic_text c)) rows)))"

definition search_current_snapshot ::
  "env \<Rightarrow> index_store \<Rightarrow> str \<Rightarrow> int \<Rightarrow> str option \<Rightarrow> (str option \<times> search_hit list) res" where
  "search_current_snapshot E st query limit document_id =
     (if limit \<le> 0 then Inl ValueError
      else
        let stripped_query = strip query in
        if stripped_query = [] then Inr (None, [])
        else
          let current = (case document_id of None \<Rightarrow> None | Some d \<Rightarrow> current_sha st d);
              rows = joined (\<lambda>c r. id_is_current r \<and>
                                (case document_id of None \<Rightarrow> True | Some d \<Rightarrow> ic_document_id c = d)) st
          in Inr (current, score_rows E rows stripped_query limit))"

definition search ::
  "env \<Rightarrow> index_store \<Rightarrow> str \<Rightarrow> int \<Rightarrow> str option \<Rightarrow> str option \<Rightarrow> search_hit list res" where
  "search E st query limit document_id sha =
     (case sha of
        None \<Rightarrow> (case search_current_snapshot E st query limit document_id of
                    Inl e \<Rightarrow> Inl e | Inr (cur, hits) \<Rightarrow> Inr hits)
      | Some h \<Rightarrow>
          if limit \<le> 0 then Inl ValueError
          else
            let stripped_query = strip query in
            if stripped_query = [] then Inr []
            else
              let rows = joined (\<lambda>c r. ic_sha256 c = h \<and>
                             (case document_id of None \<Rightarrow> True | Some d \<Rightarrow> ic_document_id c = d)) st
              in Inr (score_rows E rows stripped_query limit))"

section \<open>The table constraints as an invariant\<close>

text \<open>
  The schema's constraints (both primary keys, the partial unique index on the current row, the
  foreign key of the chunks) and, beyond them, that \<^verbatim>\<open>chunk_count\<close> is the number of chunks
  stored and is positive.
\<close>

definition ix_inv :: "index_store \<Rightarrow> bool" where
  "ix_inv st \<longleftrightarrow>
     distinct (map doc_key (ix_docs st)) \<and>
     distinct (map id_document_id (filter id_is_current (ix_docs st))) \<and>
     distinct (map (\<lambda>c. (chunk_key c, ic_chunk_index c)) (ix_chunks st)) \<and>
     chunk_key ` set (ix_chunks st) \<subseteq> doc_key ` set (ix_docs st) \<and>
     (\<forall>r\<in>set (ix_docs st). 0 < id_chunk_count r \<and>
        id_chunk_count r = length (filter (\<lambda>c. chunk_key c = doc_key r) (ix_chunks st)))"

lemma ix_invI:
  assumes "ix_docs st = docs" "ix_chunks st = chunks"
    "distinct (map doc_key docs)" "distinct (map id_document_id (filter id_is_current docs))"
    "distinct (map (\<lambda>c. (chunk_key c, ic_chunk_index c)) chunks)"
    "chunk_key ` set chunks \<subseteq> doc_key ` set docs"
    "\<And>r. r \<in> set docs \<Longrightarrow> 0 < id_chunk_count r \<and>
        id_chunk_count r = length (filter (\<lambda>c. chunk_key c = doc_key r) chunks)"
  shows "ix_inv st"
  unfolding ix_inv_def assms(1,2) using assms(3-7) by blast

definition versions :: "index_store \<Rightarrow> (str \<times> str) set" where
  "versions st = doc_key ` set (ix_docs st)"

definition same_tables :: "index_store \<Rightarrow> index_store \<Rightarrow> bool" where
  "same_tables st st' \<longleftrightarrow> ix_docs st' = ix_docs st \<and> ix_chunks st' = ix_chunks st \<and>
     ix_chunk_size st' = ix_chunk_size st \<and> ix_chunk_overlap st' = ix_chunk_overlap st"

lemma same_tables_views:
  assumes "same_tables st st'"
  shows "ix_inv st' = ix_inv st" "versions st' = versions st" "current_sha st' = current_sha st"
  using assms by (auto simp: same_tables_def ix_inv_def versions_def current_sha_def current_row_def fun_eq_iff)

lemma same_tables_refl [simp]: "same_tables st st"
  by (simp add: same_tables_def)

lemma ix_transaction_cases [consumes 2]:
  assumes "ix_transaction body st = (r, st')"
    and "\<And>e t t'. body t = (Inl e, t') \<Longrightarrow> same_tables t t'"
  obtains (aborted) e where "r = Inl e" "same_tables st st'"
  | (committed) x t where "r = Inr x" "same_tables st t" "body t = (Inr x, st')"
proof -
  let ?t = "st\<lparr>ix_faults := tl (ix_faults st)\<rparr>"
  have s: "same_tables st ?t" by (simp add: same_tables_def)
  show ?thesis
    using assms(1) s that unfolding ix_transaction_def Let_def
    by (auto split: option.splits prod.splits sum.splits)
qed

lemma current_row_some:
  "current_row st d = Some r \<Longrightarrow> r \<in> set (ix_docs st) \<and> id_document_id r = d \<and> id_is_current r"
  unfolding current_row_def by (auto dest: find_SomeD)

lemma current_sha_version: "current_sha st d = Some s \<Longrightarrow> (d, s) \<in> versions st"
  unfolding current_sha_def versions_def doc_key_def using current_row_some by fastforce

lemma current_sha_eq:
  assumes "distinct (map id_document_id (filter id_is_current docs))" "ix_docs st = docs"
    "r \<in> set docs" "id_is_current r" "id_document_id r = d"
  shows "current_sha st d = Some (id_sha256 r)"
proof -
  have "find (\<lambda>r. id_document_id r = d \<and> id_is_current r) docs \<noteq> None"
    using assms by (auto simp: find_None_iff)
  then obtain q where q: "find (\<lambda>r. id_document_id r = d \<and> id_is_current r) docs = Some q" by auto
  then have "q \<in> set docs" "id_document_id q = d" "id_is_current q" by (auto dest: find_SomeD)
  with assms have "q = r" by (auto simp: distinct_map inj_on_def)
  with q show ?thesis by (simp add: current_sha_def current_row_def assms(2))
qed

lemma current_sha_none:
  "\<forall>r\<in>set (ix_docs st). \<not> (id_document_id r = d \<and> id_is_current r) \<Longrightarrow> current_sha st d = None"
  by (auto simp: current_sha_def current_row_def find_None_iff)

text \<open>\<open>current_sha\<close> depends on the current rows of the document only.\<close>

lemma current_sha_cong:
  assumes "filter (\<lambda>r. id_document_id r = d \<and> id_is_current r) (ix_docs st')
    = filter (\<lambda>r. id_document_id r = d \<and> id_is_current r) (ix_docs st)"
  shows "current_sha st' d = current_sha st d"
proof -
  show ?thesis using assms by (simp add: current_sha_def current_row_def find_filter)
qed

subsection \<open>The row operations\<close>

lemma doc_key_clear [simp]: "map doc_key (clear_current d docs) = map doc_key docs"
  by (induction docs) (auto simp: clear_current_def doc_key_def)

lemma clear_current_none: "r \<in> set (clear_current d docs) \<Longrightarrow> \<not> (id_document_id r = d \<and> id_is_current r)"
proof -
  assume "r \<in> set (clear_current d docs)"
  then obtain q where "r = (if id_document_id q = d \<and> id_is_current q then q\<lparr>id_is_current := False\<rparr> else q)"
    unfolding clear_current_def set_map by blast
  then show ?thesis by (cases "id_document_id q = d \<and> id_is_current q") simp_all
qed

lemma clear_current_filter:
  "filter id_is_current (clear_current d docs)
     = filter (\<lambda>r. id_document_id r \<noteq> d) (filter id_is_current docs)"
  by (induction docs) (simp_all add: clear_current_def)

lemma doc_key_upsert:
  "map doc_key (upsert_doc new docs)
     = (if doc_key new \<in> set (map doc_key docs) then map doc_key docs else map doc_key docs @ [doc_key new])"
  by (auto simp: upsert_doc_def)

lemma upsert_mem:
  "r \<in> set (upsert_doc new docs) \<longleftrightarrow> r = new \<or> (r \<in> set docs \<and> doc_key r \<noteq> doc_key new)"
  by (auto simp: upsert_doc_def image_iff)

lemma upsert_filter_other:
  "(\<And>r. doc_key r = doc_key new \<Longrightarrow> \<not> P r) \<Longrightarrow> filter P (upsert_doc new docs) = filter P docs"
proof -
  assume a: "\<And>r. doc_key r = doc_key new \<Longrightarrow> \<not> P r"
  have "filter P (map (\<lambda>r. if doc_key r = doc_key new then new else r) docs) = filter P docs"
    using a by (induction docs) auto
  with a show ?thesis by (auto simp: upsert_doc_def)
qed

lemma write_chunks_keys:
  "c \<in> set (write_chunks s cs) \<Longrightarrow> chunk_key c = (ds_document_id s, ds_sha256 s)"
  by (auto simp: write_chunks_def chunk_key_def)

lemma length_write_chunks [simp]: "length (write_chunks s cs) = length cs"
  by (simp add: write_chunks_def)

lemma write_chunks_index: "map ic_chunk_index (write_chunks s cs) = [0..<length cs]"
proof -
  have "map ic_chunk_index (write_chunks s cs) = map fst (enumerate 0 cs)"
    unfolding write_chunks_def map_map by (rule map_cong) (auto split: prod.splits)
  then show ?thesis by simp
qed

lemma write_chunks_distinct: "distinct (map (\<lambda>c. (chunk_key c, ic_chunk_index c)) (write_chunks s cs))"
proof -
  have "distinct (map ic_chunk_index (write_chunks s cs))" by (simp add: write_chunks_index)
  then show ?thesis by (auto simp: distinct_map inj_on_def)
qed

lemma distinct_current_iff:
  "distinct (map id_document_id (filter id_is_current docs)) \<Longrightarrow> distinct (map doc_key docs) \<Longrightarrow>
   r \<in> set docs \<Longrightarrow> q \<in> set docs \<Longrightarrow> id_is_current r \<Longrightarrow> id_is_current q \<Longrightarrow>
   id_document_id r = id_document_id q \<Longrightarrow> r = q"
  by (auto simp: distinct_map inj_on_def)

lemma distinct_currentI:
  "distinct (map doc_key docs) \<Longrightarrow>
   (\<And>r q. \<lbrakk>r \<in> set docs; q \<in> set docs; id_is_current r; id_is_current q;
     id_document_id r = id_document_id q\<rbrakk> \<Longrightarrow> r = q) \<Longrightarrow>
   distinct (map id_document_id (filter id_is_current docs))"
  by (auto simp: distinct_map inj_on_def distinct_map_filter)

lemma clear_current_mem:
  "r \<in> set (clear_current d docs) \<Longrightarrow>
   \<exists>q\<in>set docs. doc_key r = doc_key q \<and> id_chunk_count r = id_chunk_count q"
proof -
  assume "r \<in> set (clear_current d docs)"
  then obtain q where q: "q \<in> set docs"
    "r = (if id_document_id q = d \<and> id_is_current q then q\<lparr>id_is_current := False\<rparr> else q)"
    unfolding clear_current_def set_map by blast
  then have "doc_key r = doc_key q \<and> id_chunk_count r = id_chunk_count q"
    by (cases "id_document_id q = d \<and> id_is_current q") (simp_all add: doc_key_def)
  with q(1) show ?thesis by blast
qed

lemma clear_current_kept:
  "r \<in> set (clear_current d docs) \<Longrightarrow> id_is_current r \<Longrightarrow> r \<in> set docs \<and> id_document_id r \<noteq> d"
proof -
  assume "r \<in> set (clear_current d docs)" "id_is_current r"
  then have "r \<in> set (filter id_is_current (clear_current d docs))" by simp
  then show ?thesis unfolding clear_current_filter by simp
qed

lemma mark_current_mem:
  "r \<in> set (mark_current k docs) \<Longrightarrow>
   \<exists>q\<in>set docs. doc_key r = doc_key q \<and> id_chunk_count r = id_chunk_count q \<and>
     (r = q \<or> (doc_key q = k \<and> id_is_current r))"
proof -
  assume "r \<in> set (mark_current k docs)"
  then obtain q where q: "q \<in> set docs"
    "r = (if doc_key q = k then q\<lparr>id_is_current := True\<rparr> else q)"
    unfolding mark_current_def set_map by blast
  then have "doc_key r = doc_key q \<and> id_chunk_count r = id_chunk_count q \<and>
     (r = q \<or> (doc_key q = k \<and> id_is_current r))"
    by (cases "doc_key q = k") (simp_all add: doc_key_def)
  with q(1) show ?thesis by blast
qed

lemma doc_key_mark [simp]: "map doc_key (mark_current k docs) = map doc_key docs"
  by (induction docs) (auto simp: mark_current_def doc_key_def)

lemma mark_current_other:
  "d' \<noteq> fst k \<Longrightarrow> filter (\<lambda>r. id_document_id r = d' \<and> id_is_current r) (mark_current k docs)
     = filter (\<lambda>r. id_document_id r = d' \<and> id_is_current r) docs"
  by (induction docs) (auto simp: mark_current_def doc_key_def)

lemma clear_current_other:
  "d' \<noteq> d \<Longrightarrow> filter (\<lambda>r. id_document_id r = d' \<and> id_is_current r) (clear_current d docs)
     = filter (\<lambda>r. id_document_id r = d' \<and> id_is_current r) docs"
  by (induction docs) (auto simp: clear_current_def)

lemma newest_version_mem: "newest_version rows = Some p \<Longrightarrow> p \<in> set rows"
proof -
  assume "newest_version rows = Some p"
  then have "p \<in> set (sort_key (\<lambda>r. (id_indexed_at r, id_sha256 r)) rows)"
    unfolding newest_version_def by (auto split: list.splits simp del: set_sort)
  then show ?thesis by simp
qed

lemma newest_version_None: "newest_version rows = None \<longleftrightarrow> rows = []"
proof -
  have "(sort_key (\<lambda>r. (id_indexed_at r, id_sha256 r)) rows = []) = (rows = [])"
    by (metis length_0_conv length_sort)
  then show ?thesis unfolding newest_version_def by (auto split: list.splits)
qed

subsection \<open>Indexing\<close>

lemma index_tables_inv:
  assumes inv: "ix_inv st" and ne: "chunks \<noteq> []" and k: "doc_key row = (ds_document_id s, ds_sha256 s)"
    and n: "id_chunk_count row = length chunks"
  shows "ix_inv (st\<lparr>ix_docs := upsert_doc row (clear_current (ds_document_id s) (ix_docs st)),
       ix_chunks := filter (\<lambda>c. chunk_key c \<noteq> doc_key row) (ix_chunks st) @ write_chunks s chunks\<rparr>)"
    (is "ix_inv (st\<lparr>ix_docs := ?docs, ix_chunks := ?chunks\<rparr>)")
proof -
  let ?old = "clear_current (ds_document_id s) (ix_docs st)"
  from inv have dk: "distinct (map doc_key (ix_docs st))"
    and dc: "distinct (map id_document_id (filter id_is_current (ix_docs st)))"
    and ck: "distinct (map (\<lambda>c. (chunk_key c, ic_chunk_index c)) (ix_chunks st))"
    and fk: "chunk_key ` set (ix_chunks st) \<subseteq> doc_key ` set (ix_docs st)"
    and cnt: "\<forall>r\<in>set (ix_docs st). 0 < id_chunk_count r \<and>
        id_chunk_count r = length (filter (\<lambda>c. chunk_key c = doc_key r) (ix_chunks st))"
    unfolding ix_inv_def by blast+
  have wk: "\<And>c. c \<in> set (write_chunks s chunks) \<Longrightarrow> chunk_key c = doc_key row"
    using write_chunks_keys k by simp
  have d1: "distinct (map doc_key ?docs)" using dk by (simp add: doc_key_upsert)
  have d2: "distinct (map id_document_id (filter id_is_current ?docs))"
  proof (rule distinct_currentI [OF d1])
    fix r q
    assume h: "r \<in> set ?docs" "q \<in> set ?docs" "id_is_current r" "id_is_current q"
      "id_document_id r = id_document_id q"
    have side: "x = row \<or> (x \<in> set (ix_docs st) \<and> id_document_id x \<noteq> ds_document_id s)"
      if "x \<in> set ?docs" "id_is_current x" for x
      using that clear_current_kept by (auto simp: upsert_mem)
    have "id_document_id row = ds_document_id s" using k by (simp add: doc_key_def)
    with side[OF h(1,3)] side[OF h(2,4)] h show "r = q"
      using distinct_current_iff[OF dc dk] by metis
  qed
  have d3: "distinct (map (\<lambda>c. (chunk_key c, ic_chunk_index c)) ?chunks)"
    using ck wk write_chunks_distinct[of s chunks]
    by (auto simp: distinct_map_filter dest!: wk)
  have keys: "doc_key ` set ?docs = insert (doc_key row) (doc_key ` set (ix_docs st))"
  proof -
    have "set (map doc_key ?docs) = insert (doc_key row) (set (map doc_key (ix_docs st)))"
      by (auto simp: doc_key_upsert simp del: set_map)
    then show ?thesis by simp
  qed
  have d4: "chunk_key ` set ?chunks \<subseteq> doc_key ` set ?docs"
    unfolding keys using fk by (auto dest: wk)
  have d5: "0 < id_chunk_count r \<and> id_chunk_count r = length (filter (\<lambda>c. chunk_key c = doc_key r) ?chunks)"
    if r: "r \<in> set ?docs" for r
  proof (cases "doc_key r = doc_key row")
    case True
    then have "r = row" using r by (auto simp: upsert_mem)
    moreover have "filter (\<lambda>c. chunk_key c = doc_key row) (write_chunks s chunks) = write_chunks s chunks"
      using wk by simp
    moreover have "filter (\<lambda>c. chunk_key c = doc_key row) (filter (\<lambda>c. chunk_key c \<noteq> doc_key row) (ix_chunks st)) = []"
      by (simp add: filter_empty_conv)
    ultimately show ?thesis using n ne by simp
  next
    case False
    then have "r \<in> set ?old" using r by (auto simp: upsert_mem)
    then obtain q where q: "q \<in> set (ix_docs st)" "doc_key r = doc_key q" "id_chunk_count r = id_chunk_count q"
      using clear_current_mem by blast
    have "filter (\<lambda>c. chunk_key c = doc_key r) (write_chunks s chunks) = []"
      using wk False by (auto simp: filter_empty_conv)
    moreover have "filter (\<lambda>c. chunk_key c = doc_key r) (filter (\<lambda>c. chunk_key c \<noteq> doc_key row) (ix_chunks st))
      = filter (\<lambda>c. chunk_key c = doc_key r) (ix_chunks st)"
      unfolding filter_filter by (rule filter_cong) (use False in auto)
    ultimately have "filter (\<lambda>c. chunk_key c = doc_key r) ?chunks
      = filter (\<lambda>c. chunk_key c = doc_key r) (ix_chunks st)" unfolding filter_append by simp
    with cnt q show ?thesis by metis
  qed
  show ?thesis by (rule ix_invI [of _ ?docs ?chunks, OF _ _ d1 d2 d3 d4 d5]) simp_all
qed

lemma index_atomic_cases:
  assumes "index_atomic E s expected st = (r, st')"
  obtains (failed) e where "r = Inl e" "same_tables st st'"
  | (stored) rc t row chunks where "r = Inr rc" "same_tables st t"
      "\<And>e. expected = Some e \<Longrightarrow> current_sha st (ds_document_id s) = e"
      "chunks = split_text (ix_chunk_size st) (ix_chunk_overlap st) (ds_text s)" "chunks \<noteq> []"
      "rc_document_id rc = ds_document_id s" "rc_sha256 rc = ds_sha256 s" "rc_chunk_count rc = length chunks"
      "doc_key row = (ds_document_id s, ds_sha256 s)" "id_chunk_count row = length chunks" "id_is_current row"
      "st' = t\<lparr>ix_docs := upsert_doc row (clear_current (ds_document_id s) (ix_docs t)),
         ix_chunks := filter (\<lambda>c. chunk_key c \<noteq> doc_key row) (ix_chunks t) @ write_chunks s chunks\<rparr>"
proof (cases "split_text (ix_chunk_size st) (ix_chunk_overlap st) (ds_text s) = []")
  case True
  with assms show ?thesis by (intro failed) (auto simp: index_atomic_def)
next
  case False
  let ?st = "st\<lparr>ix_clock := Suc (ix_clock st)\<rparr>"
  have s: "same_tables st ?st" by (simp add: same_tables_def)
  let ?cs = "split_text (ix_chunk_size st) (ix_chunk_overlap st) (ds_text s)"
  let ?d = "ds_document_id s"
  define row where "row = \<lparr>id_document_id = ?d, id_sha256 = ds_sha256 s, id_indexed_at = en_now E (ix_clock st),
     id_text_sha256 = en_sha_text E (ds_text s), id_chunk_count = length ?cs,
     id_metadata_json = canonical_json (index_metadata s), id_is_current = True\<rparr>"
  have row: "doc_key row = (?d, ds_sha256 s)" "id_chunk_count row = length ?cs" "id_is_current row"
    by (simp_all add: row_def doc_key_def)
  define body where "body = (\<lambda>t. if (case expected of None \<Rightarrow> False | Some e \<Rightarrow> current_sha t ?d \<noteq> e)
      then (Inl StaleBaselineError, t)
      else (Inr \<lparr>rc_document_id = ?d, rc_sha256 = ds_sha256 s,
                 rc_chunk_count = length ?cs, rc_indexed_at = en_now E (ix_clock st)\<rparr>,
            t\<lparr>ix_docs := upsert_doc row (clear_current ?d (ix_docs t)),
              ix_chunks := filter (\<lambda>c. chunk_key c \<noteq> (?d, ds_sha256 s)) (ix_chunks t) @ write_chunks s ?cs\<rparr>))"
  have run: "ix_transaction body ?st = (r, st')"
    using assms False unfolding index_atomic_def Let_def body_def row_def by simp
  have raised: "\<And>e t t'. body t = (Inl e, t') \<Longrightarrow> same_tables t t'"
    by (auto simp: body_def split: if_splits)
  show ?thesis
  proof (rule ix_transaction_cases [OF run raised])
    fix e
    assume "r = Inl e" "same_tables ?st st'"
    with s show thesis by (intro failed) (auto simp: same_tables_def)
  next
    fix x t
    assume r: "r = Inr x" and t: "same_tables ?st t" and b: "body t = (Inr x, st')"
    from b have ok: "\<not> (case expected of None \<Rightarrow> False | Some e \<Rightarrow> current_sha t ?d \<noteq> e)"
      by (auto simp: body_def split: if_splits)
    have same: "same_tables st t" using s t by (auto simp: same_tables_def)
    show thesis
    proof (rule stored)
      show "r = Inr x" by (rule r)
      show "\<And>e. expected = Some e \<Longrightarrow> current_sha st ?d = e"
        using ok same_tables_views(3)[OF same] by auto
    qed (use b ok row same False in \<open>auto simp: body_def\<close>)
  qed
qed

text \<open>The effect of an \<open>index_atomic\<close> that returns, and of one that raises.\<close>

lemma index_atomic_effect:
  assumes "index_atomic E s expected st = (Inr rc, st')"
  shows "versions st' = insert (ds_document_id s, ds_sha256 s) (versions st)"
    and "ix_inv st \<Longrightarrow> current_sha st' (ds_document_id s) = Some (ds_sha256 s)"
    and "d \<noteq> ds_document_id s \<Longrightarrow> current_sha st' d = current_sha st d"
    and "expected = Some e \<Longrightarrow> current_sha st (ds_document_id s) = e"
    and "rc_document_id rc = ds_document_id s \<and> rc_sha256 rc = ds_sha256 s \<and> 0 < rc_chunk_count rc"
    and "ix_inv st \<Longrightarrow> ix_inv st'"
proof -
  from assms obtain t row chunks where same: "same_tables st t"
    and e: "\<And>e. expected = Some e \<Longrightarrow> current_sha st (ds_document_id s) = e"
    and ne: "chunks \<noteq> []"
    and rc: "rc_document_id rc = ds_document_id s" "rc_sha256 rc = ds_sha256 s" "rc_chunk_count rc = length chunks"
    and row: "doc_key row = (ds_document_id s, ds_sha256 s)" "id_chunk_count row = length chunks" "id_is_current row"
    and st': "st' = t\<lparr>ix_docs := upsert_doc row (clear_current (ds_document_id s) (ix_docs t)),
         ix_chunks := filter (\<lambda>c. chunk_key c \<noteq> doc_key row) (ix_chunks t) @ write_chunks s chunks\<rparr>"
    by (cases rule: index_atomic_cases) auto
  show "expected = Some e \<Longrightarrow> current_sha st (ds_document_id s) = e" by (rule e)
  show "rc_document_id rc = ds_document_id s \<and> rc_sha256 rc = ds_sha256 s \<and> 0 < rc_chunk_count rc"
    using rc ne by simp
  have "set (map doc_key (ix_docs st')) = insert (doc_key row) (set (map doc_key (ix_docs t)))"
    by (auto simp: st' doc_key_upsert simp del: set_map)
  then show "versions st' = insert (ds_document_id s, ds_sha256 s) (versions st)"
    using row same by (simp add: versions_def same_tables_def)
  show inv: "ix_inv st'" if "ix_inv st"
    unfolding st' using that same_tables_views(1)[OF same] ne row by (intro index_tables_inv) auto
  show "current_sha st' (ds_document_id s) = Some (ds_sha256 s)" if "ix_inv st"
  proof -
    have "distinct (map id_document_id (filter id_is_current (ix_docs st')))"
      using inv[OF that] by (simp add: ix_inv_def)
    moreover have "row \<in> set (ix_docs st')" by (simp add: st' upsert_mem)
    ultimately show ?thesis using row current_sha_eq[of "ix_docs st'" st' row] by (simp add: doc_key_def)
  qed
  show "current_sha st' d = current_sha st d" if d: "d \<noteq> ds_document_id s"
  proof (rule current_sha_cong)
    have "filter (\<lambda>r. id_document_id r = d \<and> id_is_current r) (ix_docs st')
      = filter (\<lambda>r. id_document_id r = d \<and> id_is_current r) (clear_current (ds_document_id s) (ix_docs t))"
      unfolding st' using d row by (simp, intro upsert_filter_other) (auto simp: doc_key_def)
    also have "\<dots> = filter (\<lambda>r. id_document_id r = d \<and> id_is_current r) (ix_docs st)"
      using d same by (simp add: clear_current_other same_tables_def)
    finally show "filter (\<lambda>r. id_document_id r = d \<and> id_is_current r) (ix_docs st')
      = filter (\<lambda>r. id_document_id r = d \<and> id_is_current r) (ix_docs st)" .
  qed
qed

lemma index_atomic_error:
  "index_atomic E s expected st = (Inl e, st') \<Longrightarrow> same_tables st st'"
  by (erule index_atomic_cases) auto

subsection \<open>Removing\<close>

definition removed_docs :: "str \<Rightarrow> str \<Rightarrow> bool \<Rightarrow> index_doc list \<Rightarrow> index_doc list" where
  "removed_docs d sha was_current docs =
     (let rest = filter (\<lambda>r. doc_key r \<noteq> (d, sha)) docs in
      if was_current
      then (case newest_version (filter (\<lambda>r. id_document_id r = d) rest) of
              None \<Rightarrow> rest
            | Some p \<Rightarrow> mark_current (d, id_sha256 p) rest)
      else rest)"

lemma map_doc_key_removed:
  "map doc_key (removed_docs d sha b docs) = filter (\<lambda>k. k \<noteq> (d, sha)) (map doc_key docs)"
  by (auto simp: removed_docs_def Let_def filter_map o_def split: option.splits)

definition others :: "str \<Rightarrow> str \<Rightarrow> index_doc list \<Rightarrow> index_doc list" where
  "others d sha docs = filter (\<lambda>r. doc_key r \<noteq> (d, sha)) docs"

definition predecessor :: "str \<Rightarrow> str \<Rightarrow> index_doc list \<Rightarrow> index_doc option" where
  "predecessor d sha docs = newest_version (filter (\<lambda>r. id_document_id r = d) (others d sha docs))"

lemma removed_docs_cases:
  assumes "r \<in> set (removed_docs d sha b docs)"
  obtains (kept) "r \<in> set (others d sha docs)"
  | (promoted) p where "b" "predecessor d sha docs = Some p"
      "r \<in> set (mark_current (d, id_sha256 p) (others d sha docs))"
  using assms unfolding removed_docs_def Let_def others_def[symmetric] predecessor_def[symmetric]
  by (cases b; cases "predecessor d sha docs") auto

lemma removed_docs_mem:
  assumes "r \<in> set (removed_docs d sha b docs)"
  shows "\<exists>q\<in>set docs. doc_key q \<noteq> (d, sha) \<and> doc_key r = doc_key q \<and> id_chunk_count r = id_chunk_count q"
  using assms
proof (cases rule: removed_docs_cases)
  case kept
  then show ?thesis by (auto simp: others_def)
next
  case (promoted p)
  then obtain q where "q \<in> set (others d sha docs)" "doc_key r = doc_key q" "id_chunk_count r = id_chunk_count q"
    using mark_current_mem by blast
  then show ?thesis by (intro bexI[of _ q]) (auto simp: others_def)
qed

lemma mark_current_kept:
  "r \<in> set (mark_current k docs) \<Longrightarrow> id_is_current r \<Longrightarrow> doc_key r = k \<or> r \<in> set docs"
  using mark_current_mem by fastforce

lemma removed_tables_inv:
  assumes inv: "ix_inv st" and row: "find (\<lambda>r. doc_key r = (d, sha)) (ix_docs st) = Some row"
  shows "ix_inv (st\<lparr>ix_docs := removed_docs d sha (id_is_current row) (ix_docs st),
       ix_chunks := filter (\<lambda>c. chunk_key c \<noteq> (d, sha)) (ix_chunks st)\<rparr>)"
proof -
  let ?b = "id_is_current row"
  let ?docs = "removed_docs d sha ?b (ix_docs st)"
  let ?chunks = "filter (\<lambda>c. chunk_key c \<noteq> (d, sha)) (ix_chunks st)"
  from inv have dk: "distinct (map doc_key (ix_docs st))"
    and dc: "distinct (map id_document_id (filter id_is_current (ix_docs st)))"
    and ck: "distinct (map (\<lambda>c. (chunk_key c, ic_chunk_index c)) (ix_chunks st))"
    and fk: "chunk_key ` set (ix_chunks st) \<subseteq> doc_key ` set (ix_docs st)"
    and cnt: "\<forall>r\<in>set (ix_docs st). 0 < id_chunk_count r \<and>
        id_chunk_count r = length (filter (\<lambda>c. chunk_key c = doc_key r) (ix_chunks st))"
    unfolding ix_inv_def by blast+
  have rowd: "row \<in> set (ix_docs st)" "doc_key row = (d, sha)" using row by (auto dest: find_SomeD)
  have d1: "distinct (map doc_key ?docs)" using dk by (simp add: map_doc_key_removed)
  have old: "id_document_id r \<noteq> d" if "r \<in> set (others d sha (ix_docs st))" "id_is_current r" "?b" for r
  proof
    assume "id_document_id r = d"
    then have "id_document_id r = id_document_id row" using rowd by (simp add: doc_key_def)
    then have "r = row" using distinct_current_iff[OF dc dk] rowd that by (auto simp: others_def)
    with that rowd show False by (simp add: others_def)
  qed
  have side: "(r \<in> set (ix_docs st) \<and> (?b \<longrightarrow> id_document_id r \<noteq> d)) \<or>
      (\<exists>p. ?b \<and> doc_key r = (d, id_sha256 p) \<and> predecessor d sha (ix_docs st) = Some p)"
    if r: "r \<in> set ?docs" "id_is_current r" for r
    using r(1)
  proof (cases rule: removed_docs_cases)
    case kept
    with old r(2) show ?thesis by (auto simp: others_def)
  next
    case (promoted p)
    show ?thesis
    proof (cases "doc_key r = (d, id_sha256 p)")
      case True
      with promoted show ?thesis by blast
    next
      case False
      with mark_current_kept[OF promoted(3) r(2)] have "r \<in> set (others d sha (ix_docs st))" by blast
      with old r(2) promoted(1) show ?thesis by (auto simp: others_def)
    qed
  qed
  have d2: "distinct (map id_document_id (filter id_is_current ?docs))"
  proof (rule distinct_currentI [OF d1])
    fix r q
    assume h: "r \<in> set ?docs" "q \<in> set ?docs" "id_is_current r" "id_is_current q"
      "id_document_id r = id_document_id q"
    show "r = q"
    proof (cases "doc_key r = doc_key q")
      case True
      with d1 h show ?thesis by (auto simp: distinct_map inj_on_def)
    next
      case False
      have "fst (doc_key x) = id_document_id x" for x by (simp add: doc_key_def)
      with False side[OF h(1,3)] side[OF h(2,4)] h(5)
      have "r \<in> set (ix_docs st) \<and> q \<in> set (ix_docs st)" by (metis fst_conv option.inject)
      with h show ?thesis using distinct_current_iff[OF dc dk] by blast
    qed
  qed
  have d3: "distinct (map (\<lambda>c. (chunk_key c, ic_chunk_index c)) ?chunks)"
    using ck by (simp add: distinct_map_filter)
  have "set (map doc_key ?docs) = set (map doc_key (ix_docs st)) - {(d, sha)}"
    unfolding map_doc_key_removed by auto
  then have d4: "chunk_key ` set ?chunks \<subseteq> doc_key ` set ?docs" using fk by auto
  have d5: "0 < id_chunk_count r \<and> id_chunk_count r = length (filter (\<lambda>c. chunk_key c = doc_key r) ?chunks)"
    if r: "r \<in> set ?docs" for r
  proof -
    obtain q where q: "q \<in> set (ix_docs st)" "doc_key q \<noteq> (d, sha)" "doc_key r = doc_key q"
      "id_chunk_count r = id_chunk_count q" using removed_docs_mem[OF r] by blast
    have "filter (\<lambda>c. chunk_key c = doc_key r) ?chunks = filter (\<lambda>c. chunk_key c = doc_key r) (ix_chunks st)"
      unfolding filter_filter by (rule filter_cong) (use q in auto)
    with cnt q show ?thesis by metis
  qed
  show ?thesis by (rule ix_invI [of _ ?docs ?chunks, OF _ _ d1 d2 d3 d4 d5]) simp_all
qed

lemma remove_atomic_cases:
  assumes "remove_atomic d sha st = (r, st')"
  obtains (failed) e where "r = Inl e" "same_tables st st'"
  | (absent) "r = Inr False" "same_tables st st'" "(d, sha) \<notin> versions st"
  | (removed) row t where "r = Inr True" "same_tables st t"
      "find (\<lambda>r. doc_key r = (d, sha)) (ix_docs t) = Some row"
      "st' = t\<lparr>ix_docs := removed_docs d sha (id_is_current row) (ix_docs t),
               ix_chunks := filter (\<lambda>c. chunk_key c \<noteq> (d, sha)) (ix_chunks t)\<rparr>"
proof -
  define body :: "(index_store, bool) op" where "body = (\<lambda>t. case find (\<lambda>r. doc_key r = (d, sha)) (ix_docs t) of
       None \<Rightarrow> (Inr False, t)
     | Some row \<Rightarrow> (Inr True, t\<lparr>ix_docs := removed_docs d sha (id_is_current row) (ix_docs t),
               ix_chunks := filter (\<lambda>c. chunk_key c \<noteq> (d, sha)) (ix_chunks t)\<rparr>))"
  have run: "ix_transaction body st = (r, st')"
    using assms unfolding remove_atomic_def body_def removed_docs_def Let_def by simp
  have raised: "\<And>e t t'. body t = (Inl e, t') \<Longrightarrow> same_tables t t'"
    by (auto simp: body_def split: option.splits)
  show ?thesis
  proof (rule ix_transaction_cases [OF run])
    show "\<And>e t t'. body t = (Inl e, t') \<Longrightarrow> same_tables t t'" by (rule raised)
  next
    fix x t
    assume h: "r = Inr x" "same_tables st t" "body t = (Inr x, st')"
    show thesis
    proof (cases "find (\<lambda>r. doc_key r = (d, sha)) (ix_docs t)")
      case None
      then have "(d, sha) \<notin> versions t" unfolding versions_def find_None_iff by force
      with h None show ?thesis using same_tables_views(2)[OF h(2)] by (intro absent) (auto simp: body_def)
    next
      case (Some row)
      with h show ?thesis by (intro removed) (auto simp: body_def)
    qed
  qed (rule failed)
qed

lemma remove_atomic_effect_all:
  assumes "remove_atomic d sha st = (Inr b, st')"
  shows "versions st' = versions st - {(d, sha)} \<and>
    (d' \<noteq> d \<longrightarrow> current_sha st' d' = current_sha st d') \<and>
    (ix_inv st \<longrightarrow> ix_inv st') \<and>
    (ix_inv st \<longrightarrow> current_sha st d \<noteq> Some sha \<longrightarrow> current_sha st' d = current_sha st d)"
  using assms
proof (cases rule: remove_atomic_cases)
  case (failed e)
  then show ?thesis by simp
next
  case absent
  then show ?thesis by (simp add: same_tables_views[OF absent(2)])
next
  case (removed row t)
  let ?docs = "removed_docs d sha (id_is_current row) (ix_docs t)"
  have vt: "versions st = versions t" "ix_inv st = ix_inv t" "current_sha st = current_sha t"
    using same_tables_views[OF removed(2)] by auto
  have row: "row \<in> set (ix_docs t)" "doc_key row = (d, sha)" using removed(3) by (auto dest: find_SomeD)
  have "set (map doc_key ?docs) = set (map doc_key (ix_docs t)) - {(d, sha)}"
    unfolding map_doc_key_removed by auto
  then have "versions st' = versions t - {(d, sha)}" by (simp add: versions_def removed(4))
  then have v: "versions st' = versions st - {(d, sha)}" unfolding vt(1) .
  have o: "current_sha st' d' = current_sha st d'" if d': "d' \<noteq> d"
  proof -
    have "filter (\<lambda>r. id_document_id r = d' \<and> id_is_current r) (others d sha (ix_docs t))
      = filter (\<lambda>r. id_document_id r = d' \<and> id_is_current r) (ix_docs t)"
      unfolding others_def filter_filter by (rule filter_cong) (use d' in \<open>auto simp: doc_key_def\<close>)
    then have "filter (\<lambda>r. id_document_id r = d' \<and> id_is_current r) ?docs
      = filter (\<lambda>r. id_document_id r = d' \<and> id_is_current r) (ix_docs t)"
      using d' unfolding removed_docs_def Let_def others_def[symmetric] predecessor_def[symmetric]
      by (auto simp: mark_current_other split: option.splits)
    then show ?thesis unfolding vt by (intro current_sha_cong) (simp add: removed(4))
  qed
  have i: "ix_inv st'" if "ix_inv st"
    using that removed_tables_inv[OF _ removed(3)] by (simp add: vt removed(4))
  have c: "current_sha st' d = current_sha st d" if h: "ix_inv st" "current_sha st d \<noteq> Some sha"
  proof -
    have it: "ix_inv t" using h(1) vt(2) by simp
    have "\<not> id_is_current row"
    proof
      assume "id_is_current row"
      then have "current_sha t d = Some (id_sha256 row)"
        using it row by (intro current_sha_eq) (auto simp: ix_inv_def doc_key_def)
      with h row show False by (simp add: vt doc_key_def)
    qed
    moreover have "filter (\<lambda>r. id_document_id r = d \<and> id_is_current r) (others d sha (ix_docs t))
      = filter (\<lambda>r. id_document_id r = d \<and> id_is_current r) (ix_docs t)"
      unfolding others_def filter_filter
    proof (rule filter_cong [OF refl])
      fix x
      assume "x \<in> set (ix_docs t)"
      moreover have "inj_on doc_key (set (ix_docs t))"
        using it by (simp add: ix_inv_def distinct_map)
      ultimately have "doc_key x = (d, sha) \<Longrightarrow> x = row" using row by (metis inj_onD)
      with \<open>\<not> id_is_current row\<close> show "(doc_key x \<noteq> (d, sha) \<and> id_document_id x = d \<and> id_is_current x)
        = (id_document_id x = d \<and> id_is_current x)" by blast
    qed
    ultimately show ?thesis
      unfolding vt by (intro current_sha_cong) (simp add: removed(4) removed_docs_def Let_def others_def)
  qed
  show ?thesis using v o i c by blast
qed

lemma remove_atomic_effect:
  assumes "remove_atomic d sha st = (Inr b, st')"
  shows "versions st' = versions st - {(d, sha)}"
    and "d' \<noteq> d \<Longrightarrow> current_sha st' d' = current_sha st d'"
    and "ix_inv st \<Longrightarrow> ix_inv st'"
    and "ix_inv st \<Longrightarrow> current_sha st d \<noteq> Some sha \<Longrightarrow> current_sha st' d = current_sha st d"
  using remove_atomic_effect_all[OF assms] by blast+

lemma remove_atomic_error:
  "remove_atomic d sha st = (Inl e, st') \<Longrightarrow> same_tables st st'"
  by (erule remove_atomic_cases) auto

section \<open>The Indexer protocol\<close>

text \<open>
  What the gate relies on.  \<open>stored i\<close> is the set of (document, SHA-256) versions the index
  holds, \<open>cur i d\<close> the version readers of document \<open>d\<close> are served.  A raising operation
  leaves both alone; a returning one changes the named document only, and never serves a
  version it was not given.
\<close>

record 'i indexer =
  io_index :: "document_snapshot \<Rightarrow> str option option \<Rightarrow> ('i, index_receipt) op"
  io_remove :: "str \<Rightarrow> str \<Rightarrow> ('i, bool) op"

locale indexer_contract =
  fixes X :: "'i indexer"
    and ok :: "'i \<Rightarrow> bool"
    and stored :: "'i \<Rightarrow> (str \<times> str) set"
    and cur :: "'i \<Rightarrow> str \<Rightarrow> str option"
  assumes cur_stored: "cur i d = Some h \<Longrightarrow> (d, h) \<in> stored i"
    and index_raises: "io_index X s e i = (Inl err, i') \<Longrightarrow>
      stored i' = stored i \<and> cur i' = cur i \<and> (ok i \<longrightarrow> ok i')"
    and index_returns: "io_index X s e i = (Inr rc, i') \<Longrightarrow>
      stored i' = insert (ds_document_id s, ds_sha256 s) (stored i) \<and> (ok i \<longrightarrow> ok i') \<and>
      (ok i \<longrightarrow> cur i' (ds_document_id s) = Some (ds_sha256 s)) \<and>
      (\<forall>d. d \<noteq> ds_document_id s \<longrightarrow> cur i' d = cur i d) \<and>
      (\<forall>c. e = Some c \<longrightarrow> cur i (ds_document_id s) = c) \<and>
      rc_document_id rc = ds_document_id s \<and> rc_sha256 rc = ds_sha256 s \<and> 0 < rc_chunk_count rc"
    and remove_raises: "io_remove X d h i = (Inl err, i') \<Longrightarrow>
      stored i' = stored i \<and> cur i' = cur i \<and> (ok i \<longrightarrow> ok i')"
    and remove_returns: "io_remove X d h i = (Inr b, i') \<Longrightarrow>
      stored i' = stored i - {(d, h)} \<and> (ok i \<longrightarrow> ok i') \<and>
      (\<forall>d'. d' \<noteq> d \<longrightarrow> cur i' d' = cur i d') \<and>
      (ok i \<longrightarrow> cur i d \<noteq> Some h \<longrightarrow> cur i' d = cur i d)"
begin

lemma removed_not_current: "io_remove X d h i = (Inr b, i') \<Longrightarrow> cur i' d \<noteq> Some h"
  using remove_returns cur_stored by blast

lemma remove_stored_le: "io_remove X d h i = (r, i') \<Longrightarrow> stored i' \<subseteq> stored i"
  by (cases r) (auto dest: remove_raises remove_returns)

lemma remove_other: "io_remove X d h i = (r, i') \<Longrightarrow> d' \<noteq> d \<Longrightarrow> cur i' d' = cur i d'"
  by (cases r) (auto dest: remove_raises remove_returns)

lemma index_stored_le:
  "io_index X s e i = (r, i') \<Longrightarrow> stored i' \<subseteq> insert (ds_document_id s, ds_sha256 s) (stored i)"
  by (cases r) (auto dest: index_raises index_returns)

lemma ops_ok: "ok i \<Longrightarrow> io_index X s e i = (r, i') \<Longrightarrow> ok i'" "ok i \<Longrightarrow> io_remove X d h i = (q, i') \<Longrightarrow> ok i'"
  by (cases r; auto dest: index_raises index_returns) (cases q; auto dest: remove_raises remove_returns)

end

definition sqlite_indexer :: "env \<Rightarrow> index_store indexer" where
  "sqlite_indexer E = \<lparr>io_index = index_atomic E, io_remove = remove_atomic\<rparr>"

interpretation sqlite: indexer_contract "sqlite_indexer E" ix_inv versions current_sha for E
proof
  fix i i' s e err rc d sh b
  show "current_sha i d = Some sh \<Longrightarrow> (d, sh) \<in> versions i" by (rule current_sha_version)
  show "io_index (sqlite_indexer E) s e i = (Inl err, i') \<Longrightarrow>
      versions i' = versions i \<and> current_sha i' = current_sha i \<and> (ix_inv i \<longrightarrow> ix_inv i')"
    by (simp add: sqlite_indexer_def) (metis index_atomic_error same_tables_views)
  show "io_remove (sqlite_indexer E) d sh i = (Inl err, i') \<Longrightarrow>
      versions i' = versions i \<and> current_sha i' = current_sha i \<and> (ix_inv i \<longrightarrow> ix_inv i')"
    by (simp add: sqlite_indexer_def) (metis remove_atomic_error same_tables_views)
  show "io_index (sqlite_indexer E) s e i = (Inr rc, i') \<Longrightarrow>
      versions i' = insert (ds_document_id s, ds_sha256 s) (versions i) \<and> (ix_inv i \<longrightarrow> ix_inv i') \<and>
      (ix_inv i \<longrightarrow> current_sha i' (ds_document_id s) = Some (ds_sha256 s)) \<and>
      (\<forall>d. d \<noteq> ds_document_id s \<longrightarrow> current_sha i' d = current_sha i d) \<and>
      (\<forall>c. e = Some c \<longrightarrow> current_sha i (ds_document_id s) = c) \<and>
      rc_document_id rc = ds_document_id s \<and> rc_sha256 rc = ds_sha256 s \<and> 0 < rc_chunk_count rc"
    unfolding sqlite_indexer_def indexer.simps
    using index_atomic_effect[of E s e i rc i'] by blast
  show "io_remove (sqlite_indexer E) d sh i = (Inr b, i') \<Longrightarrow>
      versions i' = versions i - {(d, sh)} \<and> (ix_inv i \<longrightarrow> ix_inv i') \<and>
      (\<forall>d'. d' \<noteq> d \<longrightarrow> current_sha i' d' = current_sha i d') \<and>
      (ix_inv i \<longrightarrow> current_sha i d \<noteq> Some sh \<longrightarrow> current_sha i' d = current_sha i d)"
    using remove_atomic_effect[of d sh i b i'] by (simp add: sqlite_indexer_def)
qed

section \<open>What readers are served\<close>

lemma find_key:
  "distinct (map doc_key docs) \<Longrightarrow> r \<in> set docs \<Longrightarrow> find (\<lambda>q. doc_key q = doc_key r) docs = Some r"
proof -
  assume d: "distinct (map doc_key docs)" and r: "r \<in> set docs"
  then have "find (\<lambda>q. doc_key q = doc_key r) docs \<noteq> None" by (auto simp: find_None_iff)
  then obtain q where q: "find (\<lambda>q. doc_key q = doc_key r) docs = Some q" by auto
  then have "q \<in> set docs" "doc_key q = doc_key r" by (auto dest: find_SomeD)
  with d r have "q = r" by (metis distinct_map inj_onD)
  with q show ?thesis by simp
qed

text \<open>The chunks joined with the current row of a document are the chunks of its current version.\<close>

lemma joined_current:
  assumes inv: "ix_inv st" and cur: "current_sha st d = Some sha"
  shows "joined (\<lambda>c r. ic_document_id c = d \<and> id_is_current r) st
    = filter (\<lambda>c. chunk_key c = (d, sha)) (ix_chunks st)"
proof -
  from inv have dk: "distinct (map doc_key (ix_docs st))"
    and dc: "distinct (map id_document_id (filter id_is_current (ix_docs st)))"
    and fk: "chunk_key ` set (ix_chunks st) \<subseteq> doc_key ` set (ix_docs st)"
    unfolding ix_inv_def by blast+
  from cur obtain row where "current_row st d = Some row" "id_sha256 row = sha"
    by (auto simp: current_sha_def)
  then have row: "row \<in> set (ix_docs st)" "id_document_id row = d" "id_is_current row" "doc_key row = (d, sha)"
    using current_row_some by (auto simp: doc_key_def)
  show ?thesis unfolding joined_def
  proof (rule filter_cong [OF refl])
    fix c
    assume "c \<in> set (ix_chunks st)"
    then obtain r where r: "r \<in> set (ix_docs st)" "doc_key r = chunk_key c" using fk by fastforce
    then have find: "chunk_row st c = Some r" using find_key[OF dk r(1)] by (simp add: chunk_row_def)
    show "(case chunk_row st c of None \<Rightarrow> False | Some r \<Rightarrow> ic_document_id c = d \<and> id_is_current r)
      = (chunk_key c = (d, sha))"
    proof
      assume "case chunk_row st c of None \<Rightarrow> False | Some r \<Rightarrow> ic_document_id c = d \<and> id_is_current r"
      then have "ic_document_id c = d" "id_is_current r" using find by auto
      then have "r = row" using distinct_current_iff[OF dc dk r(1) row(1)] r row by (auto simp: doc_key_def chunk_key_def)
      with r row show "chunk_key c = (d, sha)" by simp
    next
      assume k: "chunk_key c = (d, sha)"
      then have "r = row" using r row dk by (metis distinct_map inj_onD)
      with k row find show "case chunk_row st c of None \<Rightarrow> False | Some r \<Rightarrow> ic_document_id c = d \<and> id_is_current r"
        by (simp add: chunk_key_def)
    qed
  qed
qed

lemma sort_write_chunks: "sort_key ic_chunk_index (write_chunks s cs) = write_chunks s cs"
proof -
  have "sorted (map ic_chunk_index (write_chunks s cs))" by (simp add: write_chunks_index)
  then show ?thesis by (simp add: sort_key_id_if_sorted)
qed

lemma map_text_write_chunks: "map ic_text (write_chunks s cs) = cs"
proof -
  have "map ic_text (write_chunks s cs) = map snd (enumerate 0 cs)"
    unfolding write_chunks_def map_map by (rule map_cong) (auto split: prod.splits)
  then show ?thesis by simp
qed

lemma index_atomic_chunks:
  assumes "ix_inv st" "index_atomic E s expected st = (Inr rc, st')"
  shows "map ic_text (get_chunks st' (ds_document_id s) None)
    = split_text (ix_chunk_size st) (ix_chunk_overlap st) (ds_text s)"
proof -
  let ?k = "(ds_document_id s, ds_sha256 s)"
  have inv: "ix_inv st'" and cur: "current_sha st' (ds_document_id s) = Some (ds_sha256 s)"
    using index_atomic_effect[OF assms(2)] assms(1) by blast+
  define chunks where "chunks = split_text (ix_chunk_size st) (ix_chunk_overlap st) (ds_text s)"
  from assms(2) have "\<exists>t :: index_store. ix_chunks st' = filter (\<lambda>c. chunk_key c \<noteq> ?k) (ix_chunks t) @ write_chunks s chunks"
  proof (cases rule: index_atomic_cases)
    case (stored rc t row cs)
    show ?thesis by (rule exI[of _ t]) (simp add: chunks_def stored(4,9,12))
  qed simp
  then obtain t :: index_store where st': "ix_chunks st' = filter (\<lambda>c. chunk_key c \<noteq> ?k) (ix_chunks t) @ write_chunks s chunks"
    by blast
  have "filter (\<lambda>c. chunk_key c = ?k) (ix_chunks st') = write_chunks s chunks"
    unfolding st' by (auto simp: filter_empty_conv dest: write_chunks_keys intro!: filter_True)
  then show ?thesis
    unfolding get_chunks_def option.simps joined_current[OF inv cur]
    by (simp add: sort_write_chunks map_text_write_chunks chunks_def)
qed

lemma removed_current:
  assumes inv: "ix_inv st" and run: "remove_atomic d sha st = (Inr b, st')" and cur: "current_sha st d = Some sha"
  shows "current_sha st' d = map_option id_sha256 (predecessor d sha (ix_docs st))"
  using run
proof (cases rule: remove_atomic_cases)
  case (failed e)
  then show ?thesis by simp
next
  case absent
  then show ?thesis using current_sha_version[OF cur] by simp
next
  case (removed row t)
  have docs: "ix_docs t = ix_docs st" using removed(2) by (simp add: same_tables_def)
  have inv': "ix_inv st'" using remove_atomic_effect(3)[OF run inv] .
  from inv have dk: "distinct (map doc_key (ix_docs st))" by (simp add: ix_inv_def)
  obtain q where "current_row st d = Some q" "id_sha256 q = sha" using cur by (auto simp: current_sha_def)
  then have q: "q \<in> set (ix_docs st)" "id_is_current q" "doc_key q = (d, sha)"
    using current_row_some by (auto simp: doc_key_def)
  have "row = q" using find_key[OF dk q(1)] removed(3) q(3) docs by simp
  then have b: "id_is_current row" using q by simp
  show ?thesis
  proof (cases "predecessor d sha (ix_docs st)")
    case None
    then have "filter (\<lambda>r. id_document_id r = d) (others d sha (ix_docs st)) = []"
      by (simp add: predecessor_def newest_version_None)
    then have "current_sha st' d = None"
      using None b docs by (intro current_sha_none)
        (auto simp: removed(4) removed_docs_def Let_def others_def predecessor_def filter_empty_conv)
    with None show ?thesis by simp
  next
    case (Some p)
    then have p: "p \<in> set (others d sha (ix_docs st))" "id_document_id p = d"
      using newest_version_mem unfolding predecessor_def by fastforce+
    let ?p = "p\<lparr>id_is_current := True\<rparr>"
    have "?p \<in> set (mark_current (d, id_sha256 p) (others d sha (ix_docs st)))"
      unfolding mark_current_def set_map using p by (intro image_eqI[of _ _ p]) (auto simp: doc_key_def)
    then have "?p \<in> set (ix_docs st')"
      using b Some docs by (simp add: removed(4) removed_docs_def Let_def others_def predecessor_def)
    moreover have "distinct (map id_document_id (filter id_is_current (ix_docs st')))"
      using inv' by (simp add: ix_inv_def)
    ultimately show ?thesis using current_sha_eq[of _ st' ?p d] p Some by simp
  qed
qed

section \<open>Properties\<close>

text \<open>\<^verbatim>\<open>split_text\<close> loses no body text: every character of the normalized body that is
  not a space lies in a piece of at most \<^verbatim>\<open>chunk_size\<close> characters that, stripped, is one
  of the chunks.\<close>

lemma split_text_covers:
  "\<lbrakk>0 < csize; i < length (normalized_body text); \<not> is_space (normalized_body text ! i)\<rbrakk> \<Longrightarrow>
   \<exists>a e. a \<le> i \<and> i < e \<and> e \<le> length (normalized_body text) \<and> e \<le> a + csize \<and>
     strip (slice (normalized_body text) a e) \<in> set (split_text csize overlap text)"
proof -
  assume h: "0 < csize" "i < length (normalized_body text)" "\<not> is_space (normalized_body text ! i)"
  let ?n = "normalized_body text"
  obtain cs where cs: "chunk_loop (Suc (length ?n)) csize overlap ?n 0 = Some cs"
    using chunk_loop_total[OF h(1)] by (metis diff_zero lessI)
  then have "split_text csize overlap text = cs" using h(2) by (auto simp: split_text_def Let_def simp del: chunk_loop.simps)
  with chunk_loop_covers[OF cs h(1) _ h(2,3)] show ?thesis by auto
qed

lemma split_text_covers_witness:
  "\<exists>a e. a \<le> 1 \<and> 1 < e \<and> e \<le> length (normalized_body (u ''ab cd'')) \<and> e \<le> a + 4 \<and>
     strip (slice (normalized_body (u ''ab cd'')) a e) \<in> set (split_text 4 1 (u ''ab cd''))"
  by (rule split_text_covers)
     (simp_all add: u_def normalized_body_def splitlines_def is_linebreak_def strip_def lstrip_def rstrip_def is_space_def)

text \<open>The chunk loop ends for every chunk size the constructor admits, and every chunk it
  gives is non-empty and at most \<^verbatim>\<open>chunk_size\<close> characters long.\<close>

lemma split_text_bounds:
  "0 < csize \<Longrightarrow>
   chunk_loop (Suc (length (normalized_body text))) csize overlap (normalized_body text) 0 \<noteq> None \<and>
   (\<forall>c. c \<notin> set (split_text csize overlap text) \<or> (c \<noteq> [] \<and> length c \<le> csize))"
proof -
  assume h: "0 < csize"
  let ?n = "normalized_body text"
  obtain cs where cs: "chunk_loop (Suc (length ?n)) csize overlap ?n 0 = Some cs"
    using chunk_loop_total[OF h] by (metis diff_zero lessI)
  have "c \<noteq> [] \<and> length c \<le> csize" if mem: "c \<in> set cs" for c
  proof -
    obtain a e where c: "c = strip (slice ?n a e)" "c \<noteq> []" "e \<le> a + csize"
      using chunk_loop_chunks[OF cs h mem] by blast
    have "length c \<le> e - a" using c(1) length_strip_le length_slice_le order_trans by metis
    with c show ?thesis by simp
  qed
  with cs show ?thesis by (auto simp: split_text_def Let_def simp del: chunk_loop.simps split: if_splits)
qed

lemma split_text_bounds_witness: "chunk_loop (Suc (length (normalized_body (u ''ab'')))) 800 100 (normalized_body (u ''ab'')) 0 \<noteq> None"
  using split_text_bounds [of 800 "u ''ab''" 100] by simp


definition empty_index :: index_store where
  "empty_index = \<lparr>ix_chunk_size = 800, ix_chunk_overlap = 100, ix_docs = [], ix_chunks = [], ix_clock = 0, ix_faults = []\<rparr>"

lemma empty_index_sel: "ix_chunk_size empty_index = 800" "ix_chunk_overlap empty_index = 100"
  by (simp_all add: empty_index_def)

lemma empty_index_inv: "ix_inv empty_index"
  by (simp add: ix_inv_def empty_index_def)


text \<open>Removing the current version of a document makes the newest of its remaining versions
  current (none, if none remains) and leaves no chunk of the removed version in the index.\<close>

lemma remove_atomic_restores:
  "\<lbrakk>ix_inv st; current_sha st d = Some sha; remove_atomic d sha st = (Inr b, st')\<rbrakk> \<Longrightarrow>
   current_sha st' d = map_option id_sha256 (predecessor d sha (ix_docs st)) \<and>
   (d, sha) \<notin> chunk_key ` set (ix_chunks st') \<and> versions st' = versions st - {(d, sha)}"
proof -
  assume h: "ix_inv st" "current_sha st d = Some sha" "remove_atomic d sha st = (Inr b, st')"
  have "chunk_key ` set (ix_chunks st') \<subseteq> versions st'"
    using remove_atomic_effect(3)[OF h(3,1)] by (simp add: ix_inv_def versions_def)
  then show ?thesis using removed_current[OF h(1,3,2)] remove_atomic_effect(1)[OF h(3)] by blast
qed

definition two_versions :: index_store where
  "two_versions = empty_index
     \<lparr>ix_docs := [\<lparr>id_document_id = u ''d'', id_sha256 = u ''a'', id_indexed_at = u ''T1'', id_text_sha256 = [],
                   id_chunk_count = 1, id_metadata_json = [], id_is_current = False\<rparr>,
                  \<lparr>id_document_id = u ''d'', id_sha256 = u ''b'', id_indexed_at = u ''T2'', id_text_sha256 = [],
                   id_chunk_count = 1, id_metadata_json = [], id_is_current = True\<rparr>],
      ix_chunks := [\<lparr>ic_document_id = u ''d'', ic_sha256 = u ''a'', ic_chunk_index = 0, ic_text = u ''x''\<rparr>,
                    \<lparr>ic_document_id = u ''d'', ic_sha256 = u ''b'', ic_chunk_index = 0, ic_text = u ''y''\<rparr>]\<rparr>"

lemma remove_atomic_restores_witness:
  "current_sha (snd (remove_atomic (u ''d'') (u ''b'') two_versions)) (u ''d'') = Some (u ''a'')"
proof -
  obtain b st' where run: "remove_atomic (u ''d'') (u ''b'') two_versions = (Inr b, st')"
    by (simp add: remove_atomic_def ix_transaction_def Let_def two_versions_def empty_index_def doc_key_def)
  have "current_sha st' (u ''d'') = map_option id_sha256 (predecessor (u ''d'') (u ''b'') (ix_docs two_versions))"
    using remove_atomic_restores [OF _ _ run]
    by (simp add: ix_inv_def two_versions_def empty_index_def doc_key_def chunk_key_def current_sha_def current_row_def)
  with run show ?thesis
    by (simp add: predecessor_def others_def newest_version_def two_versions_def empty_index_def doc_key_def)
qed

end
