(* ===== verification/AuditLog.thy ===== *)
theory AuditLog
  imports Contracts "HOL-Library.Product_Lexorder"
begin

text \<open>
  The tamper-evident audit store of \<^verbatim>\<open>src/indexguard/audit.py\<close>: the two tables of
  \<^verbatim>\<open>AuditStore\<close> as lists of rows, the event digest, the two writing operations, the
  readers and \<^verbatim>\<open>verify_chain\<close>.  As in the index, a transaction may be struck by a
  database error, which rolls the tables back.  The lemmas show that the tables only grow, that
  every operation keeps all chains valid, and that two valid chains with the same last digest
  are equal unless SHA-256 collides.
\<close>

section \<open>The tables\<close>

record analysis_row =
  an_analysis_id :: str
  an_document_id :: str
  an_baseline_sha256 :: str
  an_candidate_sha256 :: str
  an_candidate_blob_path :: str
  an_prepared_json :: str
  an_code_revision :: "str option"
  an_created_at :: str

record event_row =
  ev_analysis_id :: str
  ev_sequence :: int
  ev_event_type :: str
  ev_payload_json :: str
  ev_created_at :: str
  ev_previous_hash :: str
  ev_event_hash :: str

record audit_store =
  au_analyses :: "analysis_row list"
  au_events :: "event_row list"
  au_clock :: nat
  au_faults :: "err option list"

record audit_event =
  ae_sequence :: int
  ae_analysis_id :: str
  ae_event_type :: str
  ae_payload :: json
  ae_created_at :: str
  ae_previous_hash :: str
  ae_event_hash :: str

record analysis_audit_record =
  ra_prepared :: prepared_analysis
  ra_candidate_blob_path :: str
  ra_created_at :: str
  ra_events :: "audit_event list"

definition genesis_hash :: str where
  "genesis_hash = replicate 64 48"

definition audit_init :: "err option list \<Rightarrow> audit_store" where
  "audit_init faults = \<lparr>au_analyses = [], au_events = [], au_clock = 0, au_faults = faults\<rparr>"

definition au_transaction :: "(audit_store, 'a) op \<Rightarrow> (audit_store, 'a) op" where
  "au_transaction body st =
     (let st0 = st\<lparr>au_faults := tl (au_faults st)\<rparr> in
      case (if au_faults st = [] then None else hd (au_faults st)) of
        Some e \<Rightarrow> (Inl e, st0)
      | None \<Rightarrow> (case body st0 of
                   (Inl e, t) \<Rightarrow> (Inl e, st0\<lparr>au_clock := au_clock t\<rparr>)
                 | (Inr x, t) \<Rightarrow> (Inr x, t)))"

definition analysis_row_of :: "audit_store \<Rightarrow> str \<Rightarrow> analysis_row option" where
  "analysis_row_of st aid = find (\<lambda>r. an_analysis_id r = aid) (au_analyses st)"

definition analysis_exists :: "audit_store \<Rightarrow> str \<Rightarrow> bool" where
  "analysis_exists st aid \<longleftrightarrow> analysis_row_of st aid \<noteq> None"

text \<open>\<^verbatim>\<open>WHERE analysis_id = ? ORDER BY sequence\<close>.\<close>

definition events_of :: "audit_store \<Rightarrow> str \<Rightarrow> event_row list" where
  "events_of st aid = sort_key ev_sequence (filter (\<lambda>r. ev_analysis_id r = aid) (au_events st))"

section \<open>The event digest\<close>

definition event_object :: "str \<Rightarrow> int \<Rightarrow> str \<Rightarrow> str \<Rightarrow> str \<Rightarrow> str \<Rightarrow> json" where
  "event_object aid seq event_type payload_json created_at previous_hash = JObj
     [(u ''analysis_id'', JStr aid),
      (u ''sequence'', JInt seq),
      (u ''event_type'', JStr event_type),
      (u ''payload_json'', JStr payload_json),
      (u ''created_at'', JStr created_at),
      (u ''previous_hash'', JStr previous_hash)]"

definition event_hash :: "env \<Rightarrow> str \<Rightarrow> int \<Rightarrow> str \<Rightarrow> str \<Rightarrow> str \<Rightarrow> str \<Rightarrow> str" where
  "event_hash E aid seq event_type payload_json created_at previous_hash =
     hash_canonical E (event_object aid seq event_type payload_json created_at previous_hash)"

section \<open>Writing\<close>

definition append_event_in_transaction ::
  "env \<Rightarrow> str \<Rightarrow> str \<Rightarrow> json \<Rightarrow> (audit_store, audit_event) op" where
  "append_event_in_transaction E aid event_type payload st =
     (if event_type = [] \<or> strip event_type = [] then (Inl ValueError, st)
      else if \<not> analysis_exists st aid then (Inl AnalysisNotFoundError, st)
      else
        let previous = (if events_of st aid = [] then None else Some (last (events_of st aid)));
            seq = (case previous of None \<Rightarrow> 1 | Some p \<Rightarrow> ev_sequence p + 1);
            previous_hash = (case previous of None \<Rightarrow> genesis_hash | Some p \<Rightarrow> ev_event_hash p);
            created_at = en_now E (au_clock st);
            payload_json = canonical_json payload;
            h = event_hash E aid seq event_type payload_json created_at previous_hash;
            st1 = st\<lparr>au_clock := Suc (au_clock st)\<rparr>
        in if h \<in> set (map ev_event_hash (events_of st aid))
           then (Inl (OtherError (u ''IntegrityError'')), st1)
           else (Inr \<lparr>ae_sequence = seq, ae_analysis_id = aid, ae_event_type = event_type,
                      ae_payload = payload, ae_created_at = created_at,
                      ae_previous_hash = previous_hash, ae_event_hash = h\<rparr>,
                 st1\<lparr>au_events := au_events st @
                   [\<lparr>ev_analysis_id = aid, ev_sequence = seq, ev_event_type = event_type,
                     ev_payload_json = payload_json, ev_created_at = created_at,
                     ev_previous_hash = previous_hash, ev_event_hash = h\<rparr>]\<rparr>))"

definition append_event :: "env \<Rightarrow> str \<Rightarrow> str \<Rightarrow> json \<Rightarrow> (audit_store, audit_event) op" where
  "append_event E aid event_type payload =
     au_transaction (append_event_in_transaction E aid event_type payload)"

definition record_policy_result :: "env \<Rightarrow> str \<Rightarrow> policy_result \<Rightarrow> (audit_store, audit_event) op" where
  "record_policy_result E aid policy =
     append_event E aid (u ''POLICY_RESULT_RECEIVED'') (dump_policy_result policy)"

definition record_index_outcome :: "env \<Rightarrow> str \<Rightarrow> index_outcome \<Rightarrow> (audit_store, audit_event) op" where
  "record_index_outcome E aid outcome =
     append_event E aid (u ''INDEX_GATE_APPLIED'') (dump_index_outcome outcome)"

section \<open>Reading\<close>

definition event_from_row :: "event_row \<Rightarrow> audit_event option" where
  "event_from_row r = map_option (\<lambda>p.
     \<lparr>ae_sequence = ev_sequence r, ae_analysis_id = ev_analysis_id r, ae_event_type = ev_event_type r,
      ae_payload = p, ae_created_at = ev_created_at r, ae_previous_hash = ev_previous_hash r,
      ae_event_hash = ev_event_hash r\<rparr>) (json_loads (ev_payload_json r))"

definition list_events_locked :: "audit_store \<Rightarrow> str \<Rightarrow> audit_event list res" where
  "list_events_locked st aid =
     (case those (map event_from_row (events_of st aid)) of None \<Rightarrow> Inl ValueError | Some es \<Rightarrow> Inr es)"

definition list_events :: "audit_store \<Rightarrow> str \<Rightarrow> audit_event list res" where
  "list_events st aid =
     (if \<not> analysis_exists st aid then Inl AnalysisNotFoundError else list_events_locked st aid)"

definition prepared_of_row :: "analysis_row \<Rightarrow> prepared_analysis res" where
  "prepared_of_row r =
     (case json_loads (an_prepared_json r) of
        None \<Rightarrow> Inl ValidationError
      | Some j \<Rightarrow> (case validate_prepared_analysis j of None \<Rightarrow> Inl ValidationError | Some p \<Rightarrow> Inr p))"

definition get_analysis :: "audit_store \<Rightarrow> str \<Rightarrow> analysis_audit_record res" where
  "get_analysis st aid =
     (case analysis_row_of st aid of
        None \<Rightarrow> Inl AnalysisNotFoundError
      | Some row \<Rightarrow>
          (case prepared_of_row row of
             Inl e \<Rightarrow> Inl e
           | Inr prepared \<Rightarrow>
               (case list_events_locked st aid of
                  Inl e \<Rightarrow> Inl e
                | Inr es \<Rightarrow> Inr \<lparr>ra_prepared = prepared,
                                 ra_candidate_blob_path = an_candidate_blob_path row,
                                 ra_created_at = an_created_at row, ra_events = es\<rparr>)))"

definition get_prepared_analysis :: "audit_store \<Rightarrow> str \<Rightarrow> prepared_analysis res" where
  "get_prepared_analysis st aid = (case get_analysis st aid of Inl e \<Rightarrow> Inl e | Inr r \<Rightarrow> Inr (ra_prepared r))"

text \<open>The loop of \<^verbatim>\<open>verify_chain\<close> over the rows in sequence order.\<close>

fun verify_rows :: "env \<Rightarrow> str \<Rightarrow> int \<Rightarrow> str \<Rightarrow> event_row list \<Rightarrow> bool" where
  "verify_rows E aid expected_sequence expected_previous [] = True"
| "verify_rows E aid expected_sequence expected_previous (r # rs) =
     (if ev_sequence r \<noteq> expected_sequence then False
      else if ev_previous_hash r \<noteq> expected_previous then False
      else if ev_event_hash r \<noteq> event_hash E aid (ev_sequence r) (ev_event_type r)
                (ev_payload_json r) (ev_created_at r) (ev_previous_hash r) then False
      else verify_rows E aid (expected_sequence + 1) (ev_event_hash r) rs)"

definition verify_chain :: "env \<Rightarrow> audit_store \<Rightarrow> str \<Rightarrow> bool res" where
  "verify_chain E st aid =
     (if \<not> analysis_exists st aid then Inl AnalysisNotFoundError
      else if events_of st aid = [] then Inr False
      else Inr (verify_rows E aid 1 genesis_hash (events_of st aid)))"

text \<open>\<^verbatim>\<open>ORDER BY created_at DESC, analysis_id DESC LIMIT ?\<close>.\<close>

definition list_analysis_ids :: "audit_store \<Rightarrow> int \<Rightarrow> str list res" where
  "list_analysis_ids st limit =
     (if \<not> (1 \<le> limit \<and> limit \<le> 1000) then Inl ValueError
      else Inr (map an_analysis_id (take (nat limit)
             (rev (sort_key (\<lambda>r. (an_created_at r, an_analysis_id r)) (au_analyses st))))))"

definition version_of_row :: "analysis_row \<Rightarrow> int option res" where
  "version_of_row r =
     (case prepared_of_row r of
        Inl e \<Rightarrow> Inl e
      | Inr p \<Rightarrow> Inr (if pa_supersedes_analysis_id p = None then Some (pa_version p) else None))"

fun collect_versions :: "analysis_row list \<Rightarrow> int list res" where
  "collect_versions [] = Inr []"
| "collect_versions (r # rs) =
     (case version_of_row r of
        Inl e \<Rightarrow> Inl e
      | Inr v \<Rightarrow> (case collect_versions rs of
                    Inl e \<Rightarrow> Inl e
                  | Inr vs \<Rightarrow> Inr (case v of None \<Rightarrow> vs | Some n \<Rightarrow> n # vs)))"

definition next_document_version :: "audit_store \<Rightarrow> str \<Rightarrow> int res" where
  "next_document_version st d =
     (case collect_versions (filter (\<lambda>r. an_document_id r = d) (au_analyses st)) of
        Inl e \<Rightarrow> Inl e
      | Inr vs \<Rightarrow> Inr ((if vs = [] then 0 else Max (set vs)) + 1))"

section \<open>Recording a prepared analysis\<close>

text \<open>\<^verbatim>\<open>prepared_at.isoformat()\<close> of a UTC datetime carried as its JSON text.\<close>

definition isoformat :: "str \<Rightarrow> str" where
  "isoformat t = (if suffixes_str (u ''Z'') t then butlast t @ u ''+00:00'' else t)"

definition prepared_payload :: "prepared_analysis \<Rightarrow> str \<Rightarrow> json" where
  "prepared_payload p blob_path = JObj
     [(u ''document_id'', JStr (pa_document_id p)),
      (u ''version'', JInt (pa_version p)),
      (u ''analysis_attempt'', JInt (pa_analysis_attempt p)),
      (u ''baseline_sha256'', JStr (ds_sha256 (pa_baseline p))),
      (u ''baseline_normalized_sha256'', d_opt JStr (ds_normalized_sha256 (pa_baseline p))),
      (u ''candidate_sha256'', JStr (ds_sha256 (pa_candidate p))),
      (u ''candidate_normalized_sha256'', d_opt JStr (ds_normalized_sha256 (pa_candidate p))),
      (u ''candidate_blob_path'', JStr blob_path),
      (u ''changed_by'', JStr (pa_changed_by p)),
      (u ''source_mtime_ns'', d_opt JInt (pa_source_mtime_ns p)),
      (u ''prepared_at'', d_opt (\<lambda>t. JStr (isoformat t)) (pa_prepared_at p)),
      (u ''supersedes_analysis_id'', d_opt JStr (pa_supersedes_analysis_id p)),
      (u ''code_revision'', d_opt JStr (pa_code_revision p))]"

text \<open>
  \<^verbatim>\<open>record_prepared_analysis\<close>.  \<open>files\<close> is the file system, a path's bytes where there is a
  file.
\<close>

definition record_prepared_analysis ::
  "env \<Rightarrow> (str \<Rightarrow> nat list option) \<Rightarrow> prepared_analysis \<Rightarrow> str \<Rightarrow> (audit_store, analysis_audit_record) op" where
  "record_prepared_analysis E files prepared blob_path st =
     (case files blob_path of
        None \<Rightarrow> (Inl IntegrityError, st)
      | Some bytes \<Rightarrow>
          if en_sha_bytes E bytes \<noteq> ds_sha256 (pa_candidate prepared) then (Inl IntegrityError, st)
          else
            let prepared_json = canonical_json (dump_prepared_analysis prepared);
                created_at = en_now E (au_clock st);
                aid = pa_analysis_id prepared;
                row = \<lparr>an_analysis_id = aid, an_document_id = pa_document_id prepared,
                       an_baseline_sha256 = ds_sha256 (pa_baseline prepared),
                       an_candidate_sha256 = ds_sha256 (pa_candidate prepared),
                       an_candidate_blob_path = blob_path, an_prepared_json = prepared_json,
                       an_code_revision = pa_code_revision prepared, an_created_at = created_at\<rparr>
            in case au_transaction
                      (\<lambda>t. case analysis_row_of t aid of
                             Some existing \<Rightarrow>
                               if an_prepared_json existing \<noteq> prepared_json \<or>
                                  an_candidate_blob_path existing \<noteq> blob_path
                               then (Inl IntegrityError, t) else (Inr (), t)
                           | None \<Rightarrow>
                               (case append_event_in_transaction E aid (u ''ANALYSIS_PREPARED'')
                                       (prepared_payload prepared blob_path)
                                       (t\<lparr>au_analyses := au_analyses t @ [row]\<rparr>) of
                                  (Inl e, t1) \<Rightarrow> (Inl e, t1)
                                | (Inr ev, t1) \<Rightarrow> (Inr (), t1)))
                      (st\<lparr>au_clock := Suc (au_clock st)\<rparr>) of
                 (Inl e, st1) \<Rightarrow> (Inl e, st1)
               | (Inr _, st1) \<Rightarrow> (get_analysis st1 aid, st1))"

section \<open>The tables only grow\<close>

definition au_grows :: "audit_store \<Rightarrow> audit_store \<Rightarrow> bool" where
  "au_grows st st' \<longleftrightarrow> (\<exists>as. au_analyses st' = au_analyses st @ as) \<and> (\<exists>es. au_events st' = au_events st @ es)"

definition au_same :: "audit_store \<Rightarrow> audit_store \<Rightarrow> bool" where
  "au_same st st' \<longleftrightarrow> au_analyses st' = au_analyses st \<and> au_events st' = au_events st"

lemma au_same_refl [simp]: "au_same st st"
  by (simp add: au_same_def)

lemma au_same_grows: "au_same st st' \<Longrightarrow> au_grows st st'"
  by (simp add: au_same_def au_grows_def)

lemma au_grows_preorder: "preorderR au_grows"
  by (rule preorderRI) (auto simp: au_grows_def)

lemma au_grows_refl [simp]: "au_grows st st"
  by (simp add: au_grows_def)

lemma au_grows_trans: "au_grows a b \<Longrightarrow> au_grows b c \<Longrightarrow> au_grows a c"
  by (rule preorderR_trans [OF au_grows_preorder])

lemma au_same_views:
  assumes "au_same st st'"
  shows "analysis_row_of st' = analysis_row_of st" "analysis_exists st' = analysis_exists st"
    "events_of st' = events_of st" "get_analysis st' = get_analysis st" "verify_chain E st' = verify_chain E st"
    "list_events st' = list_events st" "get_prepared_analysis st' = get_prepared_analysis st"
proof -
  show r: "analysis_row_of st' = analysis_row_of st"
    using assms by (simp add: au_same_def analysis_row_of_def fun_eq_iff)
  show x: "analysis_exists st' = analysis_exists st" by (simp add: analysis_exists_def r fun_eq_iff)
  show e: "events_of st' = events_of st" using assms by (simp add: au_same_def events_of_def fun_eq_iff)
  have l: "list_events_locked st' = list_events_locked st" by (rule ext) (simp only: list_events_locked_def e)
  show g: "get_analysis st' = get_analysis st" by (rule ext) (simp only: get_analysis_def r l)
  show "verify_chain E st' = verify_chain E st" by (rule ext) (simp only: verify_chain_def x e)
  show "list_events st' = list_events st" by (rule ext) (simp only: list_events_def x l)
  show "get_prepared_analysis st' = get_prepared_analysis st" by (rule ext) (simp only: get_prepared_analysis_def g)
qed

lemma analysis_exists_iff: "analysis_exists st a \<longleftrightarrow> a \<in> an_analysis_id ` set (au_analyses st)"
  unfolding analysis_exists_def analysis_row_of_def find_None_iff by (simp, blast)

lemma find_append_some: "find P xs = Some x \<Longrightarrow> find P (xs @ ys) = Some x"
  by (induction xs) auto

lemma find_append_none: "find P xs = None \<Longrightarrow> find P (xs @ ys) = find P ys"
  by (induction xs) (auto split: if_splits)

lemma analysis_row_grows: "au_grows st st' \<Longrightarrow> analysis_row_of st aid = Some r \<Longrightarrow> analysis_row_of st' aid = Some r"
  by (auto simp: au_grows_def analysis_row_of_def find_append_some)

lemma analysis_exists_grows: "au_grows st st' \<Longrightarrow> analysis_exists st aid \<Longrightarrow> analysis_exists st' aid"
  by (auto simp: analysis_exists_def dest: analysis_row_grows)

lemma event_grows: "au_grows st st' \<Longrightarrow> r \<in> set (au_events st) \<Longrightarrow> r \<in> set (au_events st')"
  by (auto simp: au_grows_def)

lemma au_transaction_cases:
  assumes run: "au_transaction body st = (r, st')"
    and failed: "\<And>e. r = Inl e \<Longrightarrow> au_same st st' \<Longrightarrow> thesis"
    and committed: "\<And>x t. r = Inr x \<Longrightarrow> au_same st t \<Longrightarrow> au_clock t = au_clock st \<Longrightarrow> body t = (Inr x, st') \<Longrightarrow> thesis"
  shows thesis
proof -
  let ?t = "st\<lparr>au_faults := tl (au_faults st)\<rparr>"
  have s: "au_same st ?t" by (simp add: au_same_def)
  have s2: "\<And>c. au_same st (?t\<lparr>au_clock := c\<rparr>)" by (simp add: au_same_def)
  show thesis
    using run s s2 failed committed unfolding au_transaction_def Let_def
    by (auto split: option.splits prod.splits sum.splits)
qed

lemma append_in_transaction_cases:
  assumes "append_event_in_transaction E aid et payload st = (r, st')"
  obtains (raised) e where "r = Inl e" "au_same st st'"
  | (added) ev row where "r = Inr ev" "analysis_exists st aid" "strip et \<noteq> []"
      "au_analyses st' = au_analyses st" "au_events st' = au_events st @ [row]"
      "ev_analysis_id row = aid" "ev_event_type row = et" "ev_payload_json row = canonical_json payload"
      "ev_sequence row = (if events_of st aid = [] then 1 else ev_sequence (last (events_of st aid)) + 1)"
      "ev_previous_hash row = (if events_of st aid = [] then genesis_hash else ev_event_hash (last (events_of st aid)))"
      "ev_event_hash row = event_hash E aid (ev_sequence row) et (ev_payload_json row) (ev_created_at row) (ev_previous_hash row)"
      "ev_event_hash row \<notin> set (map ev_event_hash (events_of st aid))"
      "ev = \<lparr>ae_sequence = ev_sequence row, ae_analysis_id = aid, ae_event_type = et, ae_payload = payload,
             ae_created_at = ev_created_at row, ae_previous_hash = ev_previous_hash row, ae_event_hash = ev_event_hash row\<rparr>"
proof -
  let ?p = "if events_of st aid = [] then None else Some (last (events_of st aid))"
  define q where "q = (case ?p of None \<Rightarrow> 1 | Some p \<Rightarrow> ev_sequence p + 1)"
  define ph where "ph = (case ?p of None \<Rightarrow> genesis_hash | Some p \<Rightarrow> ev_event_hash p)"
  define h where "h = event_hash E aid q et (canonical_json payload) (en_now E (au_clock st)) ph"
  define row where "row = \<lparr>ev_analysis_id = aid, ev_sequence = q, ev_event_type = et,
     ev_payload_json = canonical_json payload, ev_created_at = en_now E (au_clock st),
     ev_previous_hash = ph, ev_event_hash = h\<rparr>"
  show ?thesis
  proof (cases "strip et = [] \<or> \<not> analysis_exists st aid \<or> h \<in> set (map ev_event_hash (events_of st aid))")
    case True
    then have "\<exists>e. r = Inl e \<and> au_same st st'"
      using assms unfolding append_event_in_transaction_def Let_def q_def[symmetric] ph_def[symmetric] h_def[symmetric]
      by (auto simp: au_same_def split: if_splits)
    then show ?thesis using raised by blast
  next
    case False
    then have "et \<noteq> []" by auto
    with False assms have "r = Inr \<lparr>ae_sequence = q, ae_analysis_id = aid, ae_event_type = et, ae_payload = payload,
             ae_created_at = en_now E (au_clock st), ae_previous_hash = ph, ae_event_hash = h\<rparr>"
      "au_analyses st' = au_analyses st" "au_events st' = au_events st @ [row]"
      unfolding append_event_in_transaction_def Let_def q_def[symmetric] ph_def[symmetric] h_def[symmetric] row_def
      by (auto split: if_splits)
    with False show ?thesis by (intro added[of _ row]) (auto simp: row_def q_def ph_def h_def)
  qed
qed

section \<open>Valid chains\<close>

definition chain_of :: "audit_store \<Rightarrow> str \<Rightarrow> event_row list" where
  "chain_of st aid = filter (\<lambda>r. ev_analysis_id r = aid) (au_events st)"

lemma verify_rows_append:
  "verify_rows E aid n p (rs @ [r]) \<longleftrightarrow>
     verify_rows E aid n p rs \<and> ev_sequence r = n + int (length rs) \<and>
     ev_previous_hash r = (if rs = [] then p else ev_event_hash (last rs)) \<and>
     ev_event_hash r = event_hash E aid (ev_sequence r) (ev_event_type r) (ev_payload_json r)
       (ev_created_at r) (ev_previous_hash r)"
  by (induction rs arbitrary: n p) auto

lemma verify_rows_sequences: "verify_rows E aid n p rs \<Longrightarrow> i < length rs \<Longrightarrow> ev_sequence (rs ! i) = n + int i"
proof (induction rs arbitrary: n p i)
  case Nil
  then show ?case by simp
next
  case (Cons r rs)
  then show ?case by (cases i) (auto split: if_splits)
qed

lemma verify_rows_sorted: "verify_rows E aid n p rs \<Longrightarrow> sorted (map ev_sequence rs)"
  unfolding sorted_iff_nth_mono using verify_rows_sequences by fastforce

definition au_inv :: "env \<Rightarrow> audit_store \<Rightarrow> bool" where
  "au_inv E st \<longleftrightarrow>
     distinct (map an_analysis_id (au_analyses st)) \<and>
     (\<forall>r\<in>set (au_events st). analysis_exists st (ev_analysis_id r)) \<and>
     (\<forall>aid. verify_rows E aid 1 genesis_hash (chain_of st aid)) \<and>
     (\<forall>aid. analysis_exists st aid \<longrightarrow> chain_of st aid \<noteq> [])"

lemma events_of_chain: "verify_rows E aid 1 genesis_hash (chain_of st aid) \<Longrightarrow> events_of st aid = chain_of st aid"
  unfolding events_of_def chain_of_def by (simp add: verify_rows_sorted sort_key_id_if_sorted)

lemma au_inv_events_of: "au_inv E st \<Longrightarrow> events_of st aid = chain_of st aid"
  unfolding au_inv_def using events_of_chain by blast

lemma au_inv_same: "au_same st st' \<Longrightarrow> au_inv E st' = au_inv E st"
  using au_same_views(2)[of st st'] by (simp add: au_inv_def au_same_def chain_of_def)

lemma au_inv_verify: "au_inv E st \<Longrightarrow> analysis_exists st aid \<Longrightarrow> verify_chain E st aid = Inr True"
  unfolding verify_chain_def by (simp add: au_inv_events_of) (simp add: au_inv_def)

lemma au_inv_init [simp]: "au_inv E (audit_init faults)"
  by (simp add: au_inv_def audit_init_def chain_of_def analysis_exists_def analysis_row_of_def)

lemma append_keeps_chains:
  assumes chains: "\<forall>a. verify_rows E a 1 genesis_hash (chain_of st a)"
    and run: "append_event_in_transaction E aid et payload st = (Inr ev, st')"
  shows "verify_rows E a 1 genesis_hash (chain_of st' a)"
    and "chain_of st' aid \<noteq> []"
    and "chain_of st a \<noteq> [] \<Longrightarrow> chain_of st' a \<noteq> []"
  using run
proof (atomize (full), cases rule: append_in_transaction_cases)
  case (raised e)
  then show "verify_rows E a 1 genesis_hash (chain_of st' a) \<and> chain_of st' aid \<noteq> [] \<and>
    (chain_of st a \<noteq> [] \<longrightarrow> chain_of st' a \<noteq> [])" by simp
next
  case (added ev' row)
  have ch: "events_of st aid = chain_of st aid" using chains events_of_chain by blast
  have new: "chain_of st' a = (if a = aid then chain_of st aid @ [row] else chain_of st a)"
    using added by (simp add: chain_of_def)
  have "verify_rows E aid 1 genesis_hash (chain_of st aid @ [row])"
  proof -
    let ?n = "length (chain_of st aid)"
    have v: "verify_rows E aid 1 genesis_hash (chain_of st aid)" using chains by blast
    have "chain_of st aid \<noteq> [] \<Longrightarrow> ev_sequence (last (chain_of st aid)) = int ?n"
      using verify_rows_sequences[OF v, of "?n - 1"] by (simp add: last_conv_nth of_nat_diff Suc_leI)
    with v show ?thesis unfolding verify_rows_append using added ch by auto
  qed
  then show "verify_rows E a 1 genesis_hash (chain_of st' a) \<and> chain_of st' aid \<noteq> [] \<and>
    (chain_of st a \<noteq> [] \<longrightarrow> chain_of st' a \<noteq> [])"
    using chains new added by (auto simp: chain_of_def)
qed

lemma append_event_effect:
  assumes "append_event E aid et payload st = (r, st')"
  shows "au_grows st st' \<and> (au_inv E st \<longrightarrow> au_inv E st') \<and> au_analyses st' = au_analyses st"
  using assms unfolding append_event_def
proof (rule au_transaction_cases)
  fix e
  assume "r = Inl e" "au_same st st'"
  then show ?thesis using au_inv_same[of st st' E] au_same_grows[of st st'] by (simp add: au_same_def)
next
  fix x t
  assume t: "au_same st t" and run: "append_event_in_transaction E aid et payload t = (Inr x, st')"
  from run obtain row where ex: "analysis_exists t aid" and a: "au_analyses st' = au_analyses t"
    and e: "au_events st' = au_events t @ [row]" "ev_analysis_id row = aid"
    by (cases rule: append_in_transaction_cases) auto
  have exs: "analysis_exists st' = analysis_exists t"
    using a by (simp add: analysis_exists_def analysis_row_of_def fun_eq_iff)
  have g: "au_grows st st'" using a e t by (simp add: au_grows_def au_same_def)
  have "au_inv E st'" if "au_inv E st"
  proof -
    have it: "au_inv E t" using that au_inv_same[OF t] by simp
    then have "\<forall>a. verify_rows E a 1 genesis_hash (chain_of t a)" by (simp add: au_inv_def)
    note k = append_keeps_chains[OF this run]
    show ?thesis unfolding au_inv_def exs
      using it ex a e k(1,3) by (auto simp: au_inv_def)
  qed
  with g a t show ?thesis by (simp add: au_same_def)
qed

lemma append_event_grows [step_rules]: "steps au_grows (append_event E aid et payload)"
  by (rule stepsI) (use append_event_effect in blast)

lemma append_event_keeps [step_rules]: "steps (\<lambda>s t. au_inv E s \<longrightarrow> au_inv E t) (append_event E aid et payload)"
  by (rule stepsI) (use append_event_effect in blast)

lemma record_policy_result_grows [step_rules]: "steps au_grows (record_policy_result E aid p)"
  unfolding record_policy_result_def by (rule append_event_grows)

lemma record_index_outcome_grows [step_rules]: "steps au_grows (record_index_outcome E aid p)"
  unfolding record_index_outcome_def by (rule append_event_grows)

lemma append_event_unknown:
  "\<not> analysis_exists st aid \<Longrightarrow> append_event E aid et payload st = (r, st') \<Longrightarrow> \<exists>e. r = Inl e"
  unfolding append_event_def
  by (erule au_transaction_cases, simp)
     (auto simp: au_same_views elim: append_in_transaction_cases)

subsection \<open>Recording\<close>

definition prepared_row :: "env \<Rightarrow> prepared_analysis \<Rightarrow> str \<Rightarrow> nat \<Rightarrow> analysis_row" where
  "prepared_row E p blob_path n =
     \<lparr>an_analysis_id = pa_analysis_id p, an_document_id = pa_document_id p,
      an_baseline_sha256 = ds_sha256 (pa_baseline p),
      an_candidate_sha256 = ds_sha256 (pa_candidate p),
      an_candidate_blob_path = blob_path, an_prepared_json = canonical_json (dump_prepared_analysis p),
      an_code_revision = pa_code_revision p, an_created_at = en_now E n\<rparr>"

lemma record_prepared_cases:
  assumes "record_prepared_analysis E files p path st = (r, st')"
  obtains (raised) e where "r = Inl e" "au_same st st'"
  | (existing) row where "r = get_analysis st' (pa_analysis_id p)" "au_same st st'"
      "analysis_row_of st (pa_analysis_id p) = Some row"
      "an_prepared_json row = canonical_json (dump_prepared_analysis p)" "an_candidate_blob_path row = path"
  | (created) t ev where "r = get_analysis st' (pa_analysis_id p)" "au_same st t"
      "analysis_row_of st (pa_analysis_id p) = None"
      "append_event_in_transaction E (pa_analysis_id p) (u ''ANALYSIS_PREPARED'') (prepared_payload p path)
         (t\<lparr>au_analyses := au_analyses t @ [prepared_row E p path (au_clock st)]\<rparr>) = (Inr ev, st')"
      "\<exists>bytes. files path = Some bytes \<and> en_sha_bytes E bytes = ds_sha256 (pa_candidate p)"
proof (cases "\<exists>bytes. files path = Some bytes \<and> en_sha_bytes E bytes = ds_sha256 (pa_candidate p)")
  case False
  with assms show ?thesis
    by (intro raised) (auto simp: record_prepared_analysis_def split: option.splits if_splits)
next
  case True
  let ?aid = "pa_analysis_id p"
  let ?row = "prepared_row E p path (au_clock st)"
  define body where "body = (\<lambda>t. case analysis_row_of t ?aid of
       Some existing \<Rightarrow>
         if an_prepared_json existing \<noteq> canonical_json (dump_prepared_analysis p) \<or>
            an_candidate_blob_path existing \<noteq> path
         then (Inl IntegrityError, t) else (Inr (), t)
     | None \<Rightarrow>
         (case append_event_in_transaction E ?aid (u ''ANALYSIS_PREPARED'') (prepared_payload p path)
                 (t\<lparr>au_analyses := au_analyses t @ [?row]\<rparr>) of
            (Inl e, t1) \<Rightarrow> (Inl e, t1)
          | (Inr ev, t1) \<Rightarrow> (Inr (), t1)))"
  let ?st = "st\<lparr>au_clock := Suc (au_clock st)\<rparr>"
  have s: "au_same st ?st" by (simp add: au_same_def)
  obtain q st1 where tr: "au_transaction body ?st = (q, st1)" by fastforce
  then have r: "(r, st') = (case q of Inl e \<Rightarrow> (Inl e, st1) | Inr _ \<Rightarrow> (get_analysis st1 ?aid, st1))"
    using assms True unfolding record_prepared_analysis_def Let_def body_def prepared_row_def
    by (auto split: sum.splits)
  show ?thesis
  proof (rule au_transaction_cases [OF tr])
    fix e
    assume "q = Inl e" "au_same ?st st1"
    with r s show thesis by (intro raised) (auto simp: au_same_def)
  next
    fix x t
    assume q: "q = Inr x" and t: "au_same ?st t" and b: "body t = (Inr x, st1)"
    have st: "au_same st t" using s t by (simp add: au_same_def)
    note rows = au_same_views(1)[OF st]
    show thesis
    proof (cases "analysis_row_of t ?aid")
      case (Some row)
      with b have "st1 = t" "an_prepared_json row = canonical_json (dump_prepared_analysis p)"
        "an_candidate_blob_path row = path" by (auto simp: body_def split: if_splits)
      with r q st rows Some show thesis by (intro existing[of row]) auto
    next
      case None
      with b obtain ev where "append_event_in_transaction E ?aid (u ''ANALYSIS_PREPARED'') (prepared_payload p path)
         (t\<lparr>au_analyses := au_analyses t @ [?row]\<rparr>) = (Inr ev, st1)"
        by (auto simp: body_def split: prod.splits sum.splits)
      with r q st rows None True show thesis by (intro created[of t ev]) auto
    qed
  qed
qed

lemma record_prepared_effect:
  assumes "record_prepared_analysis E files p path st = (r, st')"
  shows "au_grows st st' \<and> (au_inv E st \<longrightarrow> au_inv E st')"
  using assms
proof (cases rule: record_prepared_cases)
  case (raised e)
  then show ?thesis using au_inv_same[of st st' E] au_same_grows[of st st'] by simp
next
  case (existing row)
  then show ?thesis using au_inv_same[of st st' E] au_same_grows[of st st'] by simp
next
  case (created t ev)
  let ?aid = "pa_analysis_id p"
  let ?t = "t\<lparr>au_analyses := au_analyses t @ [prepared_row E p path (au_clock st)]\<rparr>"
  from created(4) obtain row where e: "au_events st' = au_events ?t @ [row]" "ev_analysis_id row = ?aid"
    and a: "au_analyses st' = au_analyses ?t"
    by (cases rule: append_in_transaction_cases) auto
  have g: "au_grows st st'" using a e created(2) by (simp add: au_grows_def au_same_def)
  have "au_inv E st'" if "au_inv E st"
  proof -
    have it: "au_inv E t" using that au_inv_same[OF created(2)] by simp
    have none: "analysis_row_of t ?aid = None" using created(3) au_same_views(1)[OF created(2)] by simp
    have ch: "\<forall>a. verify_rows E a 1 genesis_hash (chain_of ?t a)"
      using it by (simp add: au_inv_def chain_of_def)
    note k = append_keeps_chains[OF ch created(4)]
    have ex: "analysis_exists st' a \<longleftrightarrow> analysis_exists t a \<or> a = ?aid" for a
      unfolding analysis_exists_iff a by (auto simp: prepared_row_def)
    have "?aid \<notin> an_analysis_id ` set (au_analyses t)"
      using none analysis_exists_iff[of t ?aid] by (simp add: analysis_exists_def)
    then have "distinct (map an_analysis_id (au_analyses st'))"
      using it by (simp add: au_inv_def a prepared_row_def)
    moreover have "\<forall>r\<in>set (au_events st'). analysis_exists st' (ev_analysis_id r)"
      using it e unfolding ex by (auto simp: au_inv_def)
    moreover have "\<forall>a. analysis_exists st' a \<longrightarrow> chain_of st' a \<noteq> []"
    proof (intro allI impI)
      fix a
      assume "analysis_exists st' a"
      then consider "a = ?aid" | "analysis_exists t a" using ex by blast
      then show "chain_of st' a \<noteq> []"
      proof cases
        case 2
        then have "chain_of ?t a \<noteq> []" using it by (simp add: au_inv_def chain_of_def)
        then show ?thesis by (rule k(3))
      qed (use k(2) in simp)
    qed
    ultimately show ?thesis using k(1) by (simp add: au_inv_def)
  qed
  with g show ?thesis by blast
qed

lemma record_prepared_grows [step_rules]: "steps au_grows (record_prepared_analysis E files p path)"
  by (rule stepsI) (use record_prepared_effect in blast)

lemma record_prepared_keeps [step_rules]:
  "steps (\<lambda>s t. au_inv E s \<longrightarrow> au_inv E t) (record_prepared_analysis E files p path)"
  by (rule stepsI) (use record_prepared_effect in blast)

section \<open>Tamper evidence\<close>

lemma event_object_wf: "wf_json (event_object a q t p c h)"
  by (simp add: event_object_def)

lemma event_object_inj:
  assumes "normalise (event_object a q t p c h) = normalise (event_object a' q' t' p' c' h')"
  shows "a = a' \<and> q = q' \<and> t = t' \<and> p = p' \<and> c = c' \<and> h = h'"
proof -
  have d: "distinct (map fst [(u ''analysis_id'', JStr x1), (u ''sequence'', JInt x2), (u ''event_type'', JStr x3),
      (u ''payload_json'', JStr x4), (u ''created_at'', JStr x5), (u ''previous_hash'', JStr x6)])" for x1 x2 x3 x4 x5 x6
    by simp
  have "jget k (normalise (event_object a q t p c h)) = jget k (normalise (event_object a' q' t' p' c' h'))" for k
    using assms by simp
  note eq = this[unfolded event_object_def jget_normalise[OF d]]
  show ?thesis
    using eq[of "u ''analysis_id''"] eq[of "u ''sequence''"] eq[of "u ''event_type''"]
      eq[of "u ''payload_json''"] eq[of "u ''created_at''"] eq[of "u ''previous_hash''"] by simp
qed

lemma event_hash_eq:
  "event_hash E a q t p c h = event_hash E a' q' t' p' c' h' \<Longrightarrow>
   (a = a' \<and> q = q' \<and> t = t' \<and> p = p' \<and> c = c' \<and> h = h') \<or> text_collision E"
  unfolding event_hash_def
  using hash_canonical_eq[OF event_object_wf event_object_wf, of E a q t p c h a' q' t' p' c' h']
    event_object_inj[of a q t p c h a' q' t' p' c' h'] by blast

lemma chains_equal_or_collision:
  assumes "verify_rows E aid 1 genesis_hash rs" "verify_rows E aid 1 genesis_hash rs'"
    "\<forall>r\<in>set rs. ev_analysis_id r = aid" "\<forall>r\<in>set rs'. ev_analysis_id r = aid"
    "rs \<noteq> []" "rs' \<noteq> []" "ev_event_hash (last rs) = ev_event_hash (last rs')"
  shows "rs = rs' \<or> text_collision E"
  using assms
proof (induction rs arbitrary: rs' rule: rev_induct)
  case Nil
  then show ?case by simp
next
  case (snoc r rs)
  obtain qs q where rs': "rs' = qs @ [q]" using snoc.prems(6) by (cases rs' rule: rev_cases) auto
  have r: "verify_rows E aid 1 genesis_hash rs" "ev_sequence r = 1 + int (length rs)"
    "ev_previous_hash r = (if rs = [] then genesis_hash else ev_event_hash (last rs))"
    "ev_event_hash r = event_hash E aid (ev_sequence r) (ev_event_type r) (ev_payload_json r)
       (ev_created_at r) (ev_previous_hash r)"
    using snoc.prems(1) unfolding verify_rows_append by blast+
  have q: "verify_rows E aid 1 genesis_hash qs" "ev_sequence q = 1 + int (length qs)"
    "ev_previous_hash q = (if qs = [] then genesis_hash else ev_event_hash (last qs))"
    "ev_event_hash q = event_hash E aid (ev_sequence q) (ev_event_type q) (ev_payload_json q)
       (ev_created_at q) (ev_previous_hash q)"
    using snoc.prems(2) unfolding rs' verify_rows_append by blast+
  have "ev_event_hash r = ev_event_hash q" using snoc.prems(7) rs' by simp
  with r(4) q(4) have "(ev_sequence r = ev_sequence q \<and> ev_event_type r = ev_event_type q \<and>
      ev_payload_json r = ev_payload_json q \<and> ev_created_at r = ev_created_at q \<and>
      ev_previous_hash r = ev_previous_hash q) \<or> text_collision E"
    using event_hash_eq[of E aid "ev_sequence r" "ev_event_type r" "ev_payload_json r" "ev_created_at r"
        "ev_previous_hash r" aid "ev_sequence q" "ev_event_type q" "ev_payload_json q" "ev_created_at q"
        "ev_previous_hash q"] by simp
  then show ?case
  proof
    assume same: "ev_sequence r = ev_sequence q \<and> ev_event_type r = ev_event_type q \<and>
      ev_payload_json r = ev_payload_json q \<and> ev_created_at r = ev_created_at q \<and>
      ev_previous_hash r = ev_previous_hash q"
    then have rq: "r = q" using \<open>ev_event_hash r = ev_event_hash q\<close> snoc.prems(3,4) rs' by simp
    have len: "length rs = length qs" using same r(2) q(2) by simp
    show ?thesis
    proof (cases "rs = []")
      case True
      with len rq rs' show ?thesis by simp
    next
      case False
      then have ne: "qs \<noteq> []" using len by auto
      have "ev_previous_hash r = ev_event_hash (last rs)" using r(3) False by simp
      moreover have "ev_previous_hash q = ev_event_hash (last qs)" using q(3) ne by simp
      ultimately have h: "ev_event_hash (last rs) = ev_event_hash (last qs)" using same by metis
      have "rs = qs \<or> text_collision E"
        by (rule snoc.IH) (use r(1) q(1) snoc.prems(3,4) rs' False ne h in auto)
      with rq rs' show ?thesis by simp
    qed
  qed simp
qed

section \<open>Reading back\<close>

lemma those_map_Some_id [simp]: "those (map Some ys) = Some ys"
  by (induction ys) auto

lemma those_eq_Some_iff: "those xs = Some ys \<longleftrightarrow> xs = map Some ys"
proof
  show "those xs = Some ys \<Longrightarrow> xs = map Some ys"
    by (induction xs arbitrary: ys) (auto split: option.splits)
qed simp

lemma those_total: "(\<And>x. x \<in> set xs \<Longrightarrow> \<exists>y. f x = Some y) \<Longrightarrow> \<exists>ys. those (map f xs) = Some ys"
  by (induction xs) fastforce+

lemma list_events_lockedD:
  "list_events_locked st aid = Inr es \<Longrightarrow> map event_from_row (events_of st aid) = map Some es"
  by (simp add: list_events_locked_def those_eq_Some_iff split: option.splits)

lemma list_eventsD: "list_events st aid = Inr es \<Longrightarrow> map event_from_row (events_of st aid) = map Some es"
  by (simp add: list_events_def list_events_lockedD split: if_splits)

text \<open>An event that a reader sees comes from a row of the table.\<close>

lemma event_read_row:
  assumes "map event_from_row (events_of st aid) = map Some es" "e \<in> set es"
  shows "\<exists>r\<in>set (au_events st). event_from_row r = Some e \<and> ev_analysis_id r = aid"
proof -
  have "Some e \<in> set (map event_from_row (events_of st aid))" unfolding assms(1) using assms(2) by simp
  then obtain r where "r \<in> set (events_of st aid)" "event_from_row r = Some e" by auto
  then show ?thesis by (auto simp: events_of_def)
qed

lemma get_analysisD:
  assumes "get_analysis st aid = Inr rec"
  obtains row where "analysis_row_of st aid = Some row" "prepared_of_row row = Inr (ra_prepared rec)"
    "ra_candidate_blob_path rec = an_candidate_blob_path row"
    "list_events_locked st aid = Inr (ra_events rec)"
  using assms unfolding get_analysis_def
  by (auto split: option.splits sum.splits)

lemma get_prepared_row:
  assumes "get_prepared_analysis st aid = Inr p"
  obtains row where "analysis_row_of st aid = Some row" "prepared_of_row row = Inr p"
  using assms unfolding get_prepared_analysis_def
  by (auto split: sum.splits elim!: get_analysisD)

text \<open>Every payload parses and every prepared row validates.\<close>

definition au_readable :: "audit_store \<Rightarrow> bool" where
  "au_readable st \<longleftrightarrow>
     (\<forall>r\<in>set (au_events st). json_loads (ev_payload_json r) \<noteq> None) \<and>
     (\<forall>r\<in>set (au_analyses st). \<exists>p. prepared_of_row r = Inr p \<and> pa_analysis_id p = an_analysis_id r)"

lemma au_readable_same: "au_same st st' \<Longrightarrow> au_readable st' = au_readable st"
  by (simp add: au_readable_def au_same_def)

lemma au_readable_init [simp]: "au_readable (audit_init faults)"
  by (simp add: au_readable_def audit_init_def)

lemma readable_events: "au_readable st \<Longrightarrow> \<exists>es. list_events_locked st aid = Inr es"
proof -
  assume "au_readable st"
  then have "\<And>r. r \<in> set (events_of st aid) \<Longrightarrow> \<exists>e. event_from_row r = Some e"
    by (auto simp: au_readable_def events_of_def event_from_row_def)
  then have "\<exists>es. those (map event_from_row (events_of st aid)) = Some es" by (rule those_total)
  then show ?thesis by (auto simp: list_events_locked_def)
qed

lemma append_event_read:
  assumes inv: "au_inv E st" and j: "wf_json payload"
    and run: "append_event E aid et payload st = (Inr ev, st')"
    and old: "list_events st aid = Inr es"
  shows "list_events st' aid = Inr (es @ [ev\<lparr>ae_payload := normalise payload\<rparr>])"
  using run unfolding append_event_def
proof (rule au_transaction_cases)
  fix x t
  assume x: "Inr ev = Inr x" and t: "au_same st t" and b: "append_event_in_transaction E aid et payload t = (Inr x, st')"
  have it: "au_inv E t" using inv au_inv_same[OF t] by simp
  have inv': "au_inv E st'" using append_event_effect[OF run] inv by blast
  have old': "map event_from_row (events_of t aid) = map Some es"
    using list_eventsD[OF old] au_same_views(3)[OF t] by simp
  from b show ?thesis
  proof (cases rule: append_in_transaction_cases)
    case (added ev' row)
    have "events_of st' aid = events_of t aid @ [row]"
      using added unfolding au_inv_events_of[OF inv'] au_inv_events_of[OF it] by (simp add: chain_of_def)
    moreover have "event_from_row row = Some (ev\<lparr>ae_payload := normalise payload\<rparr>)"
      using added x j by (simp add: event_from_row_def json_loads_canonical)
    ultimately have "map event_from_row (events_of st' aid) = map Some (es @ [ev\<lparr>ae_payload := normalise payload\<rparr>])"
      using old' by simp
    moreover have "analysis_exists st' aid"
      using added by (simp add: analysis_exists_iff)
    ultimately show ?thesis
      unfolding list_events_def list_events_locked_def by (simp del: map_append)
  qed simp
qed simp

lemma append_event_readable:
  assumes "wf_json payload" "append_event E aid et payload st = (r, st')" "au_readable st"
  shows "au_readable st'"
  using assms(2) unfolding append_event_def
proof (rule au_transaction_cases)
  fix e
  assume "au_same st st'"
  with assms(3) show ?thesis by (simp add: au_readable_same)
next
  fix x t
  assume t: "au_same st t" and b: "append_event_in_transaction E aid et payload t = (Inr x, st')"
  have it: "au_readable t" using assms(3) au_readable_same[OF t] by simp
  from b show ?thesis
  proof (cases rule: append_in_transaction_cases)
    case (added ev' row)
    with it assms(1) show ?thesis by (auto simp: au_readable_def json_loads_canonical)
  qed simp
qed

lemma prepared_of_prepared_row:
  "wf_prepared_analysis p \<Longrightarrow> prepared_of_row (prepared_row E p path n) = Inr p"
  by (simp add: prepared_of_row_def prepared_row_def json_loads_canonical rt)

lemma prepared_payload_wf: "wf_json (prepared_payload p path)"
  by (simp add: prepared_payload_def rt)

text \<open>Recording returns the analysis it was given, whether it is new or already there.\<close>

lemma record_prepared_reads:
  assumes wf: "wf_prepared_analysis p"
    and run: "record_prepared_analysis E files p path st = (Inr rec, st')"
  shows "ra_prepared rec = p \<and> ra_candidate_blob_path rec = path \<and> get_analysis st' (pa_analysis_id p) = Inr rec"
  using run
proof (cases rule: record_prepared_cases)
  case (raised e)
  then show ?thesis by simp
next
  case (existing row)
  have row: "analysis_row_of st' (pa_analysis_id p) = Some row"
    using existing au_same_views(1) by metis
  have "prepared_of_row row = Inr p"
    using existing(4) prepared_of_prepared_row[OF wf] by (simp add: prepared_of_row_def prepared_row_def)
  with row existing(5) have "ra_prepared rec = p \<and> ra_candidate_blob_path rec = path"
    if "get_analysis st' (pa_analysis_id p) = Inr rec"
    using that by (auto elim!: get_analysisD)
  with existing(1) show ?thesis by metis
next
  case (created t ev)
  have none: "analysis_row_of t (pa_analysis_id p) = None"
    using created(3) au_same_views(1)[OF created(2)] by simp
  have a: "au_analyses st' = au_analyses t @ [prepared_row E p path (au_clock st)]"
    using created(4) by (cases rule: append_in_transaction_cases) auto
  have "analysis_row_of st' (pa_analysis_id p) = Some (prepared_row E p path (au_clock st))"
    using none a by (simp add: analysis_row_of_def prepared_row_def find_append_none)
  then have "ra_prepared rec = p \<and> ra_candidate_blob_path rec = path"
    if "get_analysis st' (pa_analysis_id p) = Inr rec"
    using that prepared_of_prepared_row[OF wf] by (auto elim!: get_analysisD simp: prepared_row_def)
  with created(1) show ?thesis by metis
qed

section \<open>An append-only log\<close>

text \<open>
  The interface the workflow relies on: whatever a write does, the entries before it are a prefix
  of the entries after it, so that a fact about an entry is never lost.
\<close>

locale append_only_log =
  fixes entries :: "'s \<Rightarrow> 'e list"
    and emit :: "'w \<Rightarrow> ('s, 'r) op"
  assumes emit_extends: "emit w s = (r, t) \<Longrightarrow> \<exists>es. entries t = entries s @ es"
begin

lemma foldl_extends: "\<exists>es. entries (foldl (\<lambda>s w. snd (emit w s)) s ws) = entries s @ es"
proof (induction ws arbitrary: s)
  case (Cons w ws)
  obtain r t where t: "emit w s = (r, t)" by (cases "emit w s")
  from emit_extends[OF t] Cons[of t] t show ?case by auto
qed simp

lemma entry_persists: "e \<in> set (entries s) \<Longrightarrow> e \<in> set (entries (foldl (\<lambda>s w. snd (emit w s)) s ws))"
  using foldl_extends[of s ws] by auto

end

text \<open>The two writing operations of the store as one type of request.\<close>

datatype audit_request =
    AppendEvent str str json
  | RecordPrepared "str \<Rightarrow> nat list option" prepared_analysis str

fun audit_write :: "env \<Rightarrow> audit_request \<Rightarrow> (audit_store, unit) op" where
  "audit_write E (AppendEvent aid et payload) st =
     (case append_event E aid et payload st of (Inl e, t) \<Rightarrow> (Inl e, t) | (Inr _, t) \<Rightarrow> (Inr (), t))"
| "audit_write E (RecordPrepared files p path) st =
     (case record_prepared_analysis E files p path st of (Inl e, t) \<Rightarrow> (Inl e, t) | (Inr _, t) \<Rightarrow> (Inr (), t))"

lemma audit_write_effect:
  "audit_write E w st = (r, t) \<Longrightarrow> au_grows st t \<and> (au_inv E st \<longrightarrow> au_inv E t)"
  by (cases w) (auto split: prod.splits sum.splits dest: append_event_effect record_prepared_effect)

interpretation event_log: append_only_log au_events "audit_write E" for E
  by unfold_locales (auto dest!: audit_write_effect simp: au_grows_def)

interpretation analysis_log: append_only_log au_analyses "audit_write E" for E
  by unfold_locales (auto dest!: audit_write_effect simp: au_grows_def)

definition audit_writes :: "env \<Rightarrow> audit_request list \<Rightarrow> audit_store \<Rightarrow> audit_store" where
  "audit_writes E ws st = foldl (\<lambda>s w. snd (audit_write E w s)) st ws"

lemma audit_writes_inv: "au_inv E st \<Longrightarrow> au_inv E (audit_writes E ws st)"
  unfolding audit_writes_def
proof (induction ws arbitrary: st)
  case (Cons w ws)
  obtain r t where t: "audit_write E w st = (r, t)" by (cases "audit_write E w st")
  with audit_write_effect[OF t] Cons show ?case by simp
qed simp

section \<open>Recording twice\<close>

lemma record_prepared_readable:
  assumes wf: "wf_prepared_analysis p" and rd: "au_readable st"
    and run: "record_prepared_analysis E files p path st = (r, st')"
  shows "au_readable st' \<and> ((\<exists>e. r = Inl e \<and> au_same st st') \<or> (\<exists>rec. r = Inr rec))"
  using run
proof (cases rule: record_prepared_cases)
  case (raised e)
  with rd au_readable_same show ?thesis by blast
next
  case (existing row)
  have rd': "au_readable st'" using rd au_readable_same[OF existing(2)] by simp
  have "row \<in> set (au_analyses st)" using existing(3) by (auto simp: analysis_row_of_def dest: find_SomeD)
  then obtain q where "prepared_of_row row = Inr q" using rd by (auto simp: au_readable_def)
  moreover obtain es where "list_events_locked st' (pa_analysis_id p) = Inr es" using readable_events[OF rd'] by blast
  moreover have "analysis_row_of st' (pa_analysis_id p) = Some row" using existing au_same_views(1) by metis
  ultimately have "\<exists>rec. r = Inr rec" unfolding existing(1) get_analysis_def by simp
  with rd' show ?thesis by blast
next
  case (created t ev)
  let ?row = "prepared_row E p path (au_clock st)"
  have rt: "au_readable t" using rd au_readable_same[OF created(2)] by simp
  have none: "analysis_row_of t (pa_analysis_id p) = None"
    using created(3) au_same_views(1)[OF created(2)] by simp
  from created(4) have st': "au_readable st' \<and> au_analyses st' = au_analyses t @ [?row]"
  proof (cases rule: append_in_transaction_cases)
    case (added ev' row)
    then show ?thesis using rt prepared_of_prepared_row[OF wf]
      by (auto simp: au_readable_def json_loads_canonical prepared_payload_wf prepared_row_def)
  qed simp
  then have "analysis_row_of st' (pa_analysis_id p) = Some ?row"
    using none by (simp add: analysis_row_of_def find_append_none prepared_row_def)
  moreover obtain es where "list_events_locked st' (pa_analysis_id p) = Inr es"
    using readable_events st' by blast
  ultimately have "\<exists>rec. r = Inr rec"
    unfolding created(1) get_analysis_def using prepared_of_prepared_row[OF wf] by simp
  with st' show ?thesis by blast
qed

lemma record_again:
  assumes wf: "wf_prepared_analysis p" and run: "record_prepared_analysis E files p path st = (Inr rec, st1)"
    and quiet: "au_faults st1 = []"
  shows "\<exists>st2. record_prepared_analysis E files p path st1 = (Inr rec, st2) \<and> au_same st1 st2"
proof -
  have g: "get_analysis st1 (pa_analysis_id p) = Inr rec" "ra_candidate_blob_path rec = path"
    using record_prepared_reads[OF wf run] by blast+
  have ex: "\<exists>row. analysis_row_of st1 (pa_analysis_id p) = Some row \<and>
      an_prepared_json row = canonical_json (dump_prepared_analysis p) \<and> an_candidate_blob_path row = path"
    using run
  proof (cases rule: record_prepared_cases)
    case (existing row)
    then show ?thesis using au_same_views(1) by metis
  next
    case (created t ev)
    have none: "analysis_row_of t (pa_analysis_id p) = None"
      using created(3) au_same_views(1)[OF created(2)] by simp
    have "au_analyses st1 = au_analyses t @ [prepared_row E p path (au_clock st)]"
      using created(4) by (cases rule: append_in_transaction_cases) auto
    then show ?thesis using none by (simp add: analysis_row_of_def find_append_none prepared_row_def)
  qed simp
  obtain bytes where b: "files path = Some bytes" "en_sha_bytes E bytes = ds_sha256 (pa_candidate p)"
    using run by (auto simp: record_prepared_analysis_def split: option.splits if_splits)
  let ?t = "st1\<lparr>au_clock := Suc (au_clock st1), au_faults := []\<rparr>"
  have s: "au_same st1 ?t" by (simp add: au_same_def)
  from ex obtain row where row: "analysis_row_of ?t (pa_analysis_id p) = Some row"
    "an_prepared_json row = canonical_json (dump_prepared_analysis p)" "an_candidate_blob_path row = path"
    using au_same_views(1)[OF s] by auto
  have "record_prepared_analysis E files p path st1 = (get_analysis ?t (pa_analysis_id p), ?t)"
    unfolding record_prepared_analysis_def au_transaction_def Let_def using b quiet row by simp
  then show ?thesis using g au_same_views(4)[OF s] s by simp
qed

section \<open>Properties\<close>


definition sample_files :: "str \<Rightarrow> nat list option" where
  "sample_files path = (if path = u ''/blobs/c0'' then Some (u ''c0'') else None)"

definition sample_store :: audit_store where
  "sample_store = audit_writes sample_env [RecordPrepared sample_files sample_prepared (u ''/blobs/c0'')] (audit_init [])"

lemma sample_store_inv: "au_inv sample_env sample_store"
  unfolding sample_store_def by (rule audit_writes_inv) simp

lemma sample_store_exists: "analysis_exists sample_store (u ''anl_1'')"
proof -
  let ?et = "u ''ANALYSIS_PREPARED''"
  have "strip ?et \<noteq> []"
    by (simp add: strip_eq_Nil_iff u_def is_space_def)
  then show ?thesis
    by (simp add: sample_store_def audit_writes_def record_prepared_analysis_def sample_files_def sample_env_def
        sample_prepared_def sample_snapshot_def au_transaction_def Let_def audit_init_def analysis_row_of_def
        append_event_in_transaction_def analysis_exists_def events_of_def split: prod.splits sum.splits)
qed


text \<open>Whatever sequence of writes the store receives, with whatever database failures, no
  analysis row and no event row that was there is changed, reordered or lost.\<close>

lemma audit_append_only:
  "take (length (au_events st)) (au_events (audit_writes E ws st)) = au_events st \<and>
   take (length (au_analyses st)) (au_analyses (audit_writes E ws st)) = au_analyses st"
  using event_log.foldl_extends[of E st ws] analysis_log.foldl_extends[of E st ws]
  unfolding audit_writes_def by auto

text \<open>Every chain the store itself writes is valid: after any sequence of writes on a new
  database, \<^verbatim>\<open>verify_chain\<close> answers true for every audited analysis.\<close>

lemma written_chains_verify:
  "verify_chain E (audit_writes E ws (audit_init faults)) aid \<in> {Inr True, Inl AnalysisNotFoundError}"
  using au_inv_verify[OF audit_writes_inv[OF au_inv_init[of E faults]], of ws aid]
  by (cases "analysis_exists (audit_writes E ws (audit_init faults)) aid") (auto simp: verify_chain_def)

text \<open>An event that \<^verbatim>\<open>append_event\<close> reports as written is the last event a reader gets,
  after all earlier ones, with its payload as given (keys sorted); a failed append changes no
  table.\<close>

lemma appended_event_is_read:
  "\<lbrakk>au_inv E st; wf_json payload; list_events st aid = Inr es\<rbrakk> \<Longrightarrow>
   (case append_event E aid et payload st of
      (Inl e, st') \<Rightarrow> au_same st st'
    | (Inr ev, st') \<Rightarrow> list_events st' aid = Inr (es @ [ev\<lparr>ae_payload := normalise payload\<rparr>]))"
proof -
  assume h: "au_inv E st" "wf_json payload" "list_events st aid = Inr es"
  obtain r st' where run: "append_event E aid et payload st = (r, st')" by fastforce
  have "au_same st st'" if "r = Inl e" for e
    using run that unfolding append_event_def by (auto elim: au_transaction_cases)
  with append_event_read[OF h(1,2) _ h(3)] run show ?thesis by (auto split: sum.splits)
qed

lemma sample_store_events: "\<exists>es. list_events sample_store (u ''anl_1'') = Inr es"
proof -
  have "au_readable sample_store"
    unfolding sample_store_def audit_writes_def
    using record_prepared_readable[OF wf_sample_prepared au_readable_init, of sample_env sample_files "u ''/blobs/c0''" "[]"]
    by (auto split: prod.splits sum.splits)
  then show ?thesis
    using readable_events sample_store_exists by (auto simp: list_events_def)
qed

lemma appended_event_is_read_witness:
  "\<exists>es. case append_event sample_env (u ''anl_1'') (u ''NOTE'') (JObj [(u ''k'', JInt 1)]) sample_store of
      (Inl e, st') \<Rightarrow> au_same sample_store st'
    | (Inr ev, st') \<Rightarrow> list_events st' (u ''anl_1'') = Inr (es @ [ev\<lparr>ae_payload := normalise (JObj [(u ''k'', JInt 1)])\<rparr>])"
proof -
  obtain es where "list_events sample_store (u ''anl_1'') = Inr es" using sample_store_events by blast
  from appended_event_is_read [OF sample_store_inv _ this, of "JObj [(u ''k'', JInt 1)]" "u ''NOTE''"]
  show ?thesis by (intro exI[of _ es]) simp
qed

text \<open>Recording a prepared analysis either raises and changes nothing or returns a record of
  exactly that analysis and blob path, and repeating the call after success returns the same record
  and changes nothing.\<close>

lemma record_prepared_idempotent:
  "\<lbrakk>wf_prepared_analysis p; au_readable st\<rbrakk> \<Longrightarrow>
   (case record_prepared_analysis E files p path st of
      (Inl e, st1) \<Rightarrow> au_same st st1
    | (Inr rec, st1) \<Rightarrow>
        ra_prepared rec = p \<and> ra_candidate_blob_path rec = path \<and> get_analysis st1 (pa_analysis_id p) = Inr rec \<and>
        (au_faults st1 \<noteq> [] \<or>
         (\<exists>st2. record_prepared_analysis E files p path st1 = (Inr rec, st2) \<and> au_same st1 st2)))"
proof -
  assume h: "wf_prepared_analysis p" "au_readable st"
  obtain r st1 where run: "record_prepared_analysis E files p path st = (r, st1)" by fastforce
  show ?thesis
    using record_prepared_readable[OF h run] record_prepared_reads[OF h(1)] record_again[OF h(1)] run
    by (cases r) auto
qed

lemma record_prepared_idempotent_witness:
  "case record_prepared_analysis sample_env sample_files sample_prepared (u ''/blobs/c0'') (audit_init []) of
      (Inl e, st1) \<Rightarrow> au_same (audit_init []) st1
    | (Inr rec, st1) \<Rightarrow>
        ra_prepared rec = sample_prepared \<and> ra_candidate_blob_path rec = u ''/blobs/c0'' \<and>
        get_analysis st1 (pa_analysis_id sample_prepared) = Inr rec \<and>
        (au_faults st1 \<noteq> [] \<or>
         (\<exists>st2. record_prepared_analysis sample_env sample_files sample_prepared (u ''/blobs/c0'') st1 = (Inr rec, st2) \<and>
            au_same st1 st2))"
  by (rule record_prepared_idempotent [OF wf_sample_prepared au_readable_init])

end
