(* ===== verification/Gate.thy ===== *)
theory Gate
  imports Indexer AuditLog
begin

text \<open>
  The fail-closed gate of \<^verbatim>\<open>src/indexguard/rag/gate.py\<close>: \<^verbatim>\<open>IndexGate.apply\<close> and
  \<^verbatim>\<open>hold\<close> with every check in the order of the code, on a state that holds the audit
  store, the index behind the Indexer protocol and the blob files.  The lock makes a call atomic,
  so a call is one state transformer.  The laws of the protocol give what the gate guarantees:
  the only call that adds a version to the index is one whose request passed every check, and an
  outcome that says \<^verbatim>\<open>indexed=False\<close> is true of the index.
\<close>

section \<open>The state\<close>

text \<open>
  \<open>w_unreadable\<close> is a script of read failures of the blob file (one entry per verification);
  \<open>w_clock\<close> and \<open>w_uuid\<close> count the readings of the clock and of the UUID generator made by
  the workflow (the stores keep their own clocks).
\<close>

record 'i world =
  w_audit :: audit_store
  w_index :: 'i
  w_files :: "str \<Rightarrow> nat list option"
  w_unreadable :: "bool list"
  w_clock :: nat
  w_uuid :: nat

definition auditE :: "(audit_store, 'a) op \<Rightarrow> ('i world, 'a) op" where
  "auditE = onE w_audit (\<lambda>a s. s\<lparr>w_audit := a\<rparr>)"

definition indexE :: "('i, 'a) op \<Rightarrow> ('i world, 'a) op" where
  "indexE = onE w_index (\<lambda>i s. s\<lparr>w_index := i\<rparr>)"

definition auditR :: "(audit_store \<Rightarrow> 'a res) \<Rightarrow> ('i world, 'a) op" where
  "auditR f s = (f (w_audit s), s)"

section \<open>Hard blockers\<close>

definition hard_block_artifact_types :: "str list" where
  "hard_block_artifact_types = map u
     [''ACTIVE_CONTENT'', ''ARCHIVE_LIMIT_EXCEEDED'', ''ENCRYPTED'', ''ENCRYPTED_DOCUMENT'',
      ''FORMAT_MISMATCH'', ''MACRO'', ''MALFORMED_ARCHIVE'', ''MALFORMED_DOCUMENT'', ''OLE'',
      ''PATH_TRAVERSAL'', ''SCRIPT'', ''SCRIPT_PAYLOAD'', ''UNSAFE_ARCHIVE'',
      ''UNSCANNABLE_ACTIVE_CONTENT'', ''UNSCANNABLE_CONTENT'', ''VBA'', ''ZIP_BOMB'']"

text \<open>45 is the hyphen and 95 the underscore.\<close>

definition normalize_artifact_type :: "unicode_db \<Rightarrow> str \<Rightarrow> str" where
  "normalize_artifact_type U v =
     join [95] (filter (\<lambda>part. part \<noteq> []) (split_on 95 (replace_char 45 95 (upper U (strip v)))))"

text \<open>\<^verbatim>\<open>value == 0\<close> in Python: the integer, a false boolean or a zero float.\<close>

fun python_zero :: "json \<Rightarrow> bool" where
  "python_zero (JInt i) \<longleftrightarrow> i = 0"
| "python_zero (JBool b) \<longleftrightarrow> \<not> b"
| "python_zero (JFloat t) \<longleftrightarrow> (\<forall>c\<in>set (takeWhile (\<lambda>c. c \<noteq> 101 \<and> c \<noteq> 69) t). c \<in> {45, 46, 48})"
| "python_zero _ \<longleftrightarrow> False"

definition hard_blocking :: "unicode_db \<Rightarrow> artifact \<Rightarrow> bool" where
  "hard_blocking U a =
     (let normalized_type = normalize_artifact_type U (ar_type a);
          explicitly_blocking = (map_of (ar_metadata a) (u ''hard_block'') = Some (JBool True));
          explicitly_empty = (map_of (ar_metadata a) (u ''empty'') = Some (JBool True) \<or>
             (case map_of (ar_metadata a) (u ''size'') of None \<Rightarrow> False | Some v \<Rightarrow> python_zero v))
      in explicitly_blocking \<or> (normalized_type \<in> set hard_block_artifact_types \<and> \<not> explicitly_empty))"

definition hard_blocking_artifacts :: "unicode_db \<Rightarrow> document_snapshot \<Rightarrow> artifact list" where
  "hard_blocking_artifacts U snapshot = filter (hard_blocking U) (ds_artifacts snapshot)"

section \<open>The candidate blob\<close>

definition verify_candidate_blob :: "env \<Rightarrow> str \<Rightarrow> str \<Rightarrow> ('i world, str option) op" where
  "verify_candidate_blob E path expected_sha256 s =
     (case w_files s path of
        None \<Rightarrow> (Inr (Some (u ''CANDIDATE_BLOB_MISSING'')), s)
      | Some bytes \<Rightarrow>
          let s1 = s\<lparr>w_unreadable := tl (w_unreadable s)\<rparr> in
          if w_unreadable s \<noteq> [] \<and> hd (w_unreadable s)
          then (Inr (Some (u ''CANDIDATE_BLOB_UNREADABLE'')), s1)
          else if en_sha_bytes E bytes \<noteq> expected_sha256
          then (Inr (Some (u ''CANDIDATE_BLOB_SHA256_MISMATCH'')), s1)
          else (Inr None, s1))"

section \<open>Outcomes without indexing\<close>

definition remove_candidate :: "'i indexer \<Rightarrow> prepared_analysis \<Rightarrow> ('i world, err option) op" where
  "remove_candidate X p =
     tryE (indexE (io_remove X (pa_document_id p) (ds_sha256 (pa_candidate p))))
       (\<lambda>e. retE (Some e)) (\<lambda>_. retE None)"

definition denied_outcome :: "prepared_analysis \<Rightarrow> index_action \<Rightarrow> str \<Rightarrow> err option \<Rightarrow> index_outcome" where
  "denied_outcome p action reason removal_error =
     \<lparr>io_analysis_id = pa_analysis_id p, io_document_id = pa_document_id p,
      io_candidate_sha256 = ds_sha256 (pa_candidate p), io_indexed = (removal_error \<noteq> None),
      io_chunk_count = 0, io_action = action,
      io_reason = (case removal_error of None \<Rightarrow> reason
                   | Some e \<Rightarrow> reason @ u '';INDEX_REMOVAL_ERROR:'' @ exn_name e)\<rparr>"

definition not_indexed ::
  "'i indexer \<Rightarrow> env \<Rightarrow> prepared_analysis \<Rightarrow> index_action \<Rightarrow> str \<Rightarrow> ('i world, index_outcome) op" where
  "not_indexed X E p action reason =
     bindE (remove_candidate X p) (\<lambda>removal_error.
     let outcome = denied_outcome p action reason removal_error in
     bindE (auditE (record_index_outcome E (pa_analysis_id p) outcome)) (\<lambda>_.
     retE outcome))"

definition deny ::
  "'i indexer \<Rightarrow> env \<Rightarrow> prepared_analysis \<Rightarrow> str \<Rightarrow> bool \<Rightarrow> bool \<Rightarrow> ('i world, index_outcome) op" where
  "deny X E p reason rec remove =
     bindE (if remove then remove_candidate X p else retE None) (\<lambda>removal_error.
     let outcome = denied_outcome p QUARANTINE reason removal_error in
     if rec
     then tryE (auditE (record_index_outcome E (pa_analysis_id p) outcome))
            (\<lambda>e. if e = AnalysisNotFoundError then retE outcome else raiseE e)
            (\<lambda>_. retE outcome)
     else retE outcome)"

definition record_rejected_policy :: "env \<Rightarrow> str \<Rightarrow> err \<Rightarrow> ('i world, unit) op" where
  "record_rejected_policy E aid error =
     tryE (auditE (append_event E aid (u ''POLICY_RESULT_REJECTED'')
             (JObj [(u ''error_type'', JStr (exn_name error)), (u ''reason'', JStr (en_error_text E error))])))
       (\<lambda>e. if e = AnalysisNotFoundError then retE () else raiseE e)
       (\<lambda>_. retE ())"

section \<open>Applying a policy result\<close>

datatype policy_input = PolicyObject policy_result | PolicyMapping json

fun validated_policy :: "policy_input \<Rightarrow> policy_result res" where
  "validated_policy (PolicyObject p) = Inr p"
| "validated_policy (PolicyMapping j) =
     (case validate_policy_result j of None \<Rightarrow> Inl ValidationError | Some p \<Rightarrow> Inr p)"

definition already_quarantined :: "analysis_audit_record \<Rightarrow> bool" where
  "already_quarantined rec \<longleftrightarrow>
     list_ex (\<lambda>e. ae_event_type e = u ''INDEX_GATE_APPLIED'' \<and>
        jget (u ''action'') (ae_payload e) = Some (JStr (index_action_value QUARANTINE))) (ra_events rec)"

text \<open>The steps after every check has passed: index, check the receipt, record the outcome, and
  remove the version again if the record fails.\<close>

definition index_candidate :: "'i indexer \<Rightarrow> env \<Rightarrow> prepared_analysis \<Rightarrow> ('i world, index_outcome) op" where
  "index_candidate X E p =
     tryE (indexE (io_index X (pa_candidate p) (Some (pa_expected_current_sha256 p))))
       (\<lambda>e. if e = StaleBaselineError then deny X E p (u ''STALE_BASELINE_VERSION'') True False
            else deny X E p (u ''INDEXER_ERROR:'' @ exn_name e) True True)
       (\<lambda>receipt.
          if rc_document_id receipt \<noteq> pa_document_id p \<or>
             rc_sha256 receipt \<noteq> ds_sha256 (pa_candidate p) \<or> rc_chunk_count receipt \<le> 0
          then deny X E p (u ''INVALID_INDEX_RECEIPT'') True True
          else
            let outcome = \<lparr>io_analysis_id = pa_analysis_id p, io_document_id = pa_document_id p,
                  io_candidate_sha256 = ds_sha256 (pa_candidate p), io_indexed = True,
                  io_chunk_count = int (rc_chunk_count receipt), io_action = INDEX,
                  io_reason = u ''POLICY_ALLOW_INDEXED''\<rparr>
            in tryE (auditE (record_index_outcome E (pa_analysis_id p) outcome))
                 (\<lambda>audit_error. bindE (remove_candidate X p) (\<lambda>_. raiseE audit_error))
                 (\<lambda>_. retE outcome))"

text \<open>The checks on the prepared analysis and the policy, in order; the first that fails names the
  reason.\<close>

definition binding_failure :: "prepared_analysis \<Rightarrow> prepared_analysis \<Rightarrow> policy_result \<Rightarrow> str option" where
  "binding_failure stored p policy =
     (if stored \<noteq> p then Some (u ''PREPARED_ANALYSIS_MISMATCH'')
      else if pa_document_id p \<noteq> ds_document_id (pa_candidate p) then Some (u ''DOCUMENT_ID_MISMATCH'')
      else if ds_sha256 (pa_baseline p) \<noteq> dr_baseline_sha256 (pa_diff p)
        then Some (u ''BASELINE_SHA256_MISMATCH'')
      else if pa_expected_current_sha256 p \<noteq> None \<and>
              pa_expected_current_sha256 p \<noteq> Some (ds_sha256 (pa_baseline p))
        then Some (u ''TRUSTED_BASELINE_SHA256_MISMATCH'')
      else if ds_sha256 (pa_candidate p) \<noteq> dr_candidate_sha256 (pa_diff p)
        then Some (u ''CANDIDATE_SHA256_MISMATCH'')
      else if po_candidate_sha256 policy \<noteq> None \<and>
              po_candidate_sha256 policy \<noteq> Some (ds_sha256 (pa_candidate p))
        then Some (u ''POLICY_CANDIDATE_SHA256_MISMATCH'')
      else if po_decision policy = ALLOW \<and> po_candidate_sha256 policy = None
        then Some (u ''POLICY_CANDIDATE_SHA256_REQUIRED'')
      else None)"

text \<open>The second half of \<^verbatim>\<open>_apply_locked\<close>, from the binding checks on.\<close>

definition apply_recorded ::
  "'i indexer \<Rightarrow> env \<Rightarrow> prepared_analysis \<Rightarrow> analysis_audit_record \<Rightarrow> policy_result \<Rightarrow> bool \<Rightarrow>
   ('i world, index_outcome) op" where
  "apply_recorded X E p audit_record policy index_if_allowed =
     (case binding_failure (ra_prepared audit_record) p policy of
        Some reason \<Rightarrow> deny X E p reason True True
      | None \<Rightarrow>
      bindE (verify_candidate_blob E (ra_candidate_blob_path audit_record) (ds_sha256 (pa_candidate p)))
        (\<lambda>blob_failure.
      case blob_failure of
        Some reason \<Rightarrow> deny X E p reason True True
      | None \<Rightarrow>
      let blockers = hard_blocking_artifacts (en_udb E) (pa_candidate p) in
      if blockers \<noteq> []
      then deny X E p (u ''HARD_BLOCK_ARTIFACT:'' @ join [44] (sort (remdups (map ar_type blockers)))) True True
      else if po_analysis_status policy \<noteq> COMPLETED
      then deny X E p (u ''ANALYSIS_NOT_COMPLETED'') True True
      else if po_decision policy = REVIEW
      then not_indexed X E p HOLD (u ''POLICY_REVIEW_HOLD'')
      else if po_decision policy = BLOCK
      then deny X E p (u ''POLICY_BLOCK'') True True
      else if \<not> index_if_allowed
      then not_indexed X E p HOLD (u ''INDEX_NOT_REQUESTED'')
      else if po_decision policy \<noteq> ALLOW \<or> po_index_action policy \<noteq> INDEX
      then deny X E p (u ''POLICY_COMBINATION_NOT_INDEXABLE'') True True
      else index_candidate X E p))"

definition apply_locked ::
  "'i indexer \<Rightarrow> env \<Rightarrow> prepared_analysis \<Rightarrow> policy_input \<Rightarrow> bool \<Rightarrow> ('i world, index_outcome) op" where
  "apply_locked X E p policy_in index_if_allowed =
     (case validated_policy policy_in of
        Inl exc \<Rightarrow>
          bindE (record_rejected_policy E (pa_analysis_id p) exc) (\<lambda>_.
          deny X E p (u ''INVALID_POLICY_RESULT'') True True)
      | Inr policy \<Rightarrow>
          tryE (auditR (\<lambda>a. get_analysis a (pa_analysis_id p)))
            (\<lambda>e. if e = AnalysisNotFoundError then deny X E p (u ''ANALYSIS_NOT_AUDITED'') False True
                 else raiseE e)
            (\<lambda>audit_record.
          bindE (auditR (\<lambda>a. verify_chain E a (pa_analysis_id p))) (\<lambda>valid.
          if \<not> valid then deny X E p (u ''AUDIT_CHAIN_INVALID'') False True
          else if already_quarantined audit_record
          then deny X E p (u ''ANALYSIS_ALREADY_QUARANTINED'') True True
          else
          bindE (auditE (record_policy_result E (pa_analysis_id p) policy)) (\<lambda>_.
          apply_recorded X E p audit_record policy index_if_allowed))))"

definition gate_apply ::
  "'i indexer \<Rightarrow> env \<Rightarrow> prepared_analysis \<Rightarrow> policy_input \<Rightarrow> bool \<Rightarrow> ('i world, index_outcome) op" where
  "gate_apply X E p policy index_if_allowed = apply_locked X E p policy index_if_allowed"

definition gate_hold :: "'i indexer \<Rightarrow> env \<Rightarrow> prepared_analysis \<Rightarrow> str \<Rightarrow> ('i world, index_outcome) op" where
  "gate_hold X E p reason =
     tryE (auditR (\<lambda>a. get_prepared_analysis a (pa_analysis_id p)))
       (\<lambda>e. if e = AnalysisNotFoundError then deny X E p (u ''ANALYSIS_NOT_AUDITED'') False True
            else raiseE e)
       (\<lambda>stored.
     if stored \<noteq> p then deny X E p (u ''PREPARED_ANALYSIS_MISMATCH'') True True
     else
     bindE (auditR (\<lambda>a. verify_chain E a (pa_analysis_id p))) (\<lambda>valid.
     if \<not> valid then deny X E p (u ''AUDIT_CHAIN_INVALID'') False True
     else not_indexed X E p HOLD reason))"

section \<open>What a gate call leaves alone\<close>

definition frame :: "env \<Rightarrow> 'i world \<Rightarrow> 'i world \<Rightarrow> bool" where
  "frame E s t \<longleftrightarrow>
     au_grows (w_audit s) (w_audit t) \<and> (au_inv E (w_audit s) \<longrightarrow> au_inv E (w_audit t)) \<and>
     w_files t = w_files s \<and> w_clock t = w_clock s \<and> w_uuid t = w_uuid s"

lemma frame_refl [simp]: "frame E s s"
  by (simp add: frame_def)

lemma frame_trans: "frame E s t \<Longrightarrow> frame E t v \<Longrightarrow> frame E s v"
  unfolding frame_def using au_grows_trans by (metis (full_types))

lemma frame_preorder: "preorderR (frame E)"
  by (rule preorderRI) (auto intro: frame_trans)

definition shrinks :: "('i \<Rightarrow> bool) \<Rightarrow> ('i \<Rightarrow> (str \<times> str) set) \<Rightarrow> 'i world \<Rightarrow> 'i world \<Rightarrow> bool" where
  "shrinks ok stored s t \<longleftrightarrow> stored (w_index t) \<subseteq> stored (w_index s) \<and> (ok (w_index s) \<longrightarrow> ok (w_index t))"

lemma shrinks_refl [simp]: "shrinks ok stored s s"
  by (simp add: shrinks_def)

lemma shrinks_trans: "shrinks ok stored s t \<Longrightarrow> shrinks ok stored t v \<Longrightarrow> shrinks ok stored s v"
  by (auto simp: shrinks_def)

lemma shrinks_index: "w_index t = w_index s \<Longrightarrow> shrinks ok stored s t"
  by (simp add: shrinks_def)

lemma wp_auditR [wp_simps]: "wp (auditR f) Q s = Q (f (w_audit s)) s"
  by (simp add: wp_def auditR_def)

lemma wp_auditE: "wp m (\<lambda>r a. Q r (s\<lparr>w_audit := a\<rparr>)) (w_audit s) \<Longrightarrow> wp (auditE m) Q s"
  by (simp add: auditE_def wp_simps)

lemma append_event_spec:
  "wp (append_event E aid et j) (\<lambda>r a. au_grows st a \<and> (au_inv E st \<longrightarrow> au_inv E a) \<and> au_analyses a = au_analyses st) st"
  by (rule wpI) (rule append_event_effect)

lemma audit_append_frame:
  "wp (auditE (append_event E aid et j)) (\<lambda>r t. frame E s t \<and> w_index t = w_index s) s"
  by (rule wp_auditE, rule wp_conseq [OF append_event_spec]) (simp add: frame_def)

lemma record_outcome_frame:
  "wp (auditE (record_index_outcome E aid o')) (\<lambda>r t. frame E s t \<and> w_index t = w_index s) s"
  unfolding record_index_outcome_def by (rule audit_append_frame)

lemma record_policy_frame:
  "wp (auditE (record_policy_result E aid po)) (\<lambda>r t. frame E s t \<and> w_index t = w_index s) s"
  unfolding record_policy_result_def by (rule audit_append_frame)

lemma verify_blob_spec:
  "wp (verify_candidate_blob E path sha) (\<lambda>r t. frame E s t \<and> w_index t = w_index s \<and> w_audit t = w_audit s \<and>
     (\<exists>v. r = Inr v \<and> (v = None \<longrightarrow> (\<exists>bytes. w_files s path = Some bytes \<and> en_sha_bytes E bytes = sha)))) s"
  by (rule wpI) (auto simp: verify_candidate_blob_def Let_def frame_def split: option.splits if_splits)

lemma rejected_policy_frame:
  "wp (record_rejected_policy E aid e) (\<lambda>r t. frame E s t \<and> w_index t = w_index s) s"
  unfolding record_rejected_policy_def wp_simps
  by (rule wp_conseq [OF audit_append_frame]) (auto simp: wp_simps split: sum.splits)

definition candidate_key :: "prepared_analysis \<Rightarrow> str \<times> str" where
  "candidate_key p = (pa_document_id p, ds_sha256 (pa_candidate p))"

text \<open>What a request has to satisfy for its candidate to be indexed.\<close>

definition admissible :: "env \<Rightarrow> 'i world \<Rightarrow> prepared_analysis \<Rightarrow> policy_input \<Rightarrow> bool \<Rightarrow> bool" where
  "admissible E s p policy_in index_if_allowed \<longleftrightarrow>
     index_if_allowed \<and>
     (\<exists>policy. validated_policy policy_in = Inr policy \<and> po_analysis_status policy = COMPLETED \<and>
        po_decision policy = ALLOW \<and> po_index_action policy = INDEX \<and>
        po_candidate_sha256 policy = Some (ds_sha256 (pa_candidate p))) \<and>
     pa_document_id p = ds_document_id (pa_candidate p) \<and>
     (pa_expected_current_sha256 p = None \<or> pa_expected_current_sha256 p = Some (ds_sha256 (pa_baseline p))) \<and>
     hard_blocking_artifacts (en_udb E) (pa_candidate p) = [] \<and>
     (\<exists>rec bytes. get_analysis (w_audit s) (pa_analysis_id p) = Inr rec \<and> ra_prepared rec = p \<and>
        \<not> already_quarantined rec \<and> verify_chain E (w_audit s) (pa_analysis_id p) = Inr True \<and>
        w_files s (ra_candidate_blob_path rec) = Some bytes \<and>
        en_sha_bytes E bytes = ds_sha256 (pa_candidate p))"

text \<open>
  The effect of a gate call: the index only shrinks, or the request is admissible and at most
  the candidate is added; an outcome with action INDEX says the candidate is stored and current; an
  outcome that denies it is not stored, except that a stale expectation leaves the index as it was.
\<close>

definition gate_post ::
  "('i \<Rightarrow> bool) \<Rightarrow> ('i \<Rightarrow> (str \<times> str) set) \<Rightarrow> ('i \<Rightarrow> str \<Rightarrow> str option) \<Rightarrow> env \<Rightarrow> prepared_analysis \<Rightarrow> bool \<Rightarrow>
   'i world \<Rightarrow> index_outcome res \<Rightarrow> 'i world \<Rightarrow> bool" where
  "gate_post ok stored cur E p adm s r t \<longleftrightarrow>
     frame E s t \<and> (ok (w_index s) \<longrightarrow> ok (w_index t)) \<and>
     (stored (w_index t) \<subseteq> stored (w_index s) \<or>
      (adm \<and> stored (w_index t) \<subseteq> insert (candidate_key p) (stored (w_index s)))) \<and>
     (\<forall>out. r = Inr out \<longrightarrow>
        (io_action out = INDEX \<longrightarrow> adm \<and> io_indexed out \<and> candidate_key p \<in> stored (w_index t) \<and>
           (ok (w_index s) \<longrightarrow> cur (w_index t) (pa_document_id p) = Some (ds_sha256 (pa_candidate p)))) \<and>
        (\<not> io_indexed out \<longrightarrow> candidate_key p \<notin> stored (w_index t) \<or>
           (adm \<and> io_reason out = u ''STALE_BASELINE_VERSION'')))"

context indexer_contract
begin

lemma remove_candidate_spec:
  "wp (remove_candidate X p) (\<lambda>r t. frame E s t \<and> w_audit t = w_audit s \<and> shrinks ok stored s t \<and>
     (\<exists>v. r = Inr v \<and> (v = None \<longrightarrow> candidate_key p \<notin> stored (w_index t)))) s"
  unfolding remove_candidate_def indexE_def wp_simps
  by (rule wpI)
     (auto simp: wp_simps shrinks_def frame_def candidate_key_def split: sum.splits
        dest: remove_raises remove_returns)

lemma not_indexed_spec:
  "wp (not_indexed X E p act reason) (\<lambda>r t. frame E s t \<and> shrinks ok stored s t \<and>
     (\<forall>out. r = Inr out \<longrightarrow> io_action out = act \<and>
        (\<not> io_indexed out \<longrightarrow> candidate_key p \<notin> stored (w_index t)))) s"
  unfolding not_indexed_def wp_simps
  apply (rule wp_conseq [OF remove_candidate_spec[of p E s]])
  apply (clarsimp simp: wp_simps Let_def)
  apply (rule wp_conseq [OF record_outcome_frame])
  apply (auto simp: wp_simps denied_outcome_def shrinks_def split: sum.splits intro: frame_trans)
  done

lemma deny_spec:
  "wp (deny X E p reason rec remove) (\<lambda>r t. frame E s t \<and> shrinks ok stored s t \<and>
     (\<forall>out. r = Inr out \<longrightarrow> io_action out = QUARANTINE \<and>
        (remove \<longrightarrow> \<not> io_indexed out \<longrightarrow> candidate_key p \<notin> stored (w_index t)))) s"
proof -
  have fin: "wp (let outcome = denied_outcome p QUARANTINE reason v in
       if rec then tryE (auditE (record_index_outcome E (pa_analysis_id p) outcome))
              (\<lambda>e. if e = AnalysisNotFoundError then retE outcome else raiseE e) (\<lambda>_. retE outcome)
       else retE outcome)
     (\<lambda>r t. frame E s t \<and> shrinks ok stored s t \<and>
       (\<forall>out. r = Inr out \<longrightarrow> io_action out = QUARANTINE \<and>
        (remove \<longrightarrow> \<not> io_indexed out \<longrightarrow> candidate_key p \<notin> stored (w_index t)))) t"
    if "frame E s t" "shrinks ok stored s t" "remove \<longrightarrow> v = None \<longrightarrow> candidate_key p \<notin> stored (w_index t)" for v t
    unfolding Let_def wp_simps
    using that
    apply (cases rec)
    subgoal
      apply simp
      apply (rule wp_conseq [OF record_outcome_frame])
      apply (auto simp: wp_simps denied_outcome_def shrinks_def split: sum.splits intro: frame_trans)
      done
    subgoal by (simp add: denied_outcome_def)
    done
  show ?thesis
  proof (cases remove)
    case True
    show ?thesis unfolding deny_def wp_bindE if_P[OF True]
      by (rule wp_conseq [OF remove_candidate_spec[of p E s]]) (auto intro!: fin)
  next
    case False
    show ?thesis unfolding deny_def wp_bindE if_not_P[OF False] wp_retE
      by (simp, rule fin) (simp_all add: False)
  qed
qed

lemma deny_post:
  "\<lbrakk>frame E s t; shrinks ok stored s t\<rbrakk> \<Longrightarrow>
   wp (deny X E p reason rec True) (gate_post ok stored cur E p adm s) t"
  by (rule wp_conseq [OF deny_spec[of E p reason rec True t]])
     (auto simp: gate_post_def shrinks_def intro: frame_trans)

lemma not_indexed_post:
  "\<lbrakk>frame E s t; shrinks ok stored s t; act \<noteq> INDEX\<rbrakk> \<Longrightarrow>
   wp (not_indexed X E p act reason) (gate_post ok stored cur E p adm s) t"
  by (rule wp_conseq [OF not_indexed_spec[of E p act reason t]])
     (auto simp: gate_post_def shrinks_def intro: frame_trans)

lemma index_candidate_post:
  assumes adm: "adm" "pa_document_id p = ds_document_id (pa_candidate p)"
    and f: "frame E s t" and i: "w_index t = w_index s"
  shows "wp (index_candidate X E p) (gate_post ok stored cur E p adm s) t"
proof -
  obtain r i' where run: "io_index X (pa_candidate p) (Some (pa_expected_current_sha256 p)) (w_index t) = (r, i')"
    by fastforce
  let ?t = "t\<lparr>w_index := i'\<rparr>"
  have ft: "frame E s ?t" using f by (simp add: frame_def)
  have key: "candidate_key p = (ds_document_id (pa_candidate p), ds_sha256 (pa_candidate p))"
    by (simp add: candidate_key_def adm(2))
  show ?thesis
  proof (cases r)
    case (Inl e)
    have sh: "shrinks ok stored s ?t"
      using index_raises run Inl i by (auto simp: shrinks_def)
    have stale: "wp (deny X E p (u ''STALE_BASELINE_VERSION'') True False) (gate_post ok stored cur E p adm s) ?t"
    proof -
      have "wp (deny X E p (u ''STALE_BASELINE_VERSION'') True False) (\<lambda>r t. \<forall>out. r = Inr out \<longrightarrow>
          io_reason out = u ''STALE_BASELINE_VERSION'') ?t"
        by (rule wpI) (auto simp: deny_def monad_defs denied_outcome_def Let_def split: prod.splits sum.splits if_splits)
      from wp_conj[OF deny_spec[of E p "u ''STALE_BASELINE_VERSION''" True False ?t] this]
      show ?thesis
        by (rule wp_conseq) (use ft sh adm(1) in \<open>auto simp: gate_post_def shrinks_def intro: frame_trans\<close>)
    qed
    show ?thesis
      unfolding index_candidate_def wp_tryE indexE_def wp_onE wp_def[of "io_index _ _ _"] run
      using Inl stale deny_post[OF ft sh] by (simp add: wp_if)
  next
    case (Inr rc)
    note law = index_returns[OF run[unfolded Inr]]
    define outc where "outc = \<lparr>io_analysis_id = pa_analysis_id p, io_document_id = pa_document_id p,
                  io_candidate_sha256 = ds_sha256 (pa_candidate p), io_indexed = True,
                  io_chunk_count = int (rc_chunk_count rc), io_action = INDEX,
                  io_reason = u ''POLICY_ALLOW_INDEXED''\<rparr>"
    have grow: "stored (w_index ?t) = insert (candidate_key p) (stored (w_index s))"
      "ok (w_index s) \<longrightarrow> ok (w_index ?t)"
      "ok (w_index s) \<longrightarrow> cur (w_index ?t) (pa_document_id p) = Some (ds_sha256 (pa_candidate p))"
      using law i key adm(2) by auto
    have recorded: "wp (auditE (record_index_outcome E (pa_analysis_id p) outc))
       (\<lambda>r v. case r of
          Inl e \<Rightarrow> wp (bindE (remove_candidate X p) (\<lambda>_. raiseE e)) (gate_post ok stored cur E p adm s) v
        | Inr x \<Rightarrow> gate_post ok stored cur E p adm s (Inr outc) v) ?t"
    proof (rule wp_conseq [OF record_outcome_frame])
      fix r v
      assume h: "frame E ?t v \<and> w_index v = w_index ?t"
      then have fv: "frame E s v" and iv: "w_index v = w_index ?t" using ft frame_trans by blast+
      show "case r of
          Inl e \<Rightarrow> wp (bindE (remove_candidate X p) (\<lambda>_. raiseE e)) (gate_post ok stored cur E p adm s) v
        | Inr x \<Rightarrow> gate_post ok stored cur E p adm s (Inr outc) v"
      proof (cases r)
        case (Inl e)
        show ?thesis unfolding Inl sum.case wp_bindE
          by (rule wp_conseq [OF remove_candidate_spec[of p E v]])
             (use grow adm(1) iv in \<open>auto simp: wp_raiseE gate_post_def shrinks_def intro: frame_trans[OF fv]\<close>)
      next
        case (Inr x)
        then show ?thesis using fv iv grow adm(1) by (simp add: gate_post_def outc_def)
      qed
    qed
    show ?thesis
      unfolding index_candidate_def wp_tryE indexE_def wp_onE wp_def[of "io_index _ _ _"] run Inr
        prod.sel sum.case Let_def wp_if wp_retE outc_def[symmetric]
      using law adm(2) recorded by simp
  qed
qed

lemma apply_recorded_post:
  assumes f: "frame E s t" and i: "w_index t = w_index s"
    and po: "validated_policy pin = Inr po" and rec: "get_analysis (w_audit s) (pa_analysis_id p) = Inr rec"
    and valid: "verify_chain E (w_audit s) (pa_analysis_id p) = Inr True" "\<not> already_quarantined rec"
  shows "wp (apply_recorded X E p rec po flag) (gate_post ok stored cur E p (admissible E s p pin flag) s) t"
    (is "wp _ ?G t")
proof (cases "binding_failure (ra_prepared rec) p po")
  case (Some reason)
  then show ?thesis using f i by (simp add: apply_recorded_def deny_post shrinks_index)
next
  case None
  have files: "w_files t = w_files s" using f by (simp add: frame_def)
  let ?K = "\<lambda>blob_failure. case blob_failure of
      Some reason \<Rightarrow> deny X E p reason True True
    | None \<Rightarrow>
      let blockers = hard_blocking_artifacts (en_udb E) (pa_candidate p) in
      if blockers \<noteq> []
      then deny X E p (u ''HARD_BLOCK_ARTIFACT:'' @ join [44] (sort (remdups (map ar_type blockers)))) True True
      else if po_analysis_status po \<noteq> COMPLETED
      then deny X E p (u ''ANALYSIS_NOT_COMPLETED'') True True
      else if po_decision po = REVIEW
      then not_indexed X E p HOLD (u ''POLICY_REVIEW_HOLD'')
      else if po_decision po = BLOCK
      then deny X E p (u ''POLICY_BLOCK'') True True
      else if \<not> flag
      then not_indexed X E p HOLD (u ''INDEX_NOT_REQUESTED'')
      else if po_decision po \<noteq> ALLOW \<or> po_index_action po \<noteq> INDEX
      then deny X E p (u ''POLICY_COMBINATION_NOT_INDEXABLE'') True True
      else index_candidate X E p"
  show ?thesis
    unfolding apply_recorded_def None option.case wp_bindE
  proof (rule wp_conseq [OF verify_blob_spec])
    fix r :: "str option res" and t'
    assume "frame E t t' \<and> w_index t' = w_index t \<and> w_audit t' = w_audit t \<and>
      (\<exists>v. r = Inr v \<and> (v = None \<longrightarrow> (\<exists>bytes. w_files t (ra_candidate_blob_path rec) = Some bytes \<and>
         en_sha_bytes E bytes = ds_sha256 (pa_candidate p))))"
    then obtain v where r: "r = Inr v" and h: "frame E t t'" "w_index t' = w_index t"
      "v = None \<longrightarrow> (\<exists>bytes. w_files t (ra_candidate_blob_path rec) = Some bytes \<and>
         en_sha_bytes E bytes = ds_sha256 (pa_candidate p))" by blast
    have f': "frame E s t'" and i': "w_index t' = w_index s" using f i h frame_trans by auto
    note d = deny_post[OF f' shrinks_index[OF i']] and n = not_indexed_post[OF f' shrinks_index[OF i']]
    show "case r of Inl e \<Rightarrow> ?G (Inl e) t' | Inr x \<Rightarrow> wp (?K x) ?G t'"
      unfolding r sum.case
    proof (cases v)
      case (Some reason)
      then show "wp (?K v) ?G t'" by (simp add: d)
    next
      case v: None
      have "admissible E s p pin flag" "pa_document_id p = ds_document_id (pa_candidate p)"
        if "flag" "hard_blocking_artifacts (en_udb E) (pa_candidate p) = []"
          "po_analysis_status po = COMPLETED" "po_decision po = ALLOW" "po_index_action po = INDEX"
        using that h(3) v None rec po valid files
        by (auto simp: admissible_def binding_failure_def split: if_splits)
      then show "wp (?K v) ?G t'"
        unfolding v option.case Let_def wp_if
        using d n index_candidate_post[OF _ _ f' i'] by (auto simp: wp_if)
    qed
  qed
qed

lemma gate_post_raise:
  "frame E s t \<Longrightarrow> w_index t = w_index s \<Longrightarrow> gate_post ok stored cur E p adm s (Inl e) t"
  by (simp add: gate_post_def)

lemma apply_post:
  "wp (apply_locked X E p pin flag) (gate_post ok stored cur E p (admissible E s p pin flag) s) s"
proof (cases "validated_policy pin")
  case (Inl exc)
  show ?thesis
    unfolding apply_locked_def Inl sum.case wp_bindE
    by (rule wp_conseq [OF rejected_policy_frame[of E _ _ s]])
       (auto split: sum.splits intro!: deny_post shrinks_index gate_post_raise)
next
  case po: (Inr po)
  note d = deny_post[OF frame_refl shrinks_refl]
  show ?thesis
  proof (cases "get_analysis (w_audit s) (pa_analysis_id p)")
    case (Inl e)
    show ?thesis
      unfolding apply_locked_def po sum.case wp_tryE wp_auditR Inl wp_if wp_raiseE
      by (simp add: d gate_post_raise)
  next
    case rec: (Inr rec)
    show ?thesis
    proof (cases "verify_chain E (w_audit s) (pa_analysis_id p)")
      case (Inl e)
      show ?thesis
        unfolding apply_locked_def po sum.case wp_tryE wp_auditR rec wp_bindE Inl
        by (simp add: gate_post_raise)
    next
      case v: (Inr valid)
      show ?thesis
      proof (cases "valid \<and> \<not> already_quarantined rec")
        case False
        then show ?thesis
          unfolding apply_locked_def po sum.case wp_tryE wp_auditR rec wp_bindE v
          by (auto simp: wp_if d)
      next
        case True
        show ?thesis
          unfolding apply_locked_def po sum.case wp_tryE wp_auditR rec wp_bindE v wp_if
          using True
          by (auto intro!: wp_conseq [OF record_policy_frame] split: sum.splits
              intro: apply_recorded_post[OF _ _ po rec] gate_post_raise simp: v)
      qed
    qed
  qed
qed

lemma hold_post:
  "wp (gate_hold X E p reason) (gate_post ok stored cur E p False s) s"
proof (cases "get_prepared_analysis (w_audit s) (pa_analysis_id p)")
  case (Inl e)
  show ?thesis
    unfolding gate_hold_def wp_tryE wp_auditR Inl sum.case wp_if wp_raiseE
    by (simp add: deny_post gate_post_raise)
next
  case (Inr stored_p)
  show ?thesis
    unfolding gate_hold_def wp_tryE wp_auditR Inr sum.case wp_if wp_bindE
    by (auto simp: deny_post not_indexed_post gate_post_raise split: sum.splits)
qed

end

section \<open>Properties\<close>



definition sample_world :: "index_store world" where
  "sample_world = \<lparr>w_audit = sample_store, w_index = empty_index, w_files = sample_files,
     w_unreadable = [], w_clock = 0, w_uuid = 0\<rparr>"


text \<open>Operator hold and every other non-indexing outcome take the candidate out: after
  \<^verbatim>\<open>IndexGate.hold\<close> no version was added, and an outcome that says not indexed leaves the
  candidate in no row of the index.\<close>

lemma hold_removes_candidate:
  "versions (w_index (snd (gate_hold (sqlite_indexer E) E p reason s))) \<subseteq> versions (w_index s) \<and>
   (case fst (gate_hold (sqlite_indexer E) E p reason s) of
      Inl e \<Rightarrow> True
    | Inr out \<Rightarrow> io_action out \<noteq> INDEX \<and>
        (io_indexed out \<or> candidate_key p \<notin> versions (w_index (snd (gate_hold (sqlite_indexer E) E p reason s)))))"
  using sqlite.hold_post[of E E p reason s]
  unfolding wp_def gate_post_def by (auto split: sum.splits)

lemma hold_removes_candidate_witness:
  "versions (w_index (snd (gate_hold (sqlite_indexer sample_env) sample_env sample_prepared (u ''OPERATOR_HOLD'') sample_world)))
     \<subseteq> versions (w_index sample_world)"
  using hold_removes_candidate [of sample_env sample_prepared "u ''OPERATOR_HOLD''" sample_world] by blast

end
