(* ===== verification/Operations.thy ===== *)
theory Operations
  imports Gate
begin

text \<open>
  The audited workflow of \<^verbatim>\<open>src/indexguard/operations.py\<close>: \<^verbatim>\<open>AnalysisOperations\<close>
  reads the append-only events of an analysis back and decides from them what is allowed.  Each
  method is one operation on the world of the gate; \<^verbatim>\<open>AnalysisPipeline.finalize\<close>, which
  two of them call, stands first.  The lemmas follow the version set of the index through every
  method: only \<^verbatim>\<open>execute_command\<close> with APPROVE can add a version, and only one that a
  recorded ALLOW + INDEX result of B is bound to.
\<close>

section \<open>Finalizing\<close>

definition finalize ::
  "'i indexer \<Rightarrow> env \<Rightarrow> str \<Rightarrow> policy_result \<Rightarrow> bool \<Rightarrow> ('i world, index_outcome) op" where
  "finalize X E aid policy index_if_allowed =
     bindE (auditR (\<lambda>a. get_prepared_analysis a aid)) (\<lambda>prepared.
     gate_apply X E prepared (PolicyObject policy) index_if_allowed)"

section \<open>Reading the events\<close>

definition payload_field :: "str \<Rightarrow> audit_event \<Rightarrow> json res" where
  "payload_field k e = (case jget k (ae_payload e) of None \<Rightarrow> Inl KeyError | Some j \<Rightarrow> Inr j)"

definition validated :: "'a option \<Rightarrow> 'a res" where
  "validated v = (case v of None \<Rightarrow> Inl ValidationError | Some x \<Rightarrow> Inr x)"

definition is_event :: "string \<Rightarrow> audit_event \<Rightarrow> bool" where
  "is_event t e \<longleftrightarrow> ae_event_type e = u t"

definition latest_request_in :: "audit_event list \<Rightarrow> risk_analysis_request option res" where
  "latest_request_in es =
     (case find (is_event ''ANALYSIS_REQUESTED'') (rev es) of
        None \<Rightarrow> Inr None
      | Some e \<Rightarrow> (case validated (validate_risk_analysis_request (ae_payload e)) of
                     Inl x \<Rightarrow> Inl x | Inr r \<Rightarrow> Inr (Some r)))"

definition submission_of :: "audit_event \<Rightarrow> policy_submission res" where
  "submission_of e =
     (case payload_field (u ''submission'') e of
        Inl x \<Rightarrow> Inl x | Inr j \<Rightarrow> validated (validate_policy_submission j))"

fun received_submission_in :: "str \<Rightarrow> audit_event list \<Rightarrow> policy_submission option res" where
  "received_submission_in rid [] = Inr None"
| "received_submission_in rid (e # es) =
     (if \<not> is_event ''POLICY_SUBMISSION_RECEIVED'' e then received_submission_in rid es
      else (case submission_of e of
              Inl x \<Rightarrow> Inl x
            | Inr s \<Rightarrow> if sb_request_id s = rid then Inr (Some s) else received_submission_in rid es))"

definition applied_submission_in :: "str \<Rightarrow> audit_event list \<Rightarrow> bool" where
  "applied_submission_in rid es \<longleftrightarrow>
     list_ex (\<lambda>e. is_event ''POLICY_SUBMISSION_APPLIED'' e \<and>
        (case jget (u ''submission'') (ae_payload e) of
           None \<Rightarrow> False | Some s \<Rightarrow> jget (u ''request_id'') s = Some (JStr rid))) es"

definition latest_applied_policy_in :: "audit_event list \<Rightarrow> policy_result option res" where
  "latest_applied_policy_in es =
     (case find (is_event ''POLICY_SUBMISSION_APPLIED'') (rev es) of
        None \<Rightarrow> Inr None
      | Some e \<Rightarrow> (case submission_of e of Inl x \<Rightarrow> Inl x | Inr s \<Rightarrow> Inr (Some (sb_policy s))))"

definition completed_command_in :: "str \<Rightarrow> audit_event list \<Rightarrow> json option" where
  "completed_command_in key es =
     map_option ae_payload
       (find (\<lambda>e. is_event ''OPERATOR_COMMAND_COMPLETED'' e \<and>
          (case jget (u ''command'') (ae_payload e) of
             None \<Rightarrow> False | Some c \<Rightarrow> jget (u ''idempotency_key'') c = Some (JStr key))) (rev es))"

definition eventsR :: "str \<Rightarrow> ('i world, audit_event list) op" where
  "eventsR aid = auditR (\<lambda>a. list_events a aid)"

definition latest_request :: "str \<Rightarrow> ('i world, risk_analysis_request option) op" where
  "latest_request aid = bindE (eventsR aid) (\<lambda>es. liftE (latest_request_in es))"

definition received_submission :: "str \<Rightarrow> str \<Rightarrow> ('i world, policy_submission option) op" where
  "received_submission aid rid = bindE (eventsR aid) (\<lambda>es. liftE (received_submission_in rid (rev es)))"

definition applied_submission :: "str \<Rightarrow> str \<Rightarrow> ('i world, bool) op" where
  "applied_submission aid rid = bindE (eventsR aid) (\<lambda>es. retE (applied_submission_in rid es))"

definition latest_applied_policy :: "str \<Rightarrow> ('i world, policy_result option) op" where
  "latest_applied_policy aid = bindE (eventsR aid) (\<lambda>es. liftE (latest_applied_policy_in es))"

definition completed_command :: "str \<Rightarrow> str \<Rightarrow> ('i world, json option) op" where
  "completed_command aid key = bindE (eventsR aid) (\<lambda>es. retE (completed_command_in key es))"

section \<open>The status projection\<close>

fun state_for_outcome :: "index_outcome \<Rightarrow> policy_result option \<Rightarrow> workflow_state" where
  "state_for_outcome outcome policy =
     (if io_action outcome = INDEX \<and> io_indexed outcome then INDEXED
      else if io_action outcome = QUARANTINE then QUARANTINED
      else if (case policy of None \<Rightarrow> False | Some p \<Rightarrow> po_decision p = ALLOW) then AWAITING_APPROVAL
      else WF_HOLD)"

definition allowed_commands :: "workflow_state \<Rightarrow> policy_result option \<Rightarrow> operator_action list" where
  "allowed_commands state policy =
     (if state = SUPERSEDED then []
      else if state = QUARANTINED then [REANALYZE]
      else
        (if (case policy of None \<Rightarrow> False | Some p \<Rightarrow> po_decision p = ALLOW) \<and>
            state \<in> {AWAITING_APPROVAL, WF_HOLD} then [APPROVE] else [])
        @ (if state \<noteq> WF_HOLD then [OP_HOLD] else []) @ [REANALYZE])"

record status_acc =
  sa_state :: workflow_state
  sa_request_id :: "str option"
  sa_policy :: "policy_result option"
  sa_outcome :: "index_outcome option"

definition status_start :: status_acc where
  "status_start = \<lparr>sa_state = PREPARED, sa_request_id = None, sa_policy = None, sa_outcome = None\<rparr>"

text \<open>\<^verbatim>\<open>str(value)\<close> of a JSON scalar (a container is never stored where it is used).\<close>

fun python_str :: "json \<Rightarrow> str" where
  "python_str JNull = u ''None''"
| "python_str (JBool b) = (if b then u ''True'' else u ''False'')"
| "python_str (JInt i) = show_int i"
| "python_str (JFloat t) = t"
| "python_str (JStr s) = s"
| "python_str j = canonical_json j"

text \<open>One event of the loop in \<^verbatim>\<open>get_status\<close>.\<close>

definition status_step :: "status_acc \<Rightarrow> audit_event \<Rightarrow> status_acc res" where
  "status_step a e =
     (if is_event ''ANALYSIS_REQUESTED'' e
      then (case payload_field (u ''request_id'') e of
              Inl x \<Rightarrow> Inl x
            | Inr j \<Rightarrow> Inr (a\<lparr>sa_request_id := Some (python_str j), sa_state := ANALYSIS_REQUESTED\<rparr>))
      else if is_event ''ANALYSIS_DISPATCH_FAILED'' e then Inr (a\<lparr>sa_state := ANALYSIS_FAILED\<rparr>)
      else if is_event ''INDEX_GATE_APPLIED'' e
      then (case validated (validate_index_outcome (ae_payload e)) of
              Inl x \<Rightarrow> Inl x
            | Inr out \<Rightarrow> Inr (a\<lparr>sa_outcome := Some out, sa_state := state_for_outcome out (sa_policy a)\<rparr>))
      else if is_event ''POLICY_SUBMISSION_APPLIED'' e
      then (case submission_of e of
              Inl x \<Rightarrow> Inl x
            | Inr s \<Rightarrow>
                (case payload_field (u ''outcome'') e of
                   Inl x \<Rightarrow> Inl x
                 | Inr j \<Rightarrow>
                     (case validated (validate_index_outcome j) of
                        Inl x \<Rightarrow> Inl x
                      | Inr out \<Rightarrow> Inr (a\<lparr>sa_policy := Some (sb_policy s), sa_outcome := Some out,
                                        sa_state := state_for_outcome out (Some (sb_policy s))\<rparr>))))
      else if is_event ''OPERATOR_COMMAND_COMPLETED'' e
      then (case payload_field (u ''command'') e of
              Inl x \<Rightarrow> Inl x
            | Inr j \<Rightarrow>
                (case validated (validate_operator_command j) of
                   Inl x \<Rightarrow> Inl x
                 | Inr c \<Rightarrow> Inr (if oc_action c = OP_HOLD then a\<lparr>sa_state := WF_HOLD\<rparr>
                                else if oc_action c = REANALYZE then a\<lparr>sa_state := SUPERSEDED\<rparr>
                                else a)))
      else if is_event ''ANALYSIS_SUPERSEDED'' e then Inr (a\<lparr>sa_state := SUPERSEDED\<rparr>)
      else Inr a)"

fun status_fold :: "status_acc \<Rightarrow> audit_event list \<Rightarrow> status_acc res" where
  "status_fold a [] = Inr a"
| "status_fold a (e # es) = (case status_step a e of Inl x \<Rightarrow> Inl x | Inr b \<Rightarrow> status_fold b es)"

definition get_status :: "env \<Rightarrow> str \<Rightarrow> ('i world, analysis_status_view) op" where
  "get_status E aid =
     bindE (auditR (\<lambda>a. get_analysis a aid)) (\<lambda>rec.
     bindE (liftE (status_fold status_start (ra_events rec))) (\<lambda>acc.
     bindE (auditR (\<lambda>a. verify_chain E a aid)) (\<lambda>valid.
     let p = ra_prepared rec in
     retE \<lparr>av_analysis_id = pa_analysis_id p, av_document_id = pa_document_id p,
           av_version = pa_version p, av_attempt = pa_analysis_attempt p, av_state = sa_state acc,
           av_candidate_sha256 = ds_sha256 (pa_candidate p), av_changed_by = pa_changed_by p,
           av_prepared_at = pa_prepared_at p, av_latest_request_id = sa_request_id acc,
           av_latest_policy = sa_policy acc, av_latest_outcome = sa_outcome acc,
           av_allowed_commands = allowed_commands (sa_state acc) (sa_policy acc),
           av_audit_chain_valid = valid, av_supersedes_analysis_id = pa_supersedes_analysis_id p\<rparr>)))"

fun statuses_loop :: "env \<Rightarrow> str list \<Rightarrow> ('i world, analysis_status_view list) op" where
  "statuses_loop E [] = retE []"
| "statuses_loop E (aid # aids) =
     bindE (get_status E aid) (\<lambda>v. bindE (statuses_loop E aids) (\<lambda>vs. retE (v # vs)))"

definition list_statuses :: "env \<Rightarrow> int \<Rightarrow> ('i world, analysis_status_view list) op" where
  "list_statuses E limit = bindE (auditR (\<lambda>a. list_analysis_ids a limit)) (statuses_loop E)"

section \<open>Requests to B\<close>

definition next_uuid :: "env \<Rightarrow> ('i world, str) op" where
  "next_uuid E s = (Inr (en_uuid E (w_uuid s)), s\<lparr>w_uuid := Suc (w_uuid s)\<rparr>)"

definition utc_now :: "env \<Rightarrow> ('i world, str) op" where
  "utc_now E s = (Inr (en_datetime E (w_clock s)), s\<lparr>w_clock := Suc (w_clock s)\<rparr>)"

text \<open>\<^verbatim>\<open>snapshot.normalized_sha256 or _text_sha256(snapshot.text)\<close>; an empty string is falsy.\<close>

definition normalized_or_text_sha :: "env \<Rightarrow> document_snapshot \<Rightarrow> str" where
  "normalized_or_text_sha E d =
     (case ds_normalized_sha256 d of
        None \<Rightarrow> en_sha_text E (ds_text d)
      | Some h \<Rightarrow> if h = [] then en_sha_text E (ds_text d) else h)"

definition build_request :: "env \<Rightarrow> prepared_analysis \<Rightarrow> str \<Rightarrow> str \<Rightarrow> risk_analysis_request" where
  "build_request E p rid requested_at =
     \<lparr>rq_schema_version = u ''0.1'', rq_request_id = rid, rq_analysis_id = pa_analysis_id p,
      rq_document_id = pa_document_id p, rq_version = pa_version p, rq_attempt = pa_analysis_attempt p,
      rq_requested_at = requested_at, rq_changed_by = pa_changed_by p,
      rq_baseline_sha256 = ds_sha256 (pa_baseline p), rq_candidate_sha256 = ds_sha256 (pa_candidate p),
      rq_baseline_normalized_sha256 = normalized_or_text_sha E (pa_baseline p),
      rq_candidate_normalized_sha256 = normalized_or_text_sha E (pa_candidate p),
      rq_before_text = ds_text (pa_baseline p), rq_after_text = ds_text (pa_candidate p),
      rq_diff = pa_diff p, rq_candidate_units = ds_units (pa_candidate p),
      rq_candidate_artifacts = ds_artifacts (pa_candidate p)\<rparr>"

definition ensure_request :: "env \<Rightarrow> str \<Rightarrow> ('i world, risk_analysis_request) op" where
  "ensure_request E aid =
     bindE (latest_request aid) (\<lambda>existing.
     case existing of
       Some r \<Rightarrow> retE r
     | None \<Rightarrow>
       bindE (auditR (\<lambda>a. get_prepared_analysis a aid)) (\<lambda>prepared.
       bindE (utc_now E) (\<lambda>requested_at.
       bindE (next_uuid E) (\<lambda>hex.
       let request = build_request E prepared (u ''req_'' @ hex) requested_at in
       bindE (auditE (append_event E aid (u ''ANALYSIS_REQUESTED'') (dump_risk_analysis_request request))) (\<lambda>_.
       retE request)))))"

definition get_request :: "env \<Rightarrow> str \<Rightarrow> str option \<Rightarrow> ('i world, risk_analysis_request) op" where
  "get_request E aid request_id =
     bindE (latest_request aid) (\<lambda>existing.
     bindE (case existing of None \<Rightarrow> ensure_request E aid | Some r \<Rightarrow> retE r) (\<lambda>request.
     if request_id \<noteq> None \<and> Some (rq_request_id request) \<noteq> request_id
     then raiseE WorkflowConflictError else retE request))"

fun pending_loop ::
  "env \<Rightarrow> int \<Rightarrow> str list \<Rightarrow> risk_analysis_request list \<Rightarrow> ('i world, risk_analysis_request list) op" where
  "pending_loop E limit [] pending = retE pending"
| "pending_loop E limit (aid # aids) pending =
     bindE (latest_request aid) (\<lambda>request.
     case request of
       None \<Rightarrow> pending_loop E limit aids pending
     | Some r \<Rightarrow>
       bindE (applied_submission aid (rq_request_id r)) (\<lambda>applied.
       if applied then pending_loop E limit aids pending
       else
       bindE (get_status E aid) (\<lambda>v.
       if av_state v = SUPERSEDED then pending_loop E limit aids pending
       else if int (length (pending @ [r])) \<ge> limit then retE (pending @ [r])
       else pending_loop E limit aids (pending @ [r]))))"

definition list_pending_requests :: "env \<Rightarrow> int \<Rightarrow> ('i world, risk_analysis_request list) op" where
  "list_pending_requests E limit =
     (if \<not> (1 \<le> limit \<and> limit \<le> 200) then raiseE ValueError
      else bindE (auditR (\<lambda>a. list_analysis_ids a 1000)) (\<lambda>ids. pending_loop E limit ids []))"

section \<open>B's results\<close>

definition submit_policy_result ::
  "'i indexer \<Rightarrow> env \<Rightarrow> str \<Rightarrow> policy_submission \<Rightarrow> ('i world, analysis_status_view) op" where
  "submit_policy_result X E aid submission =
     bindE (auditR (\<lambda>a. get_prepared_analysis a aid)) (\<lambda>prepared.
     bindE (get_status E aid) (\<lambda>v.
     if av_state v = SUPERSEDED then raiseE WorkflowConflictError
     else
     bindE (get_request E aid (Some (sb_request_id submission))) (\<lambda>request.
     if rq_analysis_id request \<noteq> aid then raiseE WorkflowConflictError
     else if po_candidate_sha256 (sb_policy submission) \<noteq> Some (ds_sha256 (pa_candidate prepared))
     then raiseE WorkflowConflictError
     else
     bindE (received_submission aid (rq_request_id request)) (\<lambda>prior.
     if prior \<noteq> None \<and> prior \<noteq> Some submission then raiseE WorkflowConflictError
     else
     bindE (applied_submission aid (rq_request_id request)) (\<lambda>already_applied.
     if already_applied then get_status E aid
     else
     bindE (if prior = None
            then bindE (auditE (append_event E aid (u ''POLICY_SUBMISSION_RECEIVED'')
                   (JObj [(u ''submission'', dump_policy_submission submission)]))) (\<lambda>_. retE ())
            else retE ()) (\<lambda>_.
     bindE (finalize X E aid (sb_policy submission) False) (\<lambda>outcome.
     bindE (auditE (append_event E aid (u ''POLICY_SUBMISSION_APPLIED'')
              (JObj [(u ''submission'', dump_policy_submission submission),
                     (u ''outcome'', dump_index_outcome outcome)]))) (\<lambda>_.
     get_status E aid))))))))"

record risk_analyzer =
  ran_name :: str
  ran_analyze :: "risk_analysis_request \<Rightarrow> policy_submission res"

definition dispatch ::
  "'i indexer \<Rightarrow> env \<Rightarrow> str \<Rightarrow> risk_analyzer \<Rightarrow> ('i world, analysis_status_view) op" where
  "dispatch X E aid analyzer =
     bindE (get_request E aid None) (\<lambda>request.
     bindE (auditE (append_event E aid (u ''ANALYSIS_DISPATCH_STARTED'')
              (JObj [(u ''request_id'', JStr (rq_request_id request)),
                     (u ''analyzer'', JStr (ran_name analyzer))]))) (\<lambda>_.
     case ran_analyze analyzer request of
       Inl exc \<Rightarrow>
         bindE (auditE (append_event E aid (u ''ANALYSIS_DISPATCH_FAILED'')
                  (JObj [(u ''request_id'', JStr (rq_request_id request)),
                         (u ''analyzer'', JStr (ran_name analyzer)),
                         (u ''error_type'', JStr (exn_name exc))]))) (\<lambda>_.
         raiseE (ExternalServiceError True))
     | Inr submission \<Rightarrow> submit_policy_result X E aid submission))"

section \<open>C's commands\<close>

definition create_reanalysis :: "env \<Rightarrow> prepared_analysis \<Rightarrow> ('i world, str) op" where
  "create_reanalysis E p =
     bindE (auditR (\<lambda>a. get_analysis a (pa_analysis_id p))) (\<lambda>rec.
     bindE (next_uuid E) (\<lambda>hex.
     bindE (utc_now E) (\<lambda>now.
     let replacement = p\<lparr>pa_analysis_id := u ''anl_'' @ hex,
                         pa_analysis_attempt := pa_analysis_attempt p + 1,
                         pa_supersedes_analysis_id := Some (pa_analysis_id p),
                         pa_prepared_at := Some now\<rparr> in
     bindE (\<lambda>s. auditE (record_prepared_analysis E (w_files s) replacement (ra_candidate_blob_path rec)) s) (\<lambda>_.
     bindE (auditE (append_event E (pa_analysis_id p) (u ''ANALYSIS_SUPERSEDED'')
              (JObj [(u ''replacement_analysis_id'', JStr (pa_analysis_id replacement))]))) (\<lambda>_.
     bindE (ensure_request E (pa_analysis_id replacement)) (\<lambda>_.
     retE (pa_analysis_id replacement)))))))"

text \<open>The three branches of the command, with the outcome and the replacement they leave.\<close>

definition run_command ::
  "'i indexer \<Rightarrow> env \<Rightarrow> str \<Rightarrow> prepared_analysis \<Rightarrow> operator_action \<Rightarrow>
   ('i world, index_outcome \<times> str option) op" where
  "run_command X E aid prepared action =
     (case action of
        APPROVE \<Rightarrow>
          bindE (latest_applied_policy aid) (\<lambda>policy.
          case policy of
            None \<Rightarrow> raiseE WorkflowConflictError
          | Some po \<Rightarrow>
              if po_decision po \<noteq> ALLOW \<or> po_index_action po \<noteq> INDEX then raiseE WorkflowConflictError
              else bindE (finalize X E aid po True) (\<lambda>outcome. retE (outcome, None)))
      | OP_HOLD \<Rightarrow>
          bindE (gate_hold X E prepared (u ''OPERATOR_HOLD'')) (\<lambda>outcome. retE (outcome, None))
      | REANALYZE \<Rightarrow>
          bindE (gate_hold X E prepared (u ''OPERATOR_REANALYZE_HOLD'')) (\<lambda>outcome.
          bindE (create_reanalysis E prepared) (\<lambda>rid. retE (outcome, Some rid))))"

definition replay_command ::
  "env \<Rightarrow> str \<Rightarrow> operator_command \<Rightarrow> json \<Rightarrow> ('i world, operator_command_result) op" where
  "replay_command E aid command replay =
     (case jget (u ''command'') replay of
        None \<Rightarrow> raiseE KeyError
      | Some j \<Rightarrow>
          bindE (liftE (validated (validate_operator_command j))) (\<lambda>saved_command.
          if saved_command \<noteq> command then raiseE WorkflowConflictError
          else
          bindE (get_status E aid) (\<lambda>v.
          bindE (liftE (case jget (u ''outcome'') replay of
                   None \<Rightarrow> Inr None
                 | Some JNull \<Rightarrow> Inr None
                 | Some o' \<Rightarrow> (case validated (validate_index_outcome o') of
                               Inl x \<Rightarrow> Inl x | Inr out \<Rightarrow> Inr (Some out)))) (\<lambda>saved_outcome.
          retE \<lparr>cr_command = command, cr_status = v, cr_outcome = saved_outcome,
                cr_replacement_analysis_id =
                  (case jget (u ''replacement_analysis_id'') replay of Some (JStr r) \<Rightarrow> Some r | _ \<Rightarrow> None),
                cr_idempotent_replay = True\<rparr>))))"

definition execute_command ::
  "'i indexer \<Rightarrow> env \<Rightarrow> str \<Rightarrow> operator_command \<Rightarrow> ('i world, operator_command_result) op" where
  "execute_command X E aid command =
     bindE (auditR (\<lambda>a. get_prepared_analysis a aid)) (\<lambda>prepared.
     if oc_expected_candidate_sha256 command \<noteq> ds_sha256 (pa_candidate prepared)
     then raiseE WorkflowConflictError
     else
     bindE (completed_command aid (oc_idempotency_key command)) (\<lambda>replay.
     case replay of
       Some j \<Rightarrow> replay_command E aid command j
     | None \<Rightarrow>
     bindE (get_status E aid) (\<lambda>current_status.
     if oc_action command \<notin> set (av_allowed_commands current_status)
     then raiseE WorkflowConflictError
     else
     bindE (run_command X E aid prepared (oc_action command)) (\<lambda>(outcome, replacement).
     bindE (auditE (append_event E aid (u ''OPERATOR_COMMAND_COMPLETED'')
              (JObj [(u ''command'', dump_operator_command command),
                     (u ''outcome'', dump_index_outcome outcome),
                     (u ''replacement_analysis_id'', d_opt JStr replacement)]))) (\<lambda>_.
     bindE (get_status E aid) (\<lambda>v.
     retE \<lparr>cr_command = command, cr_status = v, cr_outcome = Some outcome,
           cr_replacement_analysis_id = replacement, cr_idempotent_replay = False\<rparr>))))))"

section \<open>Readers leave the world alone\<close>

definition pureE :: "('s, 'a) op \<Rightarrow> bool" where
  "pureE m \<longleftrightarrow> (\<forall>s. snd (m s) = s)"

named_theorems pure_rules \<open>operations that only read\<close>

lemma pure_wp: "pureE m \<Longrightarrow> wp m Q s \<longleftrightarrow> Q (fst (m s)) s"
  by (simp add: wp_def pureE_def)

lemma pure_wpI: "pureE m \<Longrightarrow> (\<And>r. m s = (r, s) \<Longrightarrow> Q r s) \<Longrightarrow> wp m Q s"
  by (simp add: wp_def pureE_def) (metis prod.collapse)

lemma pure_bindE [pure_rules]: "pureE m \<Longrightarrow> (\<And>x. pureE (f x)) \<Longrightarrow> pureE (bindE m f)"
  by (auto simp: pureE_def bindE_def split: prod.splits sum.splits) (metis snd_conv)+

lemma pure_retE [pure_rules]: "pureE (retE x)" and pure_raiseE [pure_rules]: "pureE (raiseE e)"
  and pure_liftE [pure_rules]: "pureE (liftE r)" and pure_auditR [pure_rules]: "pureE (auditR f)"
  by (simp_all add: pureE_def retE_def raiseE_def liftE_def auditR_def)

lemma pure_if [pure_rules]: "pureE m \<Longrightarrow> pureE n \<Longrightarrow> pureE (if b then m else n)"
  by simp

lemma pure_Let [pure_rules]: "pureE (f x) \<Longrightarrow> pureE (let y = x in f y)"
  by simp

lemma pure_option [pure_rules]:
  "pureE m \<Longrightarrow> (\<And>x. pureE (f x)) \<Longrightarrow> pureE (case v of None \<Rightarrow> m | Some x \<Rightarrow> f x)"
  by (cases v) auto

lemma get_status_pure [pure_rules]: "pureE (get_status E aid)"
  unfolding get_status_def by (intro pure_rules)

lemma events_pure [pure_rules]: "pureE (eventsR aid)"
  unfolding eventsR_def by (intro pure_rules)

lemma latest_request_pure [pure_rules]: "pureE (latest_request aid)"
  unfolding latest_request_def by (intro pure_rules)

lemma received_submission_pure [pure_rules]: "pureE (received_submission aid rid)"
  unfolding received_submission_def by (intro pure_rules)

lemma applied_submission_pure [pure_rules]: "pureE (applied_submission aid rid)"
  unfolding applied_submission_def by (intro pure_rules)

lemma latest_applied_policy_pure [pure_rules]: "pureE (latest_applied_policy aid)"
  unfolding latest_applied_policy_def by (intro pure_rules)

lemma completed_command_pure [pure_rules]: "pureE (completed_command aid key)"
  unfolding completed_command_def by (intro pure_rules)

lemma replay_command_pure [pure_rules]: "pureE (replay_command E aid command j)"
  unfolding replay_command_def by (intro pure_rules)

lemma statuses_loop_pure [pure_rules]: "pureE (statuses_loop E aids)"
  by (induction aids) (simp_all, (intro pure_rules; assumption)+)

lemma list_statuses_pure: "pureE (list_statuses E limit)"
  unfolding list_statuses_def by (intro pure_rules)

lemma pending_loop_pure [pure_rules]: "pureE (pending_loop E limit aids pending)"
proof (induction aids arbitrary: pending)
  case (Cons aid aids)
  show ?case unfolding pending_loop.simps by (intro pure_rules Cons)
qed (simp add: pure_retE)

lemma list_pending_pure: "pureE (list_pending_requests E limit)"
  unfolding list_pending_requests_def by (intro pure_rules)

section \<open>How an operation may change the world\<close>

definition evolves :: "env \<Rightarrow> 'i world \<Rightarrow> 'i world \<Rightarrow> bool" where
  "evolves E s t \<longleftrightarrow>
     au_grows (w_audit s) (w_audit t) \<and> (au_inv E (w_audit s) \<longrightarrow> au_inv E (w_audit t)) \<and>
     map_le (w_files s) (w_files t)"

lemma evolves_refl [simp]: "evolves E s s"
  by (simp add: evolves_def)

lemma evolves_trans: "evolves E s t \<Longrightarrow> evolves E t v \<Longrightarrow> evolves E s v"
  unfolding evolves_def using au_grows_trans map_le_trans by (metis (full_types))

lemma frame_evolves: "frame E s t \<Longrightarrow> evolves E s t"
  by (simp add: frame_def evolves_def)

text \<open>An operation that evolves the world and adds no version to the index.\<close>

definition quiet :: "('i \<Rightarrow> bool) \<Rightarrow> ('i \<Rightarrow> (str \<times> str) set) \<Rightarrow> env \<Rightarrow> 'i world \<Rightarrow> 'i world \<Rightarrow> bool" where
  "quiet ok stored E s t \<longleftrightarrow> evolves E s t \<and> shrinks ok stored s t"

lemma quiet_preorder: "preorderR (quiet ok stored E)"
  by (rule preorderRI) (auto simp: quiet_def intro: evolves_trans shrinks_trans)

lemma quiet_trans: "quiet ok stored E s t \<Longrightarrow> quiet ok stored E t v \<Longrightarrow> quiet ok stored E s v"
  by (rule preorderR_trans [OF quiet_preorder])

lemma quiet_refl [simp]: "quiet ok stored E s s"
  by (simp add: quiet_def)

lemmas quiet_rules = steps_bindE [OF quiet_preorder] steps_retE [OF quiet_preorder]
  steps_raiseE [OF quiet_preorder] steps_liftE [OF quiet_preorder] steps_if steps_case_option
  steps_case_sum steps_case_prod steps_Let

lemma pure_quiet: "pureE m \<Longrightarrow> steps (quiet ok stored E) m"
  by (simp add: steps_def pureE_def)

lemma append_quiet: "steps (quiet ok stored E) (auditE (append_event E aid et j))"
  by (rule steps_wp, rule wp_conseq [OF audit_append_frame])
     (auto simp: quiet_def intro: frame_evolves shrinks_index)

lemma record_prepared_spec:
  "wp (record_prepared_analysis E files p path) (\<lambda>r a. au_grows st a \<and> (au_inv E st \<longrightarrow> au_inv E a)) st"
  by (rule wpI) (rule record_prepared_effect)

lemma record_prepared_quiet:
  "steps (quiet ok stored E :: 'i world \<Rightarrow> 'i world \<Rightarrow> bool)
     (\<lambda>s. auditE (record_prepared_analysis E (w_files s) p path) s)"
proof (rule stepsI)
  fix s t :: "'i world" and r
  assume run: "auditE (record_prepared_analysis E (w_files s) p path) s = (r, t)"
  have "wp (auditE (record_prepared_analysis E (w_files s) p path)) (\<lambda>r t. quiet ok stored E s t) s"
    by (rule wp_auditE, rule wp_conseq [OF record_prepared_spec])
       (simp add: quiet_def evolves_def shrinks_def)
  from wpD [OF this run] show "quiet ok stored E s t" .
qed

lemma utc_now_quiet: "steps (quiet ok stored E) (utc_now E')" and next_uuid_quiet: "steps (quiet ok stored E) (next_uuid E')"
  by (auto intro!: stepsI simp: utc_now_def next_uuid_def quiet_def evolves_def shrinks_def)

lemma ensure_request_quiet: "steps (quiet ok stored E) (ensure_request E aid)"
  unfolding ensure_request_def
  by (intro quiet_rules append_quiet utc_now_quiet next_uuid_quiet pure_quiet pure_rules)

lemma get_request_quiet: "steps (quiet ok stored E) (get_request E aid rid)"
  unfolding get_request_def
  by (intro quiet_rules ensure_request_quiet pure_quiet pure_rules)

lemma create_reanalysis_quiet: "steps (quiet ok stored E) (create_reanalysis E p)"
  unfolding create_reanalysis_def
  by (intro quiet_rules append_quiet record_prepared_quiet utc_now_quiet next_uuid_quiet
      ensure_request_quiet pure_quiet pure_rules)

text \<open>
  The candidate of \<open>aid\<close> is approved by \<open>cmd\<close> in world \<open>s\<close>: the command is an APPROVE for the
  candidate's hash, and the latest result of B applied to the analysis is ALLOW + INDEX and bound
  to that hash.
\<close>

definition approves :: "env \<Rightarrow> 'i world \<Rightarrow> str \<Rightarrow> operator_command \<Rightarrow> str \<times> str \<Rightarrow> bool" where
  "approves E s aid cmd k \<longleftrightarrow>
     oc_action cmd = APPROVE \<and>
     (\<exists>p po es. get_prepared_analysis (w_audit s) aid = Inr p \<and> k = candidate_key p \<and>
        oc_expected_candidate_sha256 cmd = ds_sha256 (pa_candidate p) \<and>
        list_events (w_audit s) aid = Inr es \<and> latest_applied_policy_in es = Inr (Some po) \<and>
        po_analysis_status po = COMPLETED \<and> po_decision po = ALLOW \<and> po_index_action po = INDEX \<and>
        po_candidate_sha256 po = Some (ds_sha256 (pa_candidate p)) \<and>
        hard_blocking_artifacts (en_udb E) (pa_candidate p) = [])"

context indexer_contract
begin

lemma finalize_quiet: "steps (quiet ok stored E) (finalize X E aid po False)"
proof (rule steps_wp)
  fix s :: "'i world"
  have adm: "\<And>p. \<not> admissible E s p (PolicyObject po) False" by (simp add: admissible_def)
  show "wp (finalize X E aid po False) (\<lambda>r t. quiet ok stored E s t) s"
    unfolding finalize_def wp_bindE wp_auditR gate_apply_def
    by (auto split: sum.splits intro!: wp_conseq [OF apply_post]
        simp: gate_post_def quiet_def shrinks_def adm frame_evolves)
qed

lemma hold_quiet: "steps (quiet ok stored E) (gate_hold X E p reason)"
  by (rule steps_wp, rule wp_conseq [OF hold_post])
     (auto simp: gate_post_def quiet_def shrinks_def frame_evolves)

lemma submit_quiet: "steps (quiet ok stored E) (submit_policy_result X E aid sub)"
  unfolding submit_policy_result_def
  by (intro quiet_rules append_quiet get_request_quiet finalize_quiet pure_quiet pure_rules)

lemma dispatch_quiet: "steps (quiet ok stored E) (dispatch X E aid an)"
  unfolding dispatch_def
  by (intro quiet_rules append_quiet get_request_quiet submit_quiet pure_quiet pure_rules)

lemma run_command_post:
  assumes p: "get_prepared_analysis (w_audit s) aid = Inr p"
    and sha: "oc_expected_candidate_sha256 cmd = ds_sha256 (pa_candidate p)"
  shows "wp (run_command X E aid p (oc_action cmd)) (\<lambda>r t. evolves E s t \<and>
     (ok (w_index s) \<longrightarrow> ok (w_index t)) \<and>
     (\<forall>k\<in>stored (w_index t). k \<in> stored (w_index s) \<or> approves E s aid cmd k)) s"
    (is "wp _ ?Q s")
proof (cases "oc_action cmd")
  case APPROVE
  show ?thesis
  proof (cases "list_events (w_audit s) aid")
    case (Inl e)
    show ?thesis unfolding run_command_def APPROVE operator_action.case wp_bindE
      latest_applied_policy_def eventsR_def wp_auditR Inl by simp
  next
    case es: (Inr es)
    show ?thesis
    proof (cases "latest_applied_policy_in es")
      case (Inl e)
      show ?thesis unfolding run_command_def APPROVE operator_action.case wp_bindE
        latest_applied_policy_def eventsR_def wp_auditR es sum.case wp_liftE Inl by simp
    next
      case lp: (Inr lp)
      have none: "wp (raiseE WorkflowConflictError) ?Q s" by (simp add: wp_raiseE)
      have some: "wp (finalize X E aid po True) (\<lambda>r t. evolves E s t \<and>
          (ok (w_index s) \<longrightarrow> ok (w_index t)) \<and>
          (\<forall>k\<in>stored (w_index t). k \<in> stored (w_index s) \<or> approves E s aid cmd k)) s"
        if "lp = Some po" "po_decision po = ALLOW" "po_index_action po = INDEX" for po
      proof -
        have "approves E s aid cmd (candidate_key p)" if "admissible E s p (PolicyObject po) True"
          using that p sha es lp \<open>lp = Some po\<close> APPROVE by (auto simp: approves_def admissible_def)
        then show ?thesis unfolding finalize_def wp_bindE wp_auditR p sum.case gate_apply_def
          by (intro wp_conseq [OF apply_post]) (auto simp: gate_post_def frame_evolves)
      qed
      show ?thesis
      proof (cases lp)
        case None
        then show ?thesis unfolding run_command_def APPROVE operator_action.case wp_bindE
          latest_applied_policy_def eventsR_def wp_auditR es sum.case wp_liftE lp by (simp add: none)
      next
        case (Some po)
        show ?thesis
        proof (cases "po_decision po \<noteq> ALLOW \<or> po_index_action po \<noteq> INDEX")
          case True
          then show ?thesis unfolding run_command_def APPROVE operator_action.case wp_bindE
            latest_applied_policy_def eventsR_def wp_auditR es sum.case wp_liftE lp Some option.case wp_if
            by (simp add: none)
        next
          case False
          then have "wp (finalize X E aid po True) (\<lambda>r t. case r of Inl e \<Rightarrow> ?Q (Inl e) t
              | Inr out \<Rightarrow> wp (retE (out, None)) ?Q t) s"
            using some[OF Some] by (intro wp_conseq [OF some[OF Some]]) (auto simp: wp_retE split: sum.splits)
          with False show ?thesis unfolding run_command_def APPROVE operator_action.case wp_bindE
            latest_applied_policy_def eventsR_def wp_auditR es sum.case wp_liftE lp Some option.case wp_if
            by simp
        qed
      qed
    qed
  qed
next
  case OP_HOLD
  have "steps (quiet ok stored E) (run_command X E aid p (oc_action cmd))"
    unfolding run_command_def OP_HOLD operator_action.case by (intro quiet_rules hold_quiet)
  from wp_steps[OF this] show ?thesis
    by (rule wp_conseq) (auto simp: quiet_def shrinks_def)
next
  case REANALYZE
  have "steps (quiet ok stored E) (run_command X E aid p (oc_action cmd))"
    unfolding run_command_def REANALYZE operator_action.case
    by (intro quiet_rules hold_quiet create_reanalysis_quiet)
  from wp_steps[OF this] show ?thesis
    by (rule wp_conseq) (auto simp: quiet_def shrinks_def)
qed

lemma execute_post:
  "wp (execute_command X E aid cmd) (\<lambda>r t. evolves E s t \<and> (ok (w_index s) \<longrightarrow> ok (w_index t)) \<and>
     (\<forall>k\<in>stored (w_index t). k \<in> stored (w_index s) \<or> approves E s aid cmd k)) s"
    (is "wp _ ?Q s")
proof (cases "get_prepared_analysis (w_audit s) aid")
  case (Inl e)
  then show ?thesis unfolding execute_command_def wp_bindE wp_auditR by simp
next
  case p: (Inr p)
  have same: "\<And>r. ?Q r s" by simp
  show ?thesis
  proof (cases "oc_expected_candidate_sha256 cmd = ds_sha256 (pa_candidate p)")
    case False
    then show ?thesis unfolding execute_command_def wp_bindE wp_auditR p sum.case wp_if wp_raiseE by simp
  next
    case sha: True
    define fin :: "index_outcome \<times> str option \<Rightarrow> ('i world, operator_command_result) op" where "fin = (\<lambda>(outcome, replacement).
     bindE (auditE (append_event E aid (u ''OPERATOR_COMMAND_COMPLETED'')
              (JObj [(u ''command'', dump_operator_command cmd),
                     (u ''outcome'', dump_index_outcome outcome),
                     (u ''replacement_analysis_id'', d_opt JStr replacement)]))) (\<lambda>_.
     bindE (get_status E aid) (\<lambda>v.
     retE \<lparr>cr_command = cmd, cr_status = v, cr_outcome = Some outcome,
           cr_replacement_analysis_id = replacement, cr_idempotent_replay = False\<rparr>)))"
    have fin: "steps (quiet ok stored E) (fin x)" for x
      unfolding fin_def by (intro quiet_rules append_quiet pure_quiet pure_rules)
    have run: "wp (bindE (run_command X E aid p (oc_action cmd)) fin) ?Q s"
      unfolding wp_bindE
      apply (rule wp_conseq [OF run_command_post[OF p sha]])
      subgoal for r t
        apply (cases r)
        subgoal by simp
        subgoal for x
          apply simp
          apply (rule wp_conseq [OF wp_steps [OF fin]])
          apply (auto simp: quiet_def shrinks_def intro: evolves_trans)
          done
        done
      done
    show ?thesis
      unfolding execute_command_def wp_bindE wp_auditR p sum.case wp_if
      using sha
      apply simp
      apply (rule pure_wpI [OF completed_command_pure])
      subgoal for r
        apply (cases r)
        subgoal by simp
        subgoal for replay
          apply (cases replay)
          subgoal
            apply (simp add: wp_bindE)
            apply (rule pure_wpI [OF get_status_pure])
            subgoal for r' using run same by (cases r') (simp_all add: wp_if wp_raiseE fin_def wp_bindE)
            done
          subgoal for j
            apply simp
            apply (rule pure_wpI [OF replay_command_pure])
            apply simp
            done
          done
        done
      done
  qed
qed

end

lemma sample_prepared_stored: "\<exists>rec. get_analysis sample_store (pa_analysis_id sample_prepared) = Inr rec \<and> ra_prepared rec = sample_prepared"
proof -
  obtain r st' where run: "record_prepared_analysis sample_env sample_files sample_prepared (u ''/blobs/c0'') (audit_init []) = (r, st')"
    by fastforce
  then have st: "sample_store = st'" by (auto simp: sample_store_def audit_writes_def split: sum.splits)
  have "\<not> au_same (audit_init []) st'"
    using sample_store_exists st by (auto simp: au_same_def analysis_exists_iff audit_init_def)
  then obtain rec where "r = Inr rec"
    using record_prepared_readable[OF wf_sample_prepared au_readable_init run] by blast
  with record_prepared_reads[OF wf_sample_prepared] run st show ?thesis by blast
qed

lemma sample_world_prepared: "get_prepared_analysis (w_audit sample_world) (u ''anl_1'') = Inr sample_prepared"
  using sample_prepared_stored by (auto simp: sample_world_def get_prepared_analysis_def sample_prepared_def)

lemma sample_store_log:
  "map ev_event_type (au_events sample_store) = [u ''ANALYSIS_PREPARED''] \<and> au_faults sample_store = [] \<and>
   map an_candidate_blob_path (au_analyses sample_store) = [u ''/blobs/c0'']"
proof -
  have "strip (u ''ANALYSIS_PREPARED'') \<noteq> []" by (simp add: strip_eq_Nil_iff u_def is_space_def)
  then show ?thesis
    by (simp add: sample_store_def audit_writes_def record_prepared_analysis_def sample_files_def sample_env_def
        sample_prepared_def sample_snapshot_def au_transaction_def Let_def audit_init_def analysis_row_of_def
        append_event_in_transaction_def analysis_exists_def events_of_def split: prod.splits sum.splits)
qed

lemma sample_events_prepared:
  assumes "list_events_locked sample_store aid = Inr es" "e \<in> set es"
  shows "ae_event_type e = u ''ANALYSIS_PREPARED''"
proof -
  obtain r where r: "r \<in> set (au_events sample_store)" "event_from_row r = Some e"
    using event_read_row[OF list_events_lockedD[OF assms(1)] assms(2)] by blast
  have "\<forall>x\<in>set (map ev_event_type (au_events sample_store)). x = u ''ANALYSIS_PREPARED''"
    unfolding conjunct1[OF sample_store_log] by simp
  with r show ?thesis by (auto simp: event_from_row_def)
qed

definition sample_command :: "operator_action \<Rightarrow> operator_command" where
  "sample_command action = \<lparr>oc_action = action, oc_actor = u ''carol'', oc_reason = u ''checked'',
     oc_idempotency_key = u ''key-0001'', oc_expected_candidate_sha256 = u ''c0''\<rparr>"

definition sample_submission :: policy_submission where
  "sample_submission = \<lparr>sb_request_id = u ''req_1'', sb_submitted_by = u ''B'', sb_policy = sample_policy ALLOW INDEX (u ''c0'')\<rparr>"

section \<open>A completed command is remembered\<close>

lemma rev_find_snoc: "find P (rev (xs @ [x])) = (if P x then Some x else find P (rev xs))"
  by simp

lemma completed_command_after:
  assumes inv: "au_inv E (w_audit s)" and wf: "wf_operator_command cmd"
    and run: "auditE (append_event E aid (u ''OPERATOR_COMMAND_COMPLETED'')
       (JObj [(u ''command'', dump_operator_command cmd), (u ''outcome'', dump_index_outcome out),
              (u ''replacement_analysis_id'', d_opt JStr rid)])) s = (Inr ev, t)"
    and es: "list_events (w_audit t) aid = Inr es"
  shows "completed_command_in (oc_idempotency_key cmd) es \<noteq> None"
proof -
  let ?j = "JObj [(u ''command'', dump_operator_command cmd), (u ''outcome'', dump_index_outcome out),
              (u ''replacement_analysis_id'', d_opt JStr rid)]"
  have j: "wf_json ?j" using wf by (simp add: rt dump_index_outcome_def)
  obtain a where a: "append_event E aid (u ''OPERATOR_COMMAND_COMPLETED'') ?j (w_audit s) = (Inr ev, a)" "w_audit t = a"
    using run by (auto simp: auditE_def onE_run)
  from a(1) have "\<exists>row. au_events a = au_events (w_audit s) @ [row] \<and> ev_analysis_id row = aid \<and>
      event_from_row row = Some (ev\<lparr>ae_payload := normalise ?j\<rparr>) \<and> ae_event_type ev = u ''OPERATOR_COMMAND_COMPLETED''"
    unfolding append_event_def
  proof (rule au_transaction_cases)
    fix x t'
    assume x: "Inr ev = Inr x" and t': "au_same (w_audit s) t'"
      and b: "append_event_in_transaction E aid (u ''OPERATOR_COMMAND_COMPLETED'') ?j t' = (Inr x, a)"
    from b show ?thesis
    proof (cases rule: append_in_transaction_cases)
      case (added ev' row)
      then show ?thesis using x t' j
        by (intro exI[of _ row]) (simp add: event_from_row_def json_loads_canonical au_same_def)
    qed simp
  qed simp
  then obtain row where row: "au_events a = au_events (w_audit s) @ [row]" "ev_analysis_id row = aid"
    "event_from_row row = Some (ev\<lparr>ae_payload := normalise ?j\<rparr>)" "ae_event_type ev = u ''OPERATOR_COMMAND_COMPLETED''"
    by blast
  have "au_inv E a" using append_event_effect[OF a(1)] inv by blast
  then have "events_of a aid = chain_of (w_audit s) aid @ [row]"
    using row(1,2) by (simp add: au_inv_events_of chain_of_def)
  then have "map Some es = map event_from_row (chain_of (w_audit s) aid) @ [Some (ev\<lparr>ae_payload := normalise ?j\<rparr>)]"
    using list_eventsD[OF es] a(2) row(3) by simp
  then obtain es0 where es0: "es = es0 @ [ev\<lparr>ae_payload := normalise ?j\<rparr>]"
    by (cases es rule: rev_cases) auto
  have c: "jget (u ''command'') (normalise ?j) = Some (normalise (dump_operator_command cmd))"
    by (subst jget_normalise) simp_all
  have k: "jget (u ''idempotency_key'') (normalise (dump_operator_command cmd)) = Some (JStr (oc_idempotency_key cmd))"
    unfolding dump_operator_command_def by (subst jget_normalise) simp_all
  show ?thesis
    unfolding es0 completed_command_in_def rev_find_snoc using row(4) c k by (simp add: is_event_def)
qed

lemma replay_keeps_world:
  assumes "list_events (w_audit s) aid = Inr es" "completed_command_in (oc_idempotency_key cmd) es \<noteq> None"
  shows "snd (execute_command X E aid cmd s) = s \<and>
    (\<forall>res. fst (execute_command X E aid cmd s) = Inr res \<longrightarrow> cr_idempotent_replay res \<and> cr_command res = cmd)"
proof (cases "get_prepared_analysis (w_audit s) aid")
  case (Inl e)
  then show ?thesis by (simp add: execute_command_def bindE_def auditR_def)
next
  case p: (Inr p)
  obtain j where j: "completed_command_in (oc_idempotency_key cmd) es = Some j" using assms(2) by auto
  have cc: "completed_command aid (oc_idempotency_key cmd) s = (Inr (Some j), s)"
    by (simp add: completed_command_def eventsR_def auditR_def bindE_def assms(1) retE_def j)
  have "execute_command X E aid cmd s =
      (if oc_expected_candidate_sha256 cmd \<noteq> ds_sha256 (pa_candidate p) then (Inl WorkflowConflictError, s)
       else replay_command E aid cmd j s)"
    using p cc by (simp add: execute_command_def bindE_def auditR_def raiseE_def)
  moreover have "snd (replay_command E aid cmd j s) = s"
    using replay_command_pure unfolding pureE_def by blast
  moreover have "cr_idempotent_replay res \<and> cr_command res = cmd" if "replay_command E aid cmd j s = (Inr res, t)" for res t
    using that unfolding replay_command_def
    by (auto simp: bindE_Inr_iff split: option.splits if_splits)
  ultimately show ?thesis by (auto split: if_splits) (metis prod.collapse)+
qed

lemma get_status_events:
  "get_status E aid s = (Inr v, t) \<Longrightarrow> t = s \<and> (\<exists>es. list_events (w_audit s) aid = Inr es)"
proof -
  assume run: "get_status E aid s = (Inr v, t)"
  then obtain rec where "get_analysis (w_audit s) aid = Inr rec" "t = s"
    unfolding get_status_def by (auto simp: bindE_Inr_iff auditR_def Let_def)
  then show ?thesis
    by (auto simp: list_events_def analysis_exists_def elim!: get_analysisD)
qed

lemma executed_is_remembered:
  assumes inv: "au_inv E (w_audit s)" and wf: "wf_operator_command cmd"
    and run: "execute_command (sqlite_indexer E) E aid cmd s = (Inr res, t)"
  shows "\<exists>es. list_events (w_audit t) aid = Inr es \<and> completed_command_in (oc_idempotency_key cmd) es \<noteq> None"
proof -
  let ?X = "sqlite_indexer E"
  obtain p r s' where p: "get_prepared_analysis (w_audit s) aid = Inr p"
    and sha: "oc_expected_candidate_sha256 cmd = ds_sha256 (pa_candidate p)"
    and cc': "completed_command aid (oc_idempotency_key cmd) s = (Inr r, s')"
    using run unfolding execute_command_def by (auto simp: bindE_Inr_iff auditR_def split: if_splits)
  have "s' = s" using completed_command_pure cc' unfolding pureE_def by (metis snd_conv)
  with cc' have cc: "completed_command aid (oc_idempotency_key cmd) s = (Inr r, s)" by simp
  obtain es where es: "list_events (w_audit s) aid = Inr es" "completed_command_in (oc_idempotency_key cmd) es = r"
    using cc by (auto simp: completed_command_def eventsR_def auditR_def bindE_Inr_iff)
  show ?thesis
  proof (cases r)
    case (Some j)
    with es replay_keeps_world[OF es(1), of cmd ?X E] run show ?thesis by auto
  next
    case None
    have run2: "bindE (get_status E aid) (\<lambda>current_status.
       if oc_action cmd \<notin> set (av_allowed_commands current_status) then raiseE WorkflowConflictError
       else
       bindE (run_command ?X E aid p (oc_action cmd)) (\<lambda>(outcome, replacement).
       bindE (auditE (append_event E aid (u ''OPERATOR_COMMAND_COMPLETED'')
                (JObj [(u ''command'', dump_operator_command cmd),
                       (u ''outcome'', dump_index_outcome outcome),
                       (u ''replacement_analysis_id'', d_opt JStr replacement)]))) (\<lambda>_.
       bindE (get_status E aid) (\<lambda>v.
       retE \<lparr>cr_command = cmd, cr_status = v, cr_outcome = Some outcome,
             cr_replacement_analysis_id = replacement, cr_idempotent_replay = False\<rparr>)))) s = (Inr res, t)"
      using run p sha cc None by (simp add: execute_command_def bindE_def auditR_def)
    then obtain v0 s0 where v0: "get_status E aid s = (Inr v0, s0)" by (auto simp: bindE_Inr_iff)
    then have "s0 = s" using get_status_events by blast
    with v0 run2 obtain out rid s1 ev s2 v where
      r1: "run_command ?X E aid p (oc_action cmd) s = (Inr (out, rid), s1)"
      and a: "auditE (append_event E aid (u ''OPERATOR_COMMAND_COMPLETED'')
                (JObj [(u ''command'', dump_operator_command cmd), (u ''outcome'', dump_index_outcome out),
                       (u ''replacement_analysis_id'', d_opt JStr rid)])) s1 = (Inr ev, s2)"
      and v: "get_status E aid s2 = (Inr v, t)"
      by (auto simp: bindE_Inr_iff split: if_splits)
    have "au_inv E (w_audit s1)"
      using wpD[OF sqlite.run_command_post[OF p sha, of E E] r1] inv by (simp add: evolves_def)
    moreover obtain es' where "list_events (w_audit t) aid = Inr es'" "t = s2"
      using get_status_events[OF v] by blast
    ultimately show ?thesis using completed_command_after[OF _ wf a] by blast
  qed
qed

section \<open>One request per analysis\<close>

lemma find_last_snoc: "P x \<Longrightarrow> find P (rev (xs @ [x])) = Some x"
  by simp

lemma wf_build_request:
  "wf_prepared_analysis p \<Longrightarrow> wf_risk_analysis_request (build_request E p rid now)"
  by (auto simp: wf_risk_analysis_request_def build_request_def wf_prepared_analysis_def
      check_risk_analysis_request_def check_prepared_analysis_def wf_document_snapshot_def)

lemma ensure_request_existing:
  "latest_request aid s = (Inr (Some r), s) \<Longrightarrow> ensure_request E aid s = (Inr r, s)"
  by (simp add: ensure_request_def bindE_def retE_def)

lemma ensure_request_again:
  assumes inv: "au_inv E (w_audit s)" and p: "get_prepared_analysis (w_audit s) aid = Inr p"
    and wf: "wf_prepared_analysis p" and run: "ensure_request E aid s = (Inr r, t)"
  shows "ensure_request E aid t = (Inr r, t)"
proof -
  have "\<exists>es. list_events (w_audit s) aid = Inr es"
    using run by (cases "list_events (w_audit s) aid")
      (simp_all add: ensure_request_def latest_request_def eventsR_def auditR_def bindE_def)
  then obtain es where es: "list_events (w_audit s) aid = Inr es" by blast
  have lr: "latest_request aid s = (latest_request_in es, s)"
    using es by (simp add: latest_request_def eventsR_def auditR_def bindE_def liftE_def)
  obtain x where x: "latest_request_in es = Inr x" using run lr by (auto simp: ensure_request_def bindE_Inr_iff)
  show ?thesis
  proof (cases x)
    case (Some r')
    then have "ensure_request E aid s = (Inr r', s)" using lr x by (simp add: ensure_request_existing)
    with run show ?thesis by simp
  next
    case None
    define r0 where "r0 = build_request E p (u ''req_'' @ en_uuid E (w_uuid s)) (en_datetime E (w_clock s))"
    have a: "\<exists>s2. \<exists>ev. w_audit s2 = w_audit s \<and>
        auditE (append_event E aid (u ''ANALYSIS_REQUESTED'') (dump_risk_analysis_request r0)) s2 = (Inr ev, t) \<and> r = r0"
      using run lr x None p unfolding ensure_request_def r0_def
      by (intro exI[of _ "s\<lparr>w_clock := Suc (w_clock s), w_uuid := Suc (w_uuid s)\<rparr>"])
        (auto simp: bindE_Inr_iff auditR_def utc_now_def next_uuid_def Let_def)
    then obtain s2 ev b where b: "append_event E aid (u ''ANALYSIS_REQUESTED'') (dump_risk_analysis_request r0) (w_audit s) = (Inr ev, b)"
      "w_audit t = b" "r = r0" by (auto simp: auditE_def onE_run)
    have wfr: "wf_risk_analysis_request r0" using wf_build_request[OF wf] by (simp add: r0_def)
    have es': "list_events (w_audit t) aid = Inr (es @ [ev\<lparr>ae_payload := normalise (dump_risk_analysis_request r0)\<rparr>])"
      using append_event_read[OF inv _ b(1) es] wfr b(2) by (simp add: rt)
    have "ae_event_type ev = u ''ANALYSIS_REQUESTED''"
      using b(1) unfolding append_event_def
      by (auto elim!: au_transaction_cases append_in_transaction_cases)
    then have "latest_request_in (es @ [ev\<lparr>ae_payload := normalise (dump_risk_analysis_request r0)\<rparr>]) = Inr (Some r0)"
      unfolding latest_request_in_def using wfr
      by (subst find_last_snoc) (simp_all add: is_event_def validated_def rt)
    then have "latest_request aid t = (Inr (Some r0), t)"
      using es' by (simp add: latest_request_def eventsR_def auditR_def bindE_def liftE_def)
    then show ?thesis using b(3) by (simp add: ensure_request_existing)
  qed
qed

section \<open>The status of a longer log\<close>

lemma status_fold_snoc:
  "status_fold a (es @ [e]) = (case status_fold a es of Inl x \<Rightarrow> Inl x | Inr b \<Rightarrow> status_step b e)"
  by (induction es arbitrary: a) (auto split: sum.splits)

section \<open>Properties\<close>

text \<open>No result of B indexes anything by itself: submitting a policy result, or dispatching a
  request to any analyzer, adds no version to the index, also when the result is ALLOW + INDEX.\<close>

lemma b_result_never_indexes:
  "versions (w_index (snd (submit_policy_result (sqlite_indexer E) E aid submission s))) \<subseteq> versions (w_index s) \<and>
   versions (w_index (snd (dispatch (sqlite_indexer E) E aid analyzer s))) \<subseteq> versions (w_index s)"
proof -
  have "steps (quiet ix_inv versions E) (submit_policy_result (sqlite_indexer E) E aid submission)"
    "steps (quiet ix_inv versions E) (dispatch (sqlite_indexer E) E aid analyzer)"
    by (rule sqlite.submit_quiet, rule sqlite.dispatch_quiet)
  then show ?thesis by (simp add: steps_def quiet_def shrinks_def)
qed

text \<open>A command of C adds at most the candidate it names, and only as an APPROVE carrying the
  candidate's hash when the latest applied result of B is a completed ALLOW + INDEX bound to that
  hash.\<close>

lemma command_indexes_only_approved:
  "versions (w_index (snd (execute_command (sqlite_indexer E) E aid cmd s)))
     \<subseteq> versions (w_index s) \<union> {k. approves E s aid cmd k}"
  using sqlite.execute_post[of E E aid cmd s] unfolding wp_def by blast

text \<open>A command whose expected hash is not the candidate's is refused and nothing is
  written; an analysis that is superseded accepts neither a result of B nor a new command.\<close>

lemma stale_or_superseded_refused:
  "\<lbrakk>get_prepared_analysis (w_audit s) aid = Inr p; completed_command_in (oc_idempotency_key cmd) es = None;
    list_events (w_audit s) aid = Inr es\<rbrakk> \<Longrightarrow>
   (if oc_expected_candidate_sha256 cmd \<noteq> ds_sha256 (pa_candidate p)
    then execute_command X E aid cmd s = (Inl WorkflowConflictError, s)
    else case fst (get_status E aid s) of
      Inl e \<Rightarrow> True
    | Inr v \<Rightarrow> av_state v \<noteq> SUPERSEDED \<or>
        (execute_command X E aid cmd s = (Inl WorkflowConflictError, s) \<and>
         submit_policy_result X E aid sub s = (Inl WorkflowConflictError, s)))"
proof -
  assume h: "get_prepared_analysis (w_audit s) aid = Inr p" "completed_command_in (oc_idempotency_key cmd) es = None"
    "list_events (w_audit s) aid = Inr es"
  obtain r where st: "get_status E aid s = (r, s)"
    using get_status_pure[of E aid] unfolding pureE_def by (metis prod.collapse)
  have cmds: "av_allowed_commands v = allowed_commands (av_state v) (av_latest_policy v)" if "r = Inr v" for v
    using st that unfolding get_status_def by (auto simp: bindE_Inr_iff auditR_def Let_def)
  show ?thesis
    using h st cmds
    by (auto simp: execute_command_def submit_policy_result_def auditR_def bindE_def raiseE_def
        completed_command_def eventsR_def retE_def allowed_commands_def split: sum.splits)
qed

lemma stale_or_superseded_refused_witness:
  "execute_command (sqlite_indexer sample_env) sample_env (u ''anl_1'')
     ((sample_command APPROVE)\<lparr>oc_expected_candidate_sha256 := u ''other''\<rparr>) sample_world = (Inl WorkflowConflictError, sample_world)"
proof -
  let ?cmd = "(sample_command APPROVE)\<lparr>oc_expected_candidate_sha256 := u ''other''\<rparr>"
  obtain es where es: "list_events sample_store (u ''anl_1'') = Inr es" using sample_store_events by blast
  then have "list_events_locked sample_store (u ''anl_1'') = Inr es" by (simp add: list_events_def split: if_splits)
  from sample_events_prepared[OF this] have "completed_command_in (oc_idempotency_key ?cmd) es = None"
    by (auto simp: completed_command_in_def is_event_def find_None_iff)
  moreover have "ds_sha256 (pa_candidate sample_prepared) = u ''c0''" by (simp add: sample_prepared_def sample_snapshot_def)
  ultimately show ?thesis
    using stale_or_superseded_refused [OF sample_world_prepared, where cmd = ?cmd and E = sample_env
        and X = "sqlite_indexer sample_env" and sub = sample_submission and es = es] es
    by (simp add: sample_command_def sample_world_def)
qed



text \<open>\<^verbatim>\<open>ensure_request\<close> creates one request per analysis: once it has returned a request,
  calling it again returns the same request and changes nothing.\<close>

lemma request_created_once:
  "\<lbrakk>au_inv E (w_audit s); get_prepared_analysis (w_audit s) aid = Inr p; wf_prepared_analysis p\<rbrakk> \<Longrightarrow>
   (case ensure_request E aid s of
      (Inl e, t) \<Rightarrow> True
    | (Inr request, t) \<Rightarrow> ensure_request E aid t = (Inr request, t))"
proof -
  assume h: "au_inv E (w_audit s)" "get_prepared_analysis (w_audit s) aid = Inr p" "wf_prepared_analysis p"
  show ?thesis
  proof (cases "ensure_request E aid s")
    case (Pair x t)
    show ?thesis
    proof (cases x)
      case (Inr r)
      have "ensure_request E aid t = (Inr r, t)"
        using ensure_request_again[OF h] Pair Inr by blast
      with Pair Inr show ?thesis by simp
    qed (simp add: Pair)
  qed
qed

lemma request_created_once_witness:
  "case ensure_request sample_env (u ''anl_1'') sample_world of
      (Inl e, t) \<Rightarrow> True
    | (Inr request, t) \<Rightarrow> ensure_request sample_env (u ''anl_1'') t = (Inr request, t)"
  by (rule request_created_once [OF _ sample_world_prepared wf_sample_prepared])
     (simp add: sample_world_def sample_store_inv)

text \<open>The commands a status offers: APPROVE exactly when B's latest applied decision is ALLOW and
  the analysis awaits approval or is on hold; nothing when it is superseded; only REANALYZE when it
  is quarantined; a gate outcome that quarantines always withdraws APPROVE.\<close>

lemma approve_offered_iff:
  "(APPROVE \<in> set (allowed_commands state policy) \<longleftrightarrow>
      (\<exists>p. policy = Some p \<and> po_decision p = ALLOW) \<and> state \<in> {AWAITING_APPROVAL, WF_HOLD}) \<and>
   allowed_commands SUPERSEDED policy = [] \<and> allowed_commands QUARANTINED policy = [REANALYZE] \<and>
   (io_action outcome = QUARANTINE \<longleftrightarrow> state_for_outcome outcome policy = QUARANTINED)"
proof (intro conjI)
  show "APPROVE \<in> set (allowed_commands state policy) \<longleftrightarrow>
      (\<exists>p. policy = Some p \<and> po_decision p = ALLOW) \<and> state \<in> {AWAITING_APPROVAL, WF_HOLD}"
    by (cases policy; cases state; simp add: allowed_commands_def)
  show "(io_action outcome = QUARANTINE) = (state_for_outcome outcome policy = QUARANTINED)"
    unfolding state_for_outcome.simps by (cases "io_action outcome"; simp)
qed (unfold allowed_commands_def, simp_all)

text \<open>The status projection lets the last event win, so a failed dispatch revives a superseded
  analysis: whatever state the log projects to, appending a dispatch failure makes it
  ANALYSIS_FAILED, from which commands are offered again.\<close>

lemma failed_dispatch_revives:
  "is_event ''ANALYSIS_DISPATCH_FAILED'' e \<Longrightarrow>
   (case status_fold status_start es of
      Inl x \<Rightarrow> True
    | Inr acc \<Rightarrow> status_fold status_start (es @ [e]) = Inr (acc\<lparr>sa_state := ANALYSIS_FAILED\<rparr>) \<and>
        allowed_commands ANALYSIS_FAILED (sa_policy acc) = [OP_HOLD, REANALYZE])"
  by (cases "status_fold status_start es")
     (simp_all add: status_fold_snoc status_step_def is_event_def allowed_commands_def)

definition sample_event :: "string \<Rightarrow> json \<Rightarrow> audit_event" where
  "sample_event t j = \<lparr>ae_sequence = 1, ae_analysis_id = u ''anl_1'', ae_event_type = u t, ae_payload = j,
     ae_created_at = u ''T'', ae_previous_hash = genesis_hash, ae_event_hash = genesis_hash\<rparr>"

lemma failed_dispatch_revives_witness:
  "status_fold status_start [sample_event ''ANALYSIS_SUPERSEDED'' JNull]
     = Inr (status_start\<lparr>sa_state := SUPERSEDED\<rparr>) \<and>
   status_fold status_start ([sample_event ''ANALYSIS_SUPERSEDED'' JNull] @ [sample_event ''ANALYSIS_DISPATCH_FAILED'' JNull])
     = Inr (status_start\<lparr>sa_state := ANALYSIS_FAILED\<rparr>)"
proof -
  have s: "status_fold status_start [sample_event ''ANALYSIS_SUPERSEDED'' JNull] = Inr (status_start\<lparr>sa_state := SUPERSEDED\<rparr>)"
    by (simp add: status_step_def is_event_def sample_event_def)
  have "is_event ''ANALYSIS_DISPATCH_FAILED'' (sample_event ''ANALYSIS_DISPATCH_FAILED'' JNull)"
    by (simp add: is_event_def sample_event_def)
  from failed_dispatch_revives [OF this, of "[sample_event ''ANALYSIS_SUPERSEDED'' JNull]"] s
  show ?thesis by simp
qed

end
