(* ===== verification/Pipeline.thy ===== *)
theory Pipeline
  imports Operations
begin

text \<open>
  The two-phase orchestration of \<^verbatim>\<open>src/indexguard/pipeline.py\<close> and the content-addressed
  blob store of \<^verbatim>\<open>src/indexguard/storage.py\<close> it stages uploads in.  Format detection,
  extraction and diffing enter as a record of functions.  The section on
  reachable worlds puts the whole gateway together: a request is any call of the pipeline or of
  the operations, a world is reachable by a trace of requests, and the invariant of every
  reachable world is the README's promise that only what B allowed and C approved is searchable.
\<close>

section \<open>The blob store\<close>

record staged_file =
  sf_filename :: str
  sf_path :: str
  sf_sha256 :: str
  sf_size :: nat

record blob_store =
  bs_root :: str
  bs_max_upload_bytes :: nat

definition stream_chunk_size :: nat where
  "stream_chunk_size = 1048576"

lemma stream_chunk_size_pos [simp]: "0 < stream_chunk_size" "stream_chunk_size \<noteq> 0"
  by (simp_all add: stream_chunk_size_def)

text \<open>\<^verbatim>\<open>Path(filename).name\<close> on POSIX: the last component that is neither empty nor a dot.\<close>

definition path_name :: "str \<Rightarrow> str" where
  "path_name s =
     (case rev (filter (\<lambda>c. c \<noteq> [] \<and> c \<noteq> [46]) (split_on 47 s)) of [] \<Rightarrow> [] | c # cs \<Rightarrow> c)"

text \<open>The read loop: \<open>written\<close> is what the digest and the temporary file have received.\<close>

function stage_loop :: "nat \<Rightarrow> nat list \<Rightarrow> nat list \<Rightarrow> nat list res" where
  "stage_loop max_bytes stream written =
     (let chunk = take stream_chunk_size stream in
      if chunk = [] then Inr written
      else if length written + length chunk > max_bytes then Inl FileTooLargeError
      else stage_loop max_bytes (drop stream_chunk_size stream) (written @ chunk))"
  by auto
termination
  by (relation "measure (\<lambda>(m, s, w). length s)") auto

declare stage_loop.simps [simp del]

definition blob_path :: "blob_store \<Rightarrow> str \<Rightarrow> str" where
  "blob_path B sha = bs_root B @ u ''/'' @ take 2 sha @ u ''/'' @ sha"

definition stage_stream :: "blob_store \<Rightarrow> env \<Rightarrow> nat list \<Rightarrow> str \<Rightarrow> ('i world, staged_file) op" where
  "stage_stream B E stream filename s =
     (let safe_name = path_name filename in
      if safe_name = [] \<or> 0 \<in> set safe_name then (Inl ValueError, s)
      else (case stage_loop (bs_max_upload_bytes B) stream [] of
              Inl e \<Rightarrow> (Inl e, s)
            | Inr bytes \<Rightarrow>
                let sha = en_sha_bytes E bytes;
                    final_path = blob_path B sha;
                    s1 = (if w_files s final_path \<noteq> None then s
                          else s\<lparr>w_files := (w_files s)(final_path \<mapsto> bytes)\<rparr>)
                in (Inr \<lparr>sf_filename = safe_name, sf_path = final_path, sf_sha256 = sha,
                         sf_size = length bytes\<rparr>, s1)))"

definition blob_verify :: "env \<Rightarrow> staged_file \<Rightarrow> ('i world, unit) op" where
  "blob_verify E f s =
     (case w_files s (sf_path f) of
        None \<Rightarrow> (Inl FileNotFoundError, s)
      | Some bytes \<Rightarrow>
          if en_sha_bytes E bytes \<noteq> sf_sha256 f \<or> length bytes \<noteq> sf_size f
          then (Inl IntegrityError, s) else (Inr (), s))"

lemma stage_loop_step:
  assumes "stream = c @ d" "c = take stream_chunk_size stream" "d = drop stream_chunk_size stream" "c \<noteq> []"
  shows "stage_loop m stream written =
    (if length written + length c > m then Inl FileTooLargeError else stage_loop m d (written @ c))"
  by (subst stage_loop.simps) (simp only: Let_def assms(2-4)[symmetric] if_False assms(4))

lemma stage_loop_result:
  "stage_loop m stream written =
     (if stream = [] \<or> length written + length stream \<le> m then Inr (written @ stream) else Inl FileTooLargeError)"
proof (induction m stream written rule: stage_loop.induct)
  case (1 m stream written)
  define c where "c = take stream_chunk_size stream"
  define d where "d = drop stream_chunk_size stream"
  have cd: "stream = c @ d" by (simp add: c_def d_def)
  show ?case
  proof (cases "stream = []")
    case True
    then show ?thesis by (simp add: stage_loop.simps)
  next
    case False
    then have ne: "c \<noteq> []" by (simp add: c_def)
    note step = stage_loop_step[OF cd c_def d_def ne]
    show ?thesis
    proof (cases "length written + length c > m")
      case True
      have "\<not> (stream = [] \<or> length written + length stream \<le> m)" using True cd ne by auto
      with True step show ?thesis by simp
    next
      case fits: False
      have "stage_loop m d (written @ c) = (if d = [] \<or> length (written @ c) + length d \<le> m
          then Inr ((written @ c) @ d) else Inl FileTooLargeError)"
        unfolding d_def c_def by (rule 1[OF refl]) (use fits ne in \<open>auto simp: c_def\<close>)
      moreover have "stage_loop m stream written = stage_loop m d (written @ c)" using step fits by simp
      moreover have "(d = [] \<or> length (written @ c) + length d \<le> m) = (stream = [] \<or> length written + length stream \<le> m)"
        using fits cd ne by auto
      moreover have "(written @ c) @ d = written @ stream" using cd by simp
      ultimately show ?thesis by simp
    qed
  qed
qed

section \<open>Preparing an analysis\<close>

record extraction =
  ex_detect :: "staged_file \<Rightarrow> nat list \<Rightarrow> document_format res"
  ex_extract :: "staged_file \<Rightarrow> nat list \<Rightarrow> str \<Rightarrow> document_snapshot res"
  ex_diff :: "document_snapshot \<Rightarrow> document_snapshot \<Rightarrow> diff_report"

definition indexR :: "('i \<Rightarrow> 'a res) \<Rightarrow> ('i world, 'a) op" where
  "indexR f s = (f (w_index s), s)"

definition read_file :: "str \<Rightarrow> ('i world, nat list) op" where
  "read_file path s = (case w_files s path of None \<Rightarrow> (Inl FileNotFoundError, s) | Some b \<Rightarrow> (Inr b, s))"

definition prepare_streams ::
  "blob_store \<Rightarrow> extraction \<Rightarrow> env \<Rightarrow> str \<Rightarrow> nat list \<Rightarrow> str \<Rightarrow> nat list \<Rightarrow> str \<Rightarrow> str \<Rightarrow> int option \<Rightarrow>
   (index_store world, prepared_analysis) op" where
  "prepare_streams B XF E document_id baseline_stream baseline_filename candidate_stream
       candidate_filename changed_by source_mtime_ns =
     bindE (stage_stream B E baseline_stream baseline_filename) (\<lambda>baseline_staged.
     bindE (stage_stream B E candidate_stream candidate_filename) (\<lambda>candidate_staged.
     bindE (indexR (\<lambda>i. get_current_version i document_id)) (\<lambda>current_version.
     if (case current_version of None \<Rightarrow> False | Some v \<Rightarrow> iv_sha256 v \<noteq> sf_sha256 baseline_staged)
     then raiseE IntegrityError
     else
     bindE (read_file (sf_path baseline_staged)) (\<lambda>baseline_bytes.
     bindE (liftE (ex_detect XF baseline_staged baseline_bytes)) (\<lambda>baseline_format.
     bindE (read_file (sf_path candidate_staged)) (\<lambda>candidate_bytes.
     bindE (liftE (ex_detect XF candidate_staged candidate_bytes)) (\<lambda>candidate_format.
     if baseline_format \<noteq> candidate_format then raiseE FormatMismatchError
     else
     bindE (liftE (ex_extract XF baseline_staged baseline_bytes document_id)) (\<lambda>baseline.
     bindE (liftE (ex_extract XF candidate_staged candidate_bytes document_id)) (\<lambda>candidate.
     bindE (next_uuid E) (\<lambda>hex.
     bindE (auditR (\<lambda>a. next_document_version a document_id)) (\<lambda>version.
     bindE (utc_now E) (\<lambda>now.
     let prepared =
       \<lparr>pa_analysis_id = u ''anl_'' @ hex, pa_document_id = document_id, pa_baseline = baseline,
        pa_candidate = candidate, pa_diff = ex_diff XF baseline candidate,
        pa_expected_current_sha256 = map_option iv_sha256 current_version,
        pa_code_revision = en_code_revision E, pa_version = version, pa_changed_by = changed_by,
        pa_source_mtime_ns = source_mtime_ns, pa_prepared_at = Some now,
        pa_analysis_attempt = 1, pa_supersedes_analysis_id = None\<rparr> in
     if \<not> check_prepared_analysis prepared then raiseE ValidationError
     else
     bindE (\<lambda>s. auditE (record_prepared_analysis E (w_files s) prepared (sf_path candidate_staged)) s) (\<lambda>_.
     bindE (ensure_request E (pa_analysis_id prepared)) (\<lambda>_.
     retE prepared))))))))))))))"

text \<open>\<open>os\<close> gives the bytes and the modification time of a source path.\<close>

definition prepare_paths ::
  "blob_store \<Rightarrow> extraction \<Rightarrow> env \<Rightarrow> (str \<Rightarrow> (nat list \<times> int) option) \<Rightarrow> str \<Rightarrow> str \<Rightarrow> str \<Rightarrow> str \<Rightarrow>
   (index_store world, prepared_analysis) op" where
  "prepare_paths B XF E os document_id baseline_path candidate_path changed_by =
     (case os candidate_path of
        None \<Rightarrow> raiseE FileNotFoundError
      | Some (candidate_bytes, source_mtime_ns) \<Rightarrow>
          (case os baseline_path of
             None \<Rightarrow> raiseE FileNotFoundError
           | Some (baseline_bytes, _) \<Rightarrow>
               prepare_streams B XF E document_id baseline_bytes (path_name baseline_path)
                 candidate_bytes (path_name candidate_path) changed_by (Some source_mtime_ns)))"

definition get_prepared :: "str \<Rightarrow> ('i world, prepared_analysis) op" where
  "get_prepared aid = auditR (\<lambda>a. get_prepared_analysis a aid)"

section \<open>Searching through the pipeline\<close>

definition pipeline_search ::
  "env \<Rightarrow> str \<Rightarrow> int \<Rightarrow> str option \<Rightarrow> (index_store world, search_hit list) op" where
  "pipeline_search E query limit document_id = indexR (\<lambda>i. search E i query limit document_id None)"

definition to_index_hit :: "search_hit \<Rightarrow> index_search_hit" where
  "to_index_hit h = \<lparr>ih_document_id = sh_document_id h, ih_sha256 = sh_sha256 h,
     ih_chunk_index = sh_chunk_index h, ih_text = sh_text h, ih_score = sh_score h\<rparr>"

definition search_snapshot ::
  "env \<Rightarrow> str \<Rightarrow> int \<Rightarrow> str option \<Rightarrow> (index_store world, index_search_response) op" where
  "search_snapshot E query limit document_id =
     bindE (indexR (\<lambda>i. search_current_snapshot E i query limit document_id)) (\<lambda>(current_sha256, hits).
     let results = map to_index_hit hits;
         response = \<lparr>sr_query = query, sr_document_id = document_id,
                     sr_current_sha256 = current_sha256, sr_results = results\<rparr>
     in if \<not> list_all check_index_search_hit results then raiseE ValidationError
        else if \<not> check_index_search_response response then raiseE ValidationError
        else retE response)"

definition current_index :: "str \<Rightarrow> (index_store world, current_index_view) op" where
  "current_index document_id =
     bindE (indexR (\<lambda>i. get_current_version i document_id)) (\<lambda>current.
     let view = \<lparr>cv_document_id = document_id, cv_sha256 = map_option iv_sha256 current\<rparr> in
     if \<not> check_current_index_view view then raiseE ValidationError else retE view)"

section \<open>Preparing adds nothing to the index\<close>

lemma stage_quiet: "steps (quiet ok stored E) (stage_stream B E' stream filename)"
  by (rule stepsI)
     (auto simp: stage_stream_def Let_def quiet_def evolves_def shrinks_def map_le_def
       split: if_splits sum.splits)

lemma read_file_pure [pure_rules]: "pureE (read_file path)"
  by (simp add: pureE_def read_file_def split: option.splits)

lemma indexR_pure [pure_rules]: "pureE (indexR f)"
  by (simp add: pureE_def indexR_def)

lemma prepare_quiet:
  "steps (quiet ok stored E) (prepare_streams B XF E d bs bn cs cn by' mt)"
  unfolding prepare_streams_def
  by (intro quiet_rules stage_quiet record_prepared_quiet utc_now_quiet next_uuid_quiet
      ensure_request_quiet pure_quiet pure_rules)

lemma prepare_paths_quiet: "steps (quiet ok stored E) (prepare_paths B XF E os d b c by')"
  unfolding prepare_paths_def by (intro quiet_rules prepare_quiet)

section \<open>Reachable worlds\<close>

text \<open>Every call through which the gateway's state changes, as one type of request.\<close>

datatype gateway_request =
    Prepare str "nat list" str "nat list" str str "int option"
  | EnsureRequest str
  | GetRequest str "str option"
  | SubmitPolicy str policy_submission
  | Dispatch str risk_analyzer
  | Execute str operator_command

definition discard :: "('s, 'a) op \<Rightarrow> 's \<Rightarrow> 's" where
  "discard m s = snd (m s)"

fun serve :: "blob_store \<Rightarrow> extraction \<Rightarrow> env \<Rightarrow> gateway_request \<Rightarrow> index_store world \<Rightarrow> index_store world" where
  "serve B XF E (Prepare d bs bn cs cn by' mt) = discard (prepare_streams B XF E d bs bn cs cn by' mt)"
| "serve B XF E (EnsureRequest aid) = discard (ensure_request E aid)"
| "serve B XF E (GetRequest aid rid) = discard (get_request E aid rid)"
| "serve B XF E (SubmitPolicy aid sub) = discard (submit_policy_result (sqlite_indexer E) E aid sub)"
| "serve B XF E (Dispatch aid an) = discard (dispatch (sqlite_indexer E) E aid an)"
| "serve B XF E (Execute aid cmd) = discard (execute_command (sqlite_indexer E) E aid cmd)"

definition world_init :: "index_store \<Rightarrow> err option list \<Rightarrow> bool list \<Rightarrow> index_store world" where
  "world_init ix audit_faults unreadable =
     \<lparr>w_audit = audit_init audit_faults, w_index = ix, w_files = Map.empty, w_unreadable = unreadable,
      w_clock = 0, w_uuid = 0\<rparr>"

text \<open>
  \<open>reachable B XF E tr w\<close>: serving the requests of \<open>tr\<close>, latest first, from a new runtime
  directory leads to \<open>w\<close>.  The faults that strike the databases and the blob reads are those of the
  initial world, so the statement covers every schedule of failures.
\<close>

inductive reachable :: "blob_store \<Rightarrow> extraction \<Rightarrow> env \<Rightarrow> gateway_request list \<Rightarrow> index_store world \<Rightarrow> bool"
  for B :: blob_store and XF :: extraction and E :: env where
  start: "sqlite_indexer_init size' overlap faults = Inr ix \<Longrightarrow>
    reachable B XF E [] (world_init ix audit_faults unreadable)"
| serve: "reachable B XF E tr w \<Longrightarrow> reachable B XF E (rq # tr) (serve B XF E rq w)"

text \<open>The audit log shows that B's applied result allows exactly this candidate.\<close>

definition justified :: "env \<Rightarrow> audit_store \<Rightarrow> str \<Rightarrow> str \<times> str \<Rightarrow> bool" where
  "justified E a aid k \<longleftrightarrow>
     (\<exists>row p ev e sub.
        analysis_row_of a aid = Some row \<and> prepared_of_row row = Inr p \<and> k = candidate_key p \<and>
        hard_blocking_artifacts (en_udb E) (pa_candidate p) = [] \<and>
        ev \<in> set (au_events a) \<and> ev_analysis_id ev = aid \<and> event_from_row ev = Some e \<and>
        is_event ''POLICY_SUBMISSION_APPLIED'' e \<and> submission_of e = Inr sub \<and>
        po_analysis_status (sb_policy sub) = COMPLETED \<and> po_decision (sb_policy sub) = ALLOW \<and>
        po_index_action (sb_policy sub) = INDEX \<and> po_candidate_sha256 (sb_policy sub) = Some (snd k))"

lemma justified_grows: "au_grows a b \<Longrightarrow> justified E a aid k \<Longrightarrow> justified E b aid k"
  unfolding justified_def using analysis_row_grows[of a b aid] event_grows[of a b] by blast

lemma approves_justified: "approves E w aid cmd k \<Longrightarrow> justified E (w_audit w) aid k"
proof -
  assume "approves E w aid cmd k"
  then obtain p po es where h: "get_prepared_analysis (w_audit w) aid = Inr p" "k = candidate_key p"
    "list_events (w_audit w) aid = Inr es" "latest_applied_policy_in es = Inr (Some po)"
    "po_analysis_status po = COMPLETED" "po_decision po = ALLOW" "po_index_action po = INDEX"
    "po_candidate_sha256 po = Some (ds_sha256 (pa_candidate p))"
    "hard_blocking_artifacts (en_udb E) (pa_candidate p) = []"
    by (auto simp: approves_def)
  obtain row where row: "analysis_row_of (w_audit w) aid = Some row" "prepared_of_row row = Inr p"
    using h(1) by (rule get_prepared_row)
  obtain e sub where e: "find (is_event ''POLICY_SUBMISSION_APPLIED'') (rev es) = Some e"
    "submission_of e = Inr sub" "po = sb_policy sub"
    using h(4) by (auto simp: latest_applied_policy_in_def split: option.splits sum.splits)
  then have "e \<in> set es" "is_event ''POLICY_SUBMISSION_APPLIED'' e" by (auto dest: find_SomeD)
  moreover obtain ev where "ev \<in> set (au_events (w_audit w))" "event_from_row ev = Some e" "ev_analysis_id ev = aid"
    using event_read_row[OF list_eventsD[OF h(3)] \<open>e \<in> set es\<close>] by blast
  ultimately show ?thesis
    unfolding justified_def using row h e by (auto simp: candidate_key_def)
qed

definition approved_in :: "gateway_request list \<Rightarrow> str \<Rightarrow> str \<Rightarrow> bool" where
  "approved_in tr aid sha \<longleftrightarrow>
     (\<exists>cmd. Execute aid cmd \<in> set tr \<and> oc_action cmd = APPROVE \<and> oc_expected_candidate_sha256 cmd = sha)"

lemma serve_effect:
  "evolves E w (serve B XF E rq w) \<and> (ix_inv (w_index w) \<longrightarrow> ix_inv (w_index (serve B XF E rq w))) \<and>
   (\<forall>k\<in>versions (w_index (serve B XF E rq w)). k \<in> versions (w_index w) \<or>
      (\<exists>aid cmd. rq = Execute aid cmd \<and> approves E w aid cmd k))"
proof (cases "\<exists>aid cmd. rq = Execute aid cmd")
  case True
  then obtain aid cmd where rq: "rq = Execute aid cmd" by blast
  from sqlite.execute_post[of E E aid cmd w] show ?thesis
    unfolding rq serve.simps discard_def wp_def by blast
next
  case False
  have q: "\<And>m. steps (quiet ix_inv versions E) m \<Longrightarrow> quiet ix_inv versions E w (discard m w)"
    by (simp add: steps_def discard_def)
  have "quiet ix_inv versions E w (serve B XF E rq w)"
    using False
    by (cases rq) (auto intro!: q prepare_quiet ensure_request_quiet get_request_quiet
        sqlite.submit_quiet sqlite.dispatch_quiet)
  then show ?thesis by (auto simp: quiet_def shrinks_def)
qed

lemma sqlite_indexer_init_inv: "sqlite_indexer_init a b f = Inr ix \<Longrightarrow> ix_inv ix \<and> versions ix = {}"
  by (auto simp: sqlite_indexer_init_def ix_inv_def versions_def split: if_splits)

lemma reachable_invariant:
  "reachable B XF E tr w \<Longrightarrow>
   au_inv E (w_audit w) \<and> ix_inv (w_index w) \<and>
   (\<forall>k\<in>versions (w_index w). \<exists>aid. approved_in tr aid (snd k) \<and> justified E (w_audit w) aid k)"
proof (induction rule: reachable.induct)
  case (start size' overlap faults ix audit_faults unreadable)
  then show ?case using sqlite_indexer_init_inv by (simp add: world_init_def)
next
  case (serve tr w rq)
  note ef = serve_effect[of E w B XF rq]
  have g: "au_grows (w_audit w) (w_audit (serve B XF E rq w))" using ef by (simp add: evolves_def)
  have "\<exists>aid. approved_in (rq # tr) aid (snd k) \<and> justified E (w_audit (serve B XF E rq w)) aid k"
    if "k \<in> versions (w_index (serve B XF E rq w))" for k
  proof -
    have "k \<in> versions (w_index w) \<or> (\<exists>aid cmd. rq = Execute aid cmd \<and> approves E w aid cmd k)"
      using ef that by simp
    then show ?thesis
    proof
      assume "k \<in> versions (w_index w)"
      then obtain aid where "approved_in tr aid (snd k)" "justified E (w_audit w) aid k" using serve.IH by blast
      then have "approved_in (rq # tr) aid (snd k)" "justified E (w_audit (serve B XF E rq w)) aid k"
        using justified_grows[OF g] by (auto simp: approved_in_def)
      then show ?thesis by blast
    next
      assume "\<exists>aid cmd. rq = Execute aid cmd \<and> approves E w aid cmd k"
      then obtain aid cmd where c: "rq = Execute aid cmd" "approves E w aid cmd k" by blast
      then have "approved_in (rq # tr) aid (snd k)" by (auto simp: approved_in_def approves_def candidate_key_def)
      with justified_grows[OF g approves_justified[OF c(2)]] show ?thesis by blast
    qed
  qed
  with serve.IH ef show ?case by (simp add: evolves_def)
qed

section \<open>The fresh gateway\<close>

definition fresh_index :: "nat \<Rightarrow> nat \<Rightarrow> err option list \<Rightarrow> index_store" where
  "fresh_index csize overlap faults =
     \<lparr>ix_chunk_size = Suc csize, ix_chunk_overlap = min overlap csize, ix_docs = [], ix_chunks = [],
      ix_clock = 0, ix_faults = faults\<rparr>"

lemma fresh_index_init:
  "sqlite_indexer_init (int (Suc csize)) (int (min overlap csize)) faults = Inr (fresh_index csize overlap faults)"
  by (auto simp: sqlite_indexer_init_def fresh_index_def)

text \<open>Serving a list of requests, latest first, from a new runtime directory.\<close>

definition gateway_run ::
  "blob_store \<Rightarrow> extraction \<Rightarrow> env \<Rightarrow> gateway_request list \<Rightarrow> index_store world \<Rightarrow> index_store world" where
  "gateway_run B XF E trace w = foldr (serve B XF E) trace w"

lemma gateway_run_reachable:
  "reachable B XF E trace (gateway_run B XF E trace (world_init (fresh_index csize overlap faults) audit_faults unreadable))"
  unfolding gateway_run_def
  by (induction trace) (auto intro: reachable.intros fresh_index_init)

section \<open>Search responses\<close>

lemma score_rows_mem:
  "h \<in> set (score_rows E rows q limit) \<Longrightarrow>
   \<exists>c\<in>set rows. sh_document_id h = ic_document_id c \<and> sh_sha256 h = ic_sha256 c \<and>
     sh_chunk_index h = ic_chunk_index c \<and> sh_text h = ic_text c \<and> 0 < sh_score h"
proof -
  assume "h \<in> set (score_rows E rows q limit)"
  from in_set_takeD[OF this[unfolded score_rows_def]] obtain c where "c \<in> set rows" "0 < score_text E q (ic_text c)"
    "h = \<lparr>sh_document_id = ic_document_id c, sh_sha256 = ic_sha256 c, sh_chunk_index = ic_chunk_index c,
          sh_text = ic_text c, sh_score = score_text E q (ic_text c)\<rparr>" by auto
  then show ?thesis by (intro bexI[of _ c]) simp_all
qed

lemma score_rows_distinct:
  assumes "distinct (map (\<lambda>c. (chunk_key c, ic_chunk_index c)) rows)"
  shows "distinct (map (\<lambda>h. (sh_document_id h, sh_sha256 h, sh_chunk_index h)) (score_rows E rows q limit))"
proof -
  let ?mk = "\<lambda>c. \<lparr>sh_document_id = ic_document_id c, sh_sha256 = ic_sha256 c,
                      sh_chunk_index = ic_chunk_index c, sh_text = ic_text c,
                      sh_score = score_text E q (ic_text c)\<rparr>"
  let ?f = "\<lambda>h. (sh_document_id h, sh_sha256 h, sh_chunk_index h)"
  let ?rows = "filter (\<lambda>c. 0 < score_text E q (ic_text c)) rows"
  have "distinct (map (\<lambda>c. (chunk_key c, ic_chunk_index c)) ?rows)"
    using assms by (simp add: distinct_map_filter)
  then have "distinct ?rows \<and> inj_on (\<lambda>c. (chunk_key c, ic_chunk_index c)) (set ?rows)" by (simp only: distinct_map)
  then have "distinct (map (\<lambda>c. ?f (?mk c)) ?rows)"
    unfolding distinct_map by (auto simp: inj_on_def chunk_key_def)
  then have "distinct (map ?f (map ?mk ?rows))" by (simp only: map_map o_def)
  then have "distinct (map ?f (sort_key k (map ?mk ?rows)))" for k :: "search_hit \<Rightarrow> int \<times> str \<times> nat"
    by (simp only: distinct_map distinct_sort set_sort)
  then show ?thesis unfolding score_rows_def take_map[symmetric] by (rule distinct_take)
qed

lemma search_generation:
  assumes inv: "ix_inv i" and run: "search_current_snapshot E i query limit document_id = Inr (cur, hits)"
  shows "validate_index_generation \<lparr>sr_query = query, sr_document_id = document_id,
     sr_current_sha256 = cur, sr_results = map to_index_hit hits\<rparr>"
proof -
  let ?P = "\<lambda>c r. id_is_current r \<and> (case document_id of None \<Rightarrow> True | Some d \<Rightarrow> ic_document_id c = d)"
  have ck: "distinct (map (\<lambda>c. (chunk_key c, ic_chunk_index c)) (ix_chunks i))"
    using inv by (simp add: ix_inv_def)
  have "distinct (map (\<lambda>c. (chunk_key c, ic_chunk_index c)) (joined ?P i))"
    unfolding joined_def using ck by (simp add: distinct_map_filter)
  then have d: "distinct (map (\<lambda>h. (sh_document_id h, sh_sha256 h, sh_chunk_index h)) hits)"
    using run score_rows_distinct by (auto simp: search_current_snapshot_def Let_def split: if_splits)
  have remd: "length (remdups (map (\<lambda>h. (ih_document_id h, ih_sha256 h, ih_chunk_index h)) (map to_index_hit hits)))
     = length (map to_index_hit hits)"
    using d by (simp add: o_def to_index_hit_def distinct_remdups_id)
  have hit: "(sh_document_id h = d \<and> cur = Some (sh_sha256 h))" if h: "h \<in> set hits" "document_id = Some d" for h d
  proof -
    obtain c where c: "c \<in> set (joined ?P i)" "sh_document_id h = ic_document_id c" "sh_sha256 h = ic_sha256 c"
      using run h score_rows_mem by (fastforce simp: search_current_snapshot_def Let_def split: if_splits)
    then obtain r where r: "chunk_row i c = Some r" "id_is_current r" "ic_document_id c = d"
      using h(2) by (auto simp: joined_def split: option.splits)
    have rr: "r \<in> set (ix_docs i)" "doc_key r = chunk_key c" using r(1) by (auto simp: chunk_row_def dest: find_SomeD)
    have "current_sha i d = Some (id_sha256 r)"
      using inv rr r by (intro current_sha_eq) (auto simp: ix_inv_def doc_key_def chunk_key_def)
    moreover have "cur = current_sha i d"
      using run h by (auto simp: search_current_snapshot_def Let_def split: if_splits)
    ultimately show ?thesis using c r rr by (simp add: doc_key_def chunk_key_def)
  qed
  have nodoc: "cur = None" if "document_id = None"
    using run that by (auto simp: search_current_snapshot_def Let_def split: if_splits)
  show ?thesis
  proof (cases document_id)
    case None
    then show ?thesis unfolding validate_index_generation_def index_search_response.simps
      using remd nodoc by simp
  next
    case (Some d)
    have "\<forall>h\<in>set hits. sh_document_id h = d \<and> cur = Some (sh_sha256 h)" using hit Some by simp
    moreover have "cur = None \<Longrightarrow> hits = []" using hit[of "hd hits" d] Some by (cases hits) simp_all
    ultimately show ?thesis unfolding validate_index_generation_def index_search_response.simps
      using remd Some by (auto simp: list_ex_iff to_index_hit_def)
  qed
qed

section \<open>Properties\<close>


text \<open>In every reachable world the audit tables satisfy their invariant (unique analyses, no
  orphan event, every chain valid) and the index tables satisfy theirs (one current version per document at
  most, no orphan chunk, exact chunk counts).\<close>

lemma reachable_worlds_consistent:
  "au_inv E (w_audit (gateway_run B XF E trace (world_init (fresh_index csize overlap faults) audit_faults unreadable))) \<and>
   ix_inv (w_index (gateway_run B XF E trace (world_init (fresh_index csize overlap faults) audit_faults unreadable)))"
  using reachable_invariant[OF gateway_run_reachable] by blast

text \<open>Staging an upload stores it under its digest: it fails iff the name is empty or has a NUL or the
  stream exceeds the limit, and otherwise returns the name, size and digest of the whole stream,
  adds at most the one blob file and never overwrites a file.\<close>

lemma staging_is_content_addressed:
  "stage_stream B E stream filename s =
     (if path_name filename = [] \<or> 0 \<in> set (path_name filename) then (Inl ValueError, s)
      else if stream \<noteq> [] \<and> bs_max_upload_bytes B < length stream then (Inl FileTooLargeError, s)
      else (Inr \<lparr>sf_filename = path_name filename, sf_path = blob_path B (en_sha_bytes E stream),
                 sf_sha256 = en_sha_bytes E stream, sf_size = length stream\<rparr>,
            if w_files s (blob_path B (en_sha_bytes E stream)) = None
            then s\<lparr>w_files := (w_files s)(blob_path B (en_sha_bytes E stream) \<mapsto> stream)\<rparr> else s))"
  by (simp add: stage_stream_def stage_loop_result Let_def)

text \<open>A search response never mixes index generations: the model validator of
  \<^verbatim>\<open>IndexSearchResponse\<close> cannot reject what \<^verbatim>\<open>search_snapshot\<close> builds, so a scoped
  response holds only chunks of the one current version it names, each once.\<close>

lemma search_response_one_generation:
  "ix_inv i \<Longrightarrow>
   (case search_current_snapshot E i query limit document_id of
      Inl e \<Rightarrow> e = ValueError
    | Inr (cur, hits) \<Rightarrow>
        validate_index_generation \<lparr>sr_query = query, sr_document_id = document_id,
          sr_current_sha256 = cur, sr_results = map to_index_hit hits\<rparr>)"
proof -
  assume inv: "ix_inv i"
  have "e = ValueError" if "search_current_snapshot E i query limit document_id = Inl e" for e
    using that by (simp add: search_current_snapshot_def Let_def split: if_splits)
  with search_generation[OF inv] show ?thesis by (auto split: sum.splits)
qed

lemma search_response_one_generation_witness:
  "case search_current_snapshot sample_env two_versions (u ''y'') 5 (Some (u ''d'')) of
      Inl e \<Rightarrow> e = ValueError
    | Inr (cur, hits) \<Rightarrow>
        validate_index_generation \<lparr>sr_query = u ''y'', sr_document_id = Some (u ''d''),
          sr_current_sha256 = cur, sr_results = map to_index_hit hits\<rparr>"
  by (rule search_response_one_generation)
     (simp add: ix_inv_def two_versions_def empty_index_def doc_key_def chunk_key_def)

end
