(* ===== verification/Progress.thy ===== *)
theory Progress
  imports Pipeline
begin

text \<open>
  What happens when nothing fails: the databases and the blob are readable, no two texts with the
  same SHA-256 turn up.  Then an append succeeds, an admissible candidate is indexed and becomes the current
  version, and a hold takes it out.  These are the converses of the safety theorems of \<open>Gate\<close>: the
  gate is not correct by refusing everything.
\<close>

section \<open>Appending\<close>

definition healthy :: "env \<Rightarrow> index_store world \<Rightarrow> bool" where
  "healthy E s \<longleftrightarrow>
     au_inv E (w_audit s) \<and> au_faults (w_audit s) = [] \<and> ix_faults (w_index s) = [] \<and>
     ix_inv (w_index s) \<and> w_unreadable s = []"

lemma verify_rows_digest:
  "verify_rows E aid n p rs \<Longrightarrow> r \<in> set rs \<Longrightarrow>
   ev_event_hash r = event_hash E aid (ev_sequence r) (ev_event_type r) (ev_payload_json r) (ev_created_at r)
     (ev_previous_hash r) \<and> ev_sequence r < n + int (length rs)"
proof (induction rs arbitrary: n p)
  case (Cons a rs)
  from Cons.prems(1) have a: "ev_sequence a = n" "verify_rows E aid (n + 1) (ev_event_hash a) rs"
    "ev_event_hash a = event_hash E aid (ev_sequence a) (ev_event_type a) (ev_payload_json a) (ev_created_at a)
      (ev_previous_hash a)" by (simp_all split: if_splits)
  show ?case
  proof (cases "r = a")
    case True
    show ?thesis unfolding True by (intro conjI a(3)) (simp add: a(1))
  next
    case False
    with Cons.prems(2) Cons.IH[OF a(2)] show ?thesis by simp
  qed
qed simp

lemma fresh_digest:
  assumes v: "verify_rows E aid 1 genesis_hash rs" and no: "\<not> text_collision E"
  shows "event_hash E aid (1 + int (length rs)) et pj c ph \<notin> set (map ev_event_hash rs)"
proof
  assume "event_hash E aid (1 + int (length rs)) et pj c ph \<in> set (map ev_event_hash rs)"
  then obtain r where r: "r \<in> set rs" "event_hash E aid (1 + int (length rs)) et pj c ph = ev_event_hash r" by auto
  note d = verify_rows_digest[OF v r(1)]
  from event_hash_eq[OF trans[OF r(2) conjunct1[OF d]]] no have "1 + int (length rs) = ev_sequence r" by blast
  with d show False by simp
qed

lemma append_event_lives:
  assumes inv: "au_inv E st" and faults: "au_faults st = []" and ex: "analysis_exists st aid"
    and et: "strip et \<noteq> []" and no: "\<not> text_collision E"
  shows "\<exists>ev st'. append_event E aid et payload st = (Inr ev, st') \<and> au_inv E st' \<and> au_faults st' = [] \<and>
    au_analyses st' = au_analyses st"
proof -
  let ?t = "st\<lparr>au_faults := []\<rparr>"
  have same: "au_same st ?t" by (simp add: au_same_def)
  have v: "verify_rows E aid 1 genesis_hash (events_of ?t aid)"
    using inv by (simp add: au_same_views[OF same] au_inv_events_of) (simp add: au_inv_def)
  have len: "ev_sequence (last (events_of ?t aid)) = int (length (events_of ?t aid))" if "events_of ?t aid \<noteq> []"
    using verify_rows_sequences[OF v, of "length (events_of ?t aid) - 1"] that
    by (simp add: last_conv_nth of_nat_diff Suc_leI)
  have "\<exists>ev st'. append_event_in_transaction E aid et payload ?t = (Inr ev, st') \<and> au_faults st' = []"
    using et ex fresh_digest[OF v no] len
    by (auto simp: append_event_in_transaction_def Let_def au_same_views[OF same] add.commute)
  then obtain ev st' where run: "append_event E aid et payload st = (Inr ev, st')" "au_faults st' = []"
    using faults by (auto simp: append_event_def au_transaction_def)
  with append_event_effect[OF run(1)] inv show ?thesis by blast
qed

text \<open>The same for the gate's two records, lifted to the world.\<close>

lemma auditE_append_lives:
  assumes ok: "healthy E s" and ex: "analysis_exists (w_audit s) aid" and et: "strip et \<noteq> []"
    and no: "\<not> text_collision E"
  shows "\<exists>ev a. auditE (append_event E aid et j) s = (Inr ev, s\<lparr>w_audit := a\<rparr>) \<and>
    healthy E (s\<lparr>w_audit := a\<rparr>) \<and> au_analyses a = au_analyses (w_audit s)"
  using append_event_lives[of E "w_audit s" aid et j] assms
  by (auto simp: healthy_def auditE_def onE_def split: prod.splits)

lemma gate_event_names: "strip (u ''POLICY_RESULT_RECEIVED'') \<noteq> []" "strip (u ''INDEX_GATE_APPLIED'') \<noteq> []"
  by (simp_all add: strip_eq_Nil_iff u_def is_space_def)

lemma exists_analyses: "au_analyses a = au_analyses b \<Longrightarrow> analysis_exists a = analysis_exists b"
  by (simp add: analysis_exists_def analysis_row_of_def fun_eq_iff)

section \<open>Indexing\<close>

lemma index_atomic_lives:
  assumes "ix_faults st = []" "split_text (ix_chunk_size st) (ix_chunk_overlap st) (ds_text snap) \<noteq> []"
    and "current_sha st (ds_document_id snap) = e"
  shows "\<exists>rc st'. index_atomic E snap (Some e) st = (Inr rc, st') \<and> ix_faults st' = []"
  using assms by (simp add: index_atomic_def Let_def ix_transaction_def current_sha_def current_row_def)

lemma index_candidate_lives:
  assumes ok: "healthy E s" and ex: "analysis_exists (w_audit s) (pa_analysis_id p)" and no: "\<not> text_collision E"
    and d: "pa_document_id p = ds_document_id (pa_candidate p)"
    and cur: "current_sha (w_index s) (pa_document_id p) = pa_expected_current_sha256 p"
    and body: "split_text (ix_chunk_size (w_index s)) (ix_chunk_overlap (w_index s)) (ds_text (pa_candidate p)) \<noteq> []"
  shows "\<exists>out t. index_candidate (sqlite_indexer E) E p s = (Inr out, t) \<and> healthy E t \<and>
    io_action out = INDEX \<and> io_indexed out \<and>
    current_sha (w_index t) (pa_document_id p) = Some (ds_sha256 (pa_candidate p))"
proof -
  obtain rc i where run: "index_atomic E (pa_candidate p) (Some (pa_expected_current_sha256 p)) (w_index s) = (Inr rc, i)"
    and f: "ix_faults i = []"
    using index_atomic_lives[OF _ body] ok cur d by (fastforce simp: healthy_def)
  have post: "ix_inv i" "current_sha i (pa_document_id p) = Some (ds_sha256 (pa_candidate p))"
    "rc_document_id rc = pa_document_id p" "rc_sha256 rc = ds_sha256 (pa_candidate p)" "0 < rc_chunk_count rc"
    using sqlite.index_returns[of E "pa_candidate p" "Some (pa_expected_current_sha256 p)" "w_index s" rc i] run ok d
    by (auto simp: sqlite_indexer_def healthy_def)
  let ?s = "s\<lparr>w_index := i\<rparr>"
  let ?out = "\<lparr>io_analysis_id = pa_analysis_id p, io_document_id = pa_document_id p,
     io_candidate_sha256 = ds_sha256 (pa_candidate p), io_indexed = True,
     io_chunk_count = int (rc_chunk_count rc), io_action = INDEX, io_reason = u ''POLICY_ALLOW_INDEXED''\<rparr>"
  have idx: "indexE (io_index (sqlite_indexer E) (pa_candidate p) (Some (pa_expected_current_sha256 p))) s = (Inr rc, ?s)"
    using run by (simp add: indexE_def onE_def sqlite_indexer_def)
  have "healthy E ?s" using ok f post(1) by (simp add: healthy_def)
  then obtain ev a where rec: "auditE (record_index_outcome E (pa_analysis_id p) ?out) ?s = (Inr ev, ?s\<lparr>w_audit := a\<rparr>)"
      "healthy E (?s\<lparr>w_audit := a\<rparr>)"
    using auditE_append_lives[of E ?s "pa_analysis_id p" "u ''INDEX_GATE_APPLIED''" "dump_index_outcome ?out"] ex no
      gate_event_names unfolding record_index_outcome_def by auto
  have "index_candidate (sqlite_indexer E) E p s = (Inr ?out, ?s\<lparr>w_audit := a\<rparr>)"
    using post(3-5) rec(1) by (simp add: index_candidate_def tryE_def idx Let_def)
  with rec(2) post(2) show ?thesis by simp
qed

lemma split_text_nonempty:
  assumes "0 < csize" "normalized_body text \<noteq> []"
  shows "split_text csize overlap text \<noteq> []"
proof -
  let ?n = "normalized_body text"
  obtain cs where cs: "chunk_loop (Suc (length ?n)) csize overlap ?n 0 = Some cs"
    using chunk_loop_total[OF assms(1)] by (metis diff_zero lessI)
  have "\<not> is_space (?n ! 0)"
    using assms(2) hd_strip unfolding normalized_body_def by (metis hd_conv_nth)
  then have "cs \<noteq> []" using chunk_loop_covers[OF cs assms(1), of 0] assms(2) by fastforce
  with cs assms(2) show ?thesis by (simp add: split_text_def Let_def del: chunk_loop.simps)
qed

section \<open>The gate on an admissible request\<close>

lemma apply_lives:
  assumes ok: "healthy E s" and no: "\<not> text_collision E"
    and adm: "admissible E s p policy_in True"
    and dig: "ds_sha256 (pa_baseline p) = dr_baseline_sha256 (pa_diff p)"
      "ds_sha256 (pa_candidate p) = dr_candidate_sha256 (pa_diff p)"
    and cur: "current_sha (w_index s) (pa_document_id p) = pa_expected_current_sha256 p"
    and body: "split_text (ix_chunk_size (w_index s)) (ix_chunk_overlap (w_index s)) (ds_text (pa_candidate p)) \<noteq> []"
  shows "\<exists>out t. gate_apply (sqlite_indexer E) E p policy_in True s = (Inr out, t) \<and> healthy E t \<and>
    io_action out = INDEX \<and> io_indexed out \<and>
    current_sha (w_index t) (pa_document_id p) = Some (ds_sha256 (pa_candidate p))"
proof -
  obtain policy rec bytes where po: "validated_policy policy_in = Inr policy" "po_analysis_status policy = COMPLETED"
      "po_decision policy = ALLOW" "po_index_action policy = INDEX"
      "po_candidate_sha256 policy = Some (ds_sha256 (pa_candidate p))"
    and rec: "get_analysis (w_audit s) (pa_analysis_id p) = Inr rec" "ra_prepared rec = p" "\<not> already_quarantined rec"
      "verify_chain E (w_audit s) (pa_analysis_id p) = Inr True"
    and blob: "w_files s (ra_candidate_blob_path rec) = Some bytes" "en_sha_bytes E bytes = ds_sha256 (pa_candidate p)"
    using adm unfolding admissible_def by blast
  have ex: "analysis_exists (w_audit s) (pa_analysis_id p)"
    using rec(4) by (auto simp: verify_chain_def split: if_splits)
  obtain ev a where rp: "auditE (record_policy_result E (pa_analysis_id p) policy) s = (Inr ev, s\<lparr>w_audit := a\<rparr>)"
      "healthy E (s\<lparr>w_audit := a\<rparr>)" "au_analyses a = au_analyses (w_audit s)"
    using auditE_append_lives[OF ok ex gate_event_names(1) no] unfolding record_policy_result_def by blast
  let ?s = "s\<lparr>w_audit := a\<rparr>"
  have none: "binding_failure p p policy = None"
    using adm dig po by (simp add: binding_failure_def admissible_def)
  have vb: "verify_candidate_blob E (ra_candidate_blob_path rec) (ds_sha256 (pa_candidate p)) ?s = (Inr None, ?s)"
    using blob ok by (simp add: verify_candidate_blob_def Let_def healthy_def)
  have "gate_apply (sqlite_indexer E) E p policy_in True s = index_candidate (sqlite_indexer E) E p ?s"
    using po rec rp(1) none vb adm
    by (simp add: gate_apply_def apply_locked_def apply_recorded_def tryE_def bindE_def auditR_def Let_def admissible_def)
  moreover have "analysis_exists (w_audit ?s) (pa_analysis_id p)" using ex exists_analyses[OF rp(3)] by simp
  ultimately show ?thesis
    using index_candidate_lives[OF rp(2) _ no, of p] adm cur body by (simp add: admissible_def)
qed

section \<open>Properties\<close>


lemma sample_world_healthy: "healthy sample_env sample_world"
  using sample_store_inv sample_store_log empty_index_inv
  by (simp add: healthy_def sample_world_def) (simp add: empty_index_def)

lemma normalized_link: "normalize_artifact_type ascii_db (u ''link'') = u ''LINK''"
  by (simp add: normalize_artifact_type_def u_def strip_def lstrip_def rstrip_def is_space_def upper_def ascii_db_def
      replace_char_def)

lemma sample_admissible:
  "admissible sample_env sample_world sample_prepared (PolicyObject (sample_policy ALLOW INDEX (u ''c0''))) True"
proof -
  obtain rec where rec: "get_analysis sample_store (u ''anl_1'') = Inr rec" "ra_prepared rec = sample_prepared"
    using sample_prepared_stored by (auto simp: sample_prepared_def)
  from rec(1) obtain row where row: "analysis_row_of sample_store (u ''anl_1'') = Some row"
    "ra_candidate_blob_path rec = an_candidate_blob_path row"
    "list_events_locked sample_store (u ''anl_1'') = Inr (ra_events rec)" by (rule get_analysisD)
  have "an_candidate_blob_path row \<in> set (map an_candidate_blob_path (au_analyses sample_store))"
    using row(1) by (auto simp: analysis_row_of_def dest: find_SomeD)
  then have path: "ra_candidate_blob_path rec = u ''/blobs/c0''" using sample_store_log row(2) by simp
  have q: "\<not> already_quarantined rec"
    using sample_events_prepared[OF row(3)] by (auto simp: already_quarantined_def list_ex_iff)
  have v: "verify_chain sample_env sample_store (u ''anl_1'') = Inr True"
    by (rule au_inv_verify[OF sample_store_inv sample_store_exists])
  have p: "hard_blocking_artifacts ascii_db (pa_candidate sample_prepared) = []"
    "pa_document_id sample_prepared = ds_document_id (pa_candidate sample_prepared)"
    "pa_expected_current_sha256 sample_prepared = None" "pa_analysis_id sample_prepared = u ''anl_1''"
    "ds_sha256 (pa_candidate sample_prepared) = u ''c0''"
    by (simp_all add: sample_prepared_def sample_snapshot_def hard_blocking_artifacts_def hard_blocking_def Let_def
        normalized_link hard_block_artifact_types_def)
  show ?thesis
    unfolding admissible_def sample_world_def world.simps p(4,5)
    using rec path q v p(1-3)
    by (simp add: sample_policy_def sample_env_def sample_files_def p)
qed


end
