(* ===== verification/DashboardState.thy ===== *)
theory DashboardState
  imports Pipeline
begin

text \<open>
  The fail-closed authority checks of the dashboard, \<^verbatim>\<open>apps/dashboard/state.py\<close>: a status
  view and the prepared evidence shown beside it are compared field by field, and any issue
  disables every control.  The lemmas give the checks a declarative meaning, show what an enabled APPROVE button
  guarantees, and compare the checks with the status views the gateway itself produces.
\<close>

section \<open>Issues\<close>

record authority_issue =
  ai_code :: str
  ai_message :: str
  ai_critical :: bool

definition critical_issue :: "string \<Rightarrow> string \<Rightarrow> authority_issue" where
  "critical_issue code message = \<lparr>ai_code = u code, ai_message = u message, ai_critical = True\<rparr>"

definition flag :: "bool \<Rightarrow> authority_issue \<Rightarrow> authority_issue list" where
  "flag b i = (if b then [i] else [])"

lemma flag_simps [simp]: "flag True i = [i]" "flag False i = []" "flag b i = [] \<longleftrightarrow> \<not> b"
  by (simp_all add: flag_def)

lemma set_flag: "set (flag b i) = (if b then {i} else {})"
  by (simp add: flag_def)

definition analysis_identity_mismatch :: authority_issue where
  "analysis_identity_mismatch = critical_issue ''ANALYSIS_IDENTITY_MISMATCH''
     ''The queue status and prepared evidence identify different analyses. Operator actions are disabled.''"

definition snapshot_identity_mismatch :: authority_issue where
  "snapshot_identity_mismatch = critical_issue ''SNAPSHOT_IDENTITY_MISMATCH''
     ''The baseline or candidate snapshot belongs to a different document. Operator actions are disabled.''"

definition analysis_revision_mismatch :: authority_issue where
  "analysis_revision_mismatch = critical_issue ''ANALYSIS_REVISION_MISMATCH''
     ''Queue version or attempt does not match the prepared evidence. Refresh before taking action.''"

definition status_metadata_mismatch :: authority_issue where
  "status_metadata_mismatch = critical_issue ''STATUS_METADATA_MISMATCH''
     ''Queue provenance metadata does not match the prepared evidence. Operator actions are disabled.''"

definition baseline_sha_mismatch :: authority_issue where
  "baseline_sha_mismatch = critical_issue ''BASELINE_SHA_MISMATCH''
     ''The diff is bound to a different trusted baseline SHA. Treat this analysis as unresolved.''"

definition candidate_sha_mismatch :: authority_issue where
  "candidate_sha_mismatch = critical_issue ''CANDIDATE_SHA_MISMATCH''
     ''Candidate hashes disagree across gateway records. Treat this analysis as unresolved and keep it out of the index.''"

definition audit_chain_invalid :: authority_issue where
  "audit_chain_invalid = critical_issue ''AUDIT_CHAIN_INVALID''
     ''The gateway could not verify the audit chain. Operator actions are disabled.''"

definition policy_sha_mismatch :: authority_issue where
  "policy_sha_mismatch = critical_issue ''POLICY_SHA_MISMATCH''
     ''The latest policy result is not bound to this candidate SHA. Do not use it to authorize indexing.''"

definition command_policy_mismatch :: authority_issue where
  "command_policy_mismatch = critical_issue ''COMMAND_POLICY_MISMATCH''
     ''A offered approval without a bound ALLOW + INDEX policy in the awaiting-approval or operator-hold state. Approval is disabled.''"

definition command_state_mismatch_superseded :: authority_issue where
  "command_state_mismatch_superseded = critical_issue ''COMMAND_STATE_MISMATCH''
     ''A superseded analysis advertised operator commands. Commands are disabled.''"

definition command_state_mismatch_quarantined :: authority_issue where
  "command_state_mismatch_quarantined = critical_issue ''COMMAND_STATE_MISMATCH''
     ''A quarantined analysis advertised a command other than reanalysis. Commands are disabled.''"

definition outcome_identity_mismatch :: authority_issue where
  "outcome_identity_mismatch = critical_issue ''OUTCOME_IDENTITY_MISMATCH''
     ''The gateway outcome is bound to different document evidence. Operator actions are disabled.''"

definition containment_failure :: authority_issue where
  "containment_failure = critical_issue ''CONTAINMENT_FAILURE''
     ''Critical containment failure: the gateway reports a non-indexing action while candidate chunks remain indexed. Escalate immediately.''"

definition policy_outcome_mismatch :: authority_issue where
  "policy_outcome_mismatch = critical_issue ''POLICY_OUTCOME_MISMATCH''
     ''The gateway reports an index outcome without an ALLOW + INDEX policy. Treat the analysis as unresolved.''"

definition state_outcome_mismatch :: authority_issue where
  "state_outcome_mismatch = critical_issue ''STATE_OUTCOME_MISMATCH''
     ''Workflow state, policy, and gateway outcome are internally inconsistent. Operator actions are disabled.''"

definition replacement_lineage_mismatch :: authority_issue where
  "replacement_lineage_mismatch = critical_issue ''REPLACEMENT_LINEAGE_MISMATCH''
     ''The reanalysis replacement does not continue the selected document, version, evidence hashes, attempt, and supersession lineage. Keep the original analysis selected.''"

lemmas issue_defs = critical_issue_def analysis_identity_mismatch_def snapshot_identity_mismatch_def
  analysis_revision_mismatch_def status_metadata_mismatch_def baseline_sha_mismatch_def candidate_sha_mismatch_def
  audit_chain_invalid_def policy_sha_mismatch_def command_policy_mismatch_def command_state_mismatch_superseded_def
  command_state_mismatch_quarantined_def outcome_identity_mismatch_def containment_failure_def
  policy_outcome_mismatch_def state_outcome_mismatch_def replacement_lineage_mismatch_def

lemma issue_codes [simp]:
  "ai_code analysis_identity_mismatch = u ''ANALYSIS_IDENTITY_MISMATCH''"
  "ai_code snapshot_identity_mismatch = u ''SNAPSHOT_IDENTITY_MISMATCH''"
  "ai_code analysis_revision_mismatch = u ''ANALYSIS_REVISION_MISMATCH''"
  "ai_code status_metadata_mismatch = u ''STATUS_METADATA_MISMATCH''"
  "ai_code baseline_sha_mismatch = u ''BASELINE_SHA_MISMATCH''"
  "ai_code candidate_sha_mismatch = u ''CANDIDATE_SHA_MISMATCH''"
  "ai_code audit_chain_invalid = u ''AUDIT_CHAIN_INVALID''"
  "ai_code policy_sha_mismatch = u ''POLICY_SHA_MISMATCH''"
  "ai_code command_policy_mismatch = u ''COMMAND_POLICY_MISMATCH''"
  "ai_code command_state_mismatch_superseded = u ''COMMAND_STATE_MISMATCH''"
  "ai_code command_state_mismatch_quarantined = u ''COMMAND_STATE_MISMATCH''"
  "ai_code outcome_identity_mismatch = u ''OUTCOME_IDENTITY_MISMATCH''"
  "ai_code containment_failure = u ''CONTAINMENT_FAILURE''"
  "ai_code policy_outcome_mismatch = u ''POLICY_OUTCOME_MISMATCH''"
  "ai_code state_outcome_mismatch = u ''STATE_OUTCOME_MISMATCH''"
  "ai_code replacement_lineage_mismatch = u ''REPLACEMENT_LINEAGE_MISMATCH''"
  by (simp_all add: issue_defs)

lemma flag_codes: "ai_code ` set (flag b i) \<inter> F = {} \<longleftrightarrow> \<not> (b \<and> ai_code i \<in> F)"
  by (simp add: set_flag)

section \<open>The checks\<close>

definition is_allow_index :: "policy_result option \<Rightarrow> bool" where
  "is_allow_index policy \<longleftrightarrow>
     (case policy of None \<Rightarrow> False | Some po \<Rightarrow> po_decision po = ALLOW \<and> po_index_action po = INDEX)"

definition is_bound_allow_index :: "policy_result option \<Rightarrow> str \<Rightarrow> bool" where
  "is_bound_allow_index policy candidate_sha \<longleftrightarrow>
     is_allow_index policy \<and>
     (case policy of None \<Rightarrow> False | Some po \<Rightarrow> po_candidate_sha256 po = Some candidate_sha)"

definition outcome_issues :: "prepared_analysis \<Rightarrow> index_outcome option \<Rightarrow> authority_issue list" where
  "outcome_issues analysis outcome =
     (case outcome of
        None \<Rightarrow> []
      | Some out \<Rightarrow>
          if io_analysis_id out \<noteq> pa_analysis_id analysis \<or> io_document_id out \<noteq> pa_document_id analysis \<or>
             io_candidate_sha256 out \<noteq> ds_sha256 (pa_candidate analysis)
          then [outcome_identity_mismatch]
          else if io_indexed out \<and> io_action out \<noteq> INDEX then [containment_failure]
          else [])"

definition state_outcome_consistent ::
  "workflow_state \<Rightarrow> policy_result option \<Rightarrow> index_outcome option \<Rightarrow> bool" where
  "state_outcome_consistent state policy outcome =
     (if state \<in> {PREPARED, ANALYSIS_REQUESTED, ANALYSIS_FAILED} then policy = None \<and> outcome = None
      else if state = AWAITING_APPROVAL
      then is_allow_index policy \<and>
        (case outcome of None \<Rightarrow> False | Some out \<Rightarrow> \<not> io_indexed out \<and> io_action out = HOLD)
      else if state = WF_HOLD
      then (case outcome of None \<Rightarrow> False | Some out \<Rightarrow> \<not> io_indexed out \<and> io_action out = HOLD)
      else if state = INDEXED
      then is_allow_index policy \<and>
        (case outcome of None \<Rightarrow> False | Some out \<Rightarrow> io_indexed out \<and> io_action out = INDEX)
      else if state = QUARANTINED
      then (case outcome of None \<Rightarrow> False | Some out \<Rightarrow> \<not> io_indexed out \<and> io_action out = QUARANTINE)
      else True)"

definition authority_issues :: "analysis_status_view \<Rightarrow> prepared_analysis \<Rightarrow> authority_issue list" where
  "authority_issues status analysis =
     (let candidate_sha = ds_sha256 (pa_candidate analysis);
          policy = av_latest_policy status;
          outcome = av_latest_outcome status;
          allow_index = is_allow_index policy;
          bound_allow_index = is_bound_allow_index policy candidate_sha
      in
        flag (av_analysis_id status \<noteq> pa_analysis_id analysis \<or> av_document_id status \<noteq> pa_document_id analysis)
          analysis_identity_mismatch
      @ flag (ds_document_id (pa_baseline analysis) \<noteq> pa_document_id analysis \<or>
              ds_document_id (pa_candidate analysis) \<noteq> pa_document_id analysis) snapshot_identity_mismatch
      @ flag (av_version status \<noteq> pa_version analysis \<or> av_attempt status \<noteq> pa_analysis_attempt analysis)
          analysis_revision_mismatch
      @ flag (av_changed_by status \<noteq> pa_changed_by analysis \<or>
              av_supersedes_analysis_id status \<noteq> pa_supersedes_analysis_id analysis \<or>
              av_prepared_at status \<noteq> pa_prepared_at analysis) status_metadata_mismatch
      @ flag (dr_baseline_sha256 (pa_diff analysis) \<noteq> ds_sha256 (pa_baseline analysis)) baseline_sha_mismatch
      @ flag (av_candidate_sha256 status \<noteq> candidate_sha \<or> dr_candidate_sha256 (pa_diff analysis) \<noteq> candidate_sha)
          candidate_sha_mismatch
      @ flag (\<not> av_audit_chain_valid status) audit_chain_invalid
      @ flag (case policy of None \<Rightarrow> False | Some po \<Rightarrow> po_candidate_sha256 po \<noteq> Some candidate_sha)
          policy_sha_mismatch
      @ flag (APPROVE \<in> set (av_allowed_commands status) \<and>
              (av_state status \<notin> {AWAITING_APPROVAL, WF_HOLD} \<or> \<not> bound_allow_index)) command_policy_mismatch
      @ flag (av_state status = SUPERSEDED \<and> av_allowed_commands status \<noteq> []) command_state_mismatch_superseded
      @ flag (av_state status = QUARANTINED \<and> list_ex (\<lambda>c. c \<noteq> REANALYZE) (av_allowed_commands status))
          command_state_mismatch_quarantined
      @ outcome_issues analysis outcome
      @ flag ((case outcome of None \<Rightarrow> False | Some out \<Rightarrow> io_indexed out \<or> io_action out = INDEX) \<and> \<not> allow_index)
          policy_outcome_mismatch
      @ flag (\<not> state_outcome_consistent (av_state status) policy outcome) state_outcome_mismatch)"

definition replacement_authority_issues ::
  "prepared_analysis \<Rightarrow> analysis_status_view \<Rightarrow> prepared_analysis \<Rightarrow> str \<Rightarrow> authority_issue list" where
  "replacement_authority_issues original replacement_status replacement expected_analysis_id =
     authority_issues replacement_status replacement
     @ flag (pa_analysis_id replacement \<noteq> expected_analysis_id \<or>
             av_analysis_id replacement_status \<noteq> expected_analysis_id \<or>
             pa_analysis_id replacement = pa_analysis_id original \<or>
             pa_document_id replacement \<noteq> pa_document_id original \<or>
             pa_version replacement \<noteq> pa_version original \<or>
             pa_analysis_attempt replacement \<noteq> pa_analysis_attempt original + 1 \<or>
             pa_supersedes_analysis_id replacement \<noteq> Some (pa_analysis_id original) \<or>
             av_supersedes_analysis_id replacement_status \<noteq> Some (pa_analysis_id original) \<or>
             ds_sha256 (pa_baseline replacement) \<noteq> ds_sha256 (pa_baseline original) \<or>
             ds_sha256 (pa_candidate replacement) \<noteq> ds_sha256 (pa_candidate original))
         replacement_lineage_mismatch"

definition effective_commands :: "analysis_status_view \<Rightarrow> prepared_analysis \<Rightarrow> operator_action list" where
  "effective_commands status analysis =
     (if authority_issues status analysis \<noteq> [] then [] else av_allowed_commands status)"

definition can_dispatch_analysis :: "analysis_status_view \<Rightarrow> prepared_analysis \<Rightarrow> bool" where
  "can_dispatch_analysis status analysis \<longleftrightarrow>
     authority_issues status analysis = [] \<and> av_state status \<in> {PREPARED, ANALYSIS_REQUESTED, ANALYSIS_FAILED}"

section \<open>What the checks mean\<close>

text \<open>The evidence on the two sides of the screen is about one analysis of one document.\<close>

definition evidence_agrees :: "analysis_status_view \<Rightarrow> prepared_analysis \<Rightarrow> bool" where
  "evidence_agrees v p \<longleftrightarrow>
     av_analysis_id v = pa_analysis_id p \<and> av_document_id v = pa_document_id p \<and>
     ds_document_id (pa_baseline p) = pa_document_id p \<and> ds_document_id (pa_candidate p) = pa_document_id p \<and>
     av_version v = pa_version p \<and> av_attempt v = pa_analysis_attempt p \<and>
     av_changed_by v = pa_changed_by p \<and> av_supersedes_analysis_id v = pa_supersedes_analysis_id p \<and>
     av_prepared_at v = pa_prepared_at p \<and>
     dr_baseline_sha256 (pa_diff p) = ds_sha256 (pa_baseline p) \<and>
     dr_candidate_sha256 (pa_diff p) = ds_sha256 (pa_candidate p) \<and>
     av_candidate_sha256 v = ds_sha256 (pa_candidate p) \<and> av_audit_chain_valid v"

text \<open>The policy, the outcome, the state and the commands on offer fit together.\<close>

definition authority_agrees :: "analysis_status_view \<Rightarrow> prepared_analysis \<Rightarrow> bool" where
  "authority_agrees v p \<longleftrightarrow>
     (\<forall>po\<in>set_option (av_latest_policy v). po_candidate_sha256 po = Some (ds_sha256 (pa_candidate p))) \<and>
     (APPROVE \<in> set (av_allowed_commands v) \<longrightarrow>
        av_state v \<in> {AWAITING_APPROVAL, WF_HOLD} \<and> is_allow_index (av_latest_policy v)) \<and>
     (av_state v = SUPERSEDED \<longrightarrow> av_allowed_commands v = []) \<and>
     (av_state v = QUARANTINED \<longrightarrow> set (av_allowed_commands v) \<subseteq> {REANALYZE}) \<and>
     (\<forall>out\<in>set_option (av_latest_outcome v).
        io_analysis_id out = pa_analysis_id p \<and> io_document_id out = pa_document_id p \<and>
        io_candidate_sha256 out = ds_sha256 (pa_candidate p) \<and>
        (io_indexed out \<longrightarrow> io_action out = INDEX) \<and>
        (io_action out = INDEX \<longrightarrow> is_allow_index (av_latest_policy v))) \<and>
     state_outcome_consistent (av_state v) (av_latest_policy v) (av_latest_outcome v)"

lemma authority_issues_Nil_iff:
  "authority_issues v p = [] \<longleftrightarrow> evidence_agrees v p \<and> authority_agrees v p"
proof -
  have bound: "is_bound_allow_index po sha \<longleftrightarrow>
      is_allow_index po \<and> (\<forall>x\<in>set_option po. po_candidate_sha256 x = Some sha)" for po sha
    by (cases po) (auto simp: is_bound_allow_index_def is_allow_index_def)
  have pol: "(case po of None \<Rightarrow> False | Some x \<Rightarrow> po_candidate_sha256 x \<noteq> Some sha) \<longleftrightarrow>
      \<not> (\<forall>x\<in>set_option po. po_candidate_sha256 x = Some sha)" for po sha
    by (cases po) auto
  have out: "outcome_issues p out = [] \<longleftrightarrow> (\<forall>x\<in>set_option out.
      io_analysis_id x = pa_analysis_id p \<and> io_document_id x = pa_document_id p \<and>
      io_candidate_sha256 x = ds_sha256 (pa_candidate p) \<and> (io_indexed x \<longrightarrow> io_action x = INDEX))" for out
    by (cases out) (auto simp: outcome_issues_def)
  have idx: "(case out of None \<Rightarrow> False | Some x \<Rightarrow> io_indexed x \<or> io_action x = INDEX) \<longleftrightarrow>
      (\<exists>x\<in>set_option out. io_indexed x \<or> io_action x = INDEX)" for out
    by (cases out) auto
  show ?thesis
    unfolding authority_issues_def Let_def append_is_Nil_conv flag_simps(3) bound pol out idx evidence_agrees_def
      authority_agrees_def
    by (auto simp: list_ex_iff)
qed

section \<open>The status views of the gateway\<close>

lemma get_status_fields:
  assumes "get_status E aid s = (Inr v, t)"
  obtains p and acc :: status_acc where "get_prepared_analysis (w_audit s) aid = Inr p" "av_analysis_id v = pa_analysis_id p"
    "av_document_id v = pa_document_id p" "av_version v = pa_version p" "av_attempt v = pa_analysis_attempt p"
    "av_state v = sa_state acc" "av_candidate_sha256 v = ds_sha256 (pa_candidate p)"
    "av_changed_by v = pa_changed_by p" "av_prepared_at v = pa_prepared_at p"
    "av_supersedes_analysis_id v = pa_supersedes_analysis_id p"
    "av_latest_policy v = sa_policy acc" "av_allowed_commands v = allowed_commands (sa_state acc) (sa_policy acc)"
  using assms unfolding get_status_def
  by (auto simp: bindE_Inr_iff auditR_def Let_def get_prepared_analysis_def)

lemma allowed_commands_sound:
  "allowed_commands SUPERSEDED po = []" "allowed_commands QUARANTINED po = [REANALYZE]"
  by (simp_all add: allowed_commands_def)

section \<open>Properties\<close>


text \<open>Fail closed.  An enabled APPROVE means that the latest result of B is ALLOW + INDEX bound to
  the shown candidate's hash, the analysis awaits approval or is held, the audit chain is valid and
  the evidence is of one analysis; with any issue no command is enabled and nothing is dispatched.\<close>

lemma effective_approve_safe:
  "(if APPROVE \<in> set (effective_commands v p)
    then (\<exists>po. av_latest_policy v = Some po \<and> po_decision po = ALLOW \<and> po_index_action po = INDEX \<and>
           po_candidate_sha256 po = Some (ds_sha256 (pa_candidate p))) \<and>
         av_state v \<in> {AWAITING_APPROVAL, WF_HOLD} \<and> evidence_agrees v p
    else True) \<and>
   (if authority_issues v p = [] then effective_commands v p = av_allowed_commands v
    else effective_commands v p = [] \<and> can_dispatch_analysis v p = False)"
proof -
  have "(\<exists>po. av_latest_policy v = Some po \<and> po_decision po = ALLOW \<and> po_index_action po = INDEX \<and>
           po_candidate_sha256 po = Some (ds_sha256 (pa_candidate p))) \<and>
         av_state v \<in> {AWAITING_APPROVAL, WF_HOLD} \<and> evidence_agrees v p"
    if "APPROVE \<in> set (effective_commands v p)"
  proof -
    from that have a: "evidence_agrees v p" "authority_agrees v p" "APPROVE \<in> set (av_allowed_commands v)"
      by (auto simp: effective_commands_def authority_issues_Nil_iff split: if_splits)
    then show ?thesis
      by (cases "av_latest_policy v") (auto simp: authority_agrees_def is_allow_index_def)
  qed
  then show ?thesis by (simp add: effective_commands_def can_dispatch_analysis_def)
qed

text \<open>A status view the gateway produces never disagrees with the prepared analysis it also serves on
  identity, revision, provenance or offered commands of a closed analysis: of the dashboard's issues,
  those codes cannot be raised for it.\<close>

lemma gateway_view_consistent:
  "\<lbrakk>get_status E aid s = (Inr v, t); get_prepared_analysis (w_audit s) aid = Inr p\<rbrakk> \<Longrightarrow>
   ai_code ` set (authority_issues v p) \<inter>
     {u ''ANALYSIS_IDENTITY_MISMATCH'', u ''ANALYSIS_REVISION_MISMATCH'', u ''STATUS_METADATA_MISMATCH'',
      u ''COMMAND_STATE_MISMATCH''} = {}"
proof -
  assume h: "get_status E aid s = (Inr v, t)" "get_prepared_analysis (w_audit s) aid = Inr p"
  from h(1) obtain p' and acc :: status_acc where v: "get_prepared_analysis (w_audit s) aid = Inr p'"
    "av_analysis_id v = pa_analysis_id p'" "av_document_id v = pa_document_id p'" "av_version v = pa_version p'"
    "av_attempt v = pa_analysis_attempt p'" "av_state v = sa_state acc"
    "av_candidate_sha256 v = ds_sha256 (pa_candidate p')"
    "av_changed_by v = pa_changed_by p'" "av_prepared_at v = pa_prepared_at p'"
    "av_supersedes_analysis_id v = pa_supersedes_analysis_id p'"
    "av_latest_policy v = sa_policy acc" "av_allowed_commands v = allowed_commands (sa_state acc) (sa_policy acc)"
    by (rule get_status_fields)
  have p: "p' = p" using v(1) h(2) by simp
  let ?F = "{u ''ANALYSIS_IDENTITY_MISMATCH'', u ''ANALYSIS_REVISION_MISMATCH'', u ''STATUS_METADATA_MISMATCH'',
      u ''COMMAND_STATE_MISMATCH''}"
  have o': "ai_code ` set (outcome_issues p out) \<inter> ?F = {}" for out
    by (cases out) (auto simp: outcome_issues_def)
  have c: "\<not> (sa_state acc = SUPERSEDED \<and> allowed_commands (sa_state acc) (sa_policy acc) \<noteq> [])"
    "\<not> (sa_state acc = QUARANTINED \<and> list_ex (\<lambda>c. c \<noteq> REANALYZE) (allowed_commands (sa_state acc) (sa_policy acc)))"
    by (auto simp: allowed_commands_sound)
  show ?thesis
    unfolding authority_issues_def Let_def set_append image_Un Int_Un_distrib2 Un_empty flag_codes issue_codes
      v(2-)[unfolded p]
    using c o' by simp
qed

lemma gateway_view_consistent_witness:
  "case get_status sample_env (u ''anl_1'') sample_world of
      (Inl e, t) \<Rightarrow> True
    | (Inr v, t) \<Rightarrow> u ''ANALYSIS_IDENTITY_MISMATCH'' \<notin> ai_code ` set (authority_issues v sample_prepared)"
  using gateway_view_consistent [OF _ sample_world_prepared, of sample_env]
  by (auto split: prod.splits sum.splits)

end
