(* ===== verification/Regex.thy ===== *)
theory Regex
  imports Prelude
begin

text \<open>
  The regular expressions the code gives to Python's \<^verbatim>\<open>re\<close>, and its backtracking search.
  \<open>ends\<close> lists the ends of the matches from a position in the order the matcher tries them, so the match
  Python returns is the first; \<open>matches\<close> is the relation an expression denotes, and both have the
  same ends.  The patterns used never match the empty text, so the two rules Python has for empty matches play no role.
\<close>

section \<open>Expressions\<close>

datatype regex =
    Eps
  | Cls "nat \<Rightarrow> bool"
  | Cat regex regex
  | Alt regex regex
  | Rep regex nat "nat option"
  | WordB
  | NotBehind "nat \<Rightarrow> bool"

definition seqs :: "regex list \<Rightarrow> regex" where
  "seqs rs = foldr Cat rs Eps"

fun alts :: "regex list \<Rightarrow> regex" where
  "alts [] = Cls (\<lambda>c. False)"
| "alts [r] = r"
| "alts (r # rs) = Alt r (alts rs)"

text \<open>A literal under \<^verbatim>\<open>re.IGNORECASE\<close>, and one without.\<close>

definition ilit :: "unicode_db \<Rightarrow> str \<Rightarrow> regex" where
  "ilit U s = seqs (map (\<lambda>c. Cls (uc_same_case U c)) s)"

definition lit :: "str \<Rightarrow> regex" where
  "lit s = seqs (map (\<lambda>c. Cls ((=) c)) s)"

definition one_of :: "str \<Rightarrow> regex" where
  "one_of s = Cls (\<lambda>c. c \<in> set s)"

abbreviation star :: "regex \<Rightarrow> regex" where "star r \<equiv> Rep r 0 None"
abbreviation plus :: "regex \<Rightarrow> regex" where "plus r \<equiv> Rep r 1 None"
abbreviation opt :: "regex \<Rightarrow> regex" where "opt r \<equiv> Rep r 0 (Some 1)"
abbreviation space :: regex where "space \<equiv> Cls is_space"
abbreviation dot :: regex where "dot \<equiv> Cls (\<lambda>c. c \<noteq> 10)"

section \<open>Matching\<close>

text \<open>Up to \<open>n\<close> greedy repetitions, at least \<open>lo\<close>; once the minimum is met a repetition has to advance.\<close>

primrec rep_ends :: "(nat \<Rightarrow> nat list) \<Rightarrow> nat \<Rightarrow> nat \<Rightarrow> nat \<Rightarrow> nat list" where
  "rep_ends m 0 lo i = (if lo = 0 then [i] else [])"
| "rep_ends m (Suc n) lo i =
     concat (map (\<lambda>j. if lo = 0 \<and> j \<le> i then [] else rep_ends m n (lo - 1) j) (m i))
     @ (if lo = 0 then [i] else [])"

definition word_at :: "unicode_db \<Rightarrow> str \<Rightarrow> nat \<Rightarrow> bool" where
  "word_at U s i \<longleftrightarrow> i < length s \<and> uc_word U (s ! i)"

primrec ends :: "unicode_db \<Rightarrow> str \<Rightarrow> regex \<Rightarrow> nat \<Rightarrow> nat list" where
  "ends U s Eps = (\<lambda>i. [i])"
| "ends U s (Cls p) = (\<lambda>i. if i < length s \<and> p (s ! i) then [Suc i] else [])"
| "ends U s (Cat a b) = (\<lambda>i. concat (map (ends U s b) (ends U s a i)))"
| "ends U s (Alt a b) = (\<lambda>i. ends U s a i @ ends U s b i)"
| "ends U s (Rep a lo hi) =
     (\<lambda>i. rep_ends (ends U s a) (case hi of None \<Rightarrow> lo + (length s - i) | Some h \<Rightarrow> h) lo i)"
| "ends U s WordB = (\<lambda>i. if (0 < i \<and> word_at U s (i - 1)) \<noteq> word_at U s i then [i] else [])"
| "ends U s (NotBehind p) = (\<lambda>i. if 0 < i \<and> i \<le> length s \<and> p (s ! (i - 1)) then [] else [i])"

text \<open>\<^verbatim>\<open>pattern.search\<close> from a position: the leftmost start, and there the first end.\<close>

definition search_from :: "unicode_db \<Rightarrow> regex \<Rightarrow> str \<Rightarrow> nat \<Rightarrow> (nat \<times> nat) option" where
  "search_from U r s k =
     map_option (\<lambda>i. (i, hd (ends U s r i))) (find (\<lambda>i. ends U s r i \<noteq> []) [k..<Suc (length s)])"

definition searches :: "unicode_db \<Rightarrow> regex \<Rightarrow> str \<Rightarrow> bool" where
  "searches U r s \<longleftrightarrow> search_from U r s 0 \<noteq> None"

lemma search_from_range:
  assumes "search_from U r s k = Some (i, j)"
  shows "k \<le> i" "i \<le> length s" "j \<in> set (ends U s r i)"
proof -
  from assms obtain x where "find (\<lambda>i. ends U s r i \<noteq> []) [k..<Suc (length s)] = Some x" "i = x" "j = hd (ends U s r x)"
    by (auto simp: search_from_def)
  with find_SomeD[of "\<lambda>i. ends U s r i \<noteq> []" "[k..<Suc (length s)]" x]
  show "k \<le> i" "i \<le> length s" "j \<in> set (ends U s r i)" by auto
qed

text \<open>\<^verbatim>\<open>pattern.finditer\<close>: the spans, left to right and without overlap.\<close>

function spans_from :: "unicode_db \<Rightarrow> regex \<Rightarrow> str \<Rightarrow> nat \<Rightarrow> (nat \<times> nat) list" where
  "spans_from U r s k =
     (case search_from U r s k of
        None \<Rightarrow> []
      | Some (i, j) \<Rightarrow> (i, j) # spans_from U r s (max j (Suc i)))"
  by pat_completeness auto

termination
proof (relation "measure (\<lambda>(U, r, s, k). Suc (length s) - k)")
  fix U r s k ij i j
  assume "search_from U r s k = Some ij" "(i, j) = ij"
  then show "((U, r, s, max j (Suc i)), U, r, s, k) \<in> measure (\<lambda>(U, r, s, k). Suc (length s) - k)"
    using search_from_range(1,2)[of U r s k i j] by auto
qed simp

declare spans_from.simps [simp del]

definition span_text :: "str \<Rightarrow> nat \<times> nat \<Rightarrow> str" where
  "span_text s ij = take (snd ij - fst ij) (drop (fst ij) s)"

definition findall :: "unicode_db \<Rightarrow> regex \<Rightarrow> str \<Rightarrow> str list" where
  "findall U r s = map (span_text s) (spans_from U r s 0)"

text \<open>\<^verbatim>\<open>pattern.sub(replacement, s)\<close>.\<close>

fun replace_spans :: "str \<Rightarrow> str \<Rightarrow> nat \<Rightarrow> (nat \<times> nat) list \<Rightarrow> str" where
  "replace_spans w s k [] = drop k s"
| "replace_spans w s k ((i, j) # ijs) = take (i - k) (drop k s) @ w @ replace_spans w s j ijs"

definition sub_all :: "unicode_db \<Rightarrow> regex \<Rightarrow> str \<Rightarrow> str \<Rightarrow> str" where
  "sub_all U r w s = replace_spans w s 0 (spans_from U r s 0)"

section \<open>What an expression denotes\<close>

primrec matches :: "unicode_db \<Rightarrow> str \<Rightarrow> regex \<Rightarrow> nat \<Rightarrow> nat \<Rightarrow> bool" where
  "matches U s Eps = (\<lambda>i j. j = i)"
| "matches U s (Cls p) = (\<lambda>i j. i < length s \<and> p (s ! i) \<and> j = Suc i)"
| "matches U s (Cat a b) = (\<lambda>i j. \<exists>k. matches U s a i k \<and> matches U s b k j)"
| "matches U s (Alt a b) = (\<lambda>i j. matches U s a i j \<or> matches U s b i j)"
| "matches U s (Rep a lo hi) =
     (\<lambda>i j. \<exists>n. lo \<le> n \<and> (\<forall>h\<in>set_option hi. n \<le> h) \<and> (matches U s a ^^ n) i j)"
| "matches U s WordB = (\<lambda>i j. (0 < i \<and> word_at U s (i - 1)) \<noteq> word_at U s i \<and> j = i)"
| "matches U s (NotBehind p) = (\<lambda>i j. \<not> (0 < i \<and> i \<le> length s \<and> p (s ! (i - 1))) \<and> j = i)"

lemma rep_ends_sound:
  "j \<in> set (rep_ends m n lo i) \<Longrightarrow> \<exists>k. lo \<le> k \<and> k \<le> n \<and> ((\<lambda>a b. b \<in> set (m a)) ^^ k) i j"
proof (induction n arbitrary: lo i)
  case 0
  then show ?case by (intro exI[of _ 0]) (auto split: if_splits)
next
  case (Suc n)
  show ?case
  proof (cases "lo = 0 \<and> j = i")
    case True
    then show ?thesis by (intro exI[of _ 0]) simp
  next
    case False
    with Suc.prems obtain i' where i': "i' \<in> set (m i)" "j \<in> set (rep_ends m n (lo - 1) i')"
      by (auto split: if_splits)
    from Suc.IH[OF i'(2)] obtain k where k: "lo - 1 \<le> k" "k \<le> n" "((\<lambda>a b. b \<in> set (m a)) ^^ k) i' j" by blast
    then have "((\<lambda>a b. b \<in> set (m a)) ^^ Suc k) i j"
      using i'(1) by (auto simp: relpowp_Suc_left simp del: relpowp.simps)
    with k(1,2) show ?thesis by (intro exI[of _ "Suc k"]) simp
  qed
qed

lemma advancing_path:
  assumes le: "\<And>a b. R a b \<Longrightarrow> a \<le> b" and path: "(R ^^ n) i (j :: nat)"
  shows "\<exists>k. k \<le> n \<and> k \<le> j - i \<and> i \<le> j \<and> ((\<lambda>a b. R a b \<and> a < b) ^^ k) i j"
  using path
proof (induction n arbitrary: i)
  case 0
  then show ?case by (intro exI[of _ 0]) simp
next
  case (Suc n)
  then obtain b where b: "R i b" "(R ^^ n) b j" by (auto simp: relpowp_Suc_left simp del: relpowp.simps)
  from Suc.IH[OF b(2)] obtain k where
    k: "k \<le> n" "k \<le> j - b" "b \<le> j" "((\<lambda>a b. R a b \<and> a < b) ^^ k) b j" by blast
  show ?case
  proof (cases "i < b")
    case True
    then have "((\<lambda>a b. R a b \<and> a < b) ^^ Suc k) i j"
      using b(1) k(4) by (auto simp: relpowp_Suc_left simp del: relpowp.simps)
    with k True show ?thesis by (intro exI[of _ "Suc k"]) simp
  next
    case False
    with le[OF b(1)] have "b = i" by simp
    with k show ?thesis by (intro exI[of _ k]) simp
  qed
qed

lemma rep_ends_advancing:
  "((\<lambda>a b. b \<in> set (m a) \<and> a < b) ^^ k) i j \<Longrightarrow> k \<le> n \<Longrightarrow> j \<in> set (rep_ends m n 0 i)"
proof (induction k arbitrary: i n)
  case 0
  then show ?case by (cases n) auto
next
  case (Suc k)
  then obtain b n' where "b \<in> set (m i)" "i < b" "((\<lambda>a b. b \<in> set (m a) \<and> a < b) ^^ k) b j" "n = Suc n'"
    by (cases n) (auto simp: relpowp_Suc_left simp del: relpowp.simps)
  with Suc show ?case by (auto intro!: bexI[of _ b])
qed

lemma rep_ends_complete:
  assumes "((\<lambda>a b. b \<in> set (m a)) ^^ lo) i b" "((\<lambda>a b. b \<in> set (m a) \<and> a < b) ^^ k) b j" "lo + k \<le> n"
  shows "j \<in> set (rep_ends m n lo i)"
  using assms
proof (induction lo arbitrary: i n)
  case 0
  then show ?case by (simp add: rep_ends_advancing)
next
  case (Suc lo)
  then obtain c n' where c: "c \<in> set (m i)" "((\<lambda>a b. b \<in> set (m a)) ^^ lo) c b" and n: "n = Suc n'"
    by (cases n) (auto simp: relpowp_Suc_left simp del: relpowp.simps)
  have "j \<in> set (rep_ends m n' lo c)" using Suc.IH[OF c(2) Suc.prems(2)] Suc.prems(3) n by simp
  with c(1) n show ?case by auto
qed

lemma matches_le: "matches U s r i j \<Longrightarrow> i \<le> j \<and> (j \<le> length s \<or> j = i)"
proof (induction r arbitrary: i j)
  case (Cat a b)
  then obtain k where "matches U s a i k" "matches U s b k j" by auto
  with Cat.IH(1)[of i k] Cat.IH(2)[of k j] show ?case by auto
next
  case (Rep a lo hi)
  from Rep.prems obtain n where "(matches U s a ^^ n) i j" by auto
  then show ?case
  proof (induction n arbitrary: i)
    case (Suc n)
    then obtain k where "matches U s a i k" "(matches U s a ^^ n) k j"
      by (auto simp: relpowp_Suc_left simp del: relpowp.simps)
    with Suc.IH[of k] Rep.IH[of i k] show ?case by auto
  qed simp
qed auto

text \<open>The matcher finds exactly the ends of the matches.\<close>

lemma ends_iff_matches: "j \<in> set (ends U s r i) \<longleftrightarrow> matches U s r i j"
proof (induction r arbitrary: i j)
  case (Rep a lo hi)
  have rel: "(\<lambda>x y. y \<in> set (ends U s a x)) = matches U s a" by (simp add: fun_eq_iff Rep.IH)
  let ?n = "case hi of None \<Rightarrow> lo + (length s - i) | Some h \<Rightarrow> h"
  show ?case
  proof
    assume "j \<in> set (ends U s (Rep a lo hi) i)"
    then obtain k where "lo \<le> k" "k \<le> ?n" "(matches U s a ^^ k) i j"
      using rep_ends_sound[of j "ends U s a" ?n lo i] by (auto simp: rel)
    then show "matches U s (Rep a lo hi) i j" by (auto intro!: exI[of _ k] split: option.splits)
  next
    assume "matches U s (Rep a lo hi) i j"
    then obtain n where n: "lo \<le> n" "\<forall>h\<in>set_option hi. n \<le> h" "(matches U s a ^^ n) i j" by auto
    then have "(matches U s a ^^ (lo + (n - lo))) i j" by simp
    then obtain b where b: "(matches U s a ^^ lo) i b" "(matches U s a ^^ (n - lo)) b j"
      by (auto simp only: relpowp_add relcompp.simps)
    from advancing_path[OF _ b(2)] matches_le obtain k where
      k: "k \<le> n - lo" "k \<le> j - b" "b \<le> j" "((\<lambda>x y. matches U s a x y \<and> x < y) ^^ k) b j" by blast
    have ib: "i \<le> b" using matches_le[of U s "Rep a lo (Some lo)" i b] b(1) by auto
    have "j \<le> length s \<or> j = b" using matches_le[of U s "Rep a (n - lo) (Some (n - lo))" b j] b(2) by auto
    then have "lo + k \<le> ?n" using k(1,2,3) ib n(1,2) by (auto split: option.splits)
    then show "j \<in> set (ends U s (Rep a lo hi) i)"
      using rep_ends_complete[where m = "ends U s a" and lo = lo and i = i and b = b and k = k and j = j and n = ?n] b(1) k(4) by (simp add: rel Rep.IH)
  qed
qed auto

section \<open>Spans\<close>

lemma search_from_matches: "search_from U r s k = Some (i, j) \<Longrightarrow> k \<le> i \<and> i \<le> j \<and> matches U s r i j"
  using search_from_range[of U r s k i j] matches_le by (auto simp: ends_iff_matches)

lemma searches_iff: "searches U r s \<longleftrightarrow> (\<exists>i\<le>length s. \<exists>j. matches U s r i j)"
proof -
  have "searches U r s \<longleftrightarrow> (\<exists>i\<le>length s. ends U s r i \<noteq> [])"
    by (auto simp: searches_def search_from_def find_None_iff less_Suc_eq_le order_le_less)
  moreover have "ends U s r i \<noteq> [] \<longleftrightarrow> (\<exists>j. matches U s r i j)" for i
    using ends_iff_matches[of _ U s r i] by (metis empty_iff last_in_set list.set(1))
  ultimately show ?thesis by simp
qed

lemma findall_matches:
  "t \<in> set (findall U r s) \<Longrightarrow> \<exists>i j. t = span_text s (i, j) \<and> i \<le> j \<and> matches U s r i j"
proof -
  have "(i, j) \<in> set (spans_from U r s k) \<Longrightarrow> i \<le> j \<and> matches U s r i j" for i j k
  proof (induction U r s k rule: spans_from.induct)
    case (1 U r s k)
    show ?case
    proof (cases "search_from U r s k")
      case None
      with 1(2) show ?thesis by (simp add: spans_from.simps[of U r s k])
    next
      case (Some ab)
      then obtain a b where ab: "search_from U r s k = Some (a, b)" by (cases ab) simp
      with 1(2) have "(i, j) = (a, b) \<or> (i, j) \<in> set (spans_from U r s (max b (Suc a)))"
        by (simp add: spans_from.simps[of U r s k])
      with 1(1)[OF ab refl] search_from_matches[OF ab] show ?thesis by blast
    qed
  qed
  then show "t \<in> set (findall U r s) \<Longrightarrow> ?thesis" unfolding findall_def by fastforce
qed

end
