(* ===== verification/RiskEngine.thy ===== *)
theory RiskEngine
  imports Operations Regex "HOL-Library.Sublist"
begin

text \<open>
  The risk engine of B, \<^verbatim>\<open>src/indexguard/risk_engine.py\<close>: the deterministic assessment of a
  request, the optional contextual judge (a language model behind \<^verbatim>\<open>RiskJudge\<close>), and the
  candidate-bound submission built from both.  A judge is a function from the request, the phase and the findings so far
  to an assessment or an exception.  The locale \<open>bound_analyzer\<close> is what the gateway's workflow
  relies on in an analyzer; it is interpreted on the engine with any judge.
\<close>

section \<open>Patterns and terms\<close>

definition prompt_patterns :: "unicode_db \<Rightarrow> regex list" where
  "prompt_patterns U =
     [seqs [ilit U (u ''ignore''), plus space, opt (Alt (Cat (ilit U (u ''all'')) (plus space)) (Cat (ilit U (u ''any'')) (plus space))),
        ilit U (u ''previous''), plus space, ilit U (u ''instruction''), opt (ilit U (u ''s''))],
      seqs [ilit U (u ''ignore''), plus space, opt (Cat (ilit U (u ''the'')) (plus space)),
        ilit U (u ''system''), plus space, ilit U (u ''prompt'')],
      seqs [ilit U (u ''reveal''), plus space, opt (Cat (ilit U (u ''the'')) (plus space)),
        ilit U (u ''system''), plus space, ilit U (u ''prompt'')],
      seqs [ilit U (u ''you''), plus space, ilit U (u ''are''), plus space, ilit U (u ''now''), plus space],
      seqs [ilit U (u ''developer''), plus space, ilit U (u ''message'')],
      seqs [ilit U (u ''system''), plus space, ilit U (u ''message'')],
      seqs [ilit U [51060, 51204], star space, alts [ilit U [51648, 49884], ilit U [47749, 47161], ilit U [54532, 47212, 54532, 53944]],
        Rep dot 0 (Some 20), ilit U [47924, 49884]],
      seqs [alts [ilit U [51648, 49884], ilit U [47749, 47161], ilit U [54532, 47212, 54532, 53944]], Rep dot 0 (Some 20), ilit U [47924, 49884, 54616, 44256]],
      seqs [ilit U [49884, 49828, 53596], star space, ilit U [54532, 47212, 54532, 53944], Rep dot 0 (Some 20),
        alts [ilit U [44277, 44060], ilit U [52636, 47141], ilit U [45432, 52636]]],
      seqs [ilit U [49352, 47196, 50868], star space, alts [ilit U [51648, 49884], ilit U [47749, 47161]], Rep dot 0 (Some 20),
        alts [ilit U [46384, 46972], ilit U [49688, 54665]]]]"

definition policy_terms :: "str list" where
  "policy_terms =
     [[49849, 51064], [54620, 46020], [44552, 51648], [54596, 49688], [50696, 50808], [44428, 54620], [48372, 50504], [44060, 51064, 51221, 48372],
      [50808, 48512, 32, 51204, 49569], [48372, 51316, 32, 44592, 44036],
      u ''approval'', u ''limit'', u ''prohibited'', u ''required'', u ''exception'', u ''permission'',
      u ''security'', u ''personal data'']"

definition date_pattern :: "unicode_db \<Rightarrow> regex" where
  "date_pattern U =
     (let d = Cls (uc_digit U); sep = one_of (u ''-./'') in
      Alt (seqs [WordB, Rep d 4 (Some 4), sep, Rep d 1 (Some 2), sep, Rep d 1 (Some 2), WordB])
          (seqs [WordB, Rep d 4 (Some 4), lit [45380], star space, Rep d 1 (Some 2), lit [50900], star space,
                 Rep d 1 (Some 2), lit [51068], WordB]))"

definition severity_score :: "str \<Rightarrow> int option" where
  "severity_score = map_of [(u ''LOW'', 20), (u ''MEDIUM'', 50), (u ''HIGH'', 80), (u ''CRITICAL'', 100)]"

definition max_findings :: nat where "max_findings = 100"
definition max_evidence_text :: nat where "max_evidence_text = 12000"

definition contains_prompt_injection :: "unicode_db \<Rightarrow> str \<Rightarrow> bool" where
  "contains_prompt_injection U text \<longleftrightarrow> list_ex (\<lambda>r. searches U r text) (prompt_patterns U)"

definition contains_policy_term :: "unicode_db \<Rightarrow> str \<Rightarrow> bool" where
  "contains_policy_term U text \<longleftrightarrow> (let folded = casefold U text in list_ex (\<lambda>t. occurs_in t folded) policy_terms)"

section \<open>Assessments\<close>

record model_finding =
  mf_type :: str
  mf_before :: "str option"
  mf_after :: "str option"
  mf_reason :: str
  mf_severity :: str
  mf_location :: "dict option"

record model_assessment =
  ma_risk_score :: int
  ma_findings :: "model_finding list"

definition check_model_finding :: "model_finding \<Rightarrow> bool" where
  "check_model_finding f \<longleftrightarrow>
     length_between 1 100 (mf_type f) \<and> (\<forall>t\<in>set_option (mf_before f). length t \<le> 2000) \<and>
     (\<forall>t\<in>set_option (mf_after f). length t \<le> 2000) \<and> length_between 1 2000 (mf_reason f)"

definition check_model_assessment :: "model_assessment \<Rightarrow> bool" where
  "check_model_assessment a \<longleftrightarrow>
     0 \<le> ma_risk_score a \<and> ma_risk_score a \<le> 100 \<and> length (ma_findings a) \<le> 50"

definition validate_model_finding :: "json \<Rightarrow> model_finding option" where
  "validate_model_finding = v_model
     [u ''type'', u ''before'', u ''after'', u ''reason'', u ''severity'', u ''location'']
     (\<lambda>m. do {
        type_v \<leftarrow> req m (u ''type'') v_str;
        before_v \<leftarrow> dflt m (u ''before'') None (v_opt v_str);
        after_v \<leftarrow> dflt m (u ''after'') None (v_opt v_str);
        reason_v \<leftarrow> req m (u ''reason'') v_str;
        severity_v \<leftarrow> req m (u ''severity'') v_str;
        location_v \<leftarrow> dflt m (u ''location'') None (v_opt v_dict);
        guarded check_model_finding
          \<lparr>mf_type = type_v, mf_before = before_v, mf_after = after_v, mf_reason = reason_v,
           mf_severity = severity_v, mf_location = location_v\<rparr>})"

text \<open>\<open>as_int\<close> is pydantic's reading of a JSON value as an integer, coercions included.\<close>

definition validate_model_assessment :: "(json \<Rightarrow> int option) \<Rightarrow> json \<Rightarrow> model_assessment option" where
  "validate_model_assessment as_int = v_model [u ''risk_score'', u ''findings'']
     (\<lambda>m. do {
        risk_score_v \<leftarrow> req m (u ''risk_score'') as_int;
        findings_v \<leftarrow> dflt m (u ''findings'') [] (v_list validate_model_finding);
        guarded check_model_assessment \<lparr>ma_risk_score = risk_score_v, ma_findings = findings_v\<rparr>})"

type_synonym risk_judge = "risk_analysis_request \<Rightarrow> str \<Rightarrow> finding list \<Rightarrow> model_assessment res"

section \<open>Helpers\<close>

definition truncate_text :: "str option \<Rightarrow> str option" where
  "truncate_text value = (case value of None \<Rightarrow> None
     | Some t \<Rightarrow> if length t \<le> 500 then Some t else Some (take 500 t @ [8230]))"

fun deduplicate_from :: "(str \<times> str option \<times> str option \<times> str) list \<Rightarrow> finding list \<Rightarrow> finding list" where
  "deduplicate_from seen [] = []"
| "deduplicate_from seen (f # fs) =
     (let key = (fi_type f, fi_before f, fi_after f, fi_reason f) in
      if key \<notin> set seen then f # deduplicate_from (key # seen) fs else deduplicate_from seen fs)"

definition deduplicate_findings :: "finding list \<Rightarrow> finding list" where
  "deduplicate_findings fs = deduplicate_from [] fs"

text \<open>\<^verbatim>\<open>location.model_dump(mode="json")\<close> as a dict.\<close>

definition location_dict :: "text_location \<Rightarrow> dict" where
  "location_dict l = (case normalise (dump_text_location l) of JObj m \<Rightarrow> m | _ \<Rightarrow> [])"

definition merge_location :: "dict option \<Rightarrow> (str \<times> json option) list \<Rightarrow> dict option" where
  "merge_location location extra =
     (let base = (case location of None \<Rightarrow> [] | Some m \<Rightarrow> m);
          merged = foldl (\<lambda>m (k, v). case v of None \<Rightarrow> m | Some j \<Rightarrow> dict_set k j m) base extra
      in if merged = [] then None else Some (sort_key fst merged))"

definition change_at :: "risk_analysis_request \<Rightarrow> int \<Rightarrow> document_change option" where
  "change_at request index =
     (let changes = dr_changes (rq_diff request) in
      if 0 \<le> index \<and> index < int (length changes) then Some (changes ! nat index) else None)"

definition change_location :: "document_change option \<Rightarrow> dict option" where
  "change_location change = (case change of
     None \<Rightarrow> None
   | Some c \<Rightarrow>
       let locations = (if dc_after_locations c \<noteq> [] then dc_after_locations c else dc_before_locations c)
       in if locations \<noteq> [] then Some (location_dict (hd locations)) else None)"

definition change_has_finding :: "finding list \<Rightarrow> document_change \<Rightarrow> bool" where
  "change_has_finding findings change \<longleftrightarrow>
     list_ex (\<lambda>f. fi_before f = dc_before change \<or> fi_after f = dc_after change)
       (filter (\<lambda>f. fi_before f \<noteq> None \<or> fi_after f \<noteq> None) findings)"

definition truthy :: "str option \<Rightarrow> str list" where
  "truthy v = (case v of None \<Rightarrow> [] | Some t \<Rightarrow> if t = [] then [] else [t])"

definition or_none :: "str \<Rightarrow> str option" where
  "or_none t = (if t = [] then None else Some t)"

definition or_empty :: "str option \<Rightarrow> str" where
  "or_empty v = (case v of None \<Rightarrow> [] | Some t \<Rightarrow> t)"

definition decision_for_score :: "int \<Rightarrow> decision \<times> index_action" where
  "decision_for_score score =
     (if 70 \<le> score then (BLOCK, QUARANTINE) else if 30 \<le> score then (REVIEW, HOLD) else (ALLOW, INDEX))"

section \<open>The static assessment\<close>

record static_state =
  ss_findings :: "finding list"
  ss_scores :: "int list"
  ss_hard_block :: bool
  ss_classified :: "int list"

definition add_finding :: "finding \<Rightarrow> static_state \<Rightarrow> static_state" where
  "add_finding f st = st\<lparr>ss_findings := ss_findings st @ [f]\<rparr>"

definition add_score :: "int \<Rightarrow> static_state \<Rightarrow> static_state" where
  "add_score n st = st\<lparr>ss_scores := ss_scores st @ [n]\<rparr>"

definition static_finding :: "str \<Rightarrow> str option \<Rightarrow> str option \<Rightarrow> str \<Rightarrow> str \<Rightarrow> dict option \<Rightarrow> finding" where
  "static_finding t before after reason severity location =
     \<lparr>fi_type = t, fi_before = before, fi_after = after, fi_reason = reason,
      fi_severity = Some severity, fi_source = Some (u ''STATIC''), fi_location = location\<rparr>"

definition hidden_units :: "risk_analysis_request \<Rightarrow> text_unit list" where
  "hidden_units request = filter (\<lambda>x. tu_visibility x = HIDDEN_SUSPECTED) (rq_candidate_units request)"

definition artifact_step :: "unicode_db \<Rightarrow> risk_analysis_request \<Rightarrow> static_state \<Rightarrow> artifact \<Rightarrow> static_state" where
  "artifact_step U request st a =
     (let artifact_type = upper U (ar_type a);
          location = map_option location_dict (ar_location a);
          with_path = merge_location location [(u ''path'', map_option JStr (ar_path a))]
      in if artifact_type \<in> set hard_block_artifact_types
         then add_finding (static_finding artifact_type None None (ar_reason a) (u ''CRITICAL'') with_path)
                (add_score 100 (st\<lparr>ss_hard_block := True\<rparr>))
         else if artifact_type = u ''HIDDEN_TEXT''
         then (let st1 = add_score 80 st in
               if hidden_units request = []
               then add_finding (static_finding artifact_type None None (ar_reason a) (u ''HIGH'') with_path) st1
               else st1)
         else if artifact_type = u ''CONTROL_CHARACTERS''
         then add_finding (static_finding artifact_type None None (ar_reason a) (u ''HIGH'') location) (add_score 80 st)
         else if artifact_type \<in> {u ''TRACKED_CHANGES'', u ''EXTERNAL_REFERENCE''}
         then add_finding (static_finding artifact_type None None (ar_reason a) (u ''MEDIUM'') with_path) (add_score 45 st)
         else add_finding (static_finding artifact_type None None (ar_reason a) (u ''MEDIUM'') with_path) (add_score 30 st))"

definition hidden_step :: "risk_analysis_request \<Rightarrow> static_state \<Rightarrow> static_state" where
  "hidden_step request st =
     (case hidden_units request of
        [] \<Rightarrow> st
      | first # rest \<Rightarrow>
          add_finding (static_finding (u ''HIDDEN_TEXT'') None
              (truncate_text (Some (join [10] (map tu_text (take 5 (first # rest))))))
              (u ''Candidate text is present but visually hidden or suppressed.'') (u ''HIGH'')
              (Some (location_dict (tu_location first))))
            (add_score 80 st))"

definition dot_join :: "str list \<Rightarrow> str option" where
  "dot_join ts = or_none (join [32, 183, 32] ts)"

definition numeric_step :: "unicode_db \<Rightarrow> risk_analysis_request \<Rightarrow> static_state \<Rightarrow> numeric_change \<Rightarrow> static_state" where
  "numeric_step U request st numeric =
     (let change = change_at request (nc_change_index numeric);
          st1 = st\<lparr>ss_classified := nc_change_index numeric # ss_classified st\<rparr>;
          policy_context = contains_policy_term U
            (case change of None \<Rightarrow> [] | Some c \<Rightarrow> join [32] (truthy (dc_before c) @ truthy (dc_after c)));
          score = (if policy_context then 75 else 55 :: int)
      in add_finding (static_finding (if policy_context then u ''POLICY_NUMBER_CHANGE'' else u ''NUMBER_CHANGE'')
             (dot_join (nc_before numeric)) (dot_join (nc_after numeric))
             (if policy_context then u ''A numeric value changed in policy-sensitive context.''
              else u ''A numeric value changed and requires human verification.'')
             (if 70 \<le> score then u ''HIGH'' else u ''MEDIUM'') (change_location change))
           (add_score score st1))"

definition dates_of :: "unicode_db \<Rightarrow> str option \<Rightarrow> str list" where
  "dates_of U v = sort (remdups (findall U (date_pattern U) (or_empty v)))"

definition date_step :: "unicode_db \<Rightarrow> static_state \<Rightarrow> nat \<times> document_change \<Rightarrow> static_state" where
  "date_step U st ic =
     (let change = snd ic;
          before_dates = dates_of U (dc_before change);
          after_dates = dates_of U (dc_after change);
          policy = contains_policy_term U (or_empty (dc_before change) @ or_empty (dc_after change))
      in if before_dates \<noteq> after_dates \<and> (before_dates \<noteq> [] \<or> after_dates \<noteq> [])
         then add_finding (static_finding (u ''POLICY_DATE_CHANGE'') (dot_join before_dates) (dot_join after_dates)
                (u ''A date or effective period changed and requires policy review.'')
                (if policy then u ''HIGH'' else u ''MEDIUM'') (change_location (Some change)))
              (add_score (if policy then 70 else 50) (st\<lparr>ss_classified := int (fst ic) # ss_classified st\<rparr>))
         else st)"

text \<open>The texts searched for instructions: the added text of every change, then the hidden units.\<close>

definition prompt_candidates :: "risk_analysis_request \<Rightarrow> (str \<times> bool \<times> dict option) list" where
  "prompt_candidates request =
     concat (map (\<lambda>c. map (\<lambda>t. (t, False, change_location (Some c))) (truthy (dc_after c))) (dr_changes (rq_diff request)))
     @ map (\<lambda>x. (tu_text x, True, Some (location_dict (tu_location x)))) (hidden_units request)"

definition prompt_step :: "unicode_db \<Rightarrow> static_state \<Rightarrow> str \<times> bool \<times> dict option \<Rightarrow> static_state" where
  "prompt_step U st cand =
     (case cand of (text, hidden, location) \<Rightarrow>
        if \<not> contains_prompt_injection U text then st
        else add_finding (static_finding (u ''PROMPT_INJECTION'') None (truncate_text (Some text))
               (if hidden then u ''A hidden instruction attempts to redirect an AI system.''
                else u ''Changed text contains an instruction pattern aimed at an AI system.'')
               (if hidden then u ''CRITICAL'' else u ''HIGH'') location)
             (add_score (if hidden then 95 else 85) st))"

definition semantic_step :: "unicode_db \<Rightarrow> static_state \<Rightarrow> nat \<times> document_change \<Rightarrow> static_state" where
  "semantic_step U st ic =
     (let change = snd ic;
          combined = join [32] (truthy (dc_before change) @ truthy (dc_after change))
      in if int (fst ic) \<notin> set (ss_classified st) \<and> contains_policy_term U combined \<and>
            \<not> change_has_finding (ss_findings st) change
         then add_finding (static_finding (u ''POLICY_SEMANTIC_CHANGE'') (truncate_text (dc_before change))
                (truncate_text (dc_after change))
                (u ''Policy-sensitive wording changed and requires contextual review.'') (u ''MEDIUM'')
                (change_location (Some change)))
              (add_score 50 st)
         else st)"

definition content_step :: "risk_analysis_request \<Rightarrow> static_state \<Rightarrow> static_state" where
  "content_step request st =
     (if dr_changes (rq_diff request) \<noteq> [] \<and> ss_findings st = []
      then add_finding (static_finding (u ''DOCUMENT_CONTENT_CHANGE'') None None
             (u ''Document content changed without a stronger deterministic classification.'') (u ''MEDIUM'') None)
           (add_score 35 st)
      else st)"

record static_assessment =
  sm_risk_score :: int
  sm_findings :: "finding list"
  sm_hard_block :: bool

definition static_run :: "unicode_db \<Rightarrow> risk_analysis_request \<Rightarrow> static_state" where
  "static_run U request =
     (let changes = dr_changes (rq_diff request);
          st0 = \<lparr>ss_findings = [], ss_scores = [0], ss_hard_block = False, ss_classified = []\<rparr>;
          st1 = foldl (artifact_step U request) st0 (rq_candidate_artifacts request);
          st2 = hidden_step request st1;
          st3 = foldl (numeric_step U request) st2 (dr_numeric_changes (rq_diff request));
          st4 = foldl (date_step U) st3 (enumerate 0 changes);
          st5 = foldl (prompt_step U) st4 (prompt_candidates request);
          st6 = foldl (semantic_step U) st5 (enumerate 0 changes)
      in content_step request st6)"

definition assess_static_risk :: "unicode_db \<Rightarrow> risk_analysis_request \<Rightarrow> static_assessment" where
  "assess_static_risk U request =
     (let st = static_run U request in
      \<lparr>sm_risk_score = Max (set (ss_scores st)),
       sm_findings = take max_findings (deduplicate_findings (ss_findings st)),
       sm_hard_block = ss_hard_block st\<rparr>)"

section \<open>The judge's findings\<close>

definition model_findings :: "str \<Rightarrow> model_assessment \<Rightarrow> finding list" where
  "model_findings source a =
     map (\<lambda>item. \<lparr>fi_type = mf_type item, fi_before = mf_before item, fi_after = mf_after item,
                  fi_reason = mf_reason item, fi_severity = Some (mf_severity item),
                  fi_source = Some source, fi_location = mf_location item\<rparr>) (ma_findings a)"

definition model_assessment_score :: "model_assessment \<Rightarrow> int res" where
  "model_assessment_score a =
     (case those (map (\<lambda>item. severity_score (mf_severity item)) (ma_findings a)) of
        None \<Rightarrow> Inl KeyError
      | Some scores \<Rightarrow> Inr (max (ma_risk_score a) (Max (set (0 # scores)))))"

text \<open>The exceptions \<^verbatim>\<open>analyze\<close> turns into a finding.\<close>

fun judge_failure :: "err \<Rightarrow> bool" where
  "judge_failure (ExternalServiceError _) = True"
| "judge_failure ServiceConfigurationError = True"
| "judge_failure OSError = True"
| "judge_failure FileNotFoundError = True"
| "judge_failure RuntimeError = True"
| "judge_failure _ = False"

definition judge_unavailable :: "bool \<Rightarrow> err \<Rightarrow> finding list \<Rightarrow> int \<Rightarrow> finding list \<times> int" where
  "judge_unavailable hard exc findings risk_score =
     (findings @ [\<lparr>fi_type = u ''LLM_ANALYSIS_UNAVAILABLE'', fi_before = None, fi_after = None,
        fi_reason = u ''Contextual model analysis was unavailable; deterministic evidence remains authoritative and changed content cannot be auto-approved.'',
        fi_severity = Some (u ''MEDIUM''), fi_source = Some (u ''SYSTEM''),
        fi_location = Some [(u ''error_type'', JStr (exn_name exc))]\<rparr>],
      if hard then risk_score else max risk_score 50)"

text \<open>One phase: the judge is called with the findings so far; its findings and score are added.\<close>

definition judge_phase ::
  "risk_judge \<Rightarrow> risk_analysis_request \<Rightarrow> str \<Rightarrow> str \<Rightarrow> finding list \<Rightarrow> int \<Rightarrow> (err \<times> finding list) + (finding list \<times> int)" where
  "judge_phase assess request phase source findings risk_score =
     (case assess request phase findings of
        Inl e \<Rightarrow> Inl (e, findings)
      | Inr a \<Rightarrow>
          let findings1 = findings @ model_findings source a in
          (case model_assessment_score a of
             Inl e \<Rightarrow> Inl (e, findings1)
           | Inr n \<Rightarrow> Inr (findings1, max risk_score n)))"

definition run_judge ::
  "risk_judge \<Rightarrow> risk_analysis_request \<Rightarrow> bool \<Rightarrow> finding list \<Rightarrow> int \<Rightarrow> (finding list \<times> int) res" where
  "run_judge assess request hard findings risk_score =
     (case judge_phase assess request (u ''primary'') (u ''LLM_PRIMARY'') findings risk_score of
        Inl (e, fs) \<Rightarrow> if judge_failure e then Inr (judge_unavailable hard e fs risk_score) else Inl e
      | Inr (fs, n) \<Rightarrow>
          if 70 \<le> n
          then (case judge_phase assess request (u ''high_risk_audit'') (u ''LLM_AUDIT'') fs n of
                  Inl (e, fs') \<Rightarrow> if judge_failure e then Inr (judge_unavailable hard e fs' n) else Inl e
                | Inr r \<Rightarrow> Inr r)
          else Inr (fs, n))"

section \<open>The engine\<close>

definition hex_char :: "nat \<Rightarrow> bool" where
  "hex_char c \<longleftrightarrow> (48 \<le> c \<and> c \<le> 57) \<or> (97 \<le> c \<and> c \<le> 102) \<or> (65 \<le> c \<and> c \<le> 70)"

definition hex64 :: "str \<Rightarrow> bool" where
  "hex64 s \<longleftrightarrow> length s = 64 \<and> list_all hex_char s"

definition request_integrity_issue :: "risk_analysis_request \<Rightarrow> str option" where
  "request_integrity_issue request =
     (if dr_baseline_sha256 (rq_diff request) \<noteq> rq_baseline_sha256 request
      then Some (u ''Diff baseline SHA-256 does not match the immutable analysis request.'')
      else if dr_candidate_sha256 (rq_diff request) \<noteq> rq_candidate_sha256 request
      then Some (u ''Diff candidate SHA-256 does not match the immutable analysis request.'')
      else map_option (\<lambda>(label, value). u ''The '' @ label @ u '' SHA-256 is malformed.'')
             (find (\<lambda>(label, value). \<not> hex64 value)
                [(u ''baseline'', rq_baseline_sha256 request),
                 (u ''candidate'', rq_candidate_sha256 request),
                 (u ''baseline normalized'', rq_baseline_normalized_sha256 request),
                 (u ''candidate normalized'', rq_candidate_normalized_sha256 request)]))"

definition fail_closed_submission ::
  "risk_analysis_request \<Rightarrow> str \<Rightarrow> str \<Rightarrow> str \<Rightarrow> dict option \<Rightarrow> policy_submission" where
  "fail_closed_submission request finding_type reason submitted_by location =
     \<lparr>sb_request_id = rq_request_id request, sb_submitted_by = submitted_by,
      sb_policy = \<lparr>po_schema_version = u ''0.1'', po_analysis_status = FAILED, po_decision = BLOCK,
        po_risk_score = 100,
        po_findings = [\<lparr>fi_type = finding_type, fi_before = None, fi_after = None, fi_reason = reason,
          fi_severity = Some (u ''CRITICAL''), fi_source = Some (u ''SYSTEM''), fi_location = location\<rparr>],
        po_index_action = QUARANTINE, po_candidate_sha256 = Some (rq_candidate_sha256 request)\<rparr>\<rparr>"

record risk_engine =
  re_judge :: "risk_judge option"
  re_submitted_by :: str

definition risk_engine_init :: "risk_judge option \<Rightarrow> str \<Rightarrow> risk_engine res" where
  "risk_engine_init judge submitted_by =
     (if \<not> length_between 1 200 (strip submitted_by) then Inl ValueError
      else Inr \<lparr>re_judge = judge, re_submitted_by = strip submitted_by\<rparr>)"

definition engine_submission :: "risk_engine \<Rightarrow> risk_analysis_request \<Rightarrow> bool \<Rightarrow> finding list \<Rightarrow> int \<Rightarrow> policy_submission" where
  "engine_submission eng request hard findings score =
     (let risk_score = (if hard then 100 else min (max score 0) 100);
          (decision, action) = decision_for_score risk_score
      in \<lparr>sb_request_id = rq_request_id request, sb_submitted_by = re_submitted_by eng,
          sb_policy = \<lparr>po_schema_version = u ''0.1'', po_analysis_status = COMPLETED, po_decision = decision,
            po_risk_score = risk_score, po_findings = take max_findings (deduplicate_findings findings),
            po_index_action = action, po_candidate_sha256 = Some (rq_candidate_sha256 request)\<rparr>\<rparr>)"

definition analyze :: "unicode_db \<Rightarrow> risk_engine \<Rightarrow> risk_analysis_request \<Rightarrow> policy_submission res" where
  "analyze U eng request =
     (case request_integrity_issue request of
        Some issue \<Rightarrow> Inr (fail_closed_submission request (u ''REQUEST_INTEGRITY_MISMATCH'') issue (re_submitted_by eng) None)
      | None \<Rightarrow>
          let static = assess_static_risk U request in
          (case re_judge eng of
             None \<Rightarrow> Inr (engine_submission eng request (sm_hard_block static) (sm_findings static) (sm_risk_score static))
           | Some assess \<Rightarrow>
               (case run_judge assess request (sm_hard_block static) (sm_findings static) (sm_risk_score static) of
                  Inl e \<Rightarrow> Inl e
                | Inr (findings, score) \<Rightarrow> Inr (engine_submission eng request (sm_hard_block static) findings score))))"

section \<open>The language model adapter\<close>

definition strip_json_fence :: "str \<Rightarrow> str" where
  "strip_json_fence value =
     (let stripped = strip value; fence = u ''```'' in
      if prefixes_str fence stripped \<and> suffixes_str fence stripped
      then (let ls = splitlines stripped in
            if 3 \<le> length ls then strip (join [10] (butlast (tl ls))) else stripped)
      else stripped)"

definition bounded_model_evidence :: "risk_analysis_request \<Rightarrow> finding list \<Rightarrow> json" where
  "bounded_model_evidence request static_findings = JObj
     [(u ''request_identity'', JObj
         [(u ''request_id'', JStr (rq_request_id request)), (u ''analysis_id'', JStr (rq_analysis_id request)),
          (u ''document_id'', JStr (rq_document_id request)), (u ''version'', JInt (rq_version request)),
          (u ''attempt'', JInt (rq_attempt request)), (u ''candidate_sha256'', JStr (rq_candidate_sha256 request))]),
      (u ''before_text'', JStr (take max_evidence_text (rq_before_text request))),
      (u ''after_text'', JStr (take max_evidence_text (rq_after_text request))),
      (u ''diff'', dump_diff_report (rq_diff request)),
      (u ''candidate_artifacts'', d_list dump_artifact (take 100 (rq_candidate_artifacts request))),
      (u ''hidden_units'', d_list dump_text_unit (take 50 (hidden_units request))),
      (u ''static_findings'', d_list dump_finding (take 50 static_findings))]"

text \<open>\<open>client\<close> is \<^verbatim>\<open>analyze_risk_evidence\<close>: the phase and the evidence to the model's text.\<close>

definition openai_judge :: "(json \<Rightarrow> int option) \<Rightarrow> (str \<Rightarrow> json \<Rightarrow> str res) \<Rightarrow> risk_judge" where
  "openai_judge as_int client request phase static_findings =
     (case client phase (bounded_model_evidence request static_findings) of
        Inl e \<Rightarrow> Inl e
      | Inr raw \<Rightarrow>
          (case Option.bind (json_loads (strip_json_fence raw)) (\<lambda>j. validate_model_assessment as_int (normalise j)) of
             None \<Rightarrow> Inl (ExternalServiceError False)
           | Some a \<Rightarrow>
               if list_ex (\<lambda>f. severity_score (mf_severity f) = None) (ma_findings a)
               then Inl (ExternalServiceError False) else Inr a))"

section \<open>What a step of the assessment keeps\<close>

definition scored :: "static_state \<Rightarrow> bool" where
  "scored st \<longleftrightarrow> ss_scores st \<noteq> [] \<and> (\<forall>n\<in>set (ss_scores st). 0 \<le> n \<and> n \<le> 100) \<and>
     (ss_findings st \<noteq> [] \<longrightarrow> (\<exists>n\<in>set (ss_scores st). 30 \<le> n)) \<and>
     (ss_hard_block st \<longrightarrow> 100 \<in> set (ss_scores st))"

definition extends :: "static_state \<Rightarrow> static_state \<Rightarrow> bool" where
  "extends st st' \<longleftrightarrow> set (ss_scores st) \<subseteq> set (ss_scores st') \<and>
     (\<exists>fs. ss_findings st' = ss_findings st @ fs) \<and> (ss_hard_block st \<longrightarrow> ss_hard_block st') \<and>
     (scored st \<longrightarrow> scored st')"

lemma extends_refl [simp]: "extends st st"
  by (simp add: extends_def)

lemma extends_trans: "extends a b \<Longrightarrow> extends b c \<Longrightarrow> extends a c"
  unfolding extends_def by (elim conjE exE, intro conjI) (blast, simp, blast+)

lemma extends_foldl: "(\<And>st x. extends st (f st x)) \<Longrightarrow> extends st (foldl f st xs)"
  by (induction xs arbitrary: st) (auto intro: extends_trans)

lemma extends_finding:
  "30 \<le> n \<Longrightarrow> n \<le> 100 \<Longrightarrow> extends st (add_finding f (add_score n (st\<lparr>ss_classified := c\<rparr>)))"
  "30 \<le> n \<Longrightarrow> n \<le> 100 \<Longrightarrow> extends st (add_finding f (add_score n st))"
  "30 \<le> n \<Longrightarrow> n \<le> 100 \<Longrightarrow> extends st (add_score n st)"
  "extends st (add_finding f (add_score 100 (st\<lparr>ss_hard_block := True\<rparr>)))"
  by (auto simp: extends_def scored_def add_finding_def add_score_def)

lemma artifact_extends: "extends st (artifact_step U rq st a)"
  unfolding artifact_step_def Let_def by (auto intro!: extends_finding)

lemma hidden_extends: "extends st (hidden_step rq st)"
  unfolding hidden_step_def by (cases "hidden_units rq") (auto intro!: extends_finding)

lemma numeric_extends: "extends st (numeric_step U rq st n)"
  unfolding numeric_step_def Let_def by (rule extends_finding) auto

lemma date_extends: "extends st (date_step U st ic)"
  unfolding date_step_def Let_def by (auto intro!: extends_finding)

lemma prompt_extends: "extends st (prompt_step U st c)"
  unfolding prompt_step_def by (cases c) (auto intro!: extends_finding)

lemma semantic_extends: "extends st (semantic_step U st ic)"
  unfolding semantic_step_def Let_def by (auto intro!: extends_finding)

lemma content_extends: "extends st (content_step rq st)"
  unfolding content_step_def by (auto intro!: extends_finding)

lemmas step_extends = artifact_extends hidden_extends numeric_extends date_extends prompt_extends
  semantic_extends content_extends

text \<open>The stages of the run, for reasoning about one of them.\<close>

definition stage_artifacts :: "unicode_db \<Rightarrow> risk_analysis_request \<Rightarrow> static_state" where
  "stage_artifacts U rq = foldl (artifact_step U rq)
     \<lparr>ss_findings = [], ss_scores = [0], ss_hard_block = False, ss_classified = []\<rparr> (rq_candidate_artifacts rq)"

definition stage_numbers :: "unicode_db \<Rightarrow> risk_analysis_request \<Rightarrow> static_state" where
  "stage_numbers U rq =
     foldl (numeric_step U rq) (hidden_step rq (stage_artifacts U rq)) (dr_numeric_changes (rq_diff rq))"

definition stage_prompts :: "unicode_db \<Rightarrow> risk_analysis_request \<Rightarrow> static_state" where
  "stage_prompts U rq =
     foldl (prompt_step U) (foldl (date_step U) (stage_numbers U rq) (enumerate 0 (dr_changes (rq_diff rq))))
       (prompt_candidates rq)"

definition stage_semantics :: "unicode_db \<Rightarrow> risk_analysis_request \<Rightarrow> static_state" where
  "stage_semantics U rq = foldl (semantic_step U) (stage_prompts U rq) (enumerate 0 (dr_changes (rq_diff rq)))"

lemma static_run_stages: "static_run U rq = content_step rq (stage_semantics U rq)"
  by (simp add: static_run_def Let_def stage_semantics_def stage_prompts_def stage_numbers_def stage_artifacts_def)

lemma stages_extend:
  "extends (stage_artifacts U rq) (static_run U rq)"
  "extends (hidden_step rq (stage_artifacts U rq)) (static_run U rq)"
  "extends (stage_numbers U rq) (static_run U rq)"
  "extends (stage_prompts U rq) (static_run U rq)"
proof -
  have a: "extends (stage_prompts U rq) (static_run U rq)"
    unfolding static_run_stages stage_semantics_def
    by (rule extends_trans[OF extends_foldl content_extends]) (rule semantic_extends)
  have b: "extends (stage_numbers U rq) (stage_prompts U rq)"
    unfolding stage_prompts_def
    by (rule extends_trans[OF extends_foldl extends_foldl]) (rule date_extends prompt_extends)+
  have c: "extends (hidden_step rq (stage_artifacts U rq)) (stage_numbers U rq)"
    unfolding stage_numbers_def by (rule extends_foldl) (rule numeric_extends)
  show "extends (stage_prompts U rq) (static_run U rq)" "extends (stage_numbers U rq) (static_run U rq)"
    "extends (hidden_step rq (stage_artifacts U rq)) (static_run U rq)"
    "extends (stage_artifacts U rq) (static_run U rq)"
    using a b c hidden_extends[of "stage_artifacts U rq" rq] by (blast intro: extends_trans)+
qed

lemma static_run_scored: "scored (static_run U rq)"
proof -
  have "extends \<lparr>ss_findings = [], ss_scores = [0], ss_hard_block = False, ss_classified = []\<rparr> (static_run U rq)"
    using stages_extend(1) unfolding stage_artifacts_def
    by (rule extends_trans[rotated]) (rule extends_foldl, rule artifact_extends)
  moreover have "scored \<lparr>ss_findings = [], ss_scores = [0], ss_hard_block = False, ss_classified = []\<rparr>"
    by (simp add: scored_def)
  ultimately show ?thesis by (simp add: extends_def)
qed

lemma static_score_range: "0 \<le> sm_risk_score (assess_static_risk U rq)" "sm_risk_score (assess_static_risk U rq) \<le> 100"
  using static_run_scored[of U rq] by (auto simp: assess_static_risk_def Let_def scored_def Max_ge_iff)

lemma static_score_ge: "n \<in> set (ss_scores (static_run U rq)) \<Longrightarrow> n \<le> sm_risk_score (assess_static_risk U rq)"
  by (simp add: assess_static_risk_def Let_def)

lemma foldl_reaches:
  assumes "x \<in> set xs" "\<And>st. P (f st x)" "\<And>st y. P st \<Longrightarrow> P (f st y)"
  shows "P (foldl f st xs)"
proof -
  obtain ys zs where "xs = ys @ x # zs" using assms(1) by (meson split_list)
  moreover have "P st \<Longrightarrow> P (foldl f st zs)" for st using assms(3) by (induction zs arbitrary: st) auto
  ultimately show ?thesis using assms(2) by simp
qed

lemma hard_artifact_blocks:
  assumes "a \<in> set (rq_candidate_artifacts rq)" "upper U (ar_type a) \<in> set hard_block_artifact_types"
  shows "sm_hard_block (assess_static_risk U rq)"
proof -
  have "ss_hard_block (stage_artifacts U rq)"
    unfolding stage_artifacts_def using assms(1)
  proof (rule foldl_reaches)
    show "ss_hard_block (artifact_step U rq st a)" for st
      using assms(2) by (simp add: artifact_step_def Let_def add_finding_def add_score_def)
    show "ss_hard_block st \<Longrightarrow> ss_hard_block (artifact_step U rq st y)" for st y
      using artifact_extends by (simp add: extends_def)
  qed
  then show ?thesis using stages_extend(1)[of U rq] by (simp add: assess_static_risk_def Let_def extends_def)
qed

lemma scores_reach:
  assumes "x \<in> set xs" "\<And>st. \<exists>n\<in>set (ss_scores (f st x)). k \<le> n" "\<And>st y. extends st (f st y)"
  shows "\<exists>n\<in>set (ss_scores (foldl f st xs)). k \<le> n"
proof (rule foldl_reaches[where P = "\<lambda>st. \<exists>n\<in>set (ss_scores st). k \<le> n", OF assms(1)])
  fix st :: static_state and y
  assume "\<exists>n\<in>set (ss_scores st). k \<le> n"
  then show "\<exists>n\<in>set (ss_scores (f st y)). k \<le> n" using assms(3)[of st y] unfolding extends_def by blast
qed (rule assms(2))

lemma artifact_scores:
  assumes "a \<in> set (rq_candidate_artifacts rq)"
  shows "30 \<le> sm_risk_score (assess_static_risk U rq)"
proof -
  have "\<exists>n\<in>set (ss_scores (stage_artifacts U rq)). 30 \<le> n"
    unfolding stage_artifacts_def
    by (rule scores_reach[OF assms _ artifact_extends])
       (auto simp: artifact_step_def Let_def add_finding_def add_score_def)
  then show ?thesis using stages_extend(1)[of U rq] static_score_ge unfolding extends_def by fastforce
qed

lemma hidden_scores:
  assumes "hidden_units rq \<noteq> []"
  shows "80 \<le> sm_risk_score (assess_static_risk U rq)"
proof -
  have "80 \<in> set (ss_scores (hidden_step rq (stage_artifacts U rq)))"
    using assms by (cases "hidden_units rq") (auto simp: hidden_step_def add_finding_def add_score_def)
  then show ?thesis using stages_extend(2)[of rq U] static_score_ge unfolding extends_def by blast
qed

lemma numeric_scores:
  assumes "n \<in> set (dr_numeric_changes (rq_diff rq))"
  shows "55 \<le> sm_risk_score (assess_static_risk U rq)"
proof -
  have "\<exists>m\<in>set (ss_scores (stage_numbers U rq)). 55 \<le> m"
    unfolding stage_numbers_def
    by (rule scores_reach[OF assms _ numeric_extends])
       (auto simp: numeric_step_def Let_def add_finding_def add_score_def)
  then show ?thesis using stages_extend(3)[of U rq] static_score_ge unfolding extends_def by fastforce
qed

lemma prompt_scores:
  assumes "(t, h, loc) \<in> set (prompt_candidates rq)" "contains_prompt_injection U t"
  shows "(if h then 95 else 85) \<le> sm_risk_score (assess_static_risk U rq)"
proof -
  have "\<exists>m\<in>set (ss_scores (stage_prompts U rq)). (if h then 95 else 85) \<le> m"
    unfolding stage_prompts_def
    by (rule scores_reach[OF assms(1) _ prompt_extends])
       (use assms(2) in \<open>auto simp: prompt_step_def add_finding_def add_score_def\<close>)
  then show ?thesis using stages_extend(4)[of U rq] static_score_ge unfolding extends_def by (meson order_trans subsetD)
qed

lemma changes_score:
  assumes "dr_changes (rq_diff rq) \<noteq> []"
  shows "30 \<le> sm_risk_score (assess_static_risk U rq)"
proof -
  have "ss_findings (static_run U rq) \<noteq> []"
    using assms by (simp add: static_run_stages content_step_def add_finding_def)
  then have "\<exists>n\<in>set (ss_scores (static_run U rq)). 30 \<le> n" using static_run_scored by (auto simp: scored_def)
  then show ?thesis using static_score_ge by fastforce
qed

text \<open>A request that shows nothing to assess.\<close>

definition nothing_to_assess :: "risk_analysis_request \<Rightarrow> bool" where
  "nothing_to_assess rq \<longleftrightarrow> dr_changes (rq_diff rq) = [] \<and> dr_numeric_changes (rq_diff rq) = [] \<and>
     rq_candidate_artifacts rq = [] \<and> hidden_units rq = []"

lemma nothing_scores: "nothing_to_assess rq \<Longrightarrow> sm_risk_score (assess_static_risk U rq) = 0 \<and> \<not> sm_hard_block (assess_static_risk U rq)"
  by (simp add: nothing_to_assess_def assess_static_risk_def static_run_def Let_def hidden_step_def prompt_candidates_def
      content_step_def enumerate_eq_zip)

lemma something_scores: "\<not> nothing_to_assess rq \<Longrightarrow> 30 \<le> sm_risk_score (assess_static_risk U rq)"
proof -
  assume "\<not> nothing_to_assess rq"
  then consider "dr_changes (rq_diff rq) \<noteq> []" | n where "n \<in> set (dr_numeric_changes (rq_diff rq))"
    | a where "a \<in> set (rq_candidate_artifacts rq)" | "hidden_units rq \<noteq> []"
    unfolding nothing_to_assess_def by (metis list.set_intros(1) neq_Nil_conv)
  then show ?thesis
  proof cases
    case 1
    then show ?thesis by (rule changes_score)
  next
    case (2 n)
    from numeric_scores[OF this, of U] show ?thesis by simp
  next
    case (3 a)
    then show ?thesis by (rule artifact_scores)
  next
    case 4
    from hidden_scores[OF this, of U] show ?thesis by simp
  qed
qed

section \<open>The engine's submission\<close>

lemma decision_mono: "m \<le> n \<Longrightarrow> fst (decision_for_score m) \<le> fst (decision_for_score n)"
  by (auto simp: decision_for_score_def less_eq_decision_def)

lemma engine_submission_sel:
  "sb_request_id (engine_submission eng rq hard fs n) = rq_request_id rq"
  "sb_submitted_by (engine_submission eng rq hard fs n) = re_submitted_by eng"
  "po_candidate_sha256 (sb_policy (engine_submission eng rq hard fs n)) = Some (rq_candidate_sha256 rq)"
  "po_risk_score (sb_policy (engine_submission eng rq hard fs n)) = (if hard then 100 else min (max n 0) 100)"
  "po_decision (sb_policy (engine_submission eng rq hard fs n)) = fst (decision_for_score (if hard then 100 else min (max n 0) 100))"
  "po_index_action (sb_policy (engine_submission eng rq hard fs n)) = snd (decision_for_score (if hard then 100 else min (max n 0) 100))"
  "po_analysis_status (sb_policy (engine_submission eng rq hard fs n)) = COMPLETED"
  "po_findings (sb_policy (engine_submission eng rq hard fs n)) = take max_findings (deduplicate_findings fs)"
  by (simp_all add: engine_submission_def Let_def split: prod.splits)

lemma engine_submission_safe: "check_policy_result (sb_policy (engine_submission eng rq hard fs n))"
  by (simp add: check_policy_result_def safe_combination_def engine_submission_sel decision_for_score_def)

lemma fail_closed_safe: "check_policy_result (sb_policy (fail_closed_submission rq t r by' l))"
  by (simp add: check_policy_result_def safe_combination_def fail_closed_submission_def)

lemma judge_phase_raises: "judge_phase A rq ph src fs n = Inr (fs', n') \<Longrightarrow> n \<le> n'"
  by (auto simp: judge_phase_def Let_def split: sum.splits)

lemma run_judge_raises: "run_judge A rq hard fs n = Inr (fs', n') \<Longrightarrow> n \<le> n'"
  by (auto simp: run_judge_def judge_unavailable_def Let_def split: sum.splits if_splits dest!: judge_phase_raises)

lemma analyze_cases:
  assumes "analyze U eng rq = Inr s"
  obtains (rejected) issue where "request_integrity_issue rq = Some issue"
      "s = fail_closed_submission rq (u ''REQUEST_INTEGRITY_MISMATCH'') issue (re_submitted_by eng) None"
  | (assessed) fs n where "request_integrity_issue rq = None"
      "s = engine_submission eng rq (sm_hard_block (assess_static_risk U rq)) fs n"
      "sm_risk_score (assess_static_risk U rq) \<le> n"
  using assms unfolding analyze_def Let_def
  by (auto split: option.splits sum.splits dest: run_judge_raises)

lemma analyze_static:
  "re_judge eng = None \<Longrightarrow> request_integrity_issue rq = None \<Longrightarrow>
   analyze U eng rq = Inr (engine_submission eng rq (sm_hard_block (assess_static_risk U rq))
      (sm_findings (assess_static_risk U rq)) (sm_risk_score (assess_static_risk U rq)))"
  by (simp add: analyze_def Let_def)

section \<open>Deduplication\<close>

definition finding_key :: "finding \<Rightarrow> str \<times> str option \<times> str option \<times> str" where
  "finding_key f = (fi_type f, fi_before f, fi_after f, fi_reason f)"

lemma deduplicate_from_props:
  "subseq (deduplicate_from seen fs) fs \<and> distinct (map finding_key (deduplicate_from seen fs)) \<and>
   finding_key ` set (deduplicate_from seen fs) = finding_key ` set fs - set seen"
proof (induction fs arbitrary: seen)
  case (Cons f fs)
  show ?case
  proof (cases "finding_key f \<in> set seen")
    case True
    then have "deduplicate_from seen (f # fs) = deduplicate_from seen fs" by (simp add: Let_def finding_key_def)
    with Cons.IH[of seen] True show ?thesis by (auto intro: list_emb_Cons)
  next
    case False
    then have e: "deduplicate_from seen (f # fs) = f # deduplicate_from (finding_key f # seen) fs"
      by (simp add: Let_def finding_key_def)
    show ?thesis unfolding e using Cons.IH[of "finding_key f # seen"] False by auto
  qed
qed simp

section \<open>What the workflow relies on in an analyzer\<close>

locale bound_analyzer =
  fixes assess_request :: "risk_analysis_request \<Rightarrow> policy_submission res"
  assumes bound: "assess_request r = Inr s \<Longrightarrow>
    sb_request_id s = rq_request_id r \<and> po_candidate_sha256 (sb_policy s) = Some (rq_candidate_sha256 r) \<and>
    check_policy_submission s \<and> check_policy_result (sb_policy s)"
begin

text \<open>The guards of \<^verbatim>\<open>submit_policy_result\<close> on the request and the hash hold for its answers.\<close>

lemma guards_pass:
  assumes "latest_request aid w = (Inr (Some r), w)" "assess_request r = Inr s"
    and "rq_candidate_sha256 r = ds_sha256 (pa_candidate p)"
  shows "get_request E aid (Some (sb_request_id s)) w = (Inr r, w)"
    and "po_candidate_sha256 (sb_policy s) = Some (ds_sha256 (pa_candidate p))"
  using bound[OF assms(2)] assms(1,3) by (simp_all add: get_request_def bindE_def retE_def)

lemma answers_built_request:
  "assess_request (build_request E p rid now) = Inr s \<Longrightarrow>
   sb_request_id s = rid \<and> po_candidate_sha256 (sb_policy s) = Some (ds_sha256 (pa_candidate p))"
  using bound[of "build_request E p rid now" s] by (simp add: build_request_def)

end

text \<open>The engine as B runs it: built once, then asked.\<close>

definition engine_analyzer :: "unicode_db \<Rightarrow> risk_judge option \<Rightarrow> str \<Rightarrow> risk_analysis_request \<Rightarrow> policy_submission res" where
  "engine_analyzer U judge name rq =
     (case risk_engine_init judge name of Inl e \<Rightarrow> Inl e | Inr eng \<Rightarrow> analyze U eng rq)"

lemma engine_init_name: "risk_engine_init judge name = Inr eng \<Longrightarrow> length_between 1 200 (re_submitted_by eng)"
  by (auto simp: risk_engine_init_def split: if_splits)

lemma analyze_bound:
  assumes run: "analyze U eng rq = Inr s" and name: "length_between 1 200 (re_submitted_by eng)"
  shows "sb_request_id s = rq_request_id rq \<and> po_candidate_sha256 (sb_policy s) = Some (rq_candidate_sha256 rq) \<and>
    check_policy_submission s \<and> check_policy_result (sb_policy s) \<and> length (po_findings (sb_policy s)) \<le> 100"
  using run
proof (cases rule: analyze_cases)
  case (rejected issue)
  then show ?thesis
    using name fail_closed_safe by (simp add: fail_closed_submission_def check_policy_submission_def length_between_def)
next
  case (assessed fs n)
  then show ?thesis
    using name engine_submission_safe
    by (simp add: engine_submission_sel check_policy_submission_def length_between_def max_findings_def)
qed

interpretation engine: bound_analyzer "engine_analyzer U judge name" for U judge name
  by unfold_locales (auto simp: engine_analyzer_def split: sum.splits dest: analyze_bound engine_init_name)

section \<open>Properties\<close>

lemma run_judge_uncaught: "run_judge A rq hard fs n = Inl e \<Longrightarrow> \<not> judge_failure e"
  by (auto simp: run_judge_def split: sum.splits if_splits)

lemma engine_analyzer_Inl:
  "engine_analyzer U judge name rq = Inl e \<Longrightarrow> e = ValueError \<or> (\<exists>j. judge = Some j \<and> \<not> judge_failure e)"
  by (auto simp: engine_analyzer_def risk_engine_init_def analyze_def Let_def dest: run_judge_uncaught
      split: sum.splits if_splits option.splits)

text \<open>What the engine answers is always a valid, candidate-bound submission: it carries the id and the
  candidate hash of its request, satisfies every model validator, and lists at most 100 findings.  It raises only
  for a submitter name it refuses at construction, or what a judge raises beyond the failures it handles.\<close>

lemma engine_answers_bound:
  "case engine_analyzer U judge name rq of
     Inl e \<Rightarrow> e = ValueError \<or> (\<exists>j. judge = Some j \<and> \<not> judge_failure e)
   | Inr s \<Rightarrow> sb_request_id s = rq_request_id rq \<and> po_candidate_sha256 (sb_policy s) = Some (rq_candidate_sha256 rq) \<and>
       check_policy_submission s \<and> check_policy_result (sb_policy s) \<and> length (po_findings (sb_policy s)) \<le> 100"
proof (cases "engine_analyzer U judge name rq")
  case (Inl e)
  then show ?thesis using engine_analyzer_Inl by auto
next
  case (Inr s)
  then obtain eng where "risk_engine_init judge name = Inr eng" "analyze U eng rq = Inr s"
    by (auto simp: engine_analyzer_def split: sum.splits)
  with analyze_bound engine_init_name Inr show ?thesis by simp
qed

text \<open>The answer to a request the gateway built for an analysis passes the gateway's two binding checks:
  it names that request and the hash of the analysis' candidate, whatever judge the engine consults.\<close>

lemma engine_answers_gateway:
  "case engine_analyzer U judge name (build_request E p rid now) of
     Inl e \<Rightarrow> True
   | Inr s \<Rightarrow> sb_request_id s = rid \<and> po_candidate_sha256 (sb_policy s) = Some (ds_sha256 (pa_candidate p))"
  using engine.answers_built_request[of U judge name E p rid now] by (auto split: sum.splits)

text \<open>A judge can only raise the risk: with any judge the decision is at least as strict, and the score
  at least as high, as the engine's own on the same request.\<close>

lemma judge_only_raises:
  "case engine_analyzer U (Some judge) name rq of
     Inl e \<Rightarrow> True
   | Inr s \<Rightarrow> (case engine_analyzer U None name rq of
                 Inl e \<Rightarrow> False
               | Inr s0 \<Rightarrow> po_decision (sb_policy s0) \<le> po_decision (sb_policy s) \<and>
                   po_risk_score (sb_policy s0) \<le> po_risk_score (sb_policy s))"
proof (cases "engine_analyzer U (Some judge) name rq")
  case (Inr s)
  then have name: "length_between 1 200 (strip name)"
    and run: "analyze U \<lparr>re_judge = Some judge, re_submitted_by = strip name\<rparr> rq = Inr s"
    by (auto simp: engine_analyzer_def risk_engine_init_def split: if_splits sum.splits)
  let ?e0 = "\<lparr>re_judge = None, re_submitted_by = strip name\<rparr> :: risk_engine"
  have e0: "engine_analyzer U None name rq = analyze U ?e0 rq"
    using name by (simp add: engine_analyzer_def risk_engine_init_def)
  show ?thesis
    using run
  proof (cases rule: analyze_cases)
    case (rejected issue)
    then have "engine_analyzer U None name rq = Inr s" by (simp add: e0 analyze_def)
    with Inr show ?thesis by simp
  next
    case (assessed fs n)
    have a: "analyze U ?e0 rq = Inr (engine_submission ?e0 rq (sm_hard_block (assess_static_risk U rq))
        (sm_findings (assess_static_risk U rq)) (sm_risk_score (assess_static_risk U rq)))"
      using assessed(1) by (intro analyze_static) simp_all
    have le: "min (max (sm_risk_score (assess_static_risk U rq)) 0) 100 \<le> min (max n 0) 100"
      using assessed(3) by simp
    show ?thesis
      unfolding Inr e0 a sum.case assessed(2) engine_submission_sel
      using decision_mono[OF le] le by simp
  qed
qed simp

lemma allow_nothing_to_assess:
  assumes "engine_analyzer U judge name rq = Inr s" "po_decision (sb_policy s) = ALLOW"
  shows "nothing_to_assess rq \<and> request_integrity_issue rq = None"
proof -
  from assms(1) obtain eng where "analyze U eng rq = Inr s"
    by (auto simp: engine_analyzer_def split: sum.splits)
  then show ?thesis
  proof (cases rule: analyze_cases)
    case (rejected issue)
    with assms(2) show ?thesis by (simp add: fail_closed_submission_def)
  next
    case (assessed fs n)
    have "\<not> 30 \<le> n"
    proof
      assume "30 \<le> n"
      then show False using assms(2) unfolding assessed(2) engine_submission_sel
        by (auto simp: decision_for_score_def split: if_splits)
    qed
    with assessed something_scores[of rq U] show ?thesis by fastforce
  qed
qed

text \<open>No changed content is approved automatically: whatever the judge says, a request with a change, a
  numeric change, an artifact or a hidden unit, and one whose hashes disagree, is never answered ALLOW.\<close>

lemma changed_content_never_allowed:
  "case engine_analyzer U judge name rq of
     Inl e \<Rightarrow> True
   | Inr s \<Rightarrow> po_decision (sb_policy s) \<in>
       (if nothing_to_assess rq \<and> request_integrity_issue rq = None then {ALLOW, REVIEW, BLOCK} else {REVIEW, BLOCK})"
proof (cases "engine_analyzer U judge name rq")
  case (Inr s)
  then show ?thesis using allow_nothing_to_assess[OF Inr] by (cases "po_decision (sb_policy s)") auto
qed simp

lemma dangerous_answer:
  assumes "engine_analyzer U judge name rq = Inr s"
    and d: "hidden_units rq \<noteq> [] \<or>
          (\<exists>a\<in>set (rq_candidate_artifacts rq). upper U (ar_type a) \<in> set hard_block_artifact_types) \<or>
          (\<exists>c\<in>set (prompt_candidates rq). contains_prompt_injection U (fst c))"
  shows "po_decision (sb_policy s) = BLOCK \<and> po_index_action (sb_policy s) = QUARANTINE \<and> 70 \<le> po_risk_score (sb_policy s)"
proof -
  from assms(1) obtain eng where run: "analyze U eng rq = Inr s"
    by (auto simp: engine_analyzer_def split: sum.splits)
  let ?A = "assess_static_risk U rq"
  show ?thesis
    using run
  proof (cases rule: analyze_cases)
    case (rejected issue)
    then show ?thesis by (simp add: fail_closed_submission_def)
  next
    case (assessed fs n)
    have "sm_hard_block ?A \<or> 70 \<le> sm_risk_score ?A"
      using d
    proof (elim disjE bexE)
      assume "hidden_units rq \<noteq> []"
      from hidden_scores[OF this, of U] show ?thesis by simp
    next
      fix a
      assume "a \<in> set (rq_candidate_artifacts rq)" "upper U (ar_type a) \<in> set hard_block_artifact_types"
      then show ?thesis using hard_artifact_blocks by blast
    next
      fix c
      assume "c \<in> set (prompt_candidates rq)" "contains_prompt_injection U (fst c)"
      then show ?thesis using prompt_scores[of "fst c" "fst (snd c)" "snd (snd c)" rq U] by (auto split: if_splits)
    qed
    then show ?thesis unfolding assessed(2) engine_submission_sel
      using assessed(3) by (auto simp: decision_for_score_def)
  qed
qed

text \<open>C30: Hidden text, a hard-blocking artifact, or an instruction pattern in added or hidden text is
  answered BLOCK + QUARANTINE with a score of at least 70, whatever the judge says.\<close>

theorem dangerous_content_blocked:
  "case engine_analyzer U judge name rq of
     Inl e \<Rightarrow> True
   | Inr s \<Rightarrow>
       if hidden_units rq = [] \<and>
          \<not> list_ex (\<lambda>a. upper U (ar_type a) \<in> set hard_block_artifact_types) (rq_candidate_artifacts rq) \<and>
          \<not> list_ex (\<lambda>c. contains_prompt_injection U (fst c)) (prompt_candidates rq)
       then True
       else po_decision (sb_policy s) = BLOCK \<and> po_index_action (sb_policy s) = QUARANTINE \<and>
         70 \<le> po_risk_score (sb_policy s)"
proof (cases "engine_analyzer U judge name rq")
  case (Inr s)
  then show ?thesis using dangerous_answer[OF Inr] by (auto simp: list_ex_iff)
qed simp

text \<open>Without a judge, ALLOW is exactly the answer to an intact request with nothing to assess.\<close>

lemma static_allow_iff:
  "length_between 1 200 (strip name) \<Longrightarrow>
   \<exists>s. engine_analyzer U None name rq = Inr s \<and>
     (po_decision (sb_policy s) = ALLOW \<longleftrightarrow> nothing_to_assess rq \<and> request_integrity_issue rq = None)"
proof -
  assume name: "length_between 1 200 (strip name)"
  let ?e0 = "\<lparr>re_judge = None, re_submitted_by = strip name\<rparr> :: risk_engine"
  have e0: "engine_analyzer U None name rq = analyze U ?e0 rq"
    using name by (simp add: engine_analyzer_def risk_engine_init_def)
  show ?thesis
  proof (cases "request_integrity_issue rq")
    case (Some issue)
    then show ?thesis by (simp add: e0 analyze_def fail_closed_submission_def)
  next
    case None
    have a: "analyze U ?e0 rq = Inr (engine_submission ?e0 rq (sm_hard_block (assess_static_risk U rq))
        (sm_findings (assess_static_risk U rq)) (sm_risk_score (assess_static_risk U rq)))"
      using None by (intro analyze_static) simp_all
    show ?thesis
      unfolding e0 a
      using None nothing_scores[of rq U] something_scores[of rq U]
      by (cases "nothing_to_assess rq") (auto simp: engine_submission_sel decision_for_score_def)
  qed
qed

lemma static_allow_iff_witness:
  "\<exists>s. engine_analyzer ascii_db None (u ''engine'') (build_request sample_env sample_prepared (u ''req_1'') (u ''D1'')) = Inr s \<and>
     po_decision (sb_policy s) \<noteq> ALLOW"
proof -
  have "length_between 1 200 (strip (u ''engine''))"
    by (simp add: length_between_def u_def strip_def lstrip_def rstrip_def is_space_def)
  moreover have "\<not> nothing_to_assess (build_request sample_env sample_prepared (u ''req_1'') (u ''D1''))"
    by (simp add: nothing_to_assess_def build_request_def sample_prepared_def)
  ultimately show ?thesis using static_allow_iff by blast
qed

text \<open>When the judge is unavailable the engine still answers, and never ALLOW.\<close>

lemma judge_unavailable_fails_closed:
  "\<lbrakk>length_between 1 200 (strip name); judge_failure e;
    judge rq (u ''primary'') (sm_findings (assess_static_risk U rq)) = Inl e\<rbrakk> \<Longrightarrow>
   \<exists>s. engine_analyzer U (Some judge) name rq = Inr s \<and> po_decision (sb_policy s) \<in> {REVIEW, BLOCK}"
proof -
  assume h: "length_between 1 200 (strip name)" "judge_failure e"
    "judge rq (u ''primary'') (sm_findings (assess_static_risk U rq)) = Inl e"
  let ?e = "\<lparr>re_judge = Some judge, re_submitted_by = strip name\<rparr> :: risk_engine"
  have e: "engine_analyzer U (Some judge) name rq = analyze U ?e rq"
    using h(1) by (simp add: engine_analyzer_def risk_engine_init_def)
  show ?thesis
  proof (cases "request_integrity_issue rq")
    case (Some issue)
    then show ?thesis by (simp add: e analyze_def fail_closed_submission_def)
  next
    case None
    then show ?thesis
      using h(2,3)
      by (auto simp: e analyze_def Let_def run_judge_def judge_phase_def judge_unavailable_def engine_submission_sel
          decision_for_score_def)
  qed
qed

lemma judge_unavailable_fails_closed_witness:
  "\<exists>s. engine_analyzer ascii_db (Some (\<lambda>_ _ _. Inl (ExternalServiceError True))) (u ''engine'')
     (build_request sample_env sample_prepared (u ''req_1'') (u ''D1'')) = Inr s \<and> po_decision (sb_policy s) \<in> {REVIEW, BLOCK}"
  by (rule judge_unavailable_fails_closed [where e = "ExternalServiceError True"])
     (simp_all add: length_between_def u_def strip_def lstrip_def rstrip_def is_space_def)

text \<open>Deduplication keeps the first finding of every key (type, before, after, reason), in order, and
  loses no key.\<close>

lemma deduplicate_findings_correct:
  "subseq (deduplicate_findings fs) fs \<and> distinct (map finding_key (deduplicate_findings fs)) \<and>
   finding_key ` set (deduplicate_findings fs) = finding_key ` set fs"
  using deduplicate_from_props[of "[]" fs] by (simp add: deduplicate_findings_def)

end
