(* ===== verification/SequenceMatcher.thy ===== *)
theory SequenceMatcher
  imports Prelude
begin

text \<open>
  \<^verbatim>\<open>difflib.SequenceMatcher(a=..., b=..., autojunk=False)\<close>, which the document comparison uses: the
  longest matching block of a window, the blocks found by splitting around it, and the opcodes between them.
  The lemmas say that the opcodes cover both sequences in order, that an equal opcode is about equal parts, and that equal
  sequences have no other opcode.
\<close>

section \<open>The longest match\<close>

text \<open>\<^verbatim>\<open>j2len[j]\<close> after row \<open>i\<close>: the length of the longest common run that ends at \<open>(i, j)\<close>
  within the window.\<close>

fun run_length :: "'a list \<Rightarrow> 'a list \<Rightarrow> nat \<Rightarrow> nat \<Rightarrow> nat \<Rightarrow> nat \<Rightarrow> nat" where
  "run_length a b alo blo i j =
     (if a ! i = b ! j then Suc (if alo < i \<and> blo < j then run_length a b alo blo (i - 1) (j - 1) else 0) else 0)"

declare run_length.simps [simp del]

definition better :: "'a list \<Rightarrow> 'a list \<Rightarrow> nat \<Rightarrow> nat \<Rightarrow> nat \<times> nat \<times> nat \<Rightarrow> nat \<times> nat \<Rightarrow> nat \<times> nat \<times> nat" where
  "better a b alo blo best ij =
     (let k = run_length a b alo blo (fst ij) (snd ij) in
      if snd (snd best) < k then (Suc (fst ij) - k, Suc (snd ij) - k, k) else best)"

definition longest_match :: "'a list \<Rightarrow> 'a list \<Rightarrow> nat \<Rightarrow> nat \<Rightarrow> nat \<Rightarrow> nat \<Rightarrow> nat \<times> nat \<times> nat" where
  "longest_match a b alo ahi blo bhi =
     foldl (better a b alo blo) (alo, blo, 0) (List.product [alo..<ahi] [blo..<bhi])"

lemma run_length_sound:
  assumes "alo \<le> i" "blo \<le> j"
  shows "alo + run_length a b alo blo i j \<le> Suc i \<and> blo + run_length a b alo blo i j \<le> Suc j \<and>
    (\<forall>t<run_length a b alo blo i j. a ! (i - t) = b ! (j - t))"
  using assms
proof (induction a b alo blo i j rule: run_length.induct)
  case (1 a b alo blo i j)
  show ?case
  proof (cases "a ! i = b ! j \<and> alo < i \<and> blo < j")
    case True
    then have k: "run_length a b alo blo i j = Suc (run_length a b alo blo (i - 1) (j - 1))"
      by (subst run_length.simps) simp
    have IH: "alo + run_length a b alo blo (i - 1) (j - 1) \<le> Suc (i - 1)"
      "blo + run_length a b alo blo (i - 1) (j - 1) \<le> Suc (j - 1)"
      "\<forall>t<run_length a b alo blo (i - 1) (j - 1). a ! (i - 1 - t) = b ! (j - 1 - t)"
      using 1 True by auto
    have "a ! (i - t) = b ! (j - t)" if "t < Suc (run_length a b alo blo (i - 1) (j - 1))" for t
      using that IH(3) True by (cases t) auto
    with IH(1,2) k True show ?thesis by auto
  next
    case False
    then show ?thesis using 1(2,3) by (subst (1 2 3) run_length.simps) auto
  qed
qed

lemma run_length_max:
  assumes "alo + k \<le> Suc i" "blo + k \<le> Suc j" "\<forall>t<k. a ! (i - t) = b ! (j - t)"
  shows "k \<le> run_length a b alo blo i j"
  using assms
proof (induction a b alo blo i j arbitrary: k rule: run_length.induct)
  case (1 a b alo blo i j)
  show ?case
  proof (cases k)
    case (Suc m)
    then have e: "a ! i = b ! j" using 1(4) by (metis diff_zero zero_less_Suc)
    show ?thesis
    proof (cases m)
      case 0
      then show ?thesis using Suc e by (subst run_length.simps) simp
    next
      case (Suc m')
      have lt: "alo < i" "blo < j" using \<open>k = Suc m\<close> Suc 1(2,3) by simp_all
      have "\<forall>t<m. a ! (i - 1 - t) = b ! (j - 1 - t)" using 1(4) \<open>k = Suc m\<close> by auto
      then have "m \<le> run_length a b alo blo (i - 1) (j - 1)"
        using 1(1)[OF e conjI[OF lt], of m] 1(2,3) \<open>k = Suc m\<close> by simp
      then show ?thesis using e lt \<open>k = Suc m\<close> by (subst run_length.simps) simp
    qed
  qed simp
qed

text \<open>A block of the window: equal parts of positive length.\<close>

definition block_in :: "'a list \<Rightarrow> 'a list \<Rightarrow> nat \<Rightarrow> nat \<Rightarrow> nat \<Rightarrow> nat \<Rightarrow> nat \<times> nat \<times> nat \<Rightarrow> bool" where
  "block_in a b alo ahi blo bhi x \<longleftrightarrow> (case x of (i, j, k) \<Rightarrow>
     alo \<le> i \<and> i + k \<le> max alo ahi \<and> blo \<le> j \<and> j + k \<le> max blo bhi \<and> (\<forall>t<k. a ! (i + t) = b ! (j + t)))"

lemma better_block:
  assumes "block_in a b alo ahi blo bhi x" "alo \<le> i" "i < ahi" "blo \<le> j" "j < bhi"
  shows "block_in a b alo ahi blo bhi (better a b alo blo x (i, j))"
proof -
  let ?k = "run_length a b alo blo i j"
  have s: "alo + ?k \<le> Suc i" "blo + ?k \<le> Suc j" "\<forall>t<?k. a ! (i - t) = b ! (j - t)"
    using run_length_sound[OF assms(2,4), of a b] by auto
  have "a ! (Suc i - ?k + t) = b ! (Suc j - ?k + t)" if "t < ?k" for t
  proof -
    have "i - (?k - 1 - t) = Suc i - ?k + t" "j - (?k - 1 - t) = Suc j - ?k + t" using that s by auto
    with s(3) that show ?thesis by (metis diff_Suc_less diff_diff_left diff_less_mono2 gr_implies_not_zero less_imp_diff_less not_less_eq plus_1_eq_Suc zero_less_iff_neq_zero)
  qed
  then show ?thesis using assms s by (auto simp: better_def Let_def block_in_def)
qed

lemma better_size: "snd (snd x) \<le> snd (snd (better a b alo blo x ij))"
  "run_length a b alo blo (fst ij) (snd ij) \<le> snd (snd (better a b alo blo x ij))"
  by (auto simp: better_def Let_def)

lemma foldl_better_size: "snd (snd x) \<le> snd (snd (foldl (better a b alo blo) x xs))"
proof (induction xs arbitrary: x)
  case (Cons y xs)
  show ?case using Cons.IH[of "better a b alo blo x y"] better_size(1)[of x a b alo blo y] by simp
qed simp

lemma foldl_better_max:
  "ij \<in> set xs \<Longrightarrow> run_length a b alo blo (fst ij) (snd ij) \<le> snd (snd (foldl (better a b alo blo) x xs))"
proof (induction xs arbitrary: x)
  case (Cons y xs)
  show ?case
  proof (cases "ij = y")
    case True
    then show ?thesis
      using better_size(2)[of a b alo blo y x] foldl_better_size[of "better a b alo blo x y" a b alo blo xs] by simp
  next
    case False
    with Cons show ?thesis by simp
  qed
qed simp

lemma foldl_better_block:
  "\<lbrakk>block_in a b alo ahi blo bhi x; set xs \<subseteq> {alo..<ahi} \<times> {blo..<bhi}\<rbrakk> \<Longrightarrow>
   block_in a b alo ahi blo bhi (foldl (better a b alo blo) x xs)"
proof (induction xs arbitrary: x)
  case (Cons y xs)
  then have "block_in a b alo ahi blo bhi (better a b alo blo x (fst y, snd y))"
    by (intro better_block) auto
  with Cons.IH[of "better a b alo blo x y"] Cons.prems(2) show ?case by simp
qed simp

lemma longest_match_block: "block_in a b alo ahi blo bhi (longest_match a b alo ahi blo bhi)"
  unfolding longest_match_def by (rule foldl_better_block) (auto simp: block_in_def)

lemma longest_match_size:
  "\<lbrakk>alo \<le> i; i < ahi; blo \<le> j; j < bhi\<rbrakk> \<Longrightarrow>
   run_length a b alo blo i j \<le> snd (snd (longest_match a b alo ahi blo bhi))"
  unfolding longest_match_def
  using foldl_better_max[of "(i, j)" "List.product [alo..<ahi] [blo..<bhi]" a b alo blo "(alo, blo, 0)"] by simp

section \<open>The matching blocks\<close>

lemma longest_match_bounds:
  assumes "longest_match a b alo ahi blo bhi = (i, j, k)" "0 < k"
  shows "alo \<le> i" "i + k \<le> ahi" "blo \<le> j" "j + k \<le> bhi" "\<forall>t<k. a ! (i + t) = b ! (j + t)"
  using longest_match_block[of a b alo ahi blo bhi] assms by (auto simp: block_in_def)

function blocks :: "'a list \<Rightarrow> 'a list \<Rightarrow> nat \<Rightarrow> nat \<Rightarrow> nat \<Rightarrow> nat \<Rightarrow> (nat \<times> nat \<times> nat) list" where
  "blocks a b alo ahi blo bhi =
     (case longest_match a b alo ahi blo bhi of
        (i, j, k) \<Rightarrow>
          if k = 0 then []
          else blocks a b alo i blo j @ (i, j, k) # blocks a b (i + k) ahi (j + k) bhi)"
  by pat_completeness auto

termination
proof (relation "measure (\<lambda>(a, b, alo, ahi, blo, bhi). ahi - alo)")
  fix a b :: "'a list" and alo ahi blo bhi i y j k
  assume "(i, y) = longest_match a b alo ahi blo bhi" "(j, k) = y" "k \<noteq> 0"
  then have "longest_match a b alo ahi blo bhi = (i, j, k)" "0 < k" by simp_all
  note l = longest_match_bounds[OF this]
  show "((a, b, alo, i, blo, j), a, b, alo, ahi, blo, bhi) \<in> measure (\<lambda>(a, b, alo, ahi, blo, bhi). ahi - alo)"
    "((a, b, i + k, ahi, j + k, bhi), a, b, alo, ahi, blo, bhi) \<in> measure (\<lambda>(a, b, alo, ahi, blo, bhi). ahi - alo)"
    using l(1,2) \<open>0 < k\<close> by auto
qed simp

declare blocks.simps [simp del]

text \<open>Blocks in order, from a position in both sequences to the end of the window.\<close>

fun in_order :: "'a list \<Rightarrow> 'a list \<Rightarrow> nat \<Rightarrow> nat \<Rightarrow> (nat \<times> nat \<times> nat) list \<Rightarrow> nat \<Rightarrow> nat \<Rightarrow> bool" where
  "in_order a b alo blo [] ahi bhi \<longleftrightarrow> alo \<le> ahi \<and> blo \<le> bhi"
| "in_order a b alo blo ((i, j, k) # bs) ahi bhi \<longleftrightarrow>
     alo \<le> i \<and> blo \<le> j \<and> (\<forall>t<k. a ! (i + t) = b ! (j + t)) \<and> in_order a b (i + k) (j + k) bs ahi bhi"

lemma in_order_append:
  "in_order a b alo blo xs i j \<Longrightarrow> in_order a b i j ys ahi bhi \<Longrightarrow> in_order a b alo blo (xs @ ys) ahi bhi"
proof (induction xs arbitrary: alo blo)
  case Nil
  then show ?case by (cases ys) auto
qed auto

lemma blocks_in_order: "alo \<le> ahi \<Longrightarrow> blo \<le> bhi \<Longrightarrow> in_order a b alo blo (blocks a b alo ahi blo bhi) ahi bhi"
proof (induction a b alo ahi blo bhi rule: blocks.induct)
  case (1 a b alo ahi blo bhi)
  obtain i j k where l: "longest_match a b alo ahi blo bhi = (i, j, k)" using prod_cases3 by blast
  show ?case
  proof (cases "k = 0")
    case True
    then show ?thesis using 1(3,4) by (simp add: blocks.simps[of a b alo ahi] l)
  next
    case False
    note m = longest_match_bounds[OF l] False
    have "in_order a b alo blo (blocks a b alo i blo j) i j" using 1(1)[OF l[symmetric] refl False] m by simp
    moreover have "in_order a b (i + k) (j + k) (blocks a b (i + k) ahi (j + k) bhi) ahi bhi"
      using 1(2)[OF l[symmetric] refl False] m by simp
    ultimately show ?thesis
      using m by (auto simp: blocks.simps[of a b alo ahi] l intro!: in_order_append)
  qed
qed

text \<open>Adjacent blocks are merged, and a block of length zero closes the list.\<close>

fun merge_adjacent :: "nat \<times> nat \<times> nat \<Rightarrow> (nat \<times> nat \<times> nat) list \<Rightarrow> (nat \<times> nat \<times> nat) list" where
  "merge_adjacent (i1, j1, k1) [] = (if k1 = 0 then [] else [(i1, j1, k1)])"
| "merge_adjacent (i1, j1, k1) ((i2, j2, k2) # bs) =
     (if i1 + k1 = i2 \<and> j1 + k1 = j2 then merge_adjacent (i1, j1, k1 + k2) bs
      else (if k1 = 0 then [] else [(i1, j1, k1)]) @ merge_adjacent (i2, j2, k2) bs)"

definition matching_blocks :: "'a list \<Rightarrow> 'a list \<Rightarrow> (nat \<times> nat \<times> nat) list" where
  "matching_blocks a b =
     merge_adjacent (0, 0, 0) (blocks a b 0 (length a) 0 (length b)) @ [(length a, length b, 0)]"

lemma in_order_weaken: "in_order a b i j bs ahi bhi \<Longrightarrow> alo \<le> i \<Longrightarrow> blo \<le> j \<Longrightarrow> in_order a b alo blo bs ahi bhi"
  by (cases bs) auto

lemma merge_adjacent_in_order:
  "in_order a b alo blo ((i, j, k) # bs) ahi bhi \<Longrightarrow> in_order a b alo blo (merge_adjacent (i, j, k) bs) ahi bhi"
proof (induction "(i, j, k)" bs arbitrary: alo blo i j k rule: merge_adjacent.induct)
  case (1 i j k)
  then show ?case by auto
next
  case (2 i1 j1 k1 i2 j2 k2 bs)
  show ?case
  proof (cases "i1 + k1 = i2 \<and> j1 + k1 = j2")
    case True
    have "a ! (i1 + t) = b ! (j1 + t)" if "t < k1 + k2" for t
    proof (cases "t < k1")
      case False
      have "\<forall>t<k2. a ! (i2 + t) = b ! (j2 + t)" using 2(3) by simp
      moreover have "t - k1 < k2" using False that by simp
      ultimately have "a ! (i2 + (t - k1)) = b ! (j2 + (t - k1))" by blast
      moreover have "i2 + (t - k1) = i1 + t" "j2 + (t - k1) = j1 + t" using True False by auto
      ultimately show ?thesis by simp
    qed (use 2(3) in auto)
    then show ?thesis using 2(1)[OF True, of alo blo] 2(3) True by (auto simp: add.assoc)
  next
    case False
    have "in_order a b (i1 + k1) (j1 + k1) (merge_adjacent (i2, j2, k2) bs) ahi bhi"
      using 2(2)[OF False, of "i1 + k1" "j1 + k1"] 2(3) by simp
    then show ?thesis using 2(3) False by (auto intro: in_order_weaken)
  qed
qed

lemma matching_blocks_in_order: "in_order a b 0 0 (matching_blocks a b) (length a) (length b)"
  unfolding matching_blocks_def
  by (rule in_order_append[OF merge_adjacent_in_order]) (auto intro: blocks_in_order)

section \<open>Opcodes\<close>

datatype tag = EqualOp | DeleteOp | InsertOp | ReplaceOp

type_synonym opcode = "tag \<times> nat \<times> nat \<times> nat \<times> nat"

fun opcodes_of :: "nat \<Rightarrow> nat \<Rightarrow> (nat \<times> nat \<times> nat) list \<Rightarrow> opcode list" where
  "opcodes_of i j [] = []"
| "opcodes_of i j ((ai, bj, csize) # bs) =
     (if i < ai \<and> j < bj then [(ReplaceOp, i, ai, j, bj)]
      else if i < ai then [(DeleteOp, i, ai, j, bj)]
      else if j < bj then [(InsertOp, i, ai, j, bj)] else [])
     @ (if 0 < csize then [(EqualOp, ai, ai + csize, bj, bj + csize)] else [])
     @ opcodes_of (ai + csize) (bj + csize) bs"

definition get_opcodes :: "'a list \<Rightarrow> 'a list \<Rightarrow> opcode list" where
  "get_opcodes a b = opcodes_of 0 0 (matching_blocks a b)"

definition part :: "'a list \<Rightarrow> nat \<Rightarrow> nat \<Rightarrow> 'a list" where
  "part xs i j = take (j - i) (drop i xs)"

fun before_part :: "'a list \<Rightarrow> opcode \<Rightarrow> 'a list" where
  "before_part a (t, i1, i2, j1, j2) = part a i1 i2"

fun after_part :: "'a list \<Rightarrow> opcode \<Rightarrow> 'a list" where
  "after_part b (t, i1, i2, j1, j2) = part b j1 j2"

lemma part_empty [simp]: "part xs i i = []"
  by (simp add: part_def)

lemma part_append: "i \<le> j \<Longrightarrow> j \<le> k \<Longrightarrow> part xs i j @ part xs j k = part xs i k"
proof -
  assume le: "i \<le> j" "j \<le> k"
  have "take (k - i) (drop i xs) = take ((j - i) + (k - j)) (drop i xs)" using le by simp
  also have "\<dots> = part xs i j @ part xs j k" unfolding take_add part_def drop_drop using le by simp
  finally show ?thesis by (simp add: part_def)
qed

lemma part_all: "part xs 0 (length xs) = xs"
  by (simp add: part_def)

lemma in_order_le: "in_order a b i j bs ahi bhi \<Longrightarrow> i \<le> ahi \<and> j \<le> bhi"
proof (induction bs arbitrary: i j)
  case (Cons x bs)
  obtain i' j' k where x: "x = (i', j', k)" using prod_cases3 by blast
  with Cons.IH[of "i' + k" "j' + k"] Cons.prems show ?case by simp
qed simp

lemma part_eq:
  assumes "\<forall>t<k. a ! (i + t) = b ! (j + t)" "i + k \<le> length a" "j + k \<le> length b"
  shows "part a i (i + k) = part b j (j + k)"
  using assms by (intro nth_equalityI) (simp_all add: part_def)

text \<open>An opcode covers a part of each sequence; only an equal one covers equal parts, and none is empty.\<close>

definition proper :: "'a list \<Rightarrow> 'a list \<Rightarrow> opcode \<Rightarrow> bool" where
  "proper a b op \<longleftrightarrow> (case op of (t, i1, i2, j1, j2) \<Rightarrow>
     i1 \<le> i2 \<and> i2 \<le> length a \<and> j1 \<le> j2 \<and> j2 \<le> length b \<and>
     (case t of EqualOp \<Rightarrow> part a i1 i2 = part b j1 j2 \<and> i1 < i2
      | DeleteOp \<Rightarrow> i1 < i2 \<and> j1 = j2 | InsertOp \<Rightarrow> i1 = i2 \<and> j1 < j2 | ReplaceOp \<Rightarrow> i1 < i2 \<and> j1 < j2))"

lemma proper_simps [simp]:
  "proper a b (EqualOp, i1, i2, j1, j2) \<longleftrightarrow>
     i1 \<le> i2 \<and> i2 \<le> length a \<and> j1 \<le> j2 \<and> j2 \<le> length b \<and> part a i1 i2 = part b j1 j2 \<and> i1 < i2"
  "proper a b (DeleteOp, i1, i2, j1, j2) \<longleftrightarrow> i2 \<le> length a \<and> j2 \<le> length b \<and> i1 < i2 \<and> j1 = j2"
  "proper a b (InsertOp, i1, i2, j1, j2) \<longleftrightarrow> i2 \<le> length a \<and> j2 \<le> length b \<and> i1 = i2 \<and> j1 < j2"
  "proper a b (ReplaceOp, i1, i2, j1, j2) \<longleftrightarrow> i2 \<le> length a \<and> j2 \<le> length b \<and> i1 < i2 \<and> j1 < j2"
  by (auto simp: proper_def)

lemma opcodes_cover:
  assumes "in_order a b i j (bs @ [(length a, length b, 0)]) (length a) (length b)"
  shows "concat (map (before_part a) (opcodes_of i j (bs @ [(length a, length b, 0)]))) = part a i (length a) \<and>
    concat (map (after_part b) (opcodes_of i j (bs @ [(length a, length b, 0)]))) = part b j (length b) \<and>
    list_all (proper a b) (opcodes_of i j (bs @ [(length a, length b, 0)]))"
  using assms
proof (induction bs arbitrary: i j)
  case Nil
  then show ?case by auto
next
  case (Cons x bs)
  obtain ai bj k where x: "x = (ai, bj, k)" using prod_cases3 by blast
  let ?rest = "bs @ [(length a, length b, 0)]"
  from Cons.prems x have o': "i \<le> ai" "j \<le> bj" "\<forall>t<k. a ! (ai + t) = b ! (bj + t)"
    and r: "in_order a b (ai + k) (bj + k) ?rest (length a) (length b)" by simp_all
  from in_order_le[OF r] have le: "ai + k \<le> length a" "bj + k \<le> length b" by simp_all
  have e: "part a ai (ai + k) = part b bj (bj + k)" using part_eq[OF o'(3) le] .
  have A: "part a i (length a) = part a i ai @ part a ai (ai + k) @ part a (ai + k) (length a)"
    using o'(1) le(1) by (simp add: part_append)
  have B: "part b j (length b) = part b j bj @ part b bj (bj + k) @ part b (bj + k) (length b)"
    using o'(2) le(2) by (simp add: part_append)
  note IH = Cons.IH[OF r]
  show ?case
    unfolding x append_Cons opcodes_of.simps(2) A B map_append concat_append list_all_append
    using IH o'(1,2) le e by auto
qed

lemma get_opcodes_cover:
  "concat (map (before_part a) (get_opcodes a b)) = a" "concat (map (after_part b) (get_opcodes a b)) = b"
  "list_all (proper a b) (get_opcodes a b)"
  using opcodes_cover[of a b 0 0 "merge_adjacent (0, 0, 0) (blocks a b 0 (length a) 0 (length b))"]
    matching_blocks_in_order[of a b]
  by (simp_all add: get_opcodes_def matching_blocks_def part_all)

text \<open>Equal sequences have only the equal opcode.\<close>

lemma longest_match_same: "a \<noteq> [] \<Longrightarrow> longest_match a a 0 (length a) 0 (length a) = (0, 0, length a)"
proof -
  assume ne: "a \<noteq> []"
  obtain i j k where l: "longest_match a a 0 (length a) 0 (length a) = (i, j, k)" using prod_cases3 by blast
  have "length a \<le> run_length a a 0 0 (length a - 1) (length a - 1)"
    using ne by (intro run_length_max) simp_all
  also have "\<dots> \<le> k" using longest_match_size[of 0 "length a - 1" "length a" 0 "length a - 1" "length a" a a] ne l by simp
  finally have k: "length a \<le> k" .
  with longest_match_bounds(2,4)[OF l] ne have "i + k \<le> length a" "j + k \<le> length a" by auto
  with k l show ?thesis by simp
qed

lemma get_opcodes_same: "op \<in> set (get_opcodes a a) \<Longrightarrow> fst op = EqualOp"
proof (cases "a = []")
  case True
  assume "op \<in> set (get_opcodes a a)"
  with True show ?thesis
    by (simp add: get_opcodes_def matching_blocks_def blocks.simps[of "[]"] longest_match_def)
next
  case False
  have "blocks a a 0 0 0 0 = []" by (simp add: blocks.simps[of a a 0 0] longest_match_def)
  moreover have "blocks a a (length a) (length a) (length a) (length a) = []"
    by (simp add: blocks.simps[of a a "length a" "length a"] longest_match_def)
  ultimately have "blocks a a 0 (length a) 0 (length a) = [(0, 0, length a)]"
    using False by (simp add: blocks.simps[of a a 0 "length a"] longest_match_same)
  moreover assume "op \<in> set (get_opcodes a a)"
  ultimately show ?thesis using False by (simp add: get_opcodes_def matching_blocks_def split: if_splits)
qed

lemma only_equal_iff: "(\<forall>op\<in>set (get_opcodes a b). fst op = EqualOp) \<longleftrightarrow> a = b"
proof
  assume eq: "\<forall>op\<in>set (get_opcodes a b). fst op = EqualOp"
  have "before_part a op = after_part b op" if "op \<in> set (get_opcodes a b)" for op
  proof -
    have "proper a b op" "fst op = EqualOp" using that eq get_opcodes_cover(3)[of a b] by (auto simp: list_all_iff)
    then show ?thesis by (cases op) auto
  qed
  then have "map (before_part a) (get_opcodes a b) = map (after_part b) (get_opcodes a b)" by simp
  with get_opcodes_cover(1,2)[of a b] get_opcodes_cover(2)[of b a] show "a = b" by metis
next
  assume "a = b"
  then show "\<forall>op\<in>set (get_opcodes a b). fst op = EqualOp" using get_opcodes_same by blast
qed

end
