(* ===== verification/DocumentDiff.thy ===== *)
theory DocumentDiff
  imports RiskEngine SequenceMatcher
begin

text \<open>
  The document comparison, \<^verbatim>\<open>src/indexguard/detectors/document_diff.py\<close>: normalization that makes
  invisible characters visible, numeric lexemes, and the unit-level diff with its numeric evidence.  The lemmas say
  that a diff is empty exactly for documents with the same normalized units, that no invisible character is dropped,
  and how the diff and the risk engine compose.
\<close>

section \<open>Normalization\<close>

definition normalization_version :: str where
  "normalization_version = u ''nfc-whitespace-visible-controls-v1''"

definition explicit_zero_width_codepoints :: "nat list" where
  "explicit_zero_width_codepoints = [0x034F, 0x180E, 0x200B, 0x200C, 0x200D, 0x2060, 0xFEFF]"

definition bidi_control_classes :: "str list" where
  "bidi_control_classes = [u ''BN'', u ''FSI'', u ''LRE'', u ''LRI'', u ''LRO'', u ''PDF'', u ''PDI'', u ''RLE'', u ''RLI'', u ''RLO'']"

definition is_invisible_control :: "unicode_db \<Rightarrow> nat \<Rightarrow> bool" where
  "is_invisible_control U c \<longleftrightarrow>
     c \<in> set explicit_zero_width_codepoints \<or> uc_category U c \<in> {u ''Cc'', u ''Cf''} \<or>
     uc_bidi U c \<in> set bidi_control_classes"

definition visible_control_token :: "unicode_db \<Rightarrow> nat \<Rightarrow> str" where
  "visible_control_token U c =
     (let name = (case uc_name U c of None \<Rightarrow> u ''UNNAMED_CONTROL'' | Some n \<Rightarrow> n)
      in [0x27E6] @ u ''U+'' @ hex4 c @ [58] @ replace_char 32 95 (replace_char 45 95 name) @ [0x27E7])"

definition visible_part :: "unicode_db \<Rightarrow> nat \<Rightarrow> str" where
  "visible_part U c =
     (if is_invisible_control U c \<and> \<not> is_space c then [32] @ visible_control_token U c @ [32] else [c])"

definition normalize_text :: "unicode_db \<Rightarrow> str \<Rightarrow> str" where
  "normalize_text U text = join [32] (split_ws (concat (map (visible_part U) (uc_nfc U text))))"

section \<open>Numeric values\<close>

definition visible_control_re :: regex where
  "visible_control_re =
     seqs [lit [0x27E6], lit (u ''U+''), Rep (Cls (\<lambda>c. (48 \<le> c \<and> c \<le> 57) \<or> (65 \<le> c \<and> c \<le> 70))) 4 (Some 6), lit [58],
           plus (Cls (\<lambda>c. (65 \<le> c \<and> c \<le> 90) \<or> (48 \<le> c \<and> c \<le> 57) \<or> c = 95)), lit [0x27E7]]"

text \<open>The class \<^verbatim>\<open>[+-\<close>U+2212\<^verbatim>\<open>]\<close> of the pattern is the range from U+002B to U+2212.\<close>

definition sign_class :: "unicode_db \<Rightarrow> regex" where
  "sign_class U = Cls (\<lambda>c. list_ex (uc_same_case U c) [0x2B..<Suc 0x2212])"

definition numeric_unit :: "unicode_db \<Rightarrow> regex" where
  "numeric_unit U =
     (let large = plus (one_of [49901, 48177, 52380, 47564, 50613, 51312, 44221]) in
      alts ([Cat (ilit U (u ''bp'')) (opt (ilit U (u ''s''))), one_of [37, 65285], ilit U [54140, 49468, 53944],
        seqs [large, star space, ilit U [50896]], large]
      @ map (ilit U) [[50896], [45804, 47084], [50976, 47196], [50644], u ''USD'', u ''KRW'', u ''EUR'', u ''JPY'',
          [45380], [44060, 50900], [50900], [51452], [51068], [49884, 44036], [48516], [52488],
          [47749], [44060], [44148], [54924], [48176], [44275], [52264], [45800, 44228], [46321, 44553], [51216], [49464], [54840], [52789], [54168, 51060, 51648],
          u ''TB'', u ''GB'', u ''MB'', u ''KB'', u ''KiB'', u ''MiB'', u ''GiB'']))"

definition numeric_re :: "unicode_db \<Rightarrow> regex" where
  "numeric_re U =
     (let d = Cls (uc_digit U); sep = one_of (u ''-/.'') in
      seqs [NotBehind (uc_word U),
        opt (Cat (one_of [8361, 36, 8364, 165]) (star space)),
        Alt (seqs [Rep d 4 (Some 4), sep, Rep d 1 (Some 2), sep, Rep d 1 (Some 2)])
            (seqs [opt (sign_class U),
               Alt (Cat (Rep d 1 (Some 3)) (plus (Cat (one_of (u '',_'')) (Rep d 3 (Some 3))))) (plus d),
               opt (Cat (lit [46]) (plus d))]),
        opt (Cat (star space) (numeric_unit U))])"

definition extract_numeric_values :: "unicode_db \<Rightarrow> str option \<Rightarrow> str list" where
  "extract_numeric_values U text =
     (case text of
        None \<Rightarrow> []
      | Some t \<Rightarrow>
          let without_control_tokens = sub_all U visible_control_re [32] (normalize_text U t)
          in map strip (findall U (numeric_re U) without_control_tokens))"

section \<open>Units\<close>

record normalized_unit =
  nu_text :: str
  nu_location :: "text_location option"

definition normalized_units :: "unicode_db \<Rightarrow> document_snapshot \<Rightarrow> normalized_unit list" where
  "normalized_units U snapshot =
     (let units = map (\<lambda>x. \<lparr>nu_text = normalize_text U (tu_text x), nu_location = Some (tu_location x)\<rparr>)
            (filter (\<lambda>x. normalize_text U (tu_text x) \<noteq> []) (ds_units snapshot))
      in if units \<noteq> [] then units
         else let fallback_text = normalize_text U (ds_text snapshot)
              in if fallback_text \<noteq> [] then [\<lparr>nu_text = fallback_text, nu_location = None\<rparr>] else [])"

definition joined_text :: "normalized_unit list \<Rightarrow> str option" where
  "joined_text units = (if units = [] then None else Some (join [32] (map nu_text units)))"

definition unit_locations :: "normalized_unit list \<Rightarrow> text_location list" where
  "unit_locations units = concat (map (\<lambda>x. case nu_location x of None \<Rightarrow> [] | Some l \<Rightarrow> [l]) units)"

section \<open>The diff\<close>

definition changed_numeric_values :: "unicode_db \<Rightarrow> str option \<Rightarrow> str option \<Rightarrow> str list \<times> str list" where
  "changed_numeric_values U before_text after_text =
     (let before_values = extract_numeric_values U before_text;
          after_values = extract_numeric_values U after_text;
          ops = filter (\<lambda>op. fst op \<noteq> EqualOp) (get_opcodes before_values after_values)
      in (concat (map (before_part before_values) ops), concat (map (after_part after_values) ops)))"

fun kind_of_tag :: "tag \<Rightarrow> change_kind" where
  "kind_of_tag DeleteOp = DELETE"
| "kind_of_tag InsertOp = ADD"
| "kind_of_tag _ = REPLACE"

definition change_of_opcode :: "normalized_unit list \<Rightarrow> normalized_unit list \<Rightarrow> opcode \<Rightarrow> document_change" where
  "change_of_opcode before_units after_units op =
     (let before_slice = before_part before_units op; after_slice = after_part after_units op
      in \<lparr>dc_kind = kind_of_tag (fst op), dc_before = joined_text before_slice, dc_after = joined_text after_slice,
          dc_before_locations = unit_locations before_slice, dc_after_locations = unit_locations after_slice\<rparr>)"

definition numeric_changes_of :: "unicode_db \<Rightarrow> document_change list \<Rightarrow> numeric_change list" where
  "numeric_changes_of U changes =
     concat (map (\<lambda>(change_index, change).
        let (changed_before, changed_after) = changed_numeric_values U (dc_before change) (dc_after change)
        in if changed_before \<noteq> [] \<or> changed_after \<noteq> []
           then [\<lparr>nc_before = changed_before, nc_after = changed_after, nc_change_index = int change_index\<rparr>] else [])
       (enumerate 0 changes))"

definition diff_documents :: "unicode_db \<Rightarrow> document_snapshot \<Rightarrow> document_snapshot \<Rightarrow> diff_report" where
  "diff_documents U baseline candidate =
     (let before_units = normalized_units U baseline;
          after_units = normalized_units U candidate;
          ops = get_opcodes (map nu_text before_units) (map nu_text after_units);
          changes = map (change_of_opcode before_units after_units) (filter (\<lambda>op. fst op \<noteq> EqualOp) ops)
      in \<lparr>dr_baseline_sha256 = ds_sha256 baseline, dr_candidate_sha256 = ds_sha256 candidate,
          dr_normalization_version = normalization_version, dr_changes = changes,
          dr_numeric_changes = numeric_changes_of U changes\<rparr>)"

section \<open>Splitting at white space\<close>

lemma occurs_in_join: "w \<in> set ws \<Longrightarrow> occurs_in w (join sep ws)"
proof (induction ws)
  case (Cons x ws)
  show ?case
  proof (cases ws)
    case Nil
    with Cons.prems show ?thesis by (auto simp: occurs_in_iff intro: exI[of _ "[]"])
  next
    case (Cons y ys)
    have j: "join sep (x # ws) = x @ sep @ join sep ws" using Cons by simp
    show ?thesis
    proof (cases "w = x")
      case True
      then show ?thesis unfolding j occurs_in_iff by (metis append_Nil)
    next
      case False
      with Cons.prems Cons.IH have "occurs_in w (join sep ws)" by simp
      then show ?thesis unfolding j occurs_in_iff by (metis append.assoc)
    qed
  qed
qed simp

lemma split_ws_from_break: "is_space c \<Longrightarrow> split_ws_from acc (x @ c # y) = split_ws_from acc x @ split_ws_from [] y"
  by (induction acc x rule: split_ws_from.induct) auto

lemma split_ws_from_word: "\<forall>c\<in>set w. \<not> is_space c \<Longrightarrow> split_ws_from acc w = (if rev w @ acc = [] then [] else [rev acc @ w])"
  by (induction acc w rule: split_ws_from.induct) auto

lemma split_ws_word:
  assumes "\<forall>c\<in>set w. \<not> is_space c" "w \<noteq> []"
  shows "w \<in> set (split_ws (x @ [32] @ w @ [32] @ y))"
proof -
  have s: "is_space 32" by (simp add: is_space_def)
  have "split_ws (x @ [32] @ w @ [32] @ y) = split_ws x @ split_ws_from [] (w @ 32 # y)"
    unfolding split_ws_def using split_ws_from_break[OF s, of "[]" x "w @ 32 # y"] by simp
  also have "split_ws_from [] (w @ 32 # y) = [w] @ split_ws_from [] y"
    using split_ws_from_break[OF s, of "[]" w y] split_ws_from_word[OF assms(1), of "[]"] assms(2) by simp
  finally show ?thesis by simp
qed

lemma hex_digits_range: "set (hex_digits n) \<subseteq> {48..57} \<union> {65..70}"
proof (induction n rule: hex_digits.induct)
  case (1 n)
  have d: "set [if n mod 16 < 10 then 48 + n mod 16 else 55 + n mod 16] \<subseteq> {48..57} \<union> {65..70}"
    using mod_less_divisor[of 16 n] by auto
  show ?case
  proof (cases "n < 16")
    case True
    then show ?thesis using d by (subst hex_digits.simps) simp
  next
    case False
    then show ?thesis using 1[OF False] d by (subst hex_digits.simps) simp
  qed
qed

lemma hex4_no_space: "x \<in> set (hex4 c) \<Longrightarrow> \<not> is_space x"
  using hex_digits_range[of c] unfolding hex4_def Let_def by (fastforce simp: is_space_def)

lemma name_no_space:
  assumes "\<And>y. y \<in> set m \<Longrightarrow> is_space y \<Longrightarrow> y = 32" "x \<in> set (replace_char 32 95 (replace_char 45 95 m))"
  shows "\<not> is_space x"
  using assms by (auto simp: replace_char_def is_space_def split: if_splits)

lemma token_no_space:
  assumes "\<And>n x. uc_name U c = Some n \<Longrightarrow> x \<in> set n \<Longrightarrow> is_space x \<Longrightarrow> x = 32"
  shows "\<forall>x\<in>set (visible_control_token U c). \<not> is_space x"
proof -
  define m where "m = (case uc_name U c of None \<Rightarrow> u ''UNNAMED_CONTROL'' | Some n \<Rightarrow> n)"
  have "y = 32" if "y \<in> set m" "is_space y" for y
  proof (cases "uc_name U c")
    case None
    with that show ?thesis unfolding m_def by (auto simp: u_def is_space_def)
  next
    case (Some n)
    with that assms show ?thesis unfolding m_def by auto
  qed
  then have n: "\<not> is_space x" if "x \<in> set (replace_char 32 95 (replace_char 45 95 m))" for x
    using name_no_space[OF _ that] by blast
  have s: "\<not> is_space 0x27E6" "\<not> is_space 0x27E7" "\<not> is_space 58" "\<forall>x\<in>set (u ''U+''). \<not> is_space x"
    by (simp_all add: u_def is_space_def)
  show ?thesis
    unfolding visible_control_token_def Let_def m_def[symmetric] set_append ball_Un
    using hex4_no_space n s by simp
qed

section \<open>The diff and its opcodes\<close>

lemma change_of_opcode_kind:
  assumes "proper (map nu_text b) (map nu_text c) op" "fst op \<noteq> EqualOp"
  shows "(dc_before (change_of_opcode b c op) = None \<longleftrightarrow> dc_kind (change_of_opcode b c op) = ADD) \<and>
    (dc_after (change_of_opcode b c op) = None \<longleftrightarrow> dc_kind (change_of_opcode b c op) = DELETE)"
  using assms by (cases op; cases "fst op") (auto simp: change_of_opcode_def Let_def joined_text_def part_def)

lemma diff_changes_Nil_iff:
  "dr_changes (diff_documents U b c) = [] \<longleftrightarrow> map nu_text (normalized_units U b) = map nu_text (normalized_units U c)"
  using only_equal_iff[of "map nu_text (normalized_units U b)" "map nu_text (normalized_units U c)"]
  by (auto simp: diff_documents_def Let_def filter_empty_conv)

lemma numeric_changes_index:
  assumes "n \<in> set (numeric_changes_of U cs)"
  shows "0 \<le> nc_change_index n \<and> nc_change_index n < int (length cs) \<and> (nc_before n \<noteq> [] \<or> nc_after n \<noteq> []) \<and>
   (nc_before n, nc_after n) = changed_numeric_values U (dc_before (cs ! nat (nc_change_index n))) (dc_after (cs ! nat (nc_change_index n)))"
proof -
  from assms obtain i change where ic: "(i, change) \<in> set (enumerate 0 cs)"
    and n: "n \<in> set (let (changed_before, changed_after) = changed_numeric_values U (dc_before change) (dc_after change)
        in if changed_before \<noteq> [] \<or> changed_after \<noteq> []
           then [\<lparr>nc_before = changed_before, nc_after = changed_after, nc_change_index = int i\<rparr>] else [])"
    unfolding numeric_changes_of_def by (auto simp del: in_set_enumerate_eq)
  obtain x y where cn: "changed_numeric_values U (dc_before change) (dc_after change) = (x, y)" by fastforce
  have i: "i < length cs" "cs ! i = change" using ic by (simp_all add: in_set_enumerate_eq)
  from n have "x \<noteq> [] \<or> y \<noteq> []" "n = \<lparr>nc_before = x, nc_after = y, nc_change_index = int i\<rparr>"
    unfolding cn by (simp_all split: if_splits)
  then show ?thesis using i cn by simp
qed

lemma proper_nonempty:
  assumes "proper a b op"
  shows "before_part a op \<noteq> [] \<or> after_part b op \<noteq> []"
proof -
  obtain t i1 i2 j1 j2 where op: "op = (t, i1, i2, j1, j2)" using prod_cases5 by blast
  show ?thesis using assms unfolding op by (cases t) (auto simp: part_def)
qed

lemma get_opcodes_proper: "op \<in> set (get_opcodes a b) \<Longrightarrow> proper a b op"
  using get_opcodes_cover(3)[of a b] unfolding list_all_iff by blast

lemma only_equal_parts:
  "concat (map (before_part a) (filter (\<lambda>op. fst op \<noteq> EqualOp) (get_opcodes a b))) = [] \<and>
   concat (map (after_part b) (filter (\<lambda>op. fst op \<noteq> EqualOp) (get_opcodes a b))) = [] \<longleftrightarrow> a = b"
proof -
  have c: "concat (map f xs) = [] \<longleftrightarrow> (\<forall>x\<in>set xs. f x = [])" for f :: "opcode \<Rightarrow> 'a list" and xs
    by simp
  show ?thesis
    using only_equal_iff[of a b] proper_nonempty[OF get_opcodes_proper[of _ a b]] unfolding c set_filter by blast
qed

lemma one_sided_opcodes:
  assumes "a = [] \<or> b = []"
  shows "filter (\<lambda>op. fst op \<noteq> EqualOp) (get_opcodes a b) = get_opcodes a b"
proof -
  have "fst op \<noteq> EqualOp" if "op \<in> set (get_opcodes a b)" for op
  proof -
    have "proper a b op" using that by (rule get_opcodes_proper)
    then show ?thesis using assms by (cases op; cases "fst op") (auto simp: part_def)
  qed
  then show ?thesis by simp
qed

lemma extract_none [simp]: "extract_numeric_values U None = []"
  by (simp add: extract_numeric_values_def)

lemma numeric_one_side:
  "changed_numeric_values U None text = ([], extract_numeric_values U text)"
  "changed_numeric_values U text None = (extract_numeric_values U text, [])"
  using get_opcodes_cover(1)[of "[]" "extract_numeric_values U text"]
    get_opcodes_cover(2)[where a = "[]" and b = "extract_numeric_values U text"]
    get_opcodes_cover(1)[of "extract_numeric_values U text" "[]"]
    get_opcodes_cover(2)[where b = "[]" and a = "extract_numeric_values U text"]
  unfolding changed_numeric_values_def Let_def extract_none
  by (simp_all only: one_sided_opcodes simp_thms)

section \<open>Properties\<close>

text \<open>C32: The diff of two documents is empty exactly when they have the same normalized units, in order.\<close>

theorem diff_empty_iff:
  "dr_changes (diff_documents U baseline candidate) = [] \<longleftrightarrow>
   map nu_text (normalized_units U baseline) = map nu_text (normalized_units U candidate)"
  by (rule diff_changes_Nil_iff)

text \<open>The numeric evidence of a change is empty exactly when both texts have the same numbers, in order; the
  evidence before is taken from the text before only, so a text that was not there has none.\<close>

lemma numeric_evidence_empty_iff:
  "(changed_numeric_values U before_text after_text = ([], []) \<longleftrightarrow>
    extract_numeric_values U before_text = extract_numeric_values U after_text) \<and>
   changed_numeric_values U None (Some after) = ([], extract_numeric_values U (Some after)) \<and>
   changed_numeric_values U (Some before) None = (extract_numeric_values U (Some before), [])"
  using only_equal_parts[of "extract_numeric_values U before_text" "extract_numeric_values U after_text"]
  by (simp add: numeric_one_side) (simp add: changed_numeric_values_def Let_def)

text \<open>A diff report is bound to its documents and its evidence is in order: it carries their hashes, an
  ADD has no text before, a DELETE none after, a REPLACE both, and every numeric change names a change of the report and is the
  difference of the numbers of that change's two texts.\<close>

lemma diff_report_sound:
  "dr_baseline_sha256 (diff_documents U b c) = ds_sha256 b \<and> dr_candidate_sha256 (diff_documents U b c) = ds_sha256 c \<and>
   list_all (\<lambda>x. (dc_before x = None \<longleftrightarrow> dc_kind x = ADD) \<and> (dc_after x = None \<longleftrightarrow> dc_kind x = DELETE))
     (dr_changes (diff_documents U b c)) \<and>
   list_all (\<lambda>n. 0 \<le> nc_change_index n \<and> nc_change_index n < int (length (dr_changes (diff_documents U b c))) \<and>
       (nc_before n, nc_after n) = changed_numeric_values U
         (dc_before (dr_changes (diff_documents U b c) ! nat (nc_change_index n)))
         (dc_after (dr_changes (diff_documents U b c) ! nat (nc_change_index n))))
     (dr_numeric_changes (diff_documents U b c))"
proof -
  let ?b = "normalized_units U b" and ?c = "normalized_units U c"
  let ?ops = "get_opcodes (map nu_text ?b) (map nu_text ?c)"
  have ch: "dr_changes (diff_documents U b c) = map (change_of_opcode ?b ?c) (filter (\<lambda>op. fst op \<noteq> EqualOp) ?ops)"
    and nu: "dr_numeric_changes (diff_documents U b c) = numeric_changes_of U (dr_changes (diff_documents U b c))"
    by (simp_all add: diff_documents_def Let_def)
  have "proper (map nu_text ?b) (map nu_text ?c) op" if "op \<in> set ?ops" for op
    using get_opcodes_cover(3)[of "map nu_text ?b" "map nu_text ?c"] that by (auto simp: list_all_iff)
  then have "list_all (\<lambda>x. (dc_before x = None \<longleftrightarrow> dc_kind x = ADD) \<and> (dc_after x = None \<longleftrightarrow> dc_kind x = DELETE))
     (dr_changes (diff_documents U b c))"
    unfolding ch list_all_iff using change_of_opcode_kind by fastforce
  moreover have "list_all (\<lambda>n. 0 \<le> nc_change_index n \<and> nc_change_index n < int (length (dr_changes (diff_documents U b c))) \<and>
       (nc_before n, nc_after n) = changed_numeric_values U
         (dc_before (dr_changes (diff_documents U b c) ! nat (nc_change_index n)))
         (dc_after (dr_changes (diff_documents U b c) ! nat (nc_change_index n))))
     (dr_numeric_changes (diff_documents U b c))"
    unfolding nu list_all_iff using numeric_changes_index by blast
  ultimately show ?thesis by (simp add: diff_documents_def Let_def)
qed

text \<open>Nothing is hidden from the diff: every invisible control character of a text shows up in the
  normalized text as its visible token (for a Unicode database whose names have no white space but the space).\<close>

lemma invisible_characters_shown:
  "\<lbrakk>\<And>n x. uc_name U c = Some n \<Longrightarrow> x \<in> set n \<Longrightarrow> is_space x \<Longrightarrow> x = 32;
    c \<in> set (uc_nfc U text); is_invisible_control U c; \<not> is_space c\<rbrakk> \<Longrightarrow>
   occurs_in (visible_control_token U c) (normalize_text U text)"
proof -
  assume h: "\<And>n x. uc_name U c = Some n \<Longrightarrow> x \<in> set n \<Longrightarrow> is_space x \<Longrightarrow> x = 32"
    "c \<in> set (uc_nfc U text)" "is_invisible_control U c" "\<not> is_space c"
  then obtain xs ys where "uc_nfc U text = xs @ c # ys" by (meson split_list)
  with h(3,4) have "concat (map (visible_part U) (uc_nfc U text)) =
      concat (map (visible_part U) xs) @ [32] @ visible_control_token U c @ [32] @ concat (map (visible_part U) ys)"
    by (simp add: visible_part_def)
  moreover have "visible_control_token U c \<noteq> []" by (simp add: visible_control_token_def Let_def)
  ultimately show ?thesis
    unfolding normalize_text_def using split_ws_word[OF token_no_space[OF h(1)]] by (intro occurs_in_join) auto
qed

lemma invisible_characters_shown_witness:
  "occurs_in (visible_control_token ascii_db 0x200B) (normalize_text ascii_db [112, 0x200B, 113])"
  by (rule invisible_characters_shown)
     (simp_all add: ascii_db_def is_invisible_control_def explicit_zero_width_codepoints_def is_space_def)

text \<open>C31: The comparison and the risk engine together: for an analysis whose diff is the one of its two
  snapshots, the engine answers ALLOW, with any judge, only if both have the same normalized units and the
  candidate shows no artifact and no hidden unit.\<close>

theorem engine_allows_only_unchanged:
  "case engine_analyzer U judge name
       (build_request E (p\<lparr>pa_diff := diff_documents U (pa_baseline p) (pa_candidate p)\<rparr>) rid now) of
     Inl e \<Rightarrow> True
   | Inr s \<Rightarrow>
       if po_decision (sb_policy s) = ALLOW
       then map nu_text (normalized_units U (pa_baseline p)) = map nu_text (normalized_units U (pa_candidate p)) \<and>
         ds_artifacts (pa_candidate p) = [] \<and>
         filter (\<lambda>x. tu_visibility x = HIDDEN_SUSPECTED) (ds_units (pa_candidate p)) = []
       else True"
proof -
  let ?rq = "build_request E (p\<lparr>pa_diff := diff_documents U (pa_baseline p) (pa_candidate p)\<rparr>) rid now"
  have "nothing_to_assess ?rq \<Longrightarrow> map nu_text (normalized_units U (pa_baseline p)) = map nu_text (normalized_units U (pa_candidate p)) \<and>
         ds_artifacts (pa_candidate p) = [] \<and>
         filter (\<lambda>x. tu_visibility x = HIDDEN_SUSPECTED) (ds_units (pa_candidate p)) = []"
    using diff_changes_Nil_iff[of U "pa_baseline p" "pa_candidate p"]
    by (simp add: nothing_to_assess_def build_request_def hidden_units_def)
  then show ?thesis using allow_nothing_to_assess[of U judge name ?rq] by (auto split: sum.splits)
qed

end
