(* ===== verification/Paths.thy ===== *)
theory Paths
  imports Prelude
begin

text \<open>
  The lexical part of Python's \<^verbatim>\<open>pathlib\<close> the code uses, on POSIX paths: components, suffix, joining.
\<close>

text \<open>\<^verbatim>\<open>PurePosixPath(s).parts\<close> without the root: empty components and single dots are dropped.\<close>

definition path_parts :: "str \<Rightarrow> str list" where
  "path_parts s = filter (\<lambda>c. c \<noteq> [] \<and> c \<noteq> [46]) (split_on 47 s)"

definition is_absolute :: "str \<Rightarrow> bool" where
  "is_absolute s \<longleftrightarrow> prefixes_str [47] s"

definition dot_dot :: str where
  "dot_dot = [46, 46]"

text \<open>\<^verbatim>\<open>.suffix\<close>: from the last dot of the name, unless that dot is its first or last character.\<close>

definition name_suffix :: "str \<Rightarrow> str" where
  "name_suffix name =
     (let tail = rev (takeWhile (\<lambda>c. c \<noteq> 46) (rev name))
      in if tail \<noteq> [] \<and> Suc (length tail) < length name then 46 # tail else [])"

definition last_part :: "str \<Rightarrow> str" where
  "last_part s = (case rev (path_parts s) of [] \<Rightarrow> [] | c # cs \<Rightarrow> c)"

definition path_suffix :: "str \<Rightarrow> str" where
  "path_suffix s = name_suffix (last_part s)"

text \<open>\<^verbatim>\<open>str(root / relative)\<close> for a resolved root.\<close>

definition path_join :: "str \<Rightarrow> str \<Rightarrow> str" where
  "path_join root relative = (if root = [47] then root @ relative else root @ 47 # relative)"

lemma name_suffix_cases: "name_suffix n = [] \<or> (\<exists>t. name_suffix n = 46 # t \<and> t \<noteq> [] \<and> 46 \<notin> set t)"
proof -
  have "46 \<notin> set (rev (takeWhile (\<lambda>c. c \<noteq> 46) (rev n)))" using set_takeWhileD by fastforce
  then show ?thesis by (auto simp: name_suffix_def Let_def)
qed

end
