(* ===== verification/Utf8.thy ===== *)
theory Utf8
  imports Prelude
begin

text \<open>
  Python's UTF-8 codec with the error handlers the program uses: \<^verbatim>\<open>strict\<close>, \<^verbatim>\<open>replace\<close> and
  \<^verbatim>\<open>surrogateescape\<close>.  The decoder cuts its input into well-formed sequences and maximal ill-formed
  parts, as CPython does.  The lemmas say that both directions undo each other.
\<close>

type_synonym bytes = "nat list"

section \<open>Encoding\<close>

definition surrogate :: "nat \<Rightarrow> bool" where
  "surrogate c \<longleftrightarrow> 0xD800 \<le> c \<and> c \<le> 0xDFFF"

definition utf8_char :: "nat \<Rightarrow> bytes" where
  "utf8_char c =
     (if c < 0x80 then [c]
      else if c < 0x800 then [0xC0 + c div 0x40, 0x80 + c mod 0x40]
      else if c < 0x10000 then [0xE0 + c div 0x1000, 0x80 + c div 0x40 mod 0x40, 0x80 + c mod 0x40]
      else [0xF0 + c div 0x40000, 0x80 + c div 0x1000 mod 0x40, 0x80 + c div 0x40 mod 0x40, 0x80 + c mod 0x40])"

text \<open>\<^verbatim>\<open>s.encode("utf-8")\<close>; \<open>None\<close> is the \<^verbatim>\<open>UnicodeEncodeError\<close> for a lone surrogate.\<close>

definition encode_strict :: "str \<Rightarrow> bytes option" where
  "encode_strict s = (if list_ex surrogate s then None else Some (concat (map utf8_char s)))"

text \<open>\<^verbatim>\<open>s.encode("utf-8", errors="surrogateescape")\<close>.\<close>

definition escaped :: "nat \<Rightarrow> bool" where
  "escaped c \<longleftrightarrow> 0xDC80 \<le> c \<and> c \<le> 0xDCFF"

definition encode_escape :: "str \<Rightarrow> bytes option" where
  "encode_escape s =
     (if list_ex (\<lambda>c. surrogate c \<and> \<not> escaped c) s then None
      else Some (concat (map (\<lambda>c. if escaped c then [c - 0xDC00] else utf8_char c) s)))"

section \<open>Decoding\<close>

definition continuation :: "nat \<Rightarrow> bool" where
  "continuation b \<longleftrightarrow> 0x80 \<le> b \<and> b < 0xC0"

text \<open>The second byte of a sequence of three or four: no overlong form, no surrogate, nothing above U+10FFFF.\<close>

definition second_byte :: "nat \<Rightarrow> nat \<Rightarrow> bool" where
  "second_byte b0 b1 \<longleftrightarrow>
     continuation b1 \<and> (b0 = 0xE0 \<longrightarrow> 0xA0 \<le> b1) \<and> (b0 = 0xED \<longrightarrow> b1 < 0xA0) \<and>
     (b0 = 0xF0 \<longrightarrow> 0x90 \<le> b1) \<and> (b0 = 0xF4 \<longrightarrow> b1 < 0x90)"

text \<open>The code point the bytes begin with, or none, and how many bytes that takes.\<close>

definition utf8_two :: "nat \<Rightarrow> bytes \<Rightarrow> nat option \<times> nat" where
  "utf8_two b0 bs =
     (case bs of
        b1 # _ \<Rightarrow> if continuation b1 then (Some ((b0 - 0xC0) * 0x40 + (b1 - 0x80)), 2) else (None, 1)
      | [] \<Rightarrow> (None, 1))"

definition utf8_three :: "nat \<Rightarrow> bytes \<Rightarrow> nat option \<times> nat" where
  "utf8_three b0 bs =
     (case bs of
        b1 # b2 # _ \<Rightarrow>
          if \<not> second_byte b0 b1 then (None, 1)
          else if continuation b2
            then (Some ((b0 - 0xE0) * 0x1000 + (b1 - 0x80) * 0x40 + (b2 - 0x80)), 3) else (None, 2)
      | [b1] \<Rightarrow> if second_byte b0 b1 then (None, 2) else (None, 1)
      | [] \<Rightarrow> (None, 1))"

definition utf8_four :: "nat \<Rightarrow> bytes \<Rightarrow> nat option \<times> nat" where
  "utf8_four b0 bs =
     (case bs of
        b1 # b2 # b3 # _ \<Rightarrow>
          if \<not> second_byte b0 b1 then (None, 1)
          else if \<not> continuation b2 then (None, 2)
          else if continuation b3
            then (Some ((b0 - 0xF0) * 0x40000 + (b1 - 0x80) * 0x1000 + (b2 - 0x80) * 0x40 + (b3 - 0x80)), 4)
            else (None, 3)
      | [b1, b2] \<Rightarrow> if \<not> second_byte b0 b1 then (None, 1) else if continuation b2 then (None, 3) else (None, 2)
      | [b1] \<Rightarrow> if second_byte b0 b1 then (None, 2) else (None, 1)
      | [] \<Rightarrow> (None, 1))"

definition utf8_step :: "nat \<Rightarrow> bytes \<Rightarrow> nat option \<times> nat" where
  "utf8_step b0 bs =
     (if b0 < 0x80 then (Some b0, 1)
      else if b0 < 0xC2 then (None, 1)
      else if b0 < 0xE0 then utf8_two b0 bs
      else if b0 < 0xF0 then utf8_three b0 bs
      else if b0 < 0xF5 then utf8_four b0 bs
      else (None, 1))"

lemmas utf8_step_defs = utf8_step_def utf8_two_def utf8_three_def utf8_four_def

function utf8_parts :: "bytes \<Rightarrow> (nat option \<times> bytes) list" where
  "utf8_parts [] = []"
| "utf8_parts (b # bs) =
     (case utf8_step b bs of (c, n) \<Rightarrow> (c, b # take (n - 1) bs) # utf8_parts (drop (n - 1) bs))"
  by pat_completeness auto
termination
  by (relation "measure length") auto

definition decode_strict :: "bytes \<Rightarrow> str option" where
  "decode_strict bs = those (map fst (utf8_parts bs))"

definition decode_with :: "(bytes \<Rightarrow> str) \<Rightarrow> bytes \<Rightarrow> str" where
  "decode_with handler bs =
     concat (map (\<lambda>(c, part). case c of Some x \<Rightarrow> [x] | None \<Rightarrow> handler part) (utf8_parts bs))"

definition decode_replace :: "bytes \<Rightarrow> str" where
  "decode_replace = decode_with (\<lambda>part. [0xFFFD])"

definition decode_escape :: "bytes \<Rightarrow> str" where
  "decode_escape = decode_with (map (\<lambda>b. 0xDC00 + b))"

section \<open>Decoding undoes encoding\<close>

text \<open>Six-bit digits.\<close>

lemma six_bits: "\<exists>q r. (c::nat) = 64 * q + r \<and> r < 64"
  by (rule exI[of _ "c div 64"], rule exI[of _ "c mod 64"]) simp

lemma six_div_mod: "r < 64 \<Longrightarrow> (64 * q + r) div 64 = q \<and> (64 * q + r) mod 64 = (r::nat)"
  by simp

lemma utf8_char_two: "r < 64 \<Longrightarrow> 2 \<le> x \<Longrightarrow> x < 32 \<Longrightarrow> utf8_char (64 * x + r) = [0xC0 + x, 0x80 + r]"
  by (simp add: utf8_char_def)

lemma utf8_char_three:
  assumes "y < 64" "z < 64" "x < 16" "x = 0 \<Longrightarrow> 32 \<le> y"
  shows "utf8_char (64 * (64 * x + y) + z) = [0xE0 + x, 0x80 + y, 0x80 + z]"
proof -
  let ?c = "64 * (64 * x + y) + z"
  have "?c div 0x40 = 64 * x + y" "?c mod 0x40 = z" using six_div_mod[OF assms(2)] by blast+
  moreover from this have "?c div 0x1000 = x" using assms(1) div_mult2_eq[of ?c 64 64] by simp
  moreover have "\<not> ?c < 0x800" using assms(4) by (cases x) auto
  moreover have "?c < 0x10000" using assms(1-3) by simp
  ultimately show ?thesis using assms(1) by (simp add: utf8_char_def)
qed

lemma utf8_char_four:
  assumes "y < 64" "z < 64" "w < 64" "x < 5" "x = 0 \<Longrightarrow> 16 \<le> y"
  shows "utf8_char (64 * (64 * (64 * x + y) + z) + w) = [0xF0 + x, 0x80 + y, 0x80 + z, 0x80 + w]"
proof -
  let ?c = "64 * (64 * (64 * x + y) + z) + w"
  have d: "?c div 0x40 = 64 * (64 * x + y) + z" "?c mod 0x40 = w" using six_div_mod[OF assms(3)] by blast+
  have e: "?c div 0x1000 = 64 * x + y" using d(1) div_mult2_eq[of ?c 64 64] assms(2) by simp
  have "?c div 0x40000 = x" using e div_mult2_eq[of ?c "0x1000" 64] assms(1) by simp
  moreover have "?c div 0x40 mod 0x40 = z" "?c div 0x1000 mod 0x40 = y"
    unfolding d(1) e using six_div_mod[OF assms(2)] six_div_mod[OF assms(1)] by blast+
  ultimately have "[0xF0 + ?c div 0x40000, 0x80 + ?c div 0x1000 mod 0x40, 0x80 + ?c div 0x40 mod 0x40, 0x80 + ?c mod 0x40] =
      [0xF0 + x, 0x80 + y, 0x80 + z, 0x80 + w]"
    unfolding d(2) by (simp only:)
  moreover have "\<not> ?c < 0x10000" using assms by (cases x) auto
  ultimately show ?thesis unfolding utf8_char_def by auto
qed

lemma utf8_step_encoded:
  assumes "\<not> surrogate c" "c < 0x110000"
  shows "\<exists>b bs. utf8_char c = b # bs \<and> utf8_step b (bs @ rest) = (Some c, Suc (length bs))"
proof -
  obtain q r where c: "c = 64 * q + r" "r < 64" using six_bits by blast
  obtain q1 r1 where q: "q = 64 * q1 + r1" "r1 < 64" using six_bits by blast
  obtain x y where q1: "q1 = 64 * x + y" "y < 64" using six_bits by blast
  consider "c < 0x80" | "0x80 \<le> c" "q < 32" | "32 \<le> q" "q1 < 16" | "16 \<le> q1" by linarith
  then show ?thesis
  proof cases
    case 1
    then show ?thesis by (simp add: utf8_char_def utf8_step_def)
  next
    case 2
    then have "2 \<le> q" using c by simp
    with 2 c show ?thesis
      by (simp add: utf8_char_two utf8_step_def utf8_two_def continuation_def)
  next
    case 3
    have u: "utf8_char c = [0xE0 + q1, 0x80 + r1, 0x80 + r]"
      unfolding c(1) q(1) by (rule utf8_char_three) (use c q 3 in auto)
    have "second_byte (0xE0 + q1) (0x80 + r1)"
      using c q 3 assms(1) by (auto simp: second_byte_def continuation_def surrogate_def)
    then have "utf8_step (0xE0 + q1) ([0x80 + r1, 0x80 + r] @ rest) = (Some c, 3)"
      using c q 3 by (simp add: utf8_step_def utf8_three_def continuation_def)
    with u show ?thesis by (intro exI[of _ "0xE0 + q1"] exI[of _ "[0x80 + r1, 0x80 + r]"]) simp
  next
    case 4
    then have x: "x < 5" "x = 0 \<Longrightarrow> 16 \<le> y" using assms(2) c q q1 by auto
    have u: "utf8_char c = [0xF0 + x, 0x80 + y, 0x80 + r1, 0x80 + r]"
      unfolding c(1) q(1) q1(1) by (rule utf8_char_four) (use c q q1 x in auto)
    have "second_byte (0xF0 + x) (0x80 + y)"
      using c q q1 x assms(2) by (auto simp: second_byte_def continuation_def)
    then have "utf8_step (0xF0 + x) ([0x80 + y, 0x80 + r1, 0x80 + r] @ rest) = (Some c, 4)"
      using c q q1 x by (simp add: utf8_step_def utf8_four_def continuation_def)
    with u show ?thesis by (intro exI[of _ "0xF0 + x"] exI[of _ "[0x80 + y, 0x80 + r1, 0x80 + r]"]) simp
  qed
qed

lemma utf8_parts_encoded:
  assumes "\<not> surrogate c" "c < 0x110000"
  shows "utf8_parts (utf8_char c @ rest) = (Some c, utf8_char c) # utf8_parts rest"
proof -
  obtain b bs where "utf8_char c = b # bs" "utf8_step b (bs @ rest) = (Some c, Suc (length bs))"
    using utf8_step_encoded[OF assms] by blast
  then show ?thesis by simp
qed

lemma decode_encode_strict:
  "encode_strict s = Some bs \<Longrightarrow> \<forall>c\<in>set s. c < 0x110000 \<Longrightarrow> decode_strict bs = Some s"
proof (induction s arbitrary: bs)
  case Nil
  then show ?case by (simp add: encode_strict_def decode_strict_def)
next
  case (Cons c s)
  then have c: "\<not> surrogate c" "c < 0x110000" and s: "encode_strict s = Some (concat (map utf8_char s))"
    and bs: "bs = utf8_char c @ concat (map utf8_char s)"
    by (auto simp: encode_strict_def split: if_splits)
  from Cons.IH[OF s] Cons.prems(2) have "decode_strict (concat (map utf8_char s)) = Some s" by simp
  then show ?case unfolding bs decode_strict_def utf8_parts_encoded[OF c] by simp
qed

section \<open>Encoding undoes decoding\<close>

text \<open>A part with a code point is its encoding; a part without one has no byte of ASCII.\<close>

lemma continuation_digit: "continuation b \<Longrightarrow> \<exists>x. b = 0x80 + x \<and> x < 64"
  unfolding continuation_def by (rule exI[of _ "b - 0x80"]) auto

lemma utf8_two_decoded:
  assumes "utf8_two b bs = (Some c, n)" "0xC2 \<le> b" "b < 0xE0"
  shows "\<not> surrogate c \<and> c < 0x110000 \<and> utf8_char c = b # take (n - 1) bs"
proof -
  from assms(1) obtain b1 bs' where bs: "bs = b1 # bs'" and k: "continuation b1" and n: "n = 2"
    and c: "c = (b - 0xC0) * 0x40 + (b1 - 0x80)"
    by (auto simp: utf8_two_def split: list.splits if_splits)
  from k obtain r where r: "b1 = 0x80 + r" "r < 64" using continuation_digit by blast
  have "utf8_char (64 * (b - 0xC0) + r) = [0xC0 + (b - 0xC0), 0x80 + r]" using assms r by (intro utf8_char_two) auto
  moreover have "c = 64 * (b - 0xC0) + r" using c r by simp
  moreover have "b - 0xC0 < 32" using assms(2,3) by simp
  ultimately show ?thesis using bs n r assms(2,3) by (auto simp: surrogate_def)
qed

lemma utf8_three_decoded:
  assumes "utf8_three b bs = (Some c, n)" "0xE0 \<le> b" "b < 0xF0"
  shows "\<not> surrogate c \<and> c < 0x110000 \<and> utf8_char c = b # take (n - 1) bs"
proof -
  from assms(1) obtain b1 b2 bs' where bs: "bs = b1 # b2 # bs'" and k: "second_byte b b1" "continuation b2" and n: "n = 3"
    and c: "c = (b - 0xE0) * 0x1000 + (b1 - 0x80) * 0x40 + (b2 - 0x80)"
    by (auto simp: utf8_three_def split: list.splits if_splits)
  from k obtain y where y: "b1 = 0x80 + y" "y < 64" using continuation_digit by (auto simp: second_byte_def)
  from k obtain z where z: "b2 = 0x80 + z" "z < 64" using continuation_digit by blast
  obtain x where x: "b = 0xE0 + x" "x < 16" using assms(2,3) by (metis add_less_cancel_left le_Suc_ex numeral_plus_numeral add_num_simps)
  have cc: "c = 64 * (64 * x + y) + z" using c x y z by simp
  have "utf8_char c = [0xE0 + x, 0x80 + y, 0x80 + z]"
    unfolding cc by (rule utf8_char_three) (use k x y z in \<open>auto simp: second_byte_def\<close>)
  moreover have "\<not> surrogate c"
  proof (cases "x = 13")
    case True
    with k x y have "y < 32" by (simp add: second_byte_def)
    with True z show ?thesis by (simp add: cc surrogate_def)
  next
    case False
    then have "x < 13 \<or> 14 \<le> x" by linarith
    with y z show ?thesis by (auto simp: cc surrogate_def)
  qed
  moreover have "c < 0x110000" using cc x y z by simp
  ultimately show ?thesis using bs n x y z by simp
qed

lemma utf8_four_decoded:
  assumes "utf8_four b bs = (Some c, n)" "0xF0 \<le> b" "b < 0xF5"
  shows "\<not> surrogate c \<and> c < 0x110000 \<and> utf8_char c = b # take (n - 1) bs"
proof -
  from assms(1) obtain b1 b2 b3 bs' where bs: "bs = b1 # b2 # b3 # bs'"
    and k: "second_byte b b1" "continuation b2" "continuation b3" and n: "n = 4"
    and c: "c = (b - 0xF0) * 0x40000 + (b1 - 0x80) * 0x1000 + (b2 - 0x80) * 0x40 + (b3 - 0x80)"
    by (auto simp: utf8_four_def split: list.splits if_splits)
  from k obtain y where y: "b1 = 0x80 + y" "y < 64" using continuation_digit by (auto simp: second_byte_def)
  from k obtain z where z: "b2 = 0x80 + z" "z < 64" using continuation_digit by blast
  from k obtain w where w: "b3 = 0x80 + w" "w < 64" using continuation_digit by blast
  obtain x where x: "b = 0xF0 + x" "x < 5" using assms(2,3) by (metis add_less_cancel_left le_Suc_ex numeral_plus_numeral add_num_simps)
  have cc: "c = 64 * (64 * (64 * x + y) + z) + w" using c x y z w by simp
  have lo: "x = 0 \<Longrightarrow> 16 \<le> y" and hi: "x = 4 \<Longrightarrow> y < 16" using k x y by (auto simp: second_byte_def)
  have "utf8_char c = [0xF0 + x, 0x80 + y, 0x80 + z, 0x80 + w]"
    unfolding cc by (rule utf8_char_four) (use lo x y z w in auto)
  moreover have "0x10000 \<le> c" using lo cc by (cases x) auto
  moreover have "c < 0x110000" using hi cc x y z w by (cases "x = 4") auto
  ultimately show ?thesis using bs n x y z w by (simp add: surrogate_def)
qed

lemma utf8_step_decoded:
  assumes "utf8_step b bs = (Some c, n)"
  shows "\<not> surrogate c \<and> c < 0x110000 \<and> utf8_char c = b # take (n - 1) bs"
proof -
  consider "b < 0x80" | "utf8_two b bs = (Some c, n)" "0xC2 \<le> b" "b < 0xE0"
    | "utf8_three b bs = (Some c, n)" "0xE0 \<le> b" "b < 0xF0" | "utf8_four b bs = (Some c, n)" "0xF0 \<le> b" "b < 0xF5"
    using assms by (auto simp: utf8_step_def split: if_splits)
  then show ?thesis
  proof cases
    case 1
    with assms show ?thesis by (simp add: utf8_step_def surrogate_def utf8_char_def)
  next
    case 2
    then show ?thesis by (rule utf8_two_decoded)
  next
    case 3
    then show ?thesis by (rule utf8_three_decoded)
  next
    case 4
    then show ?thesis by (rule utf8_four_decoded)
  qed
qed

lemma utf8_step_ill_formed:
  "utf8_step b bs = (None, n) \<Longrightarrow> \<forall>x\<in>set (b # take (n - 1) bs). 0x80 \<le> x"
  unfolding utf8_step_defs second_byte_def continuation_def
  by (auto split: if_splits list.splits)

lemma escaped_part:
  "\<forall>x\<in>set p. 0x80 \<le> x \<and> x < 0x100 \<Longrightarrow>
   concat (map (\<lambda>c. if escaped c then [c - 0xDC00] else utf8_char c) (map (\<lambda>b. 0xDC00 + b) p)) = p"
  by (induction p) (auto simp: escaped_def)

lemma encode_escape_append:
  "encode_escape a = Some x \<Longrightarrow> encode_escape b = Some y \<Longrightarrow> encode_escape (a @ b) = Some (x @ y)"
  by (auto simp: encode_escape_def split: if_splits)

lemma encode_decode_escape:
  "\<forall>b\<in>set bs. b < 0x100 \<Longrightarrow> encode_escape (decode_escape bs) = Some bs"
proof (induction bs rule: utf8_parts.induct)
  case 1
  then show ?case by (simp add: decode_escape_def decode_with_def encode_escape_def)
next
  case (2 b bs)
  obtain c n where s: "utf8_step b bs = (c, n)" by fastforce
  let ?part = "b # take (n - 1) bs" and ?rest = "drop (n - 1) bs"
  have "\<forall>b\<in>set ?rest. b < 0x100" using 2(2) by (auto dest: in_set_dropD)
  from 2(1)[OF s[symmetric] this] have rest: "encode_escape (decode_escape ?rest) = Some ?rest" .
  define front where "front = (case c of Some x \<Rightarrow> [x] | None \<Rightarrow> map (\<lambda>b. 0xDC00 + b) ?part)"
  have dec: "decode_escape (b # bs) = front @ decode_escape ?rest"
    using s by (simp add: decode_escape_def decode_with_def front_def cong: option.case_cong)
  have "encode_escape front = Some ?part"
  proof (cases c)
    case (Some x)
    with s utf8_step_decoded have x: "\<not> surrogate x" "utf8_char x = ?part" by blast+
    then have "\<not> escaped x" by (auto simp: surrogate_def escaped_def)
    with x Some show ?thesis by (simp add: front_def encode_escape_def)
  next
    case None
    have p: "\<forall>x\<in>set ?part. 0x80 \<le> x \<and> x < 0x100"
      using utf8_step_ill_formed[of b bs n] s None 2(2) by (auto dest: in_set_takeD)
    then have "\<not> list_ex (\<lambda>c. surrogate c \<and> \<not> escaped c) front"
      unfolding front_def None option.case list_ex_iff by (auto simp: escaped_def)
    then show ?thesis
      using escaped_part[OF p] by (simp add: encode_escape_def front_def None del: list.map list.simps)
  qed
  from encode_escape_append[OF this rest] show ?case unfolding dec by simp
qed

text \<open>What a decoder with a handler returns: well-formed text is decoded as it is, and nothing gets longer.\<close>

lemma decode_with_strict: "decode_strict bs = Some s \<Longrightarrow> decode_with h bs = s"
proof (induction bs arbitrary: s rule: utf8_parts.induct)
  case (2 b bs)
  obtain c n where st: "utf8_step b bs = (c, n)" by fastforce
  with 2(2) obtain x s' where "c = Some x" "s = x # s'" "decode_strict (drop (n - 1) bs) = Some s'"
    by (auto simp: decode_strict_def split: option.splits)
  with 2(1)[OF st[symmetric]] st show ?case by (simp add: decode_with_def)
qed (simp add: decode_with_def decode_strict_def)

lemma decode_replace_length: "length (decode_replace bs) \<le> length bs"
proof (induction bs rule: utf8_parts.induct)
  case (2 b bs)
  obtain c n where st: "utf8_step b bs = (c, n)" by fastforce
  from 2[OF st[symmetric]] have "length (decode_replace (drop (n - 1) bs)) \<le> length bs" by simp
  with st show ?case by (simp add: decode_replace_def decode_with_def split: option.splits)
qed (simp add: decode_replace_def decode_with_def)

end
