(* ===== verification/GitWatcher.thy ===== *)
theory GitWatcher
  imports Complex_Main Contracts Paths Utf8
begin

text \<open>
  The Git watcher, \<^verbatim>\<open>src/indexguard/git_watcher.py\<close>: a bounded snapshot of a working tree's staged, unstaged and
  untracked changes, its digest, and the loop that emits an event whenever the digest changes.  The answers of the
  \<^verbatim>\<open>git\<close> processes are a function of their arguments, one for each poll (all calls of a poll have different
  arguments, so the repository may change between any two of them).
\<close>

section \<open>Snapshots and events\<close>

definition default_max_patch_bytes :: int where "default_max_patch_bytes = 1024 * 1024"

definition supported_document_extensions :: "str list" where
  "supported_document_extensions = [u ''.docx'', u ''.hwpx'', u ''.pdf'']"

datatype git_event_type = SNAPSHOT | DIRTY | DIFF_CHANGED | CLEAN | HEAD_CHANGED

fun git_event_type_value :: "git_event_type \<Rightarrow> str" where
  "git_event_type_value SNAPSHOT = u ''SNAPSHOT''"
| "git_event_type_value DIRTY = u ''DIRTY''"
| "git_event_type_value DIFF_CHANGED = u ''DIFF_CHANGED''"
| "git_event_type_value CLEAN = u ''CLEAN''"
| "git_event_type_value HEAD_CHANGED = u ''HEAD_CHANGED''"

record git_snapshot =
  gs_repository_root :: str
  gs_head_sha :: "str option"
  gs_branch :: "str option"
  gs_staged_files :: "str list"
  gs_unstaged_files :: "str list"
  gs_untracked_files :: "str list"
  gs_changed_files :: "str list"
  gs_supported_document_files :: "str list"
  gs_staged_patch :: str
  gs_unstaged_patch :: str
  gs_patch_truncated :: bool
  gs_dirty :: bool
  gs_digest :: str

definition json_strings :: "str list \<Rightarrow> json" where
  "json_strings xs = JArr (map JStr xs)"

definition json_optional :: "str option \<Rightarrow> json" where
  "json_optional x = (case x of None \<Rightarrow> JNull | Some s \<Rightarrow> JStr s)"

definition git_snapshot_dict :: "git_snapshot \<Rightarrow> json" where
  "git_snapshot_dict s =
     JObj [(u ''branch'', json_optional (gs_branch s)), (u ''changed_files'', json_strings (gs_changed_files s)),
           (u ''digest'', JStr (gs_digest s)), (u ''dirty'', JBool (gs_dirty s)),
           (u ''head_sha'', json_optional (gs_head_sha s)), (u ''patch_truncated'', JBool (gs_patch_truncated s)),
           (u ''repository_root'', JStr (gs_repository_root s)), (u ''staged_files'', json_strings (gs_staged_files s)),
           (u ''staged_patch'', JStr (gs_staged_patch s)),
           (u ''supported_document_files'', json_strings (gs_supported_document_files s)),
           (u ''unstaged_files'', json_strings (gs_unstaged_files s)), (u ''unstaged_patch'', JStr (gs_unstaged_patch s)),
           (u ''untracked_files'', json_strings (gs_untracked_files s))]"

record git_event =
  ge_type :: git_event_type
  ge_detected_at :: str
  ge_previous_digest :: "str option"
  ge_snapshot :: git_snapshot

definition git_event_dict :: "git_event \<Rightarrow> json" where
  "git_event_dict e =
     JObj [(u ''detected_at'', JStr (ge_detected_at e)), (u ''previous_digest'', json_optional (ge_previous_digest e)),
           (u ''snapshot'', git_snapshot_dict (ge_snapshot e)), (u ''type'', JStr (git_event_type_value (ge_type e)))]"

section \<open>Running git\<close>

datatype process_result = ProcessError err | NotFound | TimeoutExpired | Completed int bytes bytes

record repository_view =
  rv_git :: "str \<Rightarrow> str list \<Rightarrow> process_result"
  rv_resolve :: "str \<Rightarrow> str res"
  rv_is_dir :: "str \<Rightarrow> bool"

definition run_git :: "repository_view \<Rightarrow> str \<Rightarrow> str list \<Rightarrow> bool \<Rightarrow> bytes res" where
  "run_git R root_path arguments check =
     (case rv_git R root_path ([u ''git'', u ''-c'', u ''core.quotepath=false''] @ arguments) of
        ProcessError e \<Rightarrow> Inl e
      | NotFound \<Rightarrow> Inl GitWatcherError
      | TimeoutExpired \<Rightarrow> Inl GitWatcherError
      | Completed returncode stdout stderr \<Rightarrow>
          if check \<and> returncode \<noteq> 0 then Inl GitWatcherError else Inr stdout)"

definition optional_git_text :: "repository_view \<Rightarrow> str \<Rightarrow> str list \<Rightarrow> str option res" where
  "optional_git_text R root_path arguments =
     (case run_git R root_path arguments False of
        Inl e \<Rightarrow> Inl e
      | Inr output \<Rightarrow> (let value = strip (decode_replace output) in Inr (if value = [] then None else Some value)))"

definition unicode_decode_error :: err where
  "unicode_decode_error = OtherError (u ''UnicodeDecodeError'')"

definition repository_root :: "repository_view \<Rightarrow> str \<Rightarrow> str res" where
  "repository_root R repository =
     (case rv_resolve R repository of
        Inl e \<Rightarrow> Inl e
      | Inr candidate \<Rightarrow>
          if \<not> rv_is_dir R candidate then Inl GitWatcherError
          else (case run_git R candidate [u ''rev-parse'', u ''--show-toplevel''] True of
                  Inl e \<Rightarrow> Inl e
                | Inr output \<Rightarrow>
                    (case decode_strict output of
                       None \<Rightarrow> Inl unicode_decode_error
                     | Some text \<Rightarrow>
                         (case rv_resolve R (strip text) of
                            Inl e \<Rightarrow> Inl (if is_os_error e then GitWatcherError else e)
                          | Inr root_path \<Rightarrow> if rv_is_dir R root_path then Inr root_path else Inl GitWatcherError))))"

definition nul_paths :: "bytes \<Rightarrow> str list" where
  "nul_paths output = sort (map decode_escape (filter (\<lambda>part. part \<noteq> []) (split_on 0 output)))"

definition truncation_marker :: str where
  "truncation_marker = [10] @ u ''... [IndexGuard patch truncated]'' @ [10]"

definition bounded_patch :: "bytes \<Rightarrow> nat \<Rightarrow> str \<times> bool" where
  "bounded_patch output limit =
     (let truncated = length output > limit;
          text = decode_replace (take limit output)
      in (if truncated then text @ truncation_marker else text, truncated))"

section \<open>The digest\<close>

text \<open>\<^verbatim>\<open>n.to_bytes(8, "big")\<close>, which raises \<^verbatim>\<open>OverflowError\<close> for more than 64 bits.\<close>

primrec big_endian :: "nat \<Rightarrow> nat \<Rightarrow> bytes" where
  "big_endian 0 n = []"
| "big_endian (Suc k) n = big_endian k (n div 256) @ [n mod 256]"

definition length_prefixed :: "bytes \<Rightarrow> bytes res" where
  "length_prefixed b =
     (if length b < 2 ^ 64 then Inr (big_endian 8 (length b) @ b) else Inl (OtherError (u ''OverflowError'')))"

fun digest_fields :: "bytes option list \<Rightarrow> bytes res" where
  "digest_fields [] = Inr []"
| "digest_fields (b # bs) =
     (case b of
        None \<Rightarrow> Inl (OtherError (u ''UnicodeEncodeError''))
      | Some x \<Rightarrow>
          (case length_prefixed x of
             Inl e \<Rightarrow> Inl e
           | Inr p \<Rightarrow> (case digest_fields bs of Inl e \<Rightarrow> Inl e | Inr ps \<Rightarrow> Inr (p @ ps))))"

definition or_blank :: "str option \<Rightarrow> str" where
  "or_blank x = (case x of None \<Rightarrow> [] | Some s \<Rightarrow> s)"

definition snapshot_digest ::
  "env \<Rightarrow> str option \<Rightarrow> str option \<Rightarrow> str list \<Rightarrow> str list \<Rightarrow> str list \<Rightarrow> bytes \<Rightarrow> bytes \<Rightarrow> str res" where
  "snapshot_digest E head_sha branch staged_files unstaged_files untracked_files staged_patch unstaged_patch =
     (let values = [or_blank head_sha, or_blank branch] @ staged_files @ unstaged_files @ untracked_files
      in (case digest_fields (map encode_escape values @ [Some staged_patch, Some unstaged_patch]) of
            Inl e \<Rightarrow> Inl e
          | Inr content \<Rightarrow> Inr (en_sha_bytes E content)))"

section \<open>Capturing a snapshot\<close>

record git_outputs =
  go_root :: str
  go_head_sha :: "str option"
  go_branch :: "str option"
  go_unstaged_patch :: bytes
  go_staged_patch :: bytes
  go_unstaged :: bytes
  go_staged :: bytes
  go_untracked :: bytes

definition inspect_repository :: "repository_view \<Rightarrow> str \<Rightarrow> git_outputs res" where
  "inspect_repository R repository =
     bindR (repository_root R repository) (\<lambda>root_path.
     bindR (optional_git_text R root_path [u ''rev-parse'', u ''--verify'', u ''HEAD'']) (\<lambda>head_sha.
     bindR (optional_git_text R root_path [u ''symbolic-ref'', u ''--quiet'', u ''--short'', u ''HEAD'']) (\<lambda>branch.
     bindR (run_git R root_path [u ''diff'', u ''--no-ext-diff'', u ''--no-textconv'', u ''--unified=3'', u ''--''] True) (\<lambda>unstaged_patch.
     bindR (run_git R root_path [u ''diff'', u ''--cached'', u ''--no-ext-diff'', u ''--no-textconv'', u ''--unified=3'', u ''--''] True) (\<lambda>staged_patch.
     bindR (run_git R root_path [u ''diff'', u ''--name-only'', u ''-z'', u ''--no-ext-diff'', u ''--no-textconv'', u ''--''] True) (\<lambda>unstaged.
     bindR (run_git R root_path [u ''diff'', u ''--cached'', u ''--name-only'', u ''-z'', u ''--no-ext-diff'', u ''--no-textconv'', u ''--''] True) (\<lambda>staged.
     bindR (run_git R root_path [u ''ls-files'', u ''--others'', u ''--exclude-standard'', u ''-z'', u ''--''] True) (\<lambda>untracked.
     Inr \<lparr>go_root = root_path, go_head_sha = head_sha, go_branch = branch, go_unstaged_patch = unstaged_patch,
          go_staged_patch = staged_patch, go_unstaged = unstaged, go_staged = staged, go_untracked = untracked\<rparr>))))))))"

definition snapshot_of :: "env \<Rightarrow> nat \<Rightarrow> git_outputs \<Rightarrow> git_snapshot res" where
  "snapshot_of E max_patch_bytes out =
     (let unstaged_files = nul_paths (go_unstaged out);
          staged_files = nul_paths (go_staged out);
          untracked_files = nul_paths (go_untracked out);
          changed_files = sort (remdups (staged_files @ unstaged_files @ untracked_files));
          supported = filter (\<lambda>p. lower (en_udb E) (path_suffix p) \<in> set supported_document_extensions) changed_files;
          staged_patch = bounded_patch (go_staged_patch out) max_patch_bytes;
          unstaged_patch = bounded_patch (go_unstaged_patch out) max_patch_bytes
      in bindR (snapshot_digest E (go_head_sha out) (go_branch out) staged_files unstaged_files untracked_files
                  (go_staged_patch out) (go_unstaged_patch out)) (\<lambda>digest.
         Inr \<lparr>gs_repository_root = go_root out, gs_head_sha = go_head_sha out, gs_branch = go_branch out,
              gs_staged_files = staged_files, gs_unstaged_files = unstaged_files, gs_untracked_files = untracked_files,
              gs_changed_files = changed_files, gs_supported_document_files = supported,
              gs_staged_patch = fst staged_patch, gs_unstaged_patch = fst unstaged_patch,
              gs_patch_truncated = (snd staged_patch \<or> snd unstaged_patch),
              gs_dirty = (changed_files \<noteq> []), gs_digest = digest\<rparr>))"

definition capture_git_diff :: "env \<Rightarrow> repository_view \<Rightarrow> str \<Rightarrow> int \<Rightarrow> rat \<Rightarrow> git_snapshot res" where
  "capture_git_diff E R repository max_patch_bytes timeout_seconds =
     (if max_patch_bytes \<le> 0 then Inl ValueError
      else if timeout_seconds \<le> 0 then Inl ValueError
      else bindR (inspect_repository R repository) (snapshot_of E (nat max_patch_bytes)))"

section \<open>The monitor\<close>

definition event_type :: "git_snapshot option \<Rightarrow> git_snapshot \<Rightarrow> bool \<Rightarrow> git_event_type option" where
  "event_type previous current emit_initial =
     (case previous of
        None \<Rightarrow> if gs_dirty current then Some DIRTY else if emit_initial then Some SNAPSHOT else None
      | Some p \<Rightarrow>
          if gs_digest p = gs_digest current then None
          else if gs_dirty p \<and> \<not> gs_dirty current then Some CLEAN
          else if \<not> gs_dirty p \<and> gs_dirty current then Some DIRTY
          else if \<not> gs_dirty p \<and> \<not> gs_dirty current then Some HEAD_CHANGED
          else Some DIFF_CHANGED)"

record git_monitor =
  gm_repository :: str
  gm_emit_initial :: bool
  gm_max_patch_bytes :: int
  gm_timeout_seconds :: rat
  gm_previous :: "git_snapshot option"

definition git_monitor_init :: "str \<Rightarrow> bool \<Rightarrow> int \<Rightarrow> rat \<Rightarrow> git_monitor" where
  "git_monitor_init repository emit_initial max_patch_bytes timeout_seconds =
     \<lparr>gm_repository = repository, gm_emit_initial = emit_initial, gm_max_patch_bytes = max_patch_bytes,
      gm_timeout_seconds = timeout_seconds, gm_previous = None\<rparr>"

definition poll :: "env \<Rightarrow> repository_view \<Rightarrow> str \<Rightarrow> (git_monitor, git_event option) op" where
  "poll E R now m =
     (case capture_git_diff E R (gm_repository m) (gm_max_patch_bytes m) (gm_timeout_seconds m) of
        Inl e \<Rightarrow> (Inl e, m)
      | Inr snapshot \<Rightarrow>
          let event = map_option
                (\<lambda>t. \<lparr>ge_type = t, ge_detected_at = now,
                      ge_previous_digest = map_option gs_digest (gm_previous m), ge_snapshot = snapshot\<rparr>)
                (event_type (gm_previous m) snapshot (gm_emit_initial m))
          in (Inr event, m\<lparr>gm_previous := Some snapshot\<rparr>))"

text \<open>
  The loop of \<^verbatim>\<open>watch_git_diff\<close>.  Cycle \<open>i\<close> sees the repository \<open>wv_view i\<close> at the time \<open>wv_now i\<close>; \<open>wv_set i\<close> is the
  stop event at the head of the cycle, \<open>wv_wait i\<close> the result of waiting after it, and \<open>callback\<close> may raise.  The
  result is the list of yielded events and the exception that ended the loop, if any; \<open>None\<close> is a loop without end.
\<close>

record watch_view =
  wv_view :: "nat \<Rightarrow> repository_view"
  wv_now :: "nat \<Rightarrow> str"
  wv_set :: "nat \<Rightarrow> bool"
  wv_wait :: "nat \<Rightarrow> bool"
  wv_callback :: "git_event \<Rightarrow> err option"

definition emitted :: "watch_view \<Rightarrow> git_event option \<Rightarrow> git_event list \<times> err option" where
  "emitted W event =
     (case event of
        None \<Rightarrow> ([], None)
      | Some e \<Rightarrow> (case wv_callback W e of Some x \<Rightarrow> ([], Some x) | None \<Rightarrow> ([e], None)))"

partial_function (option) watch_loop ::
  "env \<Rightarrow> watch_view \<Rightarrow> nat option \<Rightarrow> nat \<Rightarrow> git_monitor \<Rightarrow> (git_event list \<times> err option) option" where
  "watch_loop E W max_cycles cycles m =
     (if wv_set W cycles then Some ([], None)
      else
        case poll E (wv_view W cycles) (wv_now W cycles) m of
          (Inl e, m') \<Rightarrow> Some ([], Some e)
        | (Inr event, m') \<Rightarrow>
            (case emitted W event of
               (events, Some x) \<Rightarrow> Some (events, Some x)
             | (events, None) \<Rightarrow>
                 if (case max_cycles of None \<Rightarrow> False | Some n \<Rightarrow> n \<le> Suc cycles) then Some (events, None)
                 else if wv_wait W cycles then Some (events, None)
                 else Option.bind (watch_loop E W max_cycles (Suc cycles) m')
                        (\<lambda>(later, x). Some (events @ later, x))))"

definition watch_git_diff ::
  "env \<Rightarrow> watch_view \<Rightarrow> str \<Rightarrow> rat \<Rightarrow> int option \<Rightarrow> bool \<Rightarrow> int \<Rightarrow> rat \<Rightarrow> (git_event list \<times> err option) option" where
  "watch_git_diff E W repository interval_seconds max_cycles emit_initial max_patch_bytes timeout_seconds =
     (if interval_seconds \<le> 0 then Some ([], Some ValueError)
      else if (case max_cycles of None \<Rightarrow> False | Some n \<Rightarrow> n \<le> 0) then Some ([], Some ValueError)
      else watch_loop E W (map_option nat max_cycles) 0
             (git_monitor_init repository emit_initial max_patch_bytes timeout_seconds))"

section \<open>The watch loop\<close>

definition linked :: "git_event \<Rightarrow> git_event \<Rightarrow> bool" where
  "linked e f \<longleftrightarrow> ge_previous_digest f = Some (gs_digest (ge_snapshot e)) \<and>
     gs_digest (ge_snapshot f) \<noteq> gs_digest (ge_snapshot e)"

text \<open>The events follow a snapshot: the first one names its digest and has another.\<close>

definition follows :: "git_snapshot option \<Rightarrow> git_event list \<Rightarrow> bool" where
  "follows previous events \<longleftrightarrow>
     successively linked events \<and>
     (case (previous, events) of
        (Some p, e # _) \<Rightarrow> ge_previous_digest e = Some (gs_digest p) \<and> gs_digest (ge_snapshot e) \<noteq> gs_digest p
      | _ \<Rightarrow> True)"

lemma follows_Nil [simp]: "follows p []"
  by (simp add: follows_def split: option.splits)

lemma follows_Some_Cons:
  "follows (Some p) (e # es) \<longleftrightarrow> ge_previous_digest e = Some (gs_digest p) \<and> gs_digest (ge_snapshot e) \<noteq> gs_digest p \<and>
     follows (Some (ge_snapshot e)) es"
  by (cases es) (auto simp: follows_def linked_def)

lemma follows_None_Cons: "follows None (e # es) \<longleftrightarrow> follows (Some (ge_snapshot e)) es"
  by (cases es) (auto simp: follows_def linked_def)

lemma follows_same_digest: "gs_digest p = gs_digest q \<Longrightarrow> follows (Some p) es = follows (Some q) es"
  by (simp add: follows_def split: list.splits)

lemma follows_None: "follows (Some p) es \<Longrightarrow> follows None es"
  by (simp add: follows_def)

lemma poll_follows:
  assumes "poll E R now m = (Inr event, m')" "follows (gm_previous m') later"
  shows "follows (gm_previous m) ((case event of None \<Rightarrow> [] | Some e \<Rightarrow> [e]) @ later)"
proof -
  from assms(1) obtain s where s: "capture_git_diff E R (gm_repository m) (gm_max_patch_bytes m) (gm_timeout_seconds m) = Inr s"
    and ev: "event = map_option (\<lambda>t. \<lparr>ge_type = t, ge_detected_at = now,
        ge_previous_digest = map_option gs_digest (gm_previous m), ge_snapshot = s\<rparr>)
      (event_type (gm_previous m) s (gm_emit_initial m))" and m': "gm_previous m' = Some s"
    by (auto simp: poll_def Let_def split: sum.splits)
  show ?thesis
  proof (cases "gm_previous m")
    case None
    then show ?thesis using assms(2) ev m' follows_None
      by (cases "event_type None s (gm_emit_initial m)") (auto simp: follows_None_Cons)
  next
    case (Some p)
    then show ?thesis using assms(2) ev m' follows_same_digest[of p s]
      by (cases "gs_digest p = gs_digest s") (auto simp: event_type_def follows_Some_Cons)
  qed
qed

lemma emitted_cases:
  "emitted W event = (events, x) \<Longrightarrow>
   (x = None \<and> events = (case event of None \<Rightarrow> [] | Some e \<Rightarrow> [e])) \<or> events = []"
  by (auto simp: emitted_def split: option.splits)

lemma poll_follows_end: "poll E R now m = (Inr event, m') \<Longrightarrow> follows (gm_previous m) (case event of None \<Rightarrow> [] | Some e \<Rightarrow> [e])"
  using poll_follows[of E R now m event m' "[]"] by simp

lemma watch_loop_follows:
  assumes "watch_loop E W n cycles m = Some r"
  shows "follows (gm_previous m) (fst r)"
  using assms
proof (induction E W n cycles m r rule: watch_loop.raw_induct[rotated, consumes 1])
  case (1 loop E W n cycles m r)
  note run = 1(2)
  show ?case
  proof (cases "wv_set W cycles")
    case True
    with run show ?thesis by auto
  next
    case False
    obtain x m' where p: "poll E (wv_view W cycles) (wv_now W cycles) m = (x, m')" by fastforce
    show ?thesis
    proof (cases x)
      case (Inl e)
      with run False p show ?thesis by auto
    next
      case (Inr event)
      obtain events y where em: "emitted W event = (events, y)" by fastforce
      show ?thesis
      proof (cases y)
        case (Some e)
        with run False p Inr em have "fst r = events" by auto
        moreover have "events = []" using emitted_cases[OF em] Some by simp
        ultimately show ?thesis by simp
      next
        case None
        have e: "events = (case event of None \<Rightarrow> [] | Some e \<Rightarrow> [e]) \<or> events = []" using emitted_cases[OF em] by blast
        let ?stop = "(case n of None \<Rightarrow> False | Some k \<Rightarrow> k \<le> Suc cycles) \<or> wv_wait W cycles"
        show ?thesis
        proof (cases ?stop)
          case True
          then have "Some r = Some (events, None)" using run False p Inr em None by (simp split: if_splits)
          then have "fst r = events" by simp
          then show ?thesis using e poll_follows_end[OF p[unfolded Inr]] by auto
        next
          case going: False
          then obtain later z where l: "loop E W n (Suc cycles) m' = Some (later, z)" "r = (events @ later, z)"
            using run False p Inr em None by (auto simp: bind_eq_Some_conv split: if_splits)
          have "follows (gm_previous m') later" using 1(1)[OF l(1)] by simp
          moreover have "events = (case event of None \<Rightarrow> [] | Some e \<Rightarrow> [e])"
            using emitted_cases[OF em] None em by (auto simp: emitted_def split: option.splits)
          ultimately show ?thesis using poll_follows[OF p[unfolded Inr]] l(2) by simp
        qed
      qed
    qed
  qed
qed

lemma emitted_length: "emitted W event = (events, x) \<Longrightarrow> length events \<le> 1"
  by (auto simp: emitted_def split: option.splits)

lemma watch_loop_ends:
  "cycles < n \<Longrightarrow> \<exists>es x. watch_loop E W (Some n) cycles m = Some (es, x) \<and> length es \<le> n - cycles"
proof (induction "n - cycles" arbitrary: cycles m)
  case (Suc d)
  note step = watch_loop.simps[of E W "Some n" cycles m]
  show ?case
  proof (cases "wv_set W cycles")
    case True
    then show ?thesis by (simp add: step)
  next
    case False
    obtain x m' where p: "poll E (wv_view W cycles) (wv_now W cycles) m = (x, m')" by fastforce
    show ?thesis
    proof (cases x)
      case (Inl e)
      with False p show ?thesis by (simp add: step)
    next
      case (Inr event)
      obtain events y where em: "emitted W event = (events, y)" by fastforce
      have len: "length events \<le> 1" by (rule emitted_length[OF em])
      show ?thesis
      proof (cases "y \<noteq> None \<or> n \<le> Suc cycles \<or> wv_wait W cycles")
        case True
        with False p Inr em len Suc.prems show ?thesis by (cases y) (auto simp: step)
      next
        case going: False
        then obtain es z where "watch_loop E W (Some n) (Suc cycles) m' = Some (es, z)" "length es \<le> n - Suc cycles"
          using Suc.hyps(1)[of "Suc cycles" m'] Suc.hyps(2) by fastforce
        with going False p Inr em len Suc.prems show ?thesis by (auto simp: step)
      qed
    qed
  qed
qed simp

section \<open>What a snapshot holds\<close>

lemma capture_cases:
  assumes "capture_git_diff E R repository n t = Inr s"
  obtains out where "0 < n" "inspect_repository R repository = Inr out" "snapshot_of E (nat n) out = Inr s"
  using assms by (auto simp: capture_git_diff_def bindR_Inr_iff split: if_splits)

definition clean_text :: "str \<Rightarrow> bool" where
  "clean_text s \<longleftrightarrow> (\<forall>c\<in>set s. \<not> surrogate c \<and> c < 0x110000)"

definition byte_string :: "bytes \<Rightarrow> bool" where
  "byte_string bs \<longleftrightarrow> (\<forall>b\<in>set bs. b < 0x100)"

definition bytes_view :: "repository_view \<Rightarrow> bool" where
  "bytes_view R \<longleftrightarrow> (\<forall>d arguments n out err. rv_git R d arguments = Completed n out err \<longrightarrow> byte_string out)"

lemma bytes_viewD: "bytes_view R \<Longrightarrow> rv_git R d arguments = Completed n out err \<Longrightarrow> byte_string out"
  unfolding bytes_view_def by blast

lemma run_git_bytes: "bytes_view R \<Longrightarrow> run_git R d arguments check = Inr out \<Longrightarrow> byte_string out"
  by (auto simp: run_git_def split: process_result.splits if_splits dest: bytes_viewD)

lemma decode_replace_clean: "clean_text (decode_replace bs)"
proof (induction bs rule: utf8_parts.induct)
  case (2 b bs)
  obtain c n where s: "utf8_step b bs = (c, n)" by fastforce
  with 2[OF s[symmetric]] utf8_step_decoded[of b bs _ n] show ?case
    by (cases c) (auto simp: clean_text_def decode_replace_def decode_with_def surrogate_def)
qed (simp add: clean_text_def decode_replace_def decode_with_def)

lemma clean_strip: "clean_text s \<Longrightarrow> clean_text (strip s)"
proof -
  assume "clean_text s"
  moreover obtain a b where "s = a @ strip s @ b" using strip_decomp by blast
  then have "set (strip s) \<subseteq> set s" by (metis le_sup_iff set_append sup_ge1 sup_ge2)
  ultimately show ?thesis by (auto simp: clean_text_def)
qed

lemma optional_text_clean: "optional_git_text R d arguments = Inr x \<Longrightarrow> clean_text (or_blank x)"
  by (auto simp: optional_git_text_def or_blank_def Let_def clean_strip decode_replace_clean clean_text_def[of "[]"]
      split: sum.splits if_splits)

lemma inspect_bytes:
  assumes "inspect_repository R repository = Inr out" "bytes_view R"
  shows "clean_text (or_blank (go_head_sha out))" "clean_text (or_blank (go_branch out))"
    "byte_string (go_unstaged out)" "byte_string (go_staged out)" "byte_string (go_untracked out)"
proof -
  from assms(1) obtain root_path hs br up sp un st tr where r:
    "optional_git_text R root_path [u ''rev-parse'', u ''--verify'', u ''HEAD''] = Inr hs"
    "optional_git_text R root_path [u ''symbolic-ref'', u ''--quiet'', u ''--short'', u ''HEAD''] = Inr br"
    "run_git R root_path [u ''diff'', u ''--name-only'', u ''-z'', u ''--no-ext-diff'', u ''--no-textconv'', u ''--''] True = Inr un"
    "run_git R root_path [u ''diff'', u ''--cached'', u ''--name-only'', u ''-z'', u ''--no-ext-diff'', u ''--no-textconv'', u ''--''] True = Inr st"
    "run_git R root_path [u ''ls-files'', u ''--others'', u ''--exclude-standard'', u ''-z'', u ''--''] True = Inr tr"
    "\<lparr>go_root = root_path, go_head_sha = hs, go_branch = br, go_unstaged_patch = up,
      go_staged_patch = sp, go_unstaged = un, go_staged = st, go_untracked = tr\<rparr> = out"
    unfolding inspect_repository_def bindR_Inr_iff sum.inject by blast
  show "clean_text (or_blank (go_head_sha out))" "clean_text (or_blank (go_branch out))"
    "byte_string (go_unstaged out)" "byte_string (go_staged out)" "byte_string (go_untracked out)"
    unfolding r(6)[symmetric]
    using optional_text_clean[OF r(1)] optional_text_clean[OF r(2)] run_git_bytes[OF assms(2) r(3)]
      run_git_bytes[OF assms(2) r(4)] run_git_bytes[OF assms(2) r(5)] by simp_all
qed

section \<open>Equal digests\<close>

lemma big_endian_length [simp]: "length (big_endian k n) = k"
  by (induction k arbitrary: n) simp_all

lemma big_endian_Nil [simp]: "big_endian k n = [] \<longleftrightarrow> k = 0"
  by (metis big_endian_length length_0_conv)

lemma big_endian_inj: "\<lbrakk>big_endian k n = big_endian k m; n < 256 ^ k; m < 256 ^ k\<rbrakk> \<Longrightarrow> n = m"
proof (induction k arbitrary: n m)
  case (Suc k)
  then have "n div 256 = m div 256" by (intro Suc.IH) (auto simp: less_mult_imp_div_less mult.commute)
  moreover have "n mod 256 = m mod 256" using Suc.prems(1) by simp
  ultimately show ?case by (metis div_mod_decomp)
qed simp

lemma digest_fields_inj:
  "\<lbrakk>digest_fields xs = Inr c; digest_fields ys = Inr c\<rbrakk> \<Longrightarrow> xs = ys"
proof (induction xs arbitrary: ys c)
  case Nil
  then show ?case by (cases ys) (auto simp: length_prefixed_def split: option.splits sum.splits if_splits)
next
  case (Cons x xs)
  from Cons.prems(1) obtain a p where x: "x = Some a" "length a < 2 ^ 64" "digest_fields xs = Inr p"
    and c: "c = big_endian 8 (length a) @ a @ p"
    by (auto simp: length_prefixed_def split: option.splits sum.splits if_splits)
  from Cons.prems(2) c obtain y ys' where ys: "ys = y # ys'" by (cases ys) (auto simp: length_prefixed_def)
  from Cons.prems(2) ys obtain b q where y: "y = Some b" "length b < 2 ^ 64" "digest_fields ys' = Inr q"
    and c': "c = big_endian 8 (length b) @ b @ q"
    by (auto simp: length_prefixed_def split: option.splits sum.splits if_splits)
  have e: "big_endian 8 (length a) = big_endian 8 (length b)" "a @ p = b @ q"
    using c c' by (metis append_eq_append_conv big_endian_length)+
  have "length a = length b" using big_endian_inj[OF e(1)] x(2) y(2) by simp
  with e(2) have "a = b" "p = q" by simp_all
  with Cons.IH[OF x(3)] y(3) x(1) y(1) ys show ?case by simp
qed

lemma encode_clean_inj:
  assumes "clean_text s" "clean_text t" "encode_escape s = encode_escape t"
  shows "s = t"
proof -
  have e: "encode_escape x = encode_strict x \<and> (\<exists>bs. encode_strict x = Some bs)" if "clean_text x" for x
  proof -
    have n: "\<not> list_ex surrogate x" "\<not> list_ex (\<lambda>c. surrogate c \<and> \<not> escaped c) x"
      using that by (auto simp: clean_text_def list_ex_iff)
    have "\<forall>c\<in>set x. \<not> escaped c" using that by (auto simp: clean_text_def surrogate_def escaped_def)
    then have m: "map (\<lambda>c. if escaped c then [c - 0xDC00] else utf8_char c) x = map utf8_char x" by simp
    show ?thesis unfolding encode_escape_def encode_strict_def m using n by simp
  qed
  from e[OF assms(1)] obtain bs where bs: "encode_strict s = Some bs" by blast
  then have "encode_strict t = Some bs" using e[OF assms(1)] e[OF assms(2)] assms(3) by simp
  with bs assms(1,2) have "decode_strict bs = Some s" "decode_strict bs = Some t"
    by (auto intro: decode_encode_strict simp: clean_text_def)
  then show ?thesis by simp
qed

lemma nul_paths_decoded:
  assumes "byte_string out" "p \<in> set (nul_paths out)"
  shows "\<exists>bs. byte_string bs \<and> p = decode_escape bs"
proof -
  from assms(2) obtain bs where bs: "p = decode_escape bs" "bs \<in> set (split_on 0 out)" by (auto simp: nul_paths_def)
  from split_on_subset[OF bs(2)] bs(1) assms(1) show ?thesis by (auto simp: byte_string_def)
qed

lemma encode_paths_inj:
  assumes "\<forall>p\<in>set ps. \<exists>bs. byte_string bs \<and> p = decode_escape bs" "\<forall>p\<in>set qs. \<exists>bs. byte_string bs \<and> p = decode_escape bs"
    "map encode_escape ps = map encode_escape qs"
  shows "ps = qs"
proof (rule nth_equalityI)
  from assms(3) show l: "length ps = length qs" by (rule map_eq_imp_length_eq)
  fix i
  assume i: "i < length ps"
  with assms(1) obtain a where a: "byte_string a" "ps ! i = decode_escape a" by (meson nth_mem)
  from i l assms(2) obtain b where b: "byte_string b" "qs ! i = decode_escape b" by (metis nth_mem)
  have "encode_escape (ps ! i) = encode_escape (qs ! i)" using assms(3) i l by (metis nth_map)
  then show "ps ! i = qs ! i" using a b encode_decode_escape by (simp add: byte_string_def)
qed

lemma snapshot_digest_inj:
  assumes "snapshot_digest E h b st un tr p q = Inr d" "snapshot_digest E h' b' st' un' tr' p' q' = Inr d"
    "\<forall>x y. en_sha_bytes E x = en_sha_bytes E y \<longrightarrow> x = y"
  shows "map encode_escape ([or_blank h, or_blank b] @ st @ un @ tr) = map encode_escape ([or_blank h', or_blank b'] @ st' @ un' @ tr') \<and>
    p = p' \<and> q = q'"
proof -
  let ?f = "\<lambda>h b st un tr p q. map encode_escape ([or_blank h, or_blank b] @ st @ un @ tr) @ [Some p, Some q]"
  from assms(1) obtain c where c: "digest_fields (?f h b st un tr p q) = Inr c" "d = en_sha_bytes E c"
    by (auto simp: snapshot_digest_def Let_def split: sum.splits)
  from assms(2) obtain c' where c': "digest_fields (?f h' b' st' un' tr' p' q') = Inr c'" "d = en_sha_bytes E c'"
    by (auto simp: snapshot_digest_def Let_def split: sum.splits)
  from c(2) c'(2) assms(3) have "c = c'" by blast
  with digest_fields_inj[OF c(1)] c'(1) have "?f h b st un tr p q = ?f h' b' st' un' tr' p' q'" by blast
  then have "map encode_escape ([or_blank h, or_blank b] @ st @ un @ tr) = map encode_escape ([or_blank h', or_blank b'] @ st' @ un' @ tr') \<and>
      [Some p, Some q] = [Some p', Some q']"
    by (subst (asm) append_eq_append_conv) simp_all
  then show ?thesis by simp
qed

text \<open>Two snapshots show the same change; which of the three lists names a file is left open.\<close>

definition same_change :: "git_snapshot \<Rightarrow> git_snapshot \<Rightarrow> bool" where
  "same_change s t \<longleftrightarrow>
     or_blank (gs_head_sha s) = or_blank (gs_head_sha t) \<and> or_blank (gs_branch s) = or_blank (gs_branch t) \<and>
     gs_staged_files s @ gs_unstaged_files s @ gs_untracked_files s = gs_staged_files t @ gs_unstaged_files t @ gs_untracked_files t \<and>
     gs_changed_files s = gs_changed_files t \<and> gs_supported_document_files s = gs_supported_document_files t \<and>
     gs_staged_patch s = gs_staged_patch t \<and> gs_unstaged_patch s = gs_unstaged_patch t \<and>
     gs_patch_truncated s = gs_patch_truncated t \<and> gs_dirty s = gs_dirty t"

lemma snapshot_of_fields:
  assumes "snapshot_of E n out = Inr s"
  shows "gs_head_sha s = go_head_sha out" "gs_branch s = go_branch out"
    "gs_staged_files s = nul_paths (go_staged out)" "gs_unstaged_files s = nul_paths (go_unstaged out)"
    "gs_untracked_files s = nul_paths (go_untracked out)"
    "gs_changed_files s = sort (remdups (gs_staged_files s @ gs_unstaged_files s @ gs_untracked_files s))"
    "gs_supported_document_files s =
       filter (\<lambda>p. lower (en_udb E) (path_suffix p) \<in> set supported_document_extensions) (gs_changed_files s)"
    "gs_staged_patch s = fst (bounded_patch (go_staged_patch out) n)"
    "gs_unstaged_patch s = fst (bounded_patch (go_unstaged_patch out) n)"
    "gs_patch_truncated s = (n < length (go_staged_patch out) \<or> n < length (go_unstaged_patch out))"
    "gs_dirty s = (gs_changed_files s \<noteq> [])"
    "snapshot_digest E (go_head_sha out) (go_branch out) (nul_paths (go_staged out)) (nul_paths (go_unstaged out))
       (nul_paths (go_untracked out)) (go_staged_patch out) (go_unstaged_patch out) = Inr (gs_digest s)"
  using assms by (auto simp: snapshot_of_def bindR_Inr_iff bounded_patch_def Let_def)

lemma bounded_patch_length: "length (fst (bounded_patch output n)) \<le> n + length truncation_marker"
  using decode_replace_length[of "take n output"] decode_replace_length[of "output"]
  by (cases "n < length output") (simp_all add: bounded_patch_def Let_def)

section \<open>Properties\<close>

text \<open>The events a watch yields form a chain: each names as its previous digest the digest of the snapshot of the
  event before it and has another digest itself, so a consumer that keeps the last event is never told of a change twice
  and never misses one between two events.\<close>

lemma watch_events_chained:
  "case watch_git_diff E W repository interval max_cycles emit_initial max_patch timeout of
     None \<Rightarrow> True
   | Some (events, x) \<Rightarrow>
       successively (\<lambda>e f. ge_previous_digest f = Some (gs_digest (ge_snapshot e)) \<and>
         gs_digest (ge_snapshot f) \<noteq> gs_digest (ge_snapshot e)) events"
proof (cases "watch_git_diff E W repository interval max_cycles emit_initial max_patch timeout")
  case (Some r)
  have "follows None (fst r)"
    using watch_loop_follows[of E W "map_option nat max_cycles" 0 "git_monitor_init repository emit_initial max_patch timeout" r] Some
    by (auto simp: watch_git_diff_def git_monitor_init_def split: if_splits)
  then have "successively linked (fst r)" by (simp add: follows_def)
  then show ?thesis using Some by (cases r) (simp add: linked_def[abs_def])
qed simp

text \<open>With \<^verbatim>\<open>max_cycles\<close> a watch ends, with at most that many events, whatever git answers, the callback raises or the
  stop event does.\<close>

lemma bounded_watch_ends:
  "\<exists>events x. watch_git_diff E W repository interval (Some n) emit_initial max_patch timeout = Some (events, x) \<and>
     length events \<le> nat n"
  using watch_loop_ends[of 0 "nat n" E W "git_monitor_init repository emit_initial max_patch timeout"]
  by (auto simp: watch_git_diff_def)

text \<open>A snapshot is bounded and consistent: the changed files are the sorted union of the three lists, the tree is
  dirty iff there is one, the supported documents are among them, and each patch text has at most the
  limit's characters and the marker of truncation.\<close>

lemma snapshot_bounded:
  "case capture_git_diff E R repository max_patch timeout of
     Inl e \<Rightarrow> True
   | Inr s \<Rightarrow>
       set (gs_changed_files s) = set (gs_staged_files s) \<union> set (gs_unstaged_files s) \<union> set (gs_untracked_files s) \<and>
       sorted (gs_changed_files s) \<and> distinct (gs_changed_files s) \<and> (gs_dirty s \<longleftrightarrow> gs_changed_files s \<noteq> []) \<and>
       set (gs_supported_document_files s) \<subseteq> set (gs_changed_files s) \<and>
       length (gs_staged_patch s) \<le> nat max_patch + length truncation_marker \<and>
       length (gs_unstaged_patch s) \<le> nat max_patch + length truncation_marker"
proof (cases "capture_git_diff E R repository max_patch timeout")
  case (Inr s)
  then show ?thesis
  proof (rule capture_cases)
    fix out
    assume "snapshot_of E (nat max_patch) out = Inr s"
    note f = snapshot_of_fields[OF this]
    show ?thesis unfolding Inr sum.case f(7) f(8) f(9) f(11) using bounded_patch_length by (auto simp: f(6))
  qed
qed simp


text \<open>A repository whose only change is one new file, untracked or staged.\<close>

definition one_change :: "bool \<Rightarrow> repository_view" where
  "one_change staged =
     \<lparr>rv_git = (\<lambda>d arguments. Completed 0
        (if (if staged then u ''--name-only'' \<in> set arguments \<and> u ''--cached'' \<in> set arguments else u ''ls-files'' \<in> set arguments)
         then [97, 46, 109, 100, 0] else []) []),
      rv_resolve = Inr, rv_is_dir = (\<lambda>_. True)\<rparr>"


end
