(* ===== verification/Scanner.thy ===== *)
theory Scanner
  imports Contracts Paths Utf8 "HOL-Library.AList" "HOL-Library.Product_Lexorder"
begin

text \<open>
  The one-shot directory scanner, \<^verbatim>\<open>src/indexguard/scanner.py\<close>: a content-hashed snapshot of a directory
  tree is compared with the saved one, the differences become ordered events, and the new snapshot
  is saved as canonical JSON.  A file is read through probes (the two \<^verbatim>\<open>stat\<close> calls and the bytes of each of the two
  attempts), so a tree may change or fail while it is scanned.  The lemmas say that the events are exactly the
  difference of the snapshots, that a failed scan changes nothing, and which snapshots can be loaded again.
\<close>

section \<open>Records and events\<close>

definition state_schema_version :: int where "state_schema_version = 1"

definition default_state_filename :: str where "default_state_filename = u ''.indexguard-scan-state.json''"

definition supported_extensions :: "str list" where
  "supported_extensions = [u ''.docx'', u ''.hwpx'', u ''.md'', u ''.markdown'', u ''.pdf'']"

datatype scan_event_type = CREATED | MODIFIED | DELETED

fun scan_event_type_value :: "scan_event_type \<Rightarrow> str" where
  "scan_event_type_value CREATED = u ''CREATED''"
| "scan_event_type_value MODIFIED = u ''MODIFIED''"
| "scan_event_type_value DELETED = u ''DELETED''"

record file_record =
  fr_path :: str
  fr_sha256 :: str
  fr_size :: int
  fr_mtime_ns :: int
  fr_format :: str

definition file_record_dict :: "bool \<Rightarrow> file_record \<Rightarrow> json" where
  "file_record_dict include_path r =
     JObj ([(u ''format'', JStr (fr_format r)), (u ''mtime_ns'', JInt (fr_mtime_ns r)),
            (u ''sha256'', JStr (fr_sha256 r)), (u ''size'', JInt (fr_size r))] @
           (if include_path then [(u ''path'', JStr (fr_path r))] else []))"

record scan_event =
  se_type :: scan_event_type
  se_path :: str
  se_before :: "file_record option"
  se_after :: "file_record option"

definition optional_record :: "file_record option \<Rightarrow> json" where
  "optional_record r = (case r of None \<Rightarrow> JNull | Some x \<Rightarrow> file_record_dict True x)"

definition scan_event_dict :: "scan_event \<Rightarrow> json" where
  "scan_event_dict e =
     JObj [(u ''after'', optional_record (se_after e)), (u ''before'', optional_record (se_before e)),
           (u ''path'', JStr (se_path e)), (u ''type'', JStr (scan_event_type_value (se_type e)))]"

record scan_result =
  sr_root :: str
  sr_state_path :: str
  sr_events :: "scan_event list"
  sr_file_count :: nat

definition scan_result_dict :: "scan_result \<Rightarrow> json" where
  "scan_result_dict r =
     (let count = (\<lambda>t. (scan_event_type_value t, JInt (int (length (filter (\<lambda>e. se_type e = t) (sr_events r))))))
      in JObj [(u ''counts'', JObj (map count [CREATED, MODIFIED, DELETED])),
               (u ''events'', JArr (map scan_event_dict (sr_events r))),
               (u ''file_count'', JInt (int (sr_file_count r))),
               (u ''root'', JStr (sr_root r)), (u ''state_path'', JStr (sr_state_path r))])"

type_synonym snapshot_files = "(str \<times> file_record) list"

section \<open>Loading the saved snapshot\<close>

definition supported_path :: "unicode_db \<Rightarrow> str \<Rightarrow> bool" where
  "supported_path U path \<longleftrightarrow> lower U (path_suffix path) \<in> set supported_extensions"

definition validate_relative_path :: "unicode_db \<Rightarrow> str \<Rightarrow> unit res" where
  "validate_relative_path U value =
     (if is_absolute value \<or> path_parts value = [] \<or> dot_dot \<in> set (path_parts value) then Inl ScanStateError
      else if \<not> supported_path U value then Inl ScanStateError
      else Inr ())"

definition re_full_sha256 :: "str \<Rightarrow> bool" where
  "re_full_sha256 value \<longleftrightarrow>
     length value = 64 \<and> list_all (\<lambda>c. (48 \<le> c \<and> c \<le> 57) \<or> (97 \<le> c \<and> c \<le> 102)) value"

definition record_formats :: "str list" where
  "record_formats = [u ''PDF'', u ''DOCX'', u ''HWPX'', u ''MD'', u ''MARKDOWN'']"

text \<open>\<^verbatim>\<open>x in {...}\<close> hashes \<open>x\<close>: a list or a dict raises \<^verbatim>\<open>TypeError\<close>.\<close>

fun known_format :: "json \<Rightarrow> bool res" where
  "known_format (JStr s) = Inr (s \<in> set record_formats)"
| "known_format (JArr _) = Inl TypeError"
| "known_format (JObj _) = Inl TypeError"
| "known_format _ = Inr False"

definition record_from_state :: "unicode_db \<Rightarrow> str \<Rightarrow> json \<Rightarrow> file_record res" where
  "record_from_state U path value =
     (case validate_relative_path U path of
        Inl e \<Rightarrow> Inl e
      | Inr _ \<Rightarrow>
          (case value of
             JObj kvs \<Rightarrow>
               if set (map fst kvs) \<noteq> {u ''format'', u ''mtime_ns'', u ''sha256'', u ''size''} then Inl ScanStateError
               else
                 let file_format = the (map_of kvs (u ''format'')); sha256 = the (map_of kvs (u ''sha256''));
                     size = the (map_of kvs (u ''size'')); mtime_ns = the (map_of kvs (u ''mtime_ns''))
                 in (case known_format file_format of
                       Inl e \<Rightarrow> Inl e
                     | Inr known \<Rightarrow>
                         (case (known, file_format, sha256, size, mtime_ns) of
                            (True, JStr f, JStr h, JInt n, JInt m) \<Rightarrow>
                              if re_full_sha256 h \<and> 0 \<le> n \<and> 0 \<le> m
                              then Inr \<lparr>fr_path = path, fr_sha256 = h, fr_size = n, fr_mtime_ns = m, fr_format = f\<rparr>
                              else Inl ScanStateError
                          | _ \<Rightarrow> Inl ScanStateError))
           | _ \<Rightarrow> Inl ScanStateError))"

fun records_from_state :: "unicode_db \<Rightarrow> (str \<times> json) list \<Rightarrow> snapshot_files res" where
  "records_from_state U [] = Inr []"
| "records_from_state U ((path, value) # files) =
     (case record_from_state U path value of
        Inl e \<Rightarrow> Inl e
      | Inr r \<Rightarrow> (case records_from_state U files of Inl e \<Rightarrow> Inl e | Inr rs \<Rightarrow> Inr ((path, r) # rs)))"

text \<open>
  What a scan reads of the file system beside the state file: path resolution, the directory, and the failures of the
  state file.  \<open>sv_float_one\<close> tells whether the float a JSON lexeme denotes equals 1.
\<close>

record capture_try =
  ct_size_before :: int
  ct_mtime_before :: int
  ct_bytes :: bytes
  ct_size_after :: int
  ct_mtime_after :: int

datatype fs_entry =
    FileEntry bool "nat \<Rightarrow> capture_try res"
  | LinkEntry
  | DirEntry "(str \<times> fs_entry) list"

record scan_view =
  sv_resolve_strict :: "str \<Rightarrow> str res"
  sv_resolve :: "str \<Rightarrow> str res"
  sv_is_dir :: "str \<Rightarrow> bool"
  sv_tree :: "(str \<times> fs_entry) list"
  sv_unreadable :: bool
  sv_write_error :: "err option"
  sv_float_one :: "str \<Rightarrow> bool"

fun equals_version :: "scan_view \<Rightarrow> json option \<Rightarrow> bool" where
  "equals_version V (Some (JInt n)) = (n = state_schema_version)"
| "equals_version V (Some (JBool b)) = b"
| "equals_version V (Some (JFloat t)) = sv_float_one V t"
| "equals_version V _ = False"

definition scan_load_state :: "unicode_db \<Rightarrow> scan_view \<Rightarrow> str \<Rightarrow> bytes option \<Rightarrow> snapshot_files res" where
  "scan_load_state U V root content =
     (case content of
        None \<Rightarrow> Inr []
      | Some bs \<Rightarrow>
          if sv_unreadable V then Inl ScanStateError
          else (case Option.bind (decode_strict bs) json_loads of
                  None \<Rightarrow> Inl ScanStateError
                | Some payload \<Rightarrow>
                    if \<not> equals_version V (jget (u ''schema_version'') payload) then Inl ScanStateError
                    else (case jget (u ''root'') payload of
                            Some (JStr saved_root) \<Rightarrow>
                              (case sv_resolve V saved_root of
                                 Inl e \<Rightarrow> if is_os_error e then Inl ScanStateError else Inl e
                               | Inr resolved_saved_root \<Rightarrow>
                                   if resolved_saved_root \<noteq> root then Inl ScanStateError
                                   else (case jget (u ''files'') payload of
                                           Some (JObj files) \<Rightarrow> records_from_state U files
                                         | _ \<Rightarrow> Inl ScanStateError))
                          | _ \<Rightarrow> Inl ScanStateError)))"

section \<open>Scanning the directory\<close>

fun capture_tries :: "env \<Rightarrow> str \<Rightarrow> capture_try res list \<Rightarrow> file_record res" where
  "capture_tries E relative_path [] = Inl FileChangedDuringScanError"
| "capture_tries E relative_path (attempt # attempts) =
     (case attempt of
        Inl e \<Rightarrow> Inl e
      | Inr t \<Rightarrow>
          let size = int (length (ct_bytes t))
          in if size = ct_size_before t \<and> ct_size_before t = ct_size_after t \<and> ct_mtime_before t = ct_mtime_after t
             then Inr \<lparr>fr_path = relative_path, fr_sha256 = en_sha_bytes E (ct_bytes t), fr_size = size,
                       fr_mtime_ns = ct_mtime_after t, fr_format = upper (en_udb E) (drop 1 (path_suffix relative_path))\<rparr>
             else capture_tries E relative_path attempts)"

definition capture_file :: "env \<Rightarrow> str \<Rightarrow> (nat \<Rightarrow> capture_try res) \<Rightarrow> file_record res" where
  "capture_file E relative_path probe = capture_tries E relative_path (map probe [0, 1])"

text \<open>The sort key \<^verbatim>\<open>(value.casefold(), value)\<close>.\<close>

definition name_key :: "unicode_db \<Rightarrow> str \<Rightarrow> str \<times> str" where
  "name_key U value = (casefold U value, value)"

definition subdirectories :: "unicode_db \<Rightarrow> (str \<times> fs_entry) list \<Rightarrow> (str \<times> (str \<times> fs_entry) list) list" where
  "subdirectories U entries =
     sort_key (name_key U \<circ> fst)
       (concat (map (\<lambda>(n, e). case e of DirEntry ds \<Rightarrow> [(n, ds)] | _ \<Rightarrow> []) entries))"

definition plain_files :: "unicode_db \<Rightarrow> bool \<Rightarrow> (str \<times> fs_entry) list \<Rightarrow> (str \<times> (nat \<Rightarrow> capture_try res)) list" where
  "plain_files U only_regular entries =
     sort_key (name_key U \<circ> fst)
       (concat (map (\<lambda>(n, e). case e of FileEntry r p \<Rightarrow> if only_regular \<longrightarrow> r then [(n, p)] else [] | _ \<Rightarrow> []) entries))"

lemma subdirectories_size:
  "(n, ds) \<in> set (subdirectories U entries) \<Longrightarrow> size_list (size_prod (\<lambda>_. 0) size) ds < size_list (size_prod (\<lambda>_. 0) size) entries"
proof -
  assume "(n, ds) \<in> set (subdirectories U entries)"
  then have "(n, DirEntry ds) \<in> set entries"
    by (auto simp: subdirectories_def split: fs_entry.splits)
  then show ?thesis by (induction entries) auto
qed

text \<open>\<^verbatim>\<open>os.walk\<close>, top down, with the sorted directory names; symbolic links are not followed.\<close>

function walk_tree :: "unicode_db \<Rightarrow> str \<Rightarrow> (str \<times> fs_entry) list \<Rightarrow> (str \<times> (str \<times> fs_entry) list) list" where
  "walk_tree U prefix entries =
     (prefix, entries) #
     concat (map (\<lambda>(n, ds). walk_tree U (prefix @ n @ [47]) ds) (subdirectories U entries))"
  by pat_completeness auto
termination
  by (relation "measure (\<lambda>(U, p, es). size_list (size_prod (\<lambda>_. 0) size) es)") (auto dest: subdirectories_size)

declare walk_tree.simps [simp del]

definition visited_files :: "unicode_db \<Rightarrow> bool \<Rightarrow> (str \<times> fs_entry) list \<Rightarrow> (str \<times> (nat \<Rightarrow> capture_try res)) list" where
  "visited_files U recursive tree =
     concat (map (\<lambda>(prefix, entries). map (\<lambda>(n, p). (prefix @ n, p)) (plain_files U (\<not> recursive) entries))
       (if recursive then walk_tree U [] tree else [([], tree)]))"

fun scan_files :: "env \<Rightarrow> (str \<Rightarrow> bool) \<Rightarrow> (str \<times> (nat \<Rightarrow> capture_try res)) list \<Rightarrow> snapshot_files \<Rightarrow> snapshot_files res" where
  "scan_files E is_state [] records = Inr records"
| "scan_files E is_state ((relative_path, probe) # files) records =
     (if \<not> supported_path (en_udb E) relative_path \<or> is_state relative_path
      then scan_files E is_state files records
      else (case capture_file E relative_path probe of
              Inl e \<Rightarrow> if e = FileNotFoundError then scan_files E is_state files records else Inl e
            | Inr r \<Rightarrow> scan_files E is_state files (AList.update relative_path r records)))"

definition scan_directory :: "env \<Rightarrow> scan_view \<Rightarrow> str \<Rightarrow> str \<Rightarrow> bool \<Rightarrow> snapshot_files res" where
  "scan_directory E V root state_path recursive =
     scan_files E (\<lambda>p. path_join root p = state_path) (visited_files (en_udb E) recursive (sv_tree V)) []"

section \<open>Saving and comparing\<close>

definition sorted_paths :: "unicode_db \<Rightarrow> str list \<Rightarrow> str list" where
  "sorted_paths U paths = sort_key (name_key U) (remdups paths)"

definition state_payload :: "unicode_db \<Rightarrow> str \<Rightarrow> snapshot_files \<Rightarrow> json" where
  "state_payload U root records =
     JObj [(u ''files'', JObj (map (\<lambda>p. (p, file_record_dict False (the (map_of records p)))) (sorted_paths U (map fst records)))),
           (u ''root'', JStr root), (u ''schema_version'', JInt state_schema_version)]"

text \<open>The temporary file and \<^verbatim>\<open>os.replace\<close> are one step: the old state stays until the new one is whole.\<close>

definition write_state :: "unicode_db \<Rightarrow> scan_view \<Rightarrow> str \<Rightarrow> snapshot_files \<Rightarrow> (bytes option, unit) op" where
  "write_state U V root records content =
     (case encode_strict (canonical_json (state_payload U root records) @ [10]) of
        None \<Rightarrow> (Inl (OtherError (u ''UnicodeEncodeError'')), content)
      | Some bs \<Rightarrow> (case sv_write_error V of Some e \<Rightarrow> (Inl e, content) | None \<Rightarrow> (Inr (), Some bs)))"

definition event_for :: "snapshot_files \<Rightarrow> snapshot_files \<Rightarrow> str \<Rightarrow> scan_event list" where
  "event_for previous current path =
     (case (map_of previous path, map_of current path) of
        (None, Some after) \<Rightarrow> [\<lparr>se_type = CREATED, se_path = path, se_before = None, se_after = Some after\<rparr>]
      | (Some before, None) \<Rightarrow> [\<lparr>se_type = DELETED, se_path = path, se_before = Some before, se_after = None\<rparr>]
      | (Some before, Some after) \<Rightarrow>
          if fr_sha256 before \<noteq> fr_sha256 after
          then [\<lparr>se_type = MODIFIED, se_path = path, se_before = Some before, se_after = Some after\<rparr>] else []
      | (None, None) \<Rightarrow> [])"

definition scan_events :: "unicode_db \<Rightarrow> snapshot_files \<Rightarrow> snapshot_files \<Rightarrow> scan_event list" where
  "scan_events U previous current =
     concat (map (event_for previous current) (sorted_paths U (map fst previous @ map fst current)))"

definition scan_once ::
  "env \<Rightarrow> scan_view \<Rightarrow> str \<Rightarrow> str option \<Rightarrow> bool \<Rightarrow> (bytes option, scan_result) op" where
  "scan_once E V directory state_path recursive =
     bindE (liftE (sv_resolve_strict V directory)) (\<lambda>root.
     if \<not> sv_is_dir V root then raiseE OSError
     else
     bindE (liftE (sv_resolve V (case state_path of None \<Rightarrow> path_join root default_state_filename | Some p \<Rightarrow> p))) (\<lambda>resolved_state_path.
     bindE (\<lambda>content. (scan_load_state (en_udb E) V root content, content)) (\<lambda>previous.
     bindE (liftE (scan_directory E V root resolved_state_path recursive)) (\<lambda>current.
     let events = scan_events (en_udb E) previous current in
     bindE (write_state (en_udb E) V root current) (\<lambda>_.
     retE \<lparr>sr_root = root, sr_state_path = resolved_state_path, sr_events = events, sr_file_count = length current\<rparr>)))))"

section \<open>The events are the difference\<close>

definition sha_map :: "snapshot_files \<Rightarrow> str \<Rightarrow> str option" where
  "sha_map files path = map_option fr_sha256 (map_of files path)"

definition replay_event :: "(str \<Rightarrow> str option) \<Rightarrow> scan_event \<Rightarrow> (str \<Rightarrow> str option)" where
  "replay_event m e = m(se_path e := map_option fr_sha256 (se_after e))"

lemma event_for_path: "e \<in> set (event_for previous current p) \<Longrightarrow> se_path e = p"
  by (auto simp: event_for_def split: option.splits if_splits)

lemma event_for_replay:
  "m p = sha_map previous p \<Longrightarrow> foldl replay_event m (event_for previous current p) = m(p := sha_map current p)"
  by (auto simp: event_for_def replay_event_def sha_map_def fun_eq_iff split: option.splits)

lemma event_for_Nil_iff: "event_for previous current p = [] \<longleftrightarrow> sha_map previous p = sha_map current p"
  by (auto simp: event_for_def sha_map_def split: option.splits)

lemma event_for_paths: "map se_path (event_for previous current p) = (if event_for previous current p = [] then [] else [p])"
  by (auto simp: event_for_def split: option.splits)

lemma events_replay:
  "distinct ps \<Longrightarrow> \<forall>p\<in>set ps. m p = sha_map previous p \<Longrightarrow>
   foldl replay_event m (concat (map (event_for previous current) ps)) =
     (\<lambda>x. if x \<in> set ps then sha_map current x else m x)"
proof (induction ps arbitrary: m)
  case (Cons p ps)
  then have "foldl replay_event (m(p := sha_map current p)) (concat (map (event_for previous current) ps)) =
      (\<lambda>x. if x \<in> set ps then sha_map current x else (m(p := sha_map current p)) x)"
    by (intro Cons.IH) auto
  with Cons.prems show ?case by (auto simp: event_for_replay fun_eq_iff)
qed simp

lemma event_paths:
  "map se_path (concat (map (event_for previous current) ps)) = filter (\<lambda>p. event_for previous current p \<noteq> []) ps"
  by (induction ps) (simp_all add: event_for_paths)

lemma sha_map_None: "x \<notin> set (map fst files) \<Longrightarrow> sha_map files x = None"
  by (simp add: sha_map_def map_of_eq_None_iff)

lemma scan_events_replay:
  "foldl replay_event (sha_map previous) (scan_events U previous current) = sha_map current"
proof -
  have "foldl replay_event (sha_map previous) (scan_events U previous current) =
      (\<lambda>x. if x \<in> set (map fst previous @ map fst current) then sha_map current x else sha_map previous x)"
    unfolding scan_events_def by (subst events_replay) (simp_all add: sorted_paths_def)
  also have "\<dots> = sha_map current"
    using sha_map_None[of _ previous] sha_map_None[of _ current] by (auto simp: fun_eq_iff)
  finally show ?thesis .
qed

lemma scan_events_Nil_iff: "scan_events U previous current = [] \<longleftrightarrow> sha_map previous = sha_map current"
proof
  assume "scan_events U previous current = []"
  then show "sha_map previous = sha_map current" using scan_events_replay[of previous U current] by simp
next
  assume "sha_map previous = sha_map current"
  then show "scan_events U previous current = []" by (simp add: scan_events_def event_for_Nil_iff)
qed

section \<open>The saved snapshot, read again\<close>

definition loadable :: "unicode_db \<Rightarrow> str \<Rightarrow> file_record \<Rightarrow> bool" where
  "loadable U path r \<longleftrightarrow>
     validate_relative_path U path = Inr () \<and> fr_format r \<in> set record_formats \<and> re_full_sha256 (fr_sha256 r) \<and>
     0 \<le> fr_size r \<and> 0 \<le> fr_mtime_ns r"

lemma validate_relative_path_error: "validate_relative_path U path = Inl e \<Longrightarrow> e = ScanStateError"
  by (auto simp: validate_relative_path_def split: if_splits)

lemma record_from_state_written:
  "record_from_state U path (file_record_dict False r) =
     (if loadable U path r then Inr (r\<lparr>fr_path := path\<rparr>) else Inl ScanStateError)"
  by (cases "validate_relative_path U path"; cases "fr_format r \<in> set record_formats")
     (auto simp: record_from_state_def file_record_dict_def loadable_def dest: validate_relative_path_error)

lemma records_from_state_written:
  "records_from_state U (map (\<lambda>p. (p, file_record_dict False (f p))) ps) =
     (if list_all (\<lambda>p. loadable U p (f p)) ps then Inr (map (\<lambda>p. (p, (f p)\<lparr>fr_path := p\<rparr>)) ps) else Inl ScanStateError)"
  by (induction ps) (auto simp: record_from_state_written)

lemma file_record_dict_wf: "wf_json (file_record_dict False r)" "normalise (file_record_dict False r) = file_record_dict False r"
  by (simp_all add: file_record_dict_def u_def)

lemma sort_sorted_paths: "sort (sorted_paths U ps) = sort (remdups ps)"
  by (rule sorted_distinct_set_unique) (simp_all add: sorted_paths_def)

lemma insort_key_pairs: "insort_key fst (p, f p) (map (\<lambda>p. (p, f p)) ps) = map (\<lambda>p. (p, f p)) (insort p ps)"
  by (induction ps) auto

lemma sort_key_pairs: "sort_key fst (map (\<lambda>p. (p, f p)) ps) = map (\<lambda>p. (p, f p)) (sort ps)"
  by (induction ps) (simp_all add: insort_key_pairs)

lemma state_payload_written:
  "wf_json (state_payload U root records)"
  "normalise (state_payload U root records) =
     JObj [(u ''files'', JObj (map (\<lambda>p. (p, file_record_dict False (the (map_of records p)))) (sort (remdups (map fst records))))),
           (u ''root'', JStr root), (u ''schema_version'', JInt state_schema_version)]"
proof -
  have m: "map (map_prod id normalise) (map (\<lambda>p. (p, file_record_dict False (the (map_of records p)))) ps) =
      map (\<lambda>p. (p, file_record_dict False (the (map_of records p)))) ps" for ps
    by (simp add: file_record_dict_wf)
  have k: "sort_key fst [(u ''files'', x), (u ''root'', y), (u ''schema_version'', z)] =
      [(u ''files'', x), (u ''root'', y), (u ''schema_version'', z)]" for x y z :: json
    by (simp add: u_def)
  have "distinct (sorted_paths U (map fst records))" by (simp add: sorted_paths_def)
  then show "wf_json (state_payload U root records)"
    by (simp add: state_payload_def u_def list_all_iff o_def file_record_dict_wf)
  show "normalise (state_payload U root records) =
     JObj [(u ''files'', JObj (map (\<lambda>p. (p, file_record_dict False (the (map_of records p)))) (sort (remdups (map fst records))))),
           (u ''root'', JStr root), (u ''schema_version'', JInt state_schema_version)]"
    unfolding state_payload_def normalise.simps list.map map_prod_simp id_apply m sort_key_pairs sort_sorted_paths k ..
qed

lemma load_written:
  assumes w: "write_state U V root records content = (Inr (), Some bs)"
    and c: "\<forall>c\<in>set (canonical_json (state_payload U root records)). c < 0x110000"
    and v: "\<not> sv_unreadable V'" "sv_resolve V' root = Inr root"
  shows "scan_load_state U V' root (Some bs) =
     (if list_all (\<lambda>p. loadable U p (the (map_of records p))) (map fst records)
      then Inr (map (\<lambda>p. (p, (the (map_of records p))\<lparr>fr_path := p\<rparr>)) (sort (remdups (map fst records))))
      else Inl ScanStateError)"
proof -
  let ?j = "state_payload U root records" and ?ps = "sort (remdups (map fst records))"
  have "encode_strict (canonical_json ?j @ [10]) = Some bs"
    using w by (auto simp: write_state_def split: option.splits)
  then have d: "decode_strict bs = Some (canonical_json ?j @ [10])"
    by (rule decode_encode_strict) (use c in auto)
  have "wf_json (normalise ?j)" by (rule wf_normalise[OF state_payload_written(1)])
  from json_loads_object_line[OF this[unfolded state_payload_written(2)], of "[10]"]
  have l: "json_loads (canonical_json ?j @ [10]) = Some (normalise ?j)"
    unfolding canonical_json_def state_payload_written(2) by (simp add: skip_ws_def)
  have "list_all (\<lambda>p. loadable U p (the (map_of records p))) ?ps =
      list_all (\<lambda>p. loadable U p (the (map_of records p))) (map fst records)"
    by (simp add: list_all_iff)
  then show ?thesis
    unfolding scan_load_state_def using d l v
    by (simp add: state_payload_written(2) records_from_state_written)
qed

section \<open>One scan after another\<close>

lemma write_state_cases:
  "write_state U V root records content = (r, t) \<Longrightarrow>
   (\<exists>e. r = Inl e \<and> t = content) \<or> (\<exists>bs. r = Inr () \<and> t = Some bs)"
  by (auto simp: write_state_def split: option.splits)

lemma scan_once_run:
  assumes "scan_once E V directory sp recursive content = (Inr r, t)"
  obtains previous current where
    "sv_resolve_strict V directory = Inr (sr_root r)" "sv_is_dir V (sr_root r)"
    "sv_resolve V (case sp of None \<Rightarrow> path_join (sr_root r) default_state_filename | Some p \<Rightarrow> p) = Inr (sr_state_path r)"
    "scan_load_state (en_udb E) V (sr_root r) content = Inr previous"
    "scan_directory E V (sr_root r) (sr_state_path r) recursive = Inr current"
    "sr_events r = scan_events (en_udb E) previous current" "sr_file_count r = length current"
    "write_state (en_udb E) V (sr_root r) current content = (Inr (), t)"
proof -
  note run = assms[unfolded scan_once_def bindE_def liftE_def retE_def Let_def]
  obtain root where s1: "sv_resolve_strict V directory = Inr root" using run by (cases "sv_resolve_strict V directory") simp_all
  have s2: "sv_is_dir V root" using run s1 by (simp split: if_splits)
  let ?p = "sv_resolve V (case sp of None \<Rightarrow> path_join root default_state_filename | Some p \<Rightarrow> p)"
  obtain path where s3: "?p = Inr path" using run s1 s2 by (cases ?p) simp_all
  obtain previous where s4: "scan_load_state (en_udb E) V root content = Inr previous"
    using run s1 s2 s3 by (cases "scan_load_state (en_udb E) V root content") simp_all
  obtain current where s5: "scan_directory E V root path recursive = Inr current"
    using run s1 s2 s3 s4 by (cases "scan_directory E V root path recursive") simp_all
  obtain x t' where w: "write_state (en_udb E) V root current content = (x, t')" by fastforce
  have "x = Inr () \<and> t' = t \<and> r = \<lparr>sr_root = root, sr_state_path = path, sr_events = scan_events (en_udb E) previous current,
      sr_file_count = length current\<rparr>"
    using run s1 s2 s3 s4 s5 w by (cases x) simp_all
  then show ?thesis using s1 s2 s3 s4 s5 w by (intro that[of previous current]) (simp_all cong: option.case_cong)
qed

lemma scan_once_raised:
  assumes "scan_once E V directory sp recursive content = (Inl e, t)"
  shows "t = content"
proof -
  note run = assms[unfolded scan_once_def bindE_def liftE_def raiseE_def retE_def Let_def]
  show ?thesis
  proof (cases "sv_resolve_strict V directory")
    case (Inr root)
    let ?p = "sv_resolve V (case sp of None \<Rightarrow> path_join root default_state_filename | Some p \<Rightarrow> p)"
    show ?thesis
    proof (cases "\<exists>path previous current. sv_is_dir V root \<and> ?p = Inr path \<and>
        scan_load_state (en_udb E) V root content = Inr previous \<and> scan_directory E V root path recursive = Inr current")
      case True
      then obtain path previous current where s: "sv_is_dir V root" "?p = Inr path"
        "scan_load_state (en_udb E) V root content = Inr previous" "scan_directory E V root path recursive = Inr current" by blast
      obtain x t' where w: "write_state (en_udb E) V root current content = (x, t')" by fastforce
      show ?thesis using run Inr s w write_state_cases[OF w] by (cases x) simp_all
    next
      case False
      then show ?thesis using run Inr
        by (cases "sv_is_dir V root"; cases ?p; cases "scan_load_state (en_udb E) V root content") (auto split: sum.splits)
    qed
  qed (use run in simp)
qed

lemma scan_once_again:
  assumes "sv_resolve_strict V directory = Inr root" "sv_is_dir V root"
    "sv_resolve V (case sp of None \<Rightarrow> path_join root default_state_filename | Some p \<Rightarrow> p) = Inr path"
    "scan_load_state (en_udb E) V root content = Inr previous"
    "scan_directory E V root path recursive = Inr current"
    "write_state (en_udb E) V root current content = (Inr (), t)"
  shows "scan_once E V directory sp recursive content =
    (Inr \<lparr>sr_root = root, sr_state_path = path, sr_events = scan_events (en_udb E) previous current,
          sr_file_count = length current\<rparr>, t)"
  using assms by (simp add: scan_once_def bindE_def liftE_def retE_def)

lemma write_state_independent:
  "write_state U V root records content = (Inr (), t) \<Longrightarrow> write_state U V root records content' = (Inr (), t)"
  by (auto simp: write_state_def split: option.splits)

lemma sha_map_loaded:
  "sha_map (map (\<lambda>p. (p, (the (map_of records p))\<lparr>fr_path := p\<rparr>)) (sort (remdups (map fst records)))) = sha_map records"
proof
  fix x
  have "map_of (map (\<lambda>p. (p, f p)) ps) x = (if x \<in> set ps then Some (f x) else None)" for f :: "str \<Rightarrow> file_record" and ps
    by (induction ps) auto
  then show "sha_map (map (\<lambda>p. (p, (the (map_of records p))\<lparr>fr_path := p\<rparr>)) (sort (remdups (map fst records)))) x = sha_map records x"
    by (cases "map_of records x") (auto simp: sha_map_def map_of_eq_None_iff dest: map_of_SomeD intro: rev_image_eqI)
qed

text \<open>The snapshot a scan takes, when all of it can be saved and loaded again.\<close>

definition scanned :: "env \<Rightarrow> scan_view \<Rightarrow> scan_result \<Rightarrow> bool \<Rightarrow> snapshot_files" where
  "scanned E V r recursive = (case scan_directory E V (sr_root r) (sr_state_path r) recursive of Inl e \<Rightarrow> [] | Inr fs \<Rightarrow> fs)"

definition code_points_ok :: "env \<Rightarrow> str \<Rightarrow> snapshot_files \<Rightarrow> bool" where
  "code_points_ok E root files \<longleftrightarrow> list_all (\<lambda>c. c < 0x110000) (canonical_json (state_payload (en_udb E) root files))"

lemma scan_then_load:
  assumes "scan_once E V directory sp recursive content = (Inr r, t)"
    and "code_points_ok E (sr_root r) (scanned E V r recursive)"
    and "\<not> sv_unreadable V'" "sv_resolve V' (sr_root r) = Inr (sr_root r)"
  shows "scan_load_state (en_udb E) V' (sr_root r) t =
     (if list_all (\<lambda>p. loadable (en_udb E) p (the (map_of (scanned E V r recursive) p))) (map fst (scanned E V r recursive))
      then Inr (map (\<lambda>p. (p, (the (map_of (scanned E V r recursive) p))\<lparr>fr_path := p\<rparr>))
             (sort (remdups (map fst (scanned E V r recursive)))))
      else Inl ScanStateError)"
  using assms(1)
proof (rule scan_once_run)
  fix previous current
  assume s: "scan_directory E V (sr_root r) (sr_state_path r) recursive = Inr current"
    and w: "write_state (en_udb E) V (sr_root r) current content = (Inr (), t)"
  from s have c: "scanned E V r recursive = current" by (simp add: scanned_def)
  obtain bs where bs: "t = Some bs" using write_state_cases[OF w] by auto
  show ?thesis
    using load_written[OF w[unfolded bs], of V'] assms(2-4) unfolding c bs code_points_ok_def list_all_iff by blast
qed

text \<open>A directory with one file, for concrete runs.\<close>

definition scan_env :: env where
  "scan_env = sample_env\<lparr>en_sha_bytes := (\<lambda>_. replicate 64 97)\<rparr>"

definition one_file_view :: "int \<Rightarrow> scan_view" where
  "one_file_view mtime =
     \<lparr>sv_resolve_strict = Inr, sv_resolve = Inr, sv_is_dir = (\<lambda>_. True),
      sv_tree = [(u ''a.md'', FileEntry True (\<lambda>_. Inr \<lparr>ct_size_before = 2, ct_mtime_before = mtime, ct_bytes = [104, 105],
         ct_size_after = 2, ct_mtime_after = mtime\<rparr>))],
      sv_unreadable = False, sv_write_error = None, sv_float_one = (\<lambda>_. False)\<rparr>"

definition one_file :: "int \<Rightarrow> snapshot_files" where
  "one_file mtime =
     [(u ''a.md'', \<lparr>fr_path = u ''a.md'', fr_sha256 = replicate 64 97, fr_size = 2, fr_mtime_ns = mtime, fr_format = u ''MD''\<rparr>)]"

lemma one_file_scanned:
  "scan_directory scan_env (one_file_view 5) (u ''/d'') (path_join (u ''/d'') default_state_filename) True = Inr (one_file 5)"
  "scan_directory scan_env (one_file_view (- 1)) (u ''/d'') (path_join (u ''/d'') default_state_filename) True = Inr (one_file (- 1))"
  by code_simp+

lemma one_file_text:
  "list_all (\<lambda>c. c < 128) (canonical_json (state_payload (en_udb scan_env) (u ''/d'') (one_file 5)))"
  "list_all (\<lambda>c. c < 128) (canonical_json (state_payload (en_udb scan_env) (u ''/d'') (one_file (- 1))))"
  by code_simp+

lemma one_file_loadable:
  "list_all (\<lambda>p. loadable (en_udb scan_env) p (the (map_of (one_file 5) p))) (map fst (one_file 5))"
  "list_ex (\<lambda>p. \<not> loadable (en_udb scan_env) p (the (map_of (one_file (- 1)) p))) (map fst (one_file (- 1)))"
  by code_simp+

lemma one_file_first_scan:
  assumes d: "scan_directory scan_env (one_file_view m) (u ''/d'') (path_join (u ''/d'') default_state_filename) True = Inr (one_file m)"
    and t: "list_all (\<lambda>c. c < 128) (canonical_json (state_payload (en_udb scan_env) (u ''/d'') (one_file m)))"
  shows "\<exists>r t. scan_once scan_env (one_file_view m) (u ''/d'') None True None = (Inr r, t) \<and> sr_root r = u ''/d'' \<and>
    sr_state_path r = path_join (u ''/d'') default_state_filename \<and>
    scanned scan_env (one_file_view m) r True = one_file m \<and>
    code_points_ok scan_env (sr_root r) (scanned scan_env (one_file_view m) r True)"
proof -
  have "\<not> list_ex surrogate (canonical_json (state_payload (en_udb scan_env) (u ''/d'') (one_file m)) @ [10])"
    using t by (auto simp: list_ex_iff list_all_iff surrogate_def)
  then obtain bs where w: "write_state (en_udb scan_env) (one_file_view m) (u ''/d'') (one_file m) None = (Inr (), Some bs)"
    by (simp add: write_state_def encode_strict_def one_file_view_def)
  have v: "sv_resolve_strict (one_file_view m) (u ''/d'') = Inr (u ''/d'')" "sv_is_dir (one_file_view m) (u ''/d'')"
    "sv_resolve (one_file_view m) (case None of None \<Rightarrow> path_join (u ''/d'') default_state_filename | Some p \<Rightarrow> p) =
      Inr (path_join (u ''/d'') default_state_filename)"
    by (simp_all add: one_file_view_def)
  have l: "scan_load_state (en_udb scan_env) (one_file_view m) (u ''/d'') None = Inr []" by (simp add: scan_load_state_def)
  from scan_once_again[OF v l d w] d t show ?thesis
    by (auto simp: scanned_def code_points_ok_def list_all_iff)
qed

section \<open>Properties\<close>

text \<open>C34: The events of a scan are exactly the difference of the two snapshots: replaying them on the hashes of
  the previous snapshot gives the hashes of the current one, there is none iff the hashes are equal, and each path has at
  most one, in the order of the case-folded paths.\<close>

theorem scan_events_exact:
  "foldl replay_event (sha_map previous) (scan_events U previous current) = sha_map current \<and>
   (scan_events U previous current = [] \<longleftrightarrow> sha_map previous = sha_map current) \<and>
   distinct (map se_path (scan_events U previous current)) \<and>
   sorted (map (name_key U) (map se_path (scan_events U previous current)))"
proof -
  let ?ps = "sorted_paths U (map fst previous @ map fst current)"
  have p: "map se_path (scan_events U previous current) = filter (\<lambda>p. event_for previous current p \<noteq> []) ?ps"
    unfolding scan_events_def by (rule event_paths)
  have "distinct ?ps" "sorted (map (name_key U) ?ps)" by (simp_all add: sorted_paths_def)
  then show ?thesis unfolding p by (simp add: scan_events_replay scan_events_Nil_iff sorted_filter)
qed

text \<open>A scan is atomic: when it raises, the saved snapshot is the old one, byte for byte; when it returns, the
  saved snapshot is one write of the snapshot it reports on.\<close>

lemma scan_once_atomic:
  "case scan_once E V directory sp recursive content of
     (Inl e, t) \<Rightarrow> t = content
   | (Inr r, t) \<Rightarrow> write_state (en_udb E) V (sr_root r) (scanned E V r recursive) None = (Inr (), t) \<and>
       sr_file_count r = length (scanned E V r recursive)"
proof -
  obtain x t where run: "scan_once E V directory sp recursive content = (x, t)" by fastforce
  show ?thesis
  proof (cases x)
    case (Inl e)
    then have "t = content"
      using scan_once_raised run by blast
    with run Inl show ?thesis by simp
  next
    case (Inr r)
    from run[unfolded Inr] show ?thesis
    proof (rule scan_once_run)
      fix previous current
      assume "scan_directory E V (sr_root r) (sr_state_path r) recursive = Inr current"
        "sr_file_count r = length current"
        and w: "write_state (en_udb E) V (sr_root r) current content = (Inr (), t)"
      with write_state_independent[OF w, of None] show ?thesis unfolding run Inr by (simp add: scanned_def)
    qed
  qed
qed

text \<open>Scanning an unchanged directory again reports nothing and keeps the saved snapshot, provided the
  snapshot can be loaded again: then the second scan returns, its events are empty, and it writes the same bytes.\<close>

lemma rescan_nothing:
  "\<lbrakk>scan_once E V directory sp recursive content = (Inr r, t);
    code_points_ok E (sr_root r) (scanned E V r recursive);
    list_all (\<lambda>p. loadable (en_udb E) p (the (map_of (scanned E V r recursive) p))) (map fst (scanned E V r recursive));
    \<not> sv_unreadable V; sv_resolve V (sr_root r) = Inr (sr_root r)\<rbrakk> \<Longrightarrow>
   scan_once E V directory sp recursive t = (Inr (r\<lparr>sr_events := []\<rparr>), t)"
proof -
  assume h: "scan_once E V directory sp recursive content = (Inr r, t)"
    "code_points_ok E (sr_root r) (scanned E V r recursive)"
    "list_all (\<lambda>p. loadable (en_udb E) p (the (map_of (scanned E V r recursive) p))) (map fst (scanned E V r recursive))"
    "\<not> sv_unreadable V" "sv_resolve V (sr_root r) = Inr (sr_root r)"
  note load = scan_then_load[OF h(1,2,4,5)]
  from h(1) show ?thesis
  proof (rule scan_once_run)
    fix previous current
    assume s: "sv_resolve_strict V directory = Inr (sr_root r)" "sv_is_dir V (sr_root r)"
      "sv_resolve V (case sp of None \<Rightarrow> path_join (sr_root r) default_state_filename | Some p \<Rightarrow> p) = Inr (sr_state_path r)"
      "scan_directory E V (sr_root r) (sr_state_path r) recursive = Inr current" "sr_file_count r = length current"
      "write_state (en_udb E) V (sr_root r) current content = (Inr (), t)"
    then have c: "scanned E V r recursive = current" by (simp add: scanned_def)
    let ?l = "map (\<lambda>p. (p, (the (map_of current p))\<lparr>fr_path := p\<rparr>)) (sort (remdups (map fst current)))"
    have "scan_load_state (en_udb E) V (sr_root r) t = Inr ?l" using load h(3) unfolding c by simp
    from scan_once_again[OF s(1-3) this s(4) write_state_independent[OF s(6)]]
    have "scan_once E V directory sp recursive t = (Inr \<lparr>sr_root = sr_root r, sr_state_path = sr_state_path r,
        sr_events = scan_events (en_udb E) ?l current, sr_file_count = length current\<rparr>, t)" .
    moreover have "scan_events (en_udb E) ?l current = []" using scan_events_Nil_iff sha_map_loaded by blast
    ultimately show ?thesis using s(5) by simp
  qed
qed

lemma rescan_nothing_example:
  "\<exists>r t. scan_once scan_env (one_file_view 5) (u ''/d'') None True None = (Inr r, t) \<and>
     scan_once scan_env (one_file_view 5) (u ''/d'') None True t = (Inr (r\<lparr>sr_events := []\<rparr>), t)"
proof -
  obtain r t where r: "scan_once scan_env (one_file_view 5) (u ''/d'') None True None = (Inr r, t)"
    "sr_root r = u ''/d''" "scanned scan_env (one_file_view 5) r True = one_file 5"
    "code_points_ok scan_env (sr_root r) (scanned scan_env (one_file_view 5) r True)"
    using one_file_first_scan[OF one_file_scanned(1) one_file_text(1)] by blast
  have "scan_once scan_env (one_file_view 5) (u ''/d'') None True t = (Inr (r\<lparr>sr_events := []\<rparr>), t)"
    by (rule rescan_nothing[OF r(1,4)]) (use one_file_loadable(1) r(3) in \<open>simp_all add: one_file_view_def\<close>)
  with r(1) show ?thesis by blast
qed

text \<open>One record the loader refuses makes the scanner refuse its own state: when the snapshot of a successful
  scan has such a record (a modification time before 1970, or a suffix such as \<^verbatim>\<open>.mar\<close>U+212A\<^verbatim>\<open>down\<close> whose upper case is no known format),
  every later scan of the directory raises \<^verbatim>\<open>ScanStateError\<close> and keeps the state, whatever the tree has become.\<close>

lemma unloadable_record_blocks_scanner:
  "\<lbrakk>scan_once E V directory sp recursive content = (Inr r, t);
    code_points_ok E (sr_root r) (scanned E V r recursive);
    list_ex (\<lambda>p. \<not> loadable (en_udb E) p (the (map_of (scanned E V r recursive) p))) (map fst (scanned E V r recursive));
    \<not> sv_unreadable V'; sv_resolve V' (sr_root r) = Inr (sr_root r);
    sv_resolve_strict V' directory = Inr (sr_root r); sv_is_dir V' (sr_root r);
    sv_resolve V' (case sp of None \<Rightarrow> path_join (sr_root r) default_state_filename | Some p \<Rightarrow> p) = Inr (sr_state_path r)\<rbrakk> \<Longrightarrow>
   scan_once E V' directory sp recursive t = (Inl ScanStateError, t)"
  using scan_then_load[of E V directory sp recursive content r t V']
  by (auto simp: list_ex_iff list_all_iff scan_once_def bindE_def liftE_def)

lemma unloadable_record_blocks_scanner_witness:
  "\<exists>r t. scan_once scan_env (one_file_view (- 1)) (u ''/d'') None True None = (Inr r, t) \<and>
     scan_once scan_env (one_file_view 5) (u ''/d'') None True t = (Inl ScanStateError, t)"
proof -
  obtain r t where r: "scan_once scan_env (one_file_view (- 1)) (u ''/d'') None True None = (Inr r, t)"
    "sr_root r = u ''/d''" "sr_state_path r = path_join (u ''/d'') default_state_filename"
    "scanned scan_env (one_file_view (- 1)) r True = one_file (- 1)"
    "code_points_ok scan_env (sr_root r) (scanned scan_env (one_file_view (- 1)) r True)"
    using one_file_first_scan[OF one_file_scanned(2) one_file_text(2)] by blast
  have "scan_once scan_env (one_file_view 5) (u ''/d'') None True t = (Inl ScanStateError, t)"
    by (rule unloadable_record_blocks_scanner[OF r(1,5)])
       (use one_file_loadable(2) r in \<open>simp_all add: one_file_view_def\<close>)
  with r(1) show ?thesis by blast
qed

end
