(* ===== verification/ChangeQueue.thy ===== *)
theory ChangeQueue
  imports Complex_Main Pipeline Scanner SequenceMatcher
begin

text \<open>
  The directory review queue, \<^verbatim>\<open>src/indexguard/change_queue.py\<close>: a watched directory, the snapshot last accepted
  for each path, the open items (the differences from it), and the history of processed reviews, which can be
  undone.  It writes the index directly.  The state is a record of the persisted dicts, the world of the pipeline (index
  and files), the scanner's saved snapshot and the tasks handed to the executor.  Every public operation runs under the
  queue's lock and is one step; a model call runs outside the lock, between two steps.
\<close>

section \<open>Data\<close>

definition auto_process_delay :: int where "auto_process_delay = 5 * 1000000"

definition added :: str where "added = [52628, 44032]"
definition deleted :: str where "deleted = [49325, 51228]"
definition edited :: str where "edited = [49688, 51221]"

record document_info =
  di_filename :: str
  di_format :: str
  di_parser_name :: str
  di_parser_version :: str
  di_extracted_characters :: nat
  di_artifact_count :: nat
  di_artifacts :: "str list"
  di_extraction_status :: str

record changed_value =
  cg_kind :: str
  cg_before :: str
  cg_after :: str

record agent_source =
  as_source :: str
  as_document_id :: str
  as_text :: str

text \<open>
  An item's dict.  Two keys may be missing in a record of an earlier schema: \<open>qi_review_required = None\<close> and
  \<open>qi_agent_status = None\<close> say so (\<open>Some None\<close> is the value \<^verbatim>\<open>None\<close>).
\<close>

record queue_item =
  qi_id :: str
  qi_path :: str
  qi_change_type :: str
  qi_status :: str
  qi_baseline_sha256 :: "str option"
  qi_candidate_sha256 :: "str option"
  qi_baseline_snapshot :: "str option"
  qi_candidate_snapshot :: "str option"
  qi_summary_status :: str
  qi_summary :: "str option"
  qi_summary_error :: "str option"
  qi_created_at :: str
  qi_updated_at :: str
  qi_before_text :: str
  qi_after_text :: str
  qi_review_required :: "bool option option"
  qi_review_reason :: "str option"
  qi_auto_processing :: bool
  qi_auto_process_at :: "str option"
  qi_baseline_document :: "document_info option"
  qi_candidate_document :: "document_info option"
  qi_changed_values :: "changed_value list"
  qi_agent_status :: "str option"
  qi_agent_report :: "str option"
  qi_agent_error :: "str option"
  qi_agent_evidence :: "agent_source list"

record accepted_entry =
  ac_sha256 :: str
  ac_snapshot :: str

record history_entry =
  hi_id :: str
  hi_path :: str
  hi_change_type :: str
  hi_action :: str
  hi_processed_at :: str
  hi_summary :: "str option"
  hi_item :: queue_item
  hi_accepted_before :: "accepted_entry option"

record queue_state =
  qs_accepted :: "(str \<times> accepted_entry) list"
  qs_items :: "(str \<times> queue_item) list"
  qs_history :: "history_entry list"
  qs_restored_ids :: "str list"

definition empty_queue_state :: queue_state where
  "empty_queue_state = \<lparr>qs_accepted = [], qs_items = [], qs_history = [], qs_restored_ids = []\<rparr>"

record queue_action_result =
  qr_id :: str
  qr_action :: str
  qr_path :: str
  qr_message :: str

datatype queue_task = AnalyzeLater str "str option" | AnalyzeWithAgent str "str option"

text \<open>\<open>q_faults\<close> is a script of failures of single file operations; an exhausted script means no failure.\<close>

record change_queue =
  q_world :: "index_store world"
  q_state :: queue_state
  q_saved :: "queue_state option"
  q_scan :: "bytes option"
  q_revision :: nat
  q_tasks :: "queue_task list"
  q_clock :: nat
  q_faults :: "err option list"

text \<open>
  What the queue relies on: the configured paths, the extractor, the file system as the scanner sees it, and the clock in
  microseconds with its ISO text (\<^verbatim>\<open>timespec="seconds"\<close>) and the reading of such a text.
\<close>

record queue_env =
  qe_env :: env
  qe_directory :: str
  qe_runtime :: str
  qe_scan_state :: str
  qe_blobs :: blob_store
  qe_extract :: "staged_file \<Rightarrow> bytes \<Rightarrow> str \<Rightarrow> document_snapshot res"
  qe_resolve :: "str \<Rightarrow> str res"
  qe_view :: "(str \<Rightarrow> bytes option) \<Rightarrow> scan_view"
  qe_model :: bool
  qe_time :: "nat \<Rightarrow> int"
  qe_iso :: "int \<Rightarrow> str"
  qe_fromiso :: "str \<Rightarrow> int option"

section \<open>Primitive steps\<close>

definition updE :: "('s \<Rightarrow> 's) \<Rightarrow> ('s, unit) op" where
  "updE f s = (Inr (), f s)"

definition worldE :: "(index_store world, 'a) op \<Rightarrow> (change_queue, 'a) op" where
  "worldE = onE q_world (\<lambda>w s. s\<lparr>q_world := w\<rparr>)"

definition set_items :: "(str \<times> queue_item) list \<Rightarrow> change_queue \<Rightarrow> change_queue" where
  "set_items items s = s\<lparr>q_state := (q_state s)\<lparr>qs_items := items\<rparr>\<rparr>"

definition set_accepted :: "(str \<times> accepted_entry) list \<Rightarrow> change_queue \<Rightarrow> change_queue" where
  "set_accepted accepted s = s\<lparr>q_state := (q_state s)\<lparr>qs_accepted := accepted\<rparr>\<rparr>"

definition set_history :: "history_entry list \<Rightarrow> change_queue \<Rightarrow> change_queue" where
  "set_history history s = s\<lparr>q_state := (q_state s)\<lparr>qs_history := history\<rparr>\<rparr>"

definition put_item :: "queue_item \<Rightarrow> (change_queue, unit) op" where
  "put_item item = updE (\<lambda>s. set_items (AList.update (qi_id item) item (qs_items (q_state s))) s)"

definition pop_item :: "str \<Rightarrow> (change_queue, unit) op" where
  "pop_item item_id = updE (\<lambda>s. set_items (AList.delete item_id (qs_items (q_state s))) s)"

definition item_of :: "change_queue \<Rightarrow> str \<Rightarrow> queue_item option" where
  "item_of s item_id = map_of (qs_items (q_state s)) item_id"

definition accepted_of :: "change_queue \<Rightarrow> str \<Rightarrow> accepted_entry option" where
  "accepted_of s path = map_of (qs_accepted (q_state s)) path"

definition submit_task :: "queue_task \<Rightarrow> (change_queue, unit) op" where
  "submit_task task = updE (\<lambda>s. s\<lparr>q_tasks := q_tasks s @ [task]\<rparr>)"

definition save_state :: "(change_queue, unit) op" where
  "save_state = updE (\<lambda>s. s\<lparr>q_saved := Some (q_state s)\<rparr>)"

definition notify_changed :: "(change_queue, unit) op" where
  "notify_changed = updE (\<lambda>s. s\<lparr>q_revision := Suc (q_revision s)\<rparr>)"

definition read_clock :: "queue_env \<Rightarrow> (change_queue, int) op" where
  "read_clock V s = (Inr (qe_time V (q_clock s)), s\<lparr>q_clock := Suc (q_clock s)\<rparr>)"

definition now_text :: "queue_env \<Rightarrow> (change_queue, str) op" where
  "now_text V = bindE (read_clock V) (\<lambda>t. retE (qe_iso V t))"

definition auto_process_at :: "queue_env \<Rightarrow> (change_queue, str) op" where
  "auto_process_at V = bindE (read_clock V) (\<lambda>t. retE (qe_iso V (t + auto_process_delay)))"

definition file_fault :: "(change_queue, unit) op" where
  "file_fault s =
     (case q_faults s of
        [] \<Rightarrow> (Inr (), s)
      | None # fs \<Rightarrow> (Inr (), s\<lparr>q_faults := fs\<rparr>)
      | Some e # fs \<Rightarrow> (Inl e, s\<lparr>q_faults := fs\<rparr>))"

definition file_at :: "change_queue \<Rightarrow> str \<Rightarrow> bytes option" where
  "file_at s path = w_files (q_world s) path"

definition set_file :: "str \<Rightarrow> bytes option \<Rightarrow> (change_queue, unit) op" where
  "set_file path content =
     updE (\<lambda>s. s\<lparr>q_world := (q_world s)\<lparr>w_files := (w_files (q_world s))(path := content)\<rparr>\<rparr>)"

text \<open>\<^verbatim>\<open>shutil.copyfile\<close> and \<^verbatim>\<open>Path.unlink(missing_ok=True)\<close>.\<close>

definition copy_file :: "str \<Rightarrow> str \<Rightarrow> (change_queue, unit) op" where
  "copy_file source destination =
     bindE file_fault (\<lambda>_.
     bindE (readE (\<lambda>s. file_at s source)) (\<lambda>content.
     case content of None \<Rightarrow> raiseE FileNotFoundError | Some b \<Rightarrow> set_file destination (Some b)))"

definition unlink :: "str \<Rightarrow> (change_queue, unit) op" where
  "unlink path = bindE file_fault (\<lambda>_. set_file path None)"

section \<open>Helpers of the module\<close>

definition item_id_of :: "env \<Rightarrow> str \<Rightarrow> str" where
  "item_id_of E path = u ''chg_'' @ take 16 (en_sha_text E path)"

definition injection_terms :: "str list" where
  "injection_terms = [u ''ignore previous'', u ''system prompt'', [51648, 49884, 47484, 32, 47924, 49884], [54532, 47212, 54532, 53944], u ''prompt injection'']"

definition mandatory_reason :: "unicode_db \<Rightarrow> str \<Rightarrow> str \<Rightarrow> str \<Rightarrow> str option" where
  "mandatory_reason U change_type before after =
     (if change_type = added \<or> change_type = deleted
      then Some ([54028, 51068, 32, 51204, 52404, 51032, 32, 52628, 44032, 32, 46608, 45716, 32, 49325, 51228, 45716, 32, 44288, 47532, 51088, 32, 44160, 53664, 32, 45824, 49345, 51077, 45768, 45796, 46])
      else
        let combined = casefold U (before @ [10] @ after)
        in if list_ex (\<lambda>term. occurs_in term combined) injection_terms
           then Some ([54532, 47212, 54532, 53944, 32, 51064, 51229, 49496, 32, 46608, 45716, 32, 51648, 49884, 47928, 32, 49341, 51077, 32, 44032, 45733, 49457, 51060, 32, 51080, 49845, 45768, 45796, 46])
           else None)"

definition local_summary :: "str \<Rightarrow> str \<Rightarrow> str" where
  "local_summary change_type path =
     (if change_type = added then path @ [32, 54028, 51068, 51060, 32, 49352, 47196, 32, 52628, 44032, 46104, 50632, 49845, 45768, 45796, 46, 32, 47928, 49436, 32, 51204, 52404, 32, 45236, 50857, 51060, 32, 49353, 51064, 32, 54980, 48372, 51077, 45768, 45796, 46]
      else if change_type = deleted then path @ [32, 54028, 51068, 51060, 32, 49325, 51228, 46104, 50632, 49845, 45768, 45796, 46, 32, 44592, 51316, 32, 47928, 49436, 32, 51204, 52404, 47484, 32, 49353, 51064, 50640, 49436, 32, 51228, 44144, 54624, 51648, 32, 44160, 53664, 54644, 50556, 32, 54633, 45768, 45796, 46]
      else path @ [32, 54028, 51068, 51032, 32, 45236, 50857, 51060, 32, 48320, 44221, 46104, 50632, 49845, 45768, 45796, 46, 32, 47784, 45944, 32, 50836, 50557, 51012, 32, 49324, 50857, 54624, 32, 49688, 32, 50630, 50612, 32, 48320, 44221, 32, 51204, 54980, 32, 50896, 47928, 51012, 32, 54632, 44760, 32, 44160, 53664, 54644, 50556, 32, 54633, 45768, 45796, 46])"

definition bounded_block :: "str list \<Rightarrow> str" where
  "bounded_block lines =
     (let value = strip (join [10] lines) in if length value \<le> 1600 then value else take 1597 value @ u ''...'')"

fun kind_of_opcode :: "tag \<Rightarrow> str" where
  "kind_of_opcode InsertOp = u ''ADD''"
| "kind_of_opcode DeleteOp = u ''DELETE''"
| "kind_of_opcode _ = u ''REPLACE''"

definition changed_values :: "str \<Rightarrow> str \<Rightarrow> changed_value list" where
  "changed_values before after =
     (let before_lines = splitlines before; after_lines = splitlines after
      in map (\<lambda>op. \<lparr>cg_kind = kind_of_opcode (fst op), cg_before = bounded_block (before_part before_lines op),
                    cg_after = bounded_block (after_part after_lines op)\<rparr>)
           (take 30 (filter (\<lambda>op. fst op \<noteq> EqualOp) (get_opcodes before_lines after_lines))))"

definition same_extracted_content :: "document_info option \<Rightarrow> str \<Rightarrow> document_info option \<Rightarrow> str \<Rightarrow> bool" where
  "same_extracted_content baseline_document before_text candidate_document after_text =
     (case (baseline_document, candidate_document) of
        (Some b, Some c) \<Rightarrow>
          if di_extraction_status b \<noteq> u ''SUCCESS'' \<or> di_extraction_status c \<noteq> u ''SUCCESS'' then False
          else before_text = after_text
      | _ \<Rightarrow> False)"

definition source_path :: "queue_env \<Rightarrow> str \<Rightarrow> str res" where
  "source_path V relative_path =
     (case qe_resolve V (if is_absolute relative_path then relative_path else path_join (qe_directory V) relative_path) of
        Inl e \<Rightarrow> Inl e
      | Inr value \<Rightarrow>
          if value = qe_directory V \<or> prefixes_str (path_join (qe_directory V) []) value then Inr value
          else Inl ValueError)"

definition runtime_file :: "queue_env \<Rightarrow> str \<Rightarrow> str" where
  "runtime_file V relative = path_join (qe_runtime V) relative"

definition stage_path :: "queue_env \<Rightarrow> str \<Rightarrow> (change_queue, staged_file) op" where
  "stage_path V path =
     worldE (bindE (read_file path) (\<lambda>bytes. stage_stream (qe_blobs V) (qe_env V) bytes (path_name path)))"

definition extract_staged :: "queue_env \<Rightarrow> staged_file \<Rightarrow> str \<Rightarrow> (change_queue, document_snapshot) op" where
  "extract_staged V staged document_id =
     bindE (worldE (read_file (sf_path staged))) (\<lambda>bytes. liftE (qe_extract V staged bytes document_id))"

definition snapshot_document :: "queue_env \<Rightarrow> str \<Rightarrow> str \<Rightarrow> (change_queue, document_info \<times> str) op" where
  "snapshot_document V snapshot relative_path =
     tryE (bindE (stage_path V (runtime_file V snapshot)) (\<lambda>staged. extract_staged V staged (u ''preview:'' @ relative_path)))
       (\<lambda>e. let suffix = upper (en_udb (qe_env V)) (dropWhile (\<lambda>c. c = 46) (path_suffix relative_path))
             in retE (\<lparr>di_filename = path_name relative_path,
                       di_format = (if suffix = [] then u ''UNKNOWN'' else suffix),
                       di_parser_name = u ''unavailable'', di_parser_version = u ''-'', di_extracted_characters = 0,
                       di_artifact_count = 0, di_artifacts = [], di_extraction_status = u ''FAILED''\<rparr>, []))
       (\<lambda>document.
          retE (\<lparr>di_filename = path_name relative_path, di_format = document_format_value (ds_format document),
                 di_parser_name = ds_parser_name document, di_parser_version = ds_parser_version document,
                 di_extracted_characters = length (ds_text document),
                 di_artifact_count = length (ds_artifacts document),
                 di_artifacts = sort (remdups (map ar_type (ds_artifacts document))),
                 di_extraction_status = u ''SUCCESS''\<rparr>, ds_text document))"

definition capture_snapshot :: "queue_env \<Rightarrow> str \<Rightarrow> str \<Rightarrow> (change_queue, str) op" where
  "capture_snapshot V source digest =
     (let relative = u ''directory-snapshots/'' @ digest @ lower (en_udb (qe_env V)) (path_suffix source);
          destination = runtime_file V relative
      in bindE (readE (\<lambda>s. file_at s destination \<noteq> None)) (\<lambda>present.
         bindE (if present then retE () else copy_file source destination) (\<lambda>_.
         bindE (worldE (read_file destination)) (\<lambda>actual.
         if en_sha_bytes (qe_env V) actual \<noteq> digest then raiseE RuntimeError else retE relative))))"

section \<open>Applying a scan event\<close>

text \<open>The captured candidate, if the event has one: its digest and the name of its snapshot.\<close>

definition event_candidate :: "queue_env \<Rightarrow> scan_event \<Rightarrow> (change_queue, str option \<times> str option) op" where
  "event_candidate V event =
     (if se_type event \<noteq> DELETED
      then (case se_after event of
              None \<Rightarrow> raiseE AssertionError
            | Some after \<Rightarrow>
                bindE (liftE (source_path V (se_path event))) (\<lambda>source.
                bindE (capture_snapshot V source (fr_sha256 after)) (\<lambda>snapshot.
                retE (Some (fr_sha256 after), Some snapshot))))
      else retE (None, None))"

definition preview :: "queue_env \<Rightarrow> str \<Rightarrow> str option \<Rightarrow> (change_queue, document_info option \<times> str) op" where
  "preview V path snapshot =
     (case snapshot of
        None \<Rightarrow> retE (None, [])
      | Some s \<Rightarrow> bindE (snapshot_document V s path) (\<lambda>(d, t). retE (Some d, t)))"

definition new_item ::
  "env \<Rightarrow> str \<Rightarrow> accepted_entry option \<Rightarrow> str option \<times> str option \<Rightarrow> queue_item option \<Rightarrow> str \<Rightarrow>
   document_info option \<times> str \<Rightarrow> document_info option \<times> str \<Rightarrow> queue_item" where
  "new_item E path accepted cand previous now before after =
     (let change_type = (if fst cand = None then deleted else if accepted = None then added else edited) in
      \<lparr>qi_id = item_id_of E path, qi_path = path, qi_change_type = change_type, qi_status = [50836, 52397, 46120],
       qi_baseline_sha256 = map_option ac_sha256 accepted, qi_candidate_sha256 = fst cand,
       qi_baseline_snapshot = map_option ac_snapshot accepted, qi_candidate_snapshot = snd cand,
       qi_summary_status = u ''PENDING'', qi_summary = None, qi_summary_error = None,
       qi_created_at = (case previous of Some p \<Rightarrow> qi_created_at p | None \<Rightarrow> now), qi_updated_at = now,
       qi_before_text = snd before, qi_after_text = snd after, qi_review_required = Some None,
       qi_review_reason = mandatory_reason (en_udb E) change_type (snd before) (snd after),
       qi_auto_processing = False, qi_auto_process_at = None,
       qi_baseline_document = fst before, qi_candidate_document = fst after,
       qi_changed_values = changed_values (snd before) (snd after),
       qi_agent_status = Some (u ''PENDING''), qi_agent_report = None, qi_agent_error = None, qi_agent_evidence = []\<rparr>)"

definition apply_event :: "queue_env \<Rightarrow> scan_event \<Rightarrow> (change_queue, unit) op" where
  "apply_event V event =
     (let path = se_path event; E = qe_env V; item_id = item_id_of E path in
      bindE (readE (\<lambda>s. accepted_of s path)) (\<lambda>accepted.
      bindE (event_candidate V event) (\<lambda>cand.
      if accepted \<noteq> None \<and> fst cand = map_option ac_sha256 accepted then pop_item item_id
      else if fst cand = None \<and> accepted = None then pop_item item_id
      else
        bindE (readE (\<lambda>s. item_of s item_id)) (\<lambda>previous.
        bindE (now_text V) (\<lambda>now.
        bindE (preview V path (map_option ac_snapshot accepted)) (\<lambda>before.
        bindE (preview V path (snd cand)) (\<lambda>after.
        if same_extracted_content (fst before) (snd before) (fst after) (snd after) then pop_item item_id
        else
          bindE (put_item (new_item E path accepted cand previous now before after)) (\<lambda>_.
          submit_task (AnalyzeLater item_id (fst cand))))))))))"

section \<open>Restoring files\<close>

definition restore_source_to_baseline :: "queue_env \<Rightarrow> queue_item \<Rightarrow> (change_queue, unit) op" where
  "restore_source_to_baseline V item =
     bindE (liftE (source_path V (qi_path item))) (\<lambda>path.
     if qi_change_type item = added then unlink path
     else (case qi_baseline_snapshot item of
             Some (c # cs) \<Rightarrow> copy_file (runtime_file V (c # cs)) path
           | _ \<Rightarrow> raiseE RuntimeError))"

definition restore_source_to_candidate :: "queue_env \<Rightarrow> queue_item \<Rightarrow> (change_queue, unit) op" where
  "restore_source_to_candidate V item =
     bindE (liftE (source_path V (qi_path item))) (\<lambda>path.
     case qi_candidate_snapshot item of
       None \<Rightarrow> unlink path
     | Some candidate \<Rightarrow> copy_file (runtime_file V candidate) path)"

section \<open>Accepting, rejecting and holding\<close>

definition document_id_of :: "queue_item \<Rightarrow> str" where
  "document_id_of item = u ''watch:'' @ qi_path item"

definition current_version :: "str \<Rightarrow> (change_queue, indexed_version option) op" where
  "current_version document_id = worldE (indexR (\<lambda>i. get_current_version i document_id))"

definition append_history ::
  "queue_env \<Rightarrow> queue_item \<Rightarrow> str \<Rightarrow> accepted_entry option \<Rightarrow> (change_queue, unit) op" where
  "append_history V item action accepted_before =
     bindE (now_text V) (\<lambda>t.
     bindE (now_text V) (\<lambda>processed_at.
     updE (\<lambda>s. set_history (qs_history (q_state s) @
       [\<lparr>hi_id = u ''rev_'' @ take 16 (en_sha_text (qe_env V) (qi_id item @ [58] @ t)),
         hi_path = qi_path item, hi_change_type = qi_change_type item, hi_action = action,
         hi_processed_at = processed_at, hi_summary = qi_summary item, hi_item = item,
         hi_accepted_before = accepted_before\<rparr>]) s)))"

definition accept_locked :: "queue_env \<Rightarrow> queue_item \<Rightarrow> str \<Rightarrow> (change_queue, unit) op" where
  "accept_locked V item action =
     bindE (readE (\<lambda>s. accepted_of s (qi_path item))) (\<lambda>accepted_before.
     bindE (if qi_change_type item = deleted
            then bindE (current_version (document_id_of item)) (\<lambda>current.
                 bindE (case current of
                          None \<Rightarrow> retE ()
                        | Some v \<Rightarrow> bindE (worldE (indexE (remove_atomic (document_id_of item) (iv_sha256 v)))) (\<lambda>_. retE ()))
                   (\<lambda>_. updE (\<lambda>s. set_accepted (AList.delete (qi_path item) (qs_accepted (q_state s))) s)))
            else (case qi_candidate_snapshot item of
                    None \<Rightarrow> raiseE TypeError
                  | Some candidate \<Rightarrow>
                      bindE (stage_path V (runtime_file V candidate)) (\<lambda>staged.
                      bindE (extract_staged V staged (document_id_of item)) (\<lambda>snapshot.
                      bindE (worldE (indexE (index_atomic (qe_env V) snapshot (Some (qi_baseline_sha256 item))))) (\<lambda>_.
                      updE (\<lambda>s. set_accepted (AList.update (qi_path item)
                        \<lparr>ac_sha256 = the (qi_candidate_sha256 item), ac_snapshot = candidate\<rparr> (qs_accepted (q_state s))) s))))))
       (\<lambda>_.
     bindE (pop_item (qi_id item)) (\<lambda>_.
     append_history V item action accepted_before)))"

definition get_raw :: "str \<Rightarrow> (change_queue, queue_item) op" where
  "get_raw item_id =
     bindE (readE (\<lambda>s. item_of s item_id)) (\<lambda>value. case value of None \<Rightarrow> raiseE KeyError | Some item \<Rightarrow> retE item)"

definition accept :: "queue_env \<Rightarrow> str \<Rightarrow> (change_queue, queue_action_result) op" where
  "accept V item_id =
     bindE (get_raw item_id) (\<lambda>item.
     bindE (accept_locked V item (u ''INDEX'')) (\<lambda>_.
     bindE save_state (\<lambda>_.
     bindE notify_changed (\<lambda>_.
     retE \<lparr>qr_id = item_id, qr_action = [49353, 51064], qr_path = qi_path item,
           qr_message = [48320, 44221, 32, 47928, 49436, 47484, 32, 82, 65, 71, 32, 49353, 51064, 50640, 32, 48152, 50689, 54664, 49845, 45768, 45796, 46]\<rparr>))))"

text \<open>The scanner's saved snapshot is the queue's own file; a scan sees the files as they are.\<close>

definition scan_directory_now :: "queue_env \<Rightarrow> (change_queue, scan_result) op" where
  "scan_directory_now V s =
     (case scan_once (qe_env V) (qe_view V (w_files (q_world s))) (qe_directory V) (Some (qe_scan_state V)) True (q_scan s) of
        (r, t) \<Rightarrow> (r, s\<lparr>q_scan := t\<rparr>))"

definition synchronise_scan_state :: "queue_env \<Rightarrow> (change_queue, unit) op" where
  "synchronise_scan_state V =
     tryE (scan_directory_now V)
       (\<lambda>e. if e = ScanStateError
             then bindE (updE (\<lambda>s. s\<lparr>q_scan := None\<rparr>)) (\<lambda>_. bindE (scan_directory_now V) (\<lambda>_. retE ()))
             else raiseE e)
       (\<lambda>_. retE ())"

definition reject :: "queue_env \<Rightarrow> str \<Rightarrow> (change_queue, queue_action_result) op" where
  "reject V item_id =
     bindE (get_raw item_id) (\<lambda>item.
     bindE (readE (\<lambda>s. accepted_of s (qi_path item))) (\<lambda>before_accepted.
     bindE (restore_source_to_baseline V item) (\<lambda>_.
     bindE (pop_item item_id) (\<lambda>_.
     bindE (append_history V item (u ''RESTORE'') before_accepted) (\<lambda>_.
     bindE (synchronise_scan_state V) (\<lambda>_.
     bindE save_state (\<lambda>_.
     bindE notify_changed (\<lambda>_.
     retE \<lparr>qr_id = item_id, qr_action = [48373, 44396], qr_path = qi_path item,
           qr_message = [48320, 44221, 51012, 32, 44592, 51456, 32, 47928, 49436, 32, 49345, 53468, 47196, 32, 48373, 44396, 54664, 49845, 45768, 45796, 46]\<rparr>))))))))"

definition hold_for_review :: "queue_env \<Rightarrow> str \<Rightarrow> (change_queue, queue_item) op" where
  "hold_for_review V item_id =
     bindE (get_raw item_id) (\<lambda>item.
     bindE (now_text V) (\<lambda>now.
     let held = item\<lparr>qi_auto_processing := False, qi_auto_process_at := None, qi_review_required := Some (Some True),
           qi_review_reason := Some ([50868, 50689, 51088, 44032, 32, 51088, 46041, 32, 52376, 47532, 47484, 32, 51473, 51648, 54616, 44256, 32, 44160, 53664, 47196, 32, 51204, 54872, 54664, 49845, 45768, 45796, 46]), qi_updated_at := now\<rparr> in
     bindE (updE (\<lambda>s. set_items (AList.update item_id held (qs_items (q_state s))) s)) (\<lambda>_.
     bindE save_state (\<lambda>_.
     bindE notify_changed (\<lambda>_.
     retE held)))))"

section \<open>Undoing the history\<close>

definition undo_index :: "queue_env \<Rightarrow> queue_item \<Rightarrow> (change_queue, unit) op" where
  "undo_index V item =
     (if qi_change_type item = deleted
      then bindE (restore_source_to_baseline V item) (\<lambda>_.
           case qi_baseline_snapshot item of
             Some (c # cs) \<Rightarrow>
               bindE (stage_path V (runtime_file V (c # cs))) (\<lambda>staged.
               bindE (extract_staged V staged (document_id_of item)) (\<lambda>snapshot.
               bindE (current_version (document_id_of item)) (\<lambda>current.
               bindE (worldE (indexE (index_atomic (qe_env V) snapshot (Some (map_option iv_sha256 current))))) (\<lambda>_.
               retE ()))))
           | _ \<Rightarrow> retE ())
      else
        bindE (case qi_candidate_sha256 item of
                 Some (c # cs) \<Rightarrow> bindE (worldE (indexE (remove_atomic (document_id_of item) (c # cs)))) (\<lambda>_. retE ())
               | _ \<Rightarrow> retE ()) (\<lambda>_.
        restore_source_to_candidate V item))"

definition undo_history_entry :: "queue_env \<Rightarrow> history_entry \<Rightarrow> (change_queue, unit) op" where
  "undo_history_entry V entry =
     (let item = hi_item entry; action = hi_action entry; path = qi_path item in
      bindE (if action = u ''INDEX'' \<or> action = u ''AUTO_INDEX'' then undo_index V item
             else if action = u ''RESTORE'' then restore_source_to_candidate V item
             else raiseE RuntimeError) (\<lambda>_.
      bindE (updE (\<lambda>s. set_accepted (case hi_accepted_before entry of
               None \<Rightarrow> AList.delete path (qs_accepted (q_state s))
             | Some a \<Rightarrow> AList.update path a (qs_accepted (q_state s))) s)) (\<lambda>_.
      bindE (now_text V) (\<lambda>now.
      put_item (item\<lparr>qi_auto_processing := False, qi_auto_process_at := None, qi_review_required := Some (Some True),
        qi_review_reason := Some ([44160, 53664, 32, 44592, 47197, 32, 48373, 44396, 47196, 32, 51088, 46041, 32, 52376, 47532, 44032, 32, 51473, 51648, 46104, 50632, 49845, 45768, 45796, 46]), qi_updated_at := now\<rparr>)))))"

definition validate_history_restore :: "queue_env \<Rightarrow> history_entry list \<Rightarrow> (change_queue, unit) op" where
  "validate_history_restore V entries =
     forE (\<lambda>entry.
       bindE (liftE (source_path V (qi_path (hi_item entry)))) (\<lambda>_.
       forE (\<lambda>snapshot.
         case snapshot of
           Some (c # cs) \<Rightarrow>
             bindE (readE (\<lambda>s. file_at s (runtime_file V (c # cs)) \<noteq> None)) (\<lambda>present.
             if present then retE () else raiseE RuntimeError)
         | _ \<Rightarrow> retE ())
         [qi_baseline_snapshot (hi_item entry), qi_candidate_snapshot (hi_item entry)])) entries"

definition position_of :: "str \<Rightarrow> history_entry list \<Rightarrow> nat option" where
  "position_of history_id history =
     find (\<lambda>i. hi_id (history ! i) = history_id) [0..<length history]"

text \<open>The result is the number of restored entries.\<close>

definition restore_history_before :: "queue_env \<Rightarrow> str \<Rightarrow> (change_queue, nat) op" where
  "restore_history_before V history_id =
     bindE (readE (\<lambda>s. qs_history (q_state s))) (\<lambda>history.
     case position_of history_id history of
       None \<Rightarrow>
         bindE (readE (\<lambda>s. history_id \<in> set (qs_restored_ids (q_state s)))) (\<lambda>replayed.
         if replayed then retE 0 else raiseE KeyError)
     | Some position \<Rightarrow>
         let targets = drop position history in
         bindE (validate_history_restore V targets) (\<lambda>_.
         bindE (forE (undo_history_entry V) (rev targets)) (\<lambda>_.
         bindE (updE (\<lambda>s.
           let ids = qs_restored_ids (q_state s) @ map hi_id targets
           in s\<lparr>q_state := (q_state s)\<lparr>qs_restored_ids := drop (length ids - 256) ids,
                                     qs_history := take position (qs_history (q_state s))\<rparr>\<rparr>)) (\<lambda>_.
         bindE (synchronise_scan_state V) (\<lambda>_.
         bindE save_state (\<lambda>_.
         bindE notify_changed (\<lambda>_.
         retE (length targets))))))))"

section \<open>The model's verdict\<close>

record assessment =
  am_summary :: str
  am_review_required :: bool
  am_review_reason :: str

record analysis_inputs =
  an_path :: str
  an_change_type :: str
  an_before_text :: str
  an_after_text :: str

record verdict =
  ve_summary :: str
  ve_review_required :: bool
  ve_review_reason :: "str option"
  ve_error :: "str option"

text \<open>\<^verbatim>\<open>_assess_with_retry\<close>: attempt \<open>k\<close> answers \<open>rt_attempt k\<close>, and the clock shows \<open>rt_time k\<close> after it.\<close>

record retry_view =
  rt_attempt :: "nat \<Rightarrow> assessment res"
  rt_time :: "nat \<Rightarrow> rat"
  rt_deadline :: rat

partial_function (option) assess_from :: "retry_view \<Rightarrow> nat \<Rightarrow> assessment res option" where
  "assess_from T k =
     (case rt_attempt T k of
        Inr a \<Rightarrow> Some (Inr a)
      | Inl e \<Rightarrow> if \<not> retryable e \<or> rt_deadline T \<le> rt_time T k then Some (Inl e) else assess_from T (Suc k))"

definition assess_with_retry :: "retry_view \<Rightarrow> assessment res option" where
  "assess_with_retry T = assess_from T 0"

text \<open>The first locked part of \<^verbatim>\<open>_analyze_later\<close>, the model call's verdict, and the second locked part.\<close>

definition analyze_begin :: "str \<Rightarrow> str option \<Rightarrow> (change_queue, analysis_inputs option) op" where
  "analyze_begin item_id candidate_sha =
     readE (\<lambda>s. case item_of s item_id of
        None \<Rightarrow> None
      | Some current \<Rightarrow>
          if qi_candidate_sha256 current \<noteq> candidate_sha then None
          else Some \<lparr>an_path = qi_path current, an_change_type = qi_change_type current,
                     an_before_text = qi_before_text current, an_after_text = qi_after_text current\<rparr>)"

definition verdict_of :: "queue_env \<Rightarrow> analysis_inputs \<Rightarrow> assessment res \<Rightarrow> verdict" where
  "verdict_of V i outcome =
     (let fallback = local_summary (an_change_type i) (an_path i) in
      if \<not> qe_model V
      then \<lparr>ve_summary = fallback, ve_review_required = True,
            ve_review_reason = Some ([47784, 45944, 51060, 32, 49444, 51221, 46104, 51648, 32, 50506, 50500, 32, 44288, 47532, 51088, 32, 44160, 53664, 47196, 32, 50976, 51648, 54664, 49845, 45768, 45796, 46]), ve_error = Some (u ''MODEL_DISABLED'')\<rparr>
      else (case outcome of
              Inl e \<Rightarrow>
                \<lparr>ve_summary = fallback, ve_review_required = True,
                 ve_review_reason = Some ([47784, 45944, 32, 54032, 48324, 51012, 32, 50756, 47308, 54616, 51648, 32, 47803, 54644, 32, 44288, 47532, 51088, 32, 44160, 53664, 47196, 32, 50976, 51648, 54664, 49845, 45768, 45796, 46]), ve_error = Some (exn_name e)\<rparr>
            | Inr a \<Rightarrow>
                let mandatory = mandatory_reason (en_udb (qe_env V)) (an_change_type i) (an_before_text i) (an_after_text i)
                in \<lparr>ve_summary = am_summary a, ve_review_required = (mandatory \<noteq> None \<or> am_review_required a),
                    ve_review_reason = (case mandatory of
                        Some m \<Rightarrow> Some m
                      | None \<Rightarrow> if am_review_reason a = [] then None else Some (am_review_reason a)),
                    ve_error = None\<rparr>))"

definition analyze_commit :: "queue_env \<Rightarrow> str \<Rightarrow> str option \<Rightarrow> verdict \<Rightarrow> (change_queue, unit) op" where
  "analyze_commit V item_id candidate_sha v =
     bindE (readE (\<lambda>s. item_of s item_id)) (\<lambda>current.
     case current of
       None \<Rightarrow> retE ()
     | Some item \<Rightarrow>
         if qi_candidate_sha256 item \<noteq> candidate_sha then retE ()
         else
           bindE (if ve_review_required v then retE None else bindE (auto_process_at V) (\<lambda>t. retE (Some t))) (\<lambda>due.
           let judged = item\<lparr>qi_summary := Some (ve_summary v), qi_summary_status := u ''READY'',
                 qi_summary_error := ve_error v, qi_review_required := Some (Some (ve_review_required v)),
                 qi_review_reason := ve_review_reason v, qi_auto_processing := \<not> ve_review_required v,
                 qi_auto_process_at := due\<rparr>;
               marked = (if ve_review_required v
                 then judged\<lparr>qi_agent_status := Some (u ''PENDING''), qi_agent_report := None, qi_agent_error := None,
                             qi_agent_evidence := []\<rparr>
                 else judged\<lparr>qi_agent_status := Some (u ''NOT_REQUIRED'')\<rparr>)
           in bindE (if ve_review_required v then submit_task (AnalyzeWithAgent item_id candidate_sha) else retE ()) (\<lambda>_.
              bindE (now_text V) (\<lambda>now.
              bindE (updE (\<lambda>s. set_items (AList.update item_id (marked\<lparr>qi_updated_at := now\<rparr>) (qs_items (q_state s))) s)) (\<lambda>_.
              bindE save_state (\<lambda>_.
              notify_changed))))))"

section \<open>The consistency agent\<close>

definition agent_begin :: "str \<Rightarrow> str option \<Rightarrow> (change_queue, analysis_inputs option) op" where
  "agent_begin item_id candidate_sha =
     readE (\<lambda>s. case item_of s item_id of
        None \<Rightarrow> None
      | Some item \<Rightarrow>
          if qi_candidate_sha256 item \<noteq> candidate_sha \<or> qi_review_required item \<noteq> Some (Some True) then None
          else Some \<lparr>an_path = qi_path item, an_change_type = qi_change_type item,
                     an_before_text = qi_before_text item, an_after_text = qi_after_text item\<rparr>)"

definition agent_query :: "str \<Rightarrow> str \<Rightarrow> str" where
  "agent_query before_text after_text =
     take 800 (strip (replace_char 10 32 (if after_text = [] then before_text else after_text)))"

definition agent_sources :: "queue_env \<Rightarrow> str \<Rightarrow> (change_queue, agent_source list) op" where
  "agent_sources V query =
     bindE (if query = [] then retE [] else worldE (pipeline_search (qe_env V) query 8 None)) (\<lambda>evidence.
     retE (map (\<lambda>(i, h). \<lparr>as_source = 83 # show_nat (Suc i), as_document_id = sh_document_id h, as_text = take 1200 (sh_text h)\<rparr>)
             (enumerate 0 evidence)))"

definition agent_report :: "queue_env \<Rightarrow> str res \<Rightarrow> str res" where
  "agent_report V answer = (if qe_model V then answer else Inl RuntimeError)"

definition agent_commit :: "queue_env \<Rightarrow> str \<Rightarrow> str option \<Rightarrow> agent_source list \<Rightarrow> str res \<Rightarrow> (change_queue, unit) op" where
  "agent_commit V item_id candidate_sha source_rows answer =
     bindE (readE (\<lambda>s. item_of s item_id)) (\<lambda>current.
     case current of
       None \<Rightarrow> retE ()
     | Some item \<Rightarrow>
         if qi_candidate_sha256 item \<noteq> candidate_sha then retE ()
         else
           let report = (case agent_report V answer of Inl e \<Rightarrow> None | Inr r \<Rightarrow> Some r);
               error = (case agent_report V answer of Inl e \<Rightarrow> Some (exn_name e) | Inr r \<Rightarrow> None)
           in bindE (now_text V) (\<lambda>now.
              bindE (updE (\<lambda>s. set_items (AList.update item_id
                (item\<lparr>qi_agent_status := Some (if report = None \<or> report = Some [] then u ''ERROR'' else u ''READY''),
                      qi_agent_report := report, qi_agent_error := error, qi_agent_evidence := source_rows,
                      qi_updated_at := now\<rparr>) (qs_items (q_state s))) s)) (\<lambda>_.
              bindE save_state (\<lambda>_.
              notify_changed))))"

section \<open>Automatic indexing\<close>

definition due_for_indexing :: "queue_env \<Rightarrow> int \<Rightarrow> queue_item \<Rightarrow> bool" where
  "due_for_indexing V now item =
     (qi_auto_processing item \<and>
      (case qi_auto_process_at item of
         None \<Rightarrow> False
       | Some due_at \<Rightarrow> (case qe_fromiso V due_at of None \<Rightarrow> True | Some due \<Rightarrow> due \<le> now)))"

definition auto_index_item :: "queue_env \<Rightarrow> int \<Rightarrow> str \<Rightarrow> (change_queue, bool) op" where
  "auto_index_item V now item_id =
     bindE (readE (\<lambda>s. item_of s item_id)) (\<lambda>current.
     case current of
       None \<Rightarrow> retE False
     | Some item \<Rightarrow>
         if \<not> due_for_indexing V now item then retE False
         else tryE (accept_locked V item (u ''AUTO_INDEX''))
           (\<lambda>e. bindE (now_text V) (\<lambda>t.
                bindE (put_item (item\<lparr>qi_auto_processing := False, qi_auto_process_at := None,
                  qi_review_required := Some (Some True),
                  qi_review_reason := Some ([51088, 46041, 32, 49353, 51064, 50640, 32, 49892, 54056, 54616, 50668, 32, 44288, 47532, 51088, 32, 44160, 53664, 47196, 32, 51204, 54872, 54664, 49845, 45768, 45796, 46]), qi_updated_at := t\<rparr>)) (\<lambda>_.
                retE True)))
           (\<lambda>_. retE True))"

primrec auto_index_items :: "queue_env \<Rightarrow> int \<Rightarrow> str list \<Rightarrow> (change_queue, bool) op" where
  "auto_index_items V now [] = retE False"
| "auto_index_items V now (item_id # ids) =
     bindE (auto_index_item V now item_id) (\<lambda>b. bindE (auto_index_items V now ids) (\<lambda>c. retE (b \<or> c)))"

definition process_due_auto_indexes :: "queue_env \<Rightarrow> (change_queue, bool) op" where
  "process_due_auto_indexes V =
     bindE (read_clock V) (\<lambda>now.
     bindE (readE (\<lambda>s. map fst (qs_items (q_state s)))) (auto_index_items V now))"

section \<open>Polling\<close>

definition truthy_text :: "str option \<Rightarrow> str option" where
  "truthy_text x = (case x of Some (c # cs) \<Rightarrow> Some (c # cs) | _ \<Rightarrow> None)"

definition requeue_legacy :: "queue_item \<Rightarrow> (change_queue, queue_item) op" where
  "requeue_legacy item =
     (if qi_review_required item \<noteq> None then retE item
      else bindE (submit_task (AnalyzeLater (qi_id item) (qi_candidate_sha256 item))) (\<lambda>_.
           retE (item\<lparr>qi_review_required := Some None, qi_review_reason := None, qi_auto_processing := False,
             qi_auto_process_at := None, qi_summary_status := u ''PENDING'', qi_summary := None, qi_summary_error := None\<rparr>)))"

definition backfill_agent :: "queue_item \<Rightarrow> (change_queue, queue_item) op" where
  "backfill_agent item =
     (if qi_agent_status item \<noteq> None then retE item
      else
        let required = (qi_review_required item = Some (Some True)) in
        bindE (if required then submit_task (AnalyzeWithAgent (qi_id item) (qi_candidate_sha256 item)) else retE ()) (\<lambda>_.
        retE (item\<lparr>qi_agent_status := Some (if required then u ''PENDING'' else u ''NOT_REQUIRED''),
          qi_agent_report := None, qi_agent_error := None, qi_agent_evidence := []\<rparr>)))"

definition enrich_item :: "queue_env \<Rightarrow> str \<Rightarrow> (change_queue, unit) op" where
  "enrich_item V key =
     bindE (readE (\<lambda>s. item_of s key)) (\<lambda>current.
     case current of
       None \<Rightarrow> retE ()
     | Some item0 \<Rightarrow>
         bindE (requeue_legacy item0) (\<lambda>item1.
         bindE (backfill_agent item1) (\<lambda>item2.
         bindE (case truthy_text (qi_baseline_snapshot item2) of
                  None \<Rightarrow> retE item2
                | Some snapshot \<Rightarrow>
                    bindE (snapshot_document V snapshot (qi_path item2)) (\<lambda>(baseline_document, before_text).
                    retE (item2\<lparr>qi_baseline_document := Some baseline_document,
                      qi_before_text := (if qi_before_text item2 = [] then before_text else qi_before_text item2)\<rparr>)))
           (\<lambda>item3.
         bindE (case truthy_text (qi_candidate_snapshot item3) of
                  None \<Rightarrow> retE item3
                | Some snapshot \<Rightarrow>
                    bindE (snapshot_document V snapshot (qi_path item3)) (\<lambda>(candidate_document, after_text).
                    retE (item3\<lparr>qi_candidate_document := Some candidate_document,
                      qi_after_text := (if qi_after_text item3 = [] then after_text else qi_after_text item3)\<rparr>)))
           (\<lambda>item4.
         let item5 = (if qi_changed_values item4 = []
                      then item4\<lparr>qi_changed_values := changed_values (qi_before_text item4) (qi_after_text item4)\<rparr> else item4)
         in updE (\<lambda>s. set_items (AList.update key item5 (qs_items (q_state s))) s))))))"

definition textually_reverted :: "queue_item \<Rightarrow> bool" where
  "textually_reverted item =
     (truthy_text (qi_baseline_snapshot item) \<noteq> None \<and> truthy_text (qi_candidate_snapshot item) \<noteq> None \<and>
      same_extracted_content (qi_baseline_document item) (qi_before_text item) (qi_candidate_document item) (qi_after_text item))"

definition discard_textually_reverted :: "(change_queue, bool) op" where
  "discard_textually_reverted =
     bindE (readE (\<lambda>s. list_ex (\<lambda>kv. textually_reverted (snd kv)) (qs_items (q_state s)))) (\<lambda>removed.
     bindE (updE (\<lambda>s. set_items (filter (\<lambda>kv. \<not> textually_reverted (snd kv)) (qs_items (q_state s))) s)) (\<lambda>_.
     retE removed))"

definition list_items :: "(change_queue, queue_item list) op" where
  "list_items = readE (\<lambda>s. rev (sort_key qi_updated_at (rev (map snd (qs_items (q_state s))))))"

definition poll_once :: "queue_env \<Rightarrow> (change_queue, queue_item list) op" where
  "poll_once V =
     bindE (scan_directory_now V) (\<lambda>result.
     bindE (forE (apply_event V) (sr_events result)) (\<lambda>_.
     bindE (readE (\<lambda>s. map fst (qs_items (q_state s)))) (\<lambda>keys.
     bindE (forE (enrich_item V) keys) (\<lambda>_.
     bindE discard_textually_reverted (\<lambda>removed.
     bindE (process_due_auto_indexes V) (\<lambda>indexed.
     bindE save_state (\<lambda>_.
     bindE (if sr_events result \<noteq> [] \<or> removed \<or> indexed then notify_changed else retE ()) (\<lambda>_.
     list_items))))))))"

section \<open>What the browser sees\<close>

definition document_info_dict :: "document_info option \<Rightarrow> json" where
  "document_info_dict d =
     (case d of
        None \<Rightarrow> JNull
      | Some i \<Rightarrow>
          JObj [(u ''filename'', JStr (di_filename i)), (u ''format'', JStr (di_format i)),
                (u ''parser_name'', JStr (di_parser_name i)), (u ''parser_version'', JStr (di_parser_version i)),
                (u ''extracted_characters'', JInt (int (di_extracted_characters i))),
                (u ''artifact_count'', JInt (int (di_artifact_count i))),
                (u ''artifacts'', JArr (map JStr (di_artifacts i))), (u ''extraction_status'', JStr (di_extraction_status i))])"

definition text_or_null :: "str option \<Rightarrow> json" where
  "text_or_null x = (case x of None \<Rightarrow> JNull | Some s \<Rightarrow> JStr s)"

text \<open>\<^verbatim>\<open>_public_record\<close> with the defaults of \<^verbatim>\<open>QueueItem\<close> for the keys a record lacks.\<close>

definition public_record :: "queue_item \<Rightarrow> (str \<times> json) list" where
  "public_record i =
     [(u ''id'', JStr (qi_id i)), (u ''path'', JStr (qi_path i)), (u ''change_type'', JStr (qi_change_type i)),
      (u ''status'', JStr (qi_status i)), (u ''baseline_sha256'', text_or_null (qi_baseline_sha256 i)),
      (u ''candidate_sha256'', text_or_null (qi_candidate_sha256 i)), (u ''summary_status'', JStr (qi_summary_status i)),
      (u ''summary'', text_or_null (qi_summary i)), (u ''summary_error'', text_or_null (qi_summary_error i)),
      (u ''created_at'', JStr (qi_created_at i)), (u ''updated_at'', JStr (qi_updated_at i)),
      (u ''before_text'', JStr (qi_before_text i)), (u ''after_text'', JStr (qi_after_text i)),
      (u ''review_required'', case qi_review_required i of Some (Some b) \<Rightarrow> JBool b | _ \<Rightarrow> JNull),
      (u ''review_reason'', text_or_null (qi_review_reason i)), (u ''auto_processing'', JBool (qi_auto_processing i)),
      (u ''auto_process_at'', text_or_null (qi_auto_process_at i)),
      (u ''baseline_document'', document_info_dict (qi_baseline_document i)),
      (u ''candidate_document'', document_info_dict (qi_candidate_document i)),
      (u ''changed_values'', JArr (map (\<lambda>c. JObj [(u ''kind'', JStr (cg_kind c)), (u ''before'', JStr (cg_before c)),
          (u ''after'', JStr (cg_after c))]) (qi_changed_values i))),
      (u ''agent_status'', JStr (case qi_agent_status i of None \<Rightarrow> u ''NOT_REQUIRED'' | Some a \<Rightarrow> a)),
      (u ''agent_report'', text_or_null (qi_agent_report i)), (u ''agent_error'', text_or_null (qi_agent_error i)),
      (u ''agent_evidence'', JArr (map (\<lambda>a. JObj [(u ''source'', JStr (as_source a)), (u ''document_id'', JStr (as_document_id a)),
          (u ''text'', JStr (as_text a))]) (qi_agent_evidence i)))]"

definition public_history :: "history_entry \<Rightarrow> (str \<times> json) list" where
  "public_history h =
     [(u ''id'', JStr (hi_id h)), (u ''path'', JStr (hi_path h)), (u ''change_type'', JStr (hi_change_type h)),
      (u ''action'', JStr (hi_action h)), (u ''processed_at'', JStr (hi_processed_at h)),
      (u ''summary'', text_or_null (hi_summary h))]"

section \<open>Operations that leave the queue's dicts alone\<close>

definition same_state :: "change_queue \<Rightarrow> change_queue \<Rightarrow> bool" where
  "same_state s t \<longleftrightarrow> q_state t = q_state s"

lemma same_state_preorder [step_rules]: "preorderR same_state"
  unfolding same_state_def by (rule preorderR_field)

lemma worldE_same [step_rules]: "steps same_state (worldE m)"
  by (rule stepsI) (auto simp: worldE_def onE_run same_state_def)

lemma read_clock_same [step_rules]: "steps same_state (read_clock V)"
  by (rule stepsI) (auto simp: read_clock_def same_state_def)

lemma file_fault_same [step_rules]: "steps same_state file_fault"
  by (rule stepsI) (auto simp: file_fault_def same_state_def split: list.splits option.splits)

lemma set_file_same [step_rules]: "steps same_state (set_file path content)"
  by (rule stepsI) (auto simp: set_file_def updE_def same_state_def)

lemma submit_task_same [step_rules]: "steps same_state (submit_task task)"
  by (rule stepsI) (auto simp: submit_task_def updE_def same_state_def)

lemma save_state_same [step_rules]: "steps same_state save_state"
  by (rule stepsI) (auto simp: save_state_def updE_def same_state_def)

lemma notify_changed_same [step_rules]: "steps same_state notify_changed"
  by (rule stepsI) (auto simp: notify_changed_def updE_def same_state_def)

lemma scan_now_same [step_rules]: "steps same_state (scan_directory_now V)"
  by (rule stepsI) (auto simp: scan_directory_now_def same_state_def split: prod.splits)

lemma drop_scan_same [step_rules]: "steps same_state (updE (\<lambda>s. s\<lparr>q_scan := None\<rparr>))"
  by (rule stepsI) (auto simp: updE_def same_state_def)

lemma steps_case_list [step_rules]:
  "steps R m \<Longrightarrow> (\<And>x xs. steps R (f x xs)) \<Longrightarrow> steps R (case v of [] \<Rightarrow> m | x # xs \<Rightarrow> f x xs)"
  by (cases v) auto

lemma quiet_operations [step_rules]:
  "steps same_state (now_text V)" "steps same_state (auto_process_at V)" "steps same_state (copy_file a b)"
  "steps same_state (unlink a)" "steps same_state (stage_path V a)" "steps same_state (extract_staged V f d)"
  unfolding now_text_def auto_process_at_def copy_file_def unlink_def stage_path_def extract_staged_def
  by (intro step_rules)+

lemma quiet_helpers [step_rules]:
  "steps same_state (snapshot_document V a d)" "steps same_state (capture_snapshot V a d)"
  "steps same_state (restore_source_to_baseline V item)" "steps same_state (restore_source_to_candidate V item)"
  "steps same_state (current_version d)" "steps same_state (synchronise_scan_state V)" "steps same_state (agent_sources V text)"
  unfolding snapshot_document_def capture_snapshot_def restore_source_to_baseline_def restore_source_to_candidate_def
    current_version_def synchronise_scan_state_def agent_sources_def Let_def
  by (intro step_rules)+

lemma undo_index_same [step_rules]: "steps same_state (undo_index V item)"
  unfolding undo_index_def by (intro step_rules)

section \<open>Keeping a property of the state while returning values\<close>

definition gives :: "('s \<Rightarrow> bool) \<Rightarrow> ('a \<Rightarrow> bool) \<Rightarrow> ('s, 'a) op \<Rightarrow> bool" where
  "gives I P m \<longleftrightarrow> (\<forall>s r t. I s \<longrightarrow> m s = (r, t) \<longrightarrow> I t \<and> (\<forall>x. r = Inr x \<longrightarrow> P x))"

named_theorems gives_rules \<open>rules for operations that keep an invariant\<close>

lemma givesI: "(\<And>s r t. I s \<Longrightarrow> m s = (r, t) \<Longrightarrow> I t \<and> (\<forall>x. r = Inr x \<longrightarrow> P x)) \<Longrightarrow> gives I P m"
  unfolding gives_def by blast

lemma givesD: "gives I P m \<Longrightarrow> I s \<Longrightarrow> m s = (r, t) \<Longrightarrow> I t \<and> (\<forall>x. r = Inr x \<longrightarrow> P x)"
  unfolding gives_def by blast

lemma gives_ret [gives_rules]: "P x \<Longrightarrow> gives I P (retE x)"
  by (rule givesI) auto

lemma gives_raise [gives_rules]: "gives I P (raiseE e)"
  by (rule givesI) auto

lemma gives_read [gives_rules]: "(\<And>s. I s \<Longrightarrow> P (f s)) \<Longrightarrow> gives I P (readE f)"
  by (rule givesI) auto

lemma gives_upd [gives_rules]: "(\<And>s. I s \<Longrightarrow> I (f s)) \<Longrightarrow> gives I (\<lambda>_. True) (updE f)"
  by (rule givesI) (auto simp: updE_def)

lemma gives_bind [gives_rules]:
  assumes "gives I P m" "\<And>x. P x \<Longrightarrow> gives I Q (f x)"
  shows "gives I Q (bindE m f)"
proof (rule givesI)
  fix s r t
  assume i: "I s" and run: "bindE m f s = (r, t)"
  obtain q s1 where m: "m s = (q, s1)" by fastforce
  from givesD[OF assms(1) i m] have 1: "I s1" "\<forall>x. q = Inr x \<longrightarrow> P x" by blast+
  show "I t \<and> (\<forall>x. r = Inr x \<longrightarrow> Q x)"
  proof (cases q)
    case (Inl e)
    with run m 1 show ?thesis by auto
  next
    case (Inr x)
    with run m have "f x s1 = (r, t)" by simp
    with givesD[OF assms(2)] 1 Inr show ?thesis by blast
  qed
qed

lemma gives_try [gives_rules]:
  assumes "gives I P m" "\<And>e. gives I Q (h e)" "\<And>x. P x \<Longrightarrow> gives I Q (f x)"
  shows "gives I Q (tryE m h f)"
proof (rule givesI)
  fix s r t
  assume i: "I s" and run: "tryE m h f s = (r, t)"
  obtain q s1 where m: "m s = (q, s1)" by fastforce
  from givesD[OF assms(1) i m] have 1: "I s1" "\<forall>x. q = Inr x \<longrightarrow> P x" by blast+
  show "I t \<and> (\<forall>x. r = Inr x \<longrightarrow> Q x)"
  proof (cases q)
    case (Inl e)
    with run m have "h e s1 = (r, t)" by simp
    with givesD[OF assms(2)] 1 show ?thesis by blast
  next
    case (Inr x)
    with run m have "f x s1 = (r, t)" by simp
    with givesD[OF assms(3)] 1 Inr show ?thesis by blast
  qed
qed

lemma gives_if [gives_rules]: "(b \<Longrightarrow> gives I P m) \<Longrightarrow> (\<not> b \<Longrightarrow> gives I P n) \<Longrightarrow> gives I P (if b then m else n)"
  by simp

lemma gives_option [gives_rules]:
  "(v = None \<Longrightarrow> gives I P m) \<Longrightarrow> (\<And>x. v = Some x \<Longrightarrow> gives I P (f x)) \<Longrightarrow> gives I P (case v of None \<Rightarrow> m | Some x \<Rightarrow> f x)"
  by (cases v) auto

lemma gives_prod [gives_rules]: "(\<And>x y. v = (x, y) \<Longrightarrow> gives I P (f x y)) \<Longrightarrow> gives I P (case v of (x, y) \<Rightarrow> f x y)"
  by (cases v) auto

lemma gives_for [gives_rules]: "(\<And>x. x \<in> set xs \<Longrightarrow> gives I (\<lambda>_. True) (f x)) \<Longrightarrow> gives I (\<lambda>_. True) (forE f xs)"
proof (induction xs)
  case (Cons x xs)
  then show ?case by (auto intro: gives_bind[where P = "\<lambda>_. True"])
qed (simp add: gives_ret)

lemma gives_weaken: "gives I P m \<Longrightarrow> (\<And>x. P x \<Longrightarrow> Q x) \<Longrightarrow> gives I Q m"
  unfolding gives_def by blast

lemma gives_true: "gives I P m \<Longrightarrow> gives I (\<lambda>_. True) m"
  by (erule gives_weaken) simp


end
