(* ===== verification/QueueSafety.thy ===== *)
theory QueueSafety
  imports ChangeQueue
begin

text \<open>
  What the queue's operations keep of its items and its history, and the effect of accepting, rejecting and undoing.
\<close>

section \<open>Runs of the queue\<close>

text \<open>
  A call is one operation under the queue's lock.  \<open>AnalyzeCommitCall\<close> and \<open>AgentCommitCall\<close> are the second locked parts
  of the background tasks, with whatever the model answered; \<open>OutsideCall\<close> is anything others do to the files and the index.
\<close>

datatype queue_call =
    PollCall
  | AcceptCall str
  | RejectCall str
  | HoldCall str
  | RestoreCall str
  | AnalyzeCommitCall str "str option" verdict
  | AgentCommitCall str "str option" "agent_source list" "str res"
  | OutsideCall "index_store world" "err option list"

fun queue_call_run :: "queue_env \<Rightarrow> queue_call \<Rightarrow> change_queue \<Rightarrow> change_queue" where
  "queue_call_run V PollCall = discard (poll_once V)"
| "queue_call_run V (AcceptCall k) = discard (accept V k)"
| "queue_call_run V (RejectCall k) = discard (reject V k)"
| "queue_call_run V (HoldCall k) = discard (hold_for_review V k)"
| "queue_call_run V (RestoreCall k) = discard (restore_history_before V k)"
| "queue_call_run V (AnalyzeCommitCall k sha v) = discard (analyze_commit V k sha v)"
| "queue_call_run V (AgentCommitCall k sha rows answer) = discard (agent_commit V k sha rows answer)"
| "queue_call_run V (OutsideCall w faults) = (\<lambda>s. s\<lparr>q_world := w, q_faults := faults\<rparr>)"

definition queue_run :: "queue_env \<Rightarrow> queue_call list \<Rightarrow> change_queue \<Rightarrow> change_queue" where
  "queue_run V calls s = foldl (\<lambda>s c. queue_call_run V c s) s calls"

definition queue_init :: "index_store world \<Rightarrow> change_queue" where
  "queue_init w = \<lparr>q_world = w, q_state = empty_queue_state, q_saved = None, q_scan = None, q_revision = 0, q_tasks = [],
     q_clock = 0, q_faults = []\<rparr>"

section \<open>Properties every operation keeps of the items\<close>

text \<open>
  A property of items that survives the ways in which the queue writes an item is a property of all open items and of all
  items in the history, in every state the queue reaches.
\<close>

definition items_ok :: "(queue_item \<Rightarrow> bool) \<Rightarrow> change_queue \<Rightarrow> bool" where
  "items_ok ok s \<longleftrightarrow> list_all (\<lambda>kv. ok (snd kv)) (qs_items (q_state s)) \<and> list_all (\<lambda>h. ok (hi_item h)) (qs_history (q_state s))"

definition to_operator :: "str \<Rightarrow> str \<Rightarrow> queue_item \<Rightarrow> queue_item" where
  "to_operator reason now i =
     i\<lparr>qi_auto_processing := False, qi_auto_process_at := None, qi_review_required := Some (Some True),
       qi_review_reason := Some reason, qi_updated_at := now\<rparr>"

lemma set_update_subset: "set (AList.update k v xs) \<subseteq> insert (k, v) (set xs)"
  by (induction xs) auto

lemma gives_discard: "gives I P m \<Longrightarrow> I s \<Longrightarrow> I (discard m s)"
  by (cases "m s") (auto simp: discard_def dest: givesD)

locale item_invariant =
  fixes ok :: "queue_item \<Rightarrow> bool"
  assumes fresh: "\<lbrakk>\<not> qi_auto_processing i; qi_review_required i = Some None;
        qi_candidate_sha256 i = None \<longleftrightarrow> qi_change_type i = deleted;
        case qi_candidate_sha256 i of None \<Rightarrow> qi_candidate_snapshot i = None
          | Some h \<Rightarrow> \<exists>suffix. qi_candidate_snapshot i = Some (u ''directory-snapshots/'' @ h @ suffix)\<rbrakk> \<Longrightarrow> ok i"
    and operator: "ok i \<Longrightarrow> ok (to_operator reason now i)"
    and judged: "ok i \<Longrightarrow> (required = (due = None)) \<Longrightarrow>
        ok (i\<lparr>qi_summary := summary, qi_summary_status := status, qi_summary_error := problem,
              qi_review_required := Some (Some required), qi_review_reason := why, qi_auto_processing := \<not> required,
              qi_auto_process_at := due\<rparr>)"
    and agent: "ok i \<Longrightarrow> ok (i\<lparr>qi_agent_status := agent_state, qi_agent_report := report, qi_agent_error := problem,
        qi_agent_evidence := evidence\<rparr>)"
    and agent_status: "ok i \<Longrightarrow> ok (i\<lparr>qi_agent_status := agent_state\<rparr>)"
    and updated: "ok i \<Longrightarrow> ok (i\<lparr>qi_updated_at := now\<rparr>)"
    and requeued: "ok i \<Longrightarrow> ok (i\<lparr>qi_review_required := Some None, qi_review_reason := None, qi_auto_processing := False,
        qi_auto_process_at := None, qi_summary_status := status, qi_summary := None, qi_summary_error := None\<rparr>)"
    and baseline: "ok i \<Longrightarrow> ok (i\<lparr>qi_baseline_document := document, qi_before_text := body\<rparr>)"
    and candidate: "ok i \<Longrightarrow> ok (i\<lparr>qi_candidate_document := document, qi_after_text := body\<rparr>)"
    and changed: "ok i \<Longrightarrow> ok (i\<lparr>qi_changed_values := cvs\<rparr>)"
begin

abbreviation all_ok :: "change_queue \<Rightarrow> bool" where "all_ok \<equiv> items_ok ok"

lemma quiet [gives_rules]: "steps same_state m \<Longrightarrow> gives all_ok (\<lambda>_. True) m"
  by (rule givesI) (auto simp: items_ok_def same_state_def dest!: stepsD)

lemma read_item [gives_rules]: "gives all_ok (\<lambda>r. case r of None \<Rightarrow> True | Some i \<Rightarrow> ok i) (readE (\<lambda>s. item_of s item_id))"
  by (rule gives_read) (auto simp: items_ok_def item_of_def list_all_iff split: option.splits dest!: map_of_SomeD)

lemma update_ok: "all_ok s \<Longrightarrow> ok i \<Longrightarrow> all_ok (set_items (AList.update k i (qs_items (q_state s))) s)"
  using set_update_subset[of k i "qs_items (q_state s)"] by (fastforce simp: items_ok_def set_items_def list_all_iff)

lemma put_ok [gives_rules]: "ok i \<Longrightarrow> gives all_ok (\<lambda>_. True) (put_item i)"
  unfolding put_item_def by (rule gives_upd) (rule update_ok)

lemma store_ok [gives_rules]:
  "ok i \<Longrightarrow> gives all_ok (\<lambda>_. True) (updE (\<lambda>s. set_items (AList.update k i (qs_items (q_state s))) s))"
  by (rule gives_upd) (rule update_ok)

lemma pop_ok [gives_rules]: "gives all_ok (\<lambda>_. True) (pop_item k)"
  unfolding pop_item_def
  by (rule gives_upd) (auto simp: items_ok_def set_items_def list_all_iff AList.delete_eq)

lemma accepted_ok [gives_rules]: "gives all_ok (\<lambda>_. True) (updE (\<lambda>s. set_accepted (f s) s))"
  by (rule gives_upd) (simp add: items_ok_def set_accepted_def)

lemma true_pre: "gives all_ok (\<lambda>_. True) m \<Longrightarrow> (\<And>x. gives all_ok Q (f x)) \<Longrightarrow> gives all_ok Q (bindE m f)"
  by (rule gives_bind)

lemma read_any: "gives all_ok (\<lambda>_. True) (readE f)"
  by (rule gives_read) simp

lemma append_history_ok: "ok i \<Longrightarrow> gives all_ok (\<lambda>_. True) (append_history V i action before)"
  unfolding append_history_def
  by (intro true_pre quiet step_rules gives_upd) (simp add: items_ok_def set_history_def)

lemma accept_locked_ok: "ok i \<Longrightarrow> gives all_ok (\<lambda>_. True) (accept_locked V i action)"
  unfolding accept_locked_def
  by (intro true_pre read_any pop_ok append_history_ok gives_if gives_option accepted_ok gives_raise
      quiet[OF worldE_same] quiet[OF quiet_operations(5)] quiet[OF quiet_operations(6)] quiet[OF quiet_helpers(5)] gives_ret)
     simp_all

lemma get_raw_ok: "gives all_ok ok (get_raw k)"
  unfolding get_raw_def by (rule gives_bind[OF read_item]) (auto intro: gives_ret gives_raise split: option.splits)

lemma accept_ok: "gives all_ok (\<lambda>_. True) (accept V k)"
  unfolding accept_def
  by (rule gives_bind[OF get_raw_ok])
     (intro true_pre accept_locked_ok quiet[OF save_state_same] quiet[OF notify_changed_same] gives_ret; simp)

lemma reject_ok: "gives all_ok (\<lambda>_. True) (reject V k)"
  unfolding reject_def
  by (rule gives_bind[OF get_raw_ok])
     (intro true_pre read_any quiet[OF quiet_helpers(3)] pop_ok append_history_ok quiet[OF quiet_helpers(6)]
       quiet[OF save_state_same] quiet[OF notify_changed_same] gives_ret; simp)

lemma hold_ok: "gives all_ok (\<lambda>_. True) (hold_for_review V k)"
  unfolding hold_for_review_def Let_def
  by (rule gives_bind[OF get_raw_ok])
     (intro true_pre quiet[OF quiet_operations(1)] store_ok operator[unfolded to_operator_def]
       quiet[OF save_state_same] quiet[OF notify_changed_same] gives_ret; simp)

lemma undo_ok: "ok (hi_item entry) \<Longrightarrow> gives all_ok (\<lambda>_. True) (undo_history_entry V entry)"
  unfolding undo_history_entry_def Let_def
  by (intro true_pre gives_if quiet[OF undo_index_same] quiet[OF quiet_helpers(4)] gives_raise accepted_ok
      quiet[OF quiet_operations(1)] put_ok operator[unfolded to_operator_def]; simp)

lemma validate_ok: "gives all_ok (\<lambda>_. True) (validate_history_restore V entries)"
  unfolding validate_history_restore_def
  by (intro gives_for true_pre quiet[OF steps_liftE[OF same_state_preorder]])
     (auto intro!: gives_ret gives_raise true_pre read_any gives_if split: option.splits list.splits)

lemma read_history_ok:
  "gives all_ok (list_all (\<lambda>h. ok (hi_item h))) (readE (\<lambda>s. qs_history (q_state s)))"
  by (rule gives_read) (simp add: items_ok_def)

lemma cut_history_ok:
  "gives all_ok (\<lambda>_. True) (updE (\<lambda>s. let ids = f s in
     s\<lparr>q_state := (q_state s)\<lparr>qs_restored_ids := g ids, qs_history := take n (qs_history (q_state s))\<rparr>\<rparr>))"
  by (rule gives_upd) (auto simp: items_ok_def Let_def list_all_iff dest: in_set_takeD)

lemma restore_ok: "gives all_ok (\<lambda>_. True) (restore_history_before V k)"
  unfolding restore_history_before_def
proof (rule gives_bind[OF read_history_ok])
  fix history :: "history_entry list"
  assume "list_all (\<lambda>h. ok (hi_item h)) history"
  then have e: "\<And>h n. h \<in> set (rev (drop n history)) \<Longrightarrow> ok (hi_item h)"
    by (auto simp: list_all_iff dest: in_set_dropD)
  show "gives all_ok (\<lambda>_. True) (case position_of k history of
       None \<Rightarrow> bindE (readE (\<lambda>s. k \<in> set (qs_restored_ids (q_state s)))) (\<lambda>replayed. if replayed then retE 0 else raiseE KeyError)
     | Some position \<Rightarrow>
         let targets = drop position history in
         bindE (validate_history_restore V targets) (\<lambda>_.
         bindE (forE (undo_history_entry V) (rev targets)) (\<lambda>_.
         bindE (updE (\<lambda>s.
           let ids = qs_restored_ids (q_state s) @ map hi_id targets
           in s\<lparr>q_state := (q_state s)\<lparr>qs_restored_ids := drop (length ids - 256) ids,
                                     qs_history := take position (qs_history (q_state s))\<rparr>\<rparr>)) (\<lambda>_.
         bindE (synchronise_scan_state V) (\<lambda>_.
         bindE save_state (\<lambda>_.
         bindE notify_changed (\<lambda>_.
         retE (length targets))))))))"
    unfolding Let_def
    by (intro gives_option true_pre read_any gives_if gives_ret gives_raise validate_ok gives_for undo_ok e
        cut_history_ok[unfolded Let_def] quiet[OF quiet_helpers(6)] quiet[OF save_state_same] quiet[OF notify_changed_same]) simp_all
qed

lemma capture_named:
  "gives all_ok (\<lambda>r. \<exists>suffix. r = u ''directory-snapshots/'' @ digest @ suffix) (capture_snapshot V source digest)"
  unfolding capture_snapshot_def Let_def
  by (intro true_pre read_any gives_if gives_ret gives_raise quiet[OF quiet_operations(3)] quiet[OF worldE_same])
     auto

lemma snapshot_ok: "gives all_ok (\<lambda>_. True) (snapshot_document V a d)"
  by (rule quiet[OF quiet_helpers(1)])

lemma submit_ok: "gives all_ok (\<lambda>_. True) (submit_task task)"
  by (rule quiet[OF submit_task_same])

lemma now_ok: "gives all_ok (\<lambda>_. True) (now_text V)"
  by (rule quiet[OF quiet_operations(1)])

lemma preview_ok: "gives all_ok (\<lambda>_. True) (preview V path snapshot)"
  unfolding preview_def by (intro gives_option gives_ret true_pre snapshot_ok gives_prod) simp_all

lemma event_candidate_ok:
  "gives all_ok (\<lambda>c. case fst c of None \<Rightarrow> snd c = None | Some h \<Rightarrow> \<exists>suffix. snd c = Some (u ''directory-snapshots/'' @ h @ suffix))
     (event_candidate V event)"
  unfolding event_candidate_def
  by (intro gives_if gives_option gives_raise true_pre quiet[OF steps_liftE[OF same_state_preorder]]
        gives_bind[OF capture_named] gives_ret) auto

lemma new_item_ok:
  "case fst c of None \<Rightarrow> snd c = None | Some h \<Rightarrow> \<exists>suffix. snd c = Some (u ''directory-snapshots/'' @ h @ suffix) \<Longrightarrow>
   ok (new_item E path accepted c previous now before after)"
  by (rule fresh) (auto simp: new_item_def Let_def added_def deleted_def edited_def split: option.splits)

lemma apply_event_ok: "gives all_ok (\<lambda>_. True) (apply_event V event)"
  unfolding apply_event_def Let_def
  by (intro true_pre[OF read_any] gives_bind[OF event_candidate_ok] gives_if pop_ok true_pre[OF now_ok]
      true_pre[OF preview_ok] true_pre[OF put_ok] new_item_ok submit_ok)

lemma requeue_ok: "ok i \<Longrightarrow> gives all_ok ok (requeue_legacy i)"
  unfolding requeue_legacy_def by (intro gives_if gives_ret true_pre[OF submit_ok] requeued)

lemma backfill_ok: "ok i \<Longrightarrow> gives all_ok ok (backfill_agent i)"
  unfolding backfill_agent_def Let_def
  by (intro gives_if gives_ret true_pre submit_ok agent) simp_all

lemma enrich_ok: "gives all_ok (\<lambda>_. True) (enrich_item V key)"
  unfolding enrich_item_def
proof (rule gives_bind[OF read_item], intro gives_option gives_ret TrueI)
  fix r item0
  assume "case r of None \<Rightarrow> True | Some i \<Rightarrow> ok i" "r = Some item0"
  then have i0: "ok item0" by simp
  let ?front = "\<lambda>i. case truthy_text (qi_baseline_snapshot i) of
      None \<Rightarrow> retE i
    | Some snapshot \<Rightarrow> bindE (snapshot_document V snapshot (qi_path i)) (\<lambda>(d, t).
        retE (i\<lparr>qi_baseline_document := Some d, qi_before_text := (if qi_before_text i = [] then t else qi_before_text i)\<rparr>))"
  let ?rear = "\<lambda>i. case truthy_text (qi_candidate_snapshot i) of
      None \<Rightarrow> retE i
    | Some snapshot \<Rightarrow> bindE (snapshot_document V snapshot (qi_path i)) (\<lambda>(d, t).
        retE (i\<lparr>qi_candidate_document := Some d, qi_after_text := (if qi_after_text i = [] then t else qi_after_text i)\<rparr>))"
  have f: "gives all_ok ok (?front i)" "gives all_ok ok (?rear i)" if "ok i" for i
    using that by (intro gives_option gives_ret true_pre[OF snapshot_ok] gives_prod baseline candidate; simp)+
  show "gives all_ok (\<lambda>_. True)
     (bindE (requeue_legacy item0) (\<lambda>item1. bindE (backfill_agent item1) (\<lambda>item2.
      bindE (?front item2) (\<lambda>item3. bindE (?rear item3) (\<lambda>item4.
      let item5 = (if qi_changed_values item4 = []
                   then item4\<lparr>qi_changed_values := changed_values (qi_before_text item4) (qi_after_text item4)\<rparr> else item4)
      in updE (\<lambda>s. set_items (AList.update key item5 (qs_items (q_state s))) s))))))"
    unfolding Let_def
    by (intro gives_bind[OF requeue_ok[OF i0]] gives_bind[OF backfill_ok] gives_bind[OF f(1)] gives_bind[OF f(2)] store_ok)
       (auto intro: changed)
qed

lemma analyze_commit_ok: "gives all_ok (\<lambda>_. True) (analyze_commit V k c v)"
  unfolding analyze_commit_def
proof (rule gives_bind[OF read_item], intro gives_option gives_ret TrueI gives_if)
  fix r item
  assume "case r of None \<Rightarrow> True | Some i \<Rightarrow> ok i" "r = Some item"
  then have i: "ok item" by simp
  have d: "gives all_ok (\<lambda>due. ve_review_required v = (due = None))
     (if ve_review_required v then retE None else bindE (auto_process_at V) (\<lambda>t. retE (Some t)))"
    by (intro gives_if gives_ret true_pre quiet[OF quiet_operations(2)]) simp_all
  show "gives all_ok (\<lambda>_. True)
     (bindE (if ve_review_required v then retE None else bindE (auto_process_at V) (\<lambda>t. retE (Some t))) (\<lambda>due.
           let judged = item\<lparr>qi_summary := Some (ve_summary v), qi_summary_status := u ''READY'',
                 qi_summary_error := ve_error v, qi_review_required := Some (Some (ve_review_required v)),
                 qi_review_reason := ve_review_reason v, qi_auto_processing := \<not> ve_review_required v,
                 qi_auto_process_at := due\<rparr>;
               marked = (if ve_review_required v
                 then judged\<lparr>qi_agent_status := Some (u ''PENDING''), qi_agent_report := None, qi_agent_error := None,
                             qi_agent_evidence := []\<rparr>
                 else judged\<lparr>qi_agent_status := Some (u ''NOT_REQUIRED'')\<rparr>)
           in bindE (if ve_review_required v then submit_task (AnalyzeWithAgent k c) else retE ()) (\<lambda>_.
              bindE (now_text V) (\<lambda>now.
              bindE (updE (\<lambda>s. set_items (AList.update k (marked\<lparr>qi_updated_at := now\<rparr>) (qs_items (q_state s))) s)) (\<lambda>_.
              bindE save_state (\<lambda>_.
              notify_changed))))))"
  proof (rule gives_bind[OF d])
    fix due :: "str option"
    assume "ve_review_required v = (due = None)"
    note j = judged[OF i this]
    show "gives all_ok (\<lambda>_. True)
       (let judged = item\<lparr>qi_summary := Some (ve_summary v), qi_summary_status := u ''READY'',
                 qi_summary_error := ve_error v, qi_review_required := Some (Some (ve_review_required v)),
                 qi_review_reason := ve_review_reason v, qi_auto_processing := \<not> ve_review_required v,
                 qi_auto_process_at := due\<rparr>;
               marked = (if ve_review_required v
                 then judged\<lparr>qi_agent_status := Some (u ''PENDING''), qi_agent_report := None, qi_agent_error := None,
                             qi_agent_evidence := []\<rparr>
                 else judged\<lparr>qi_agent_status := Some (u ''NOT_REQUIRED'')\<rparr>)
           in bindE (if ve_review_required v then submit_task (AnalyzeWithAgent k c) else retE ()) (\<lambda>_.
              bindE (now_text V) (\<lambda>now.
              bindE (updE (\<lambda>s. set_items (AList.update k (marked\<lparr>qi_updated_at := now\<rparr>) (qs_items (q_state s))) s)) (\<lambda>_.
              bindE save_state (\<lambda>_.
              notify_changed)))))"
      unfolding Let_def
      by (intro true_pre gives_if submit_ok gives_ret now_ok store_ok updated quiet[OF save_state_same]
          quiet[OF notify_changed_same]) (use agent[OF j] agent_status[OF j] in \<open>cases "ve_review_required v"; simp\<close>)+
  qed
qed

lemma agent_commit_ok: "gives all_ok (\<lambda>_. True) (agent_commit V k c rows answer)"
  unfolding agent_commit_def Let_def
  by (rule gives_bind[OF read_item], intro gives_option gives_ret TrueI gives_if true_pre now_ok store_ok
      quiet[OF save_state_same] quiet[OF notify_changed_same]) (auto intro: updated agent)

lemma auto_index_item_ok: "gives all_ok (\<lambda>_. True) (auto_index_item V now k)"
  unfolding auto_index_item_def
  by (rule gives_bind[OF read_item], intro gives_option gives_ret TrueI gives_if
      gives_try[where P = "\<lambda>_. True"] true_pre now_ok put_ok accept_locked_ok operator[unfolded to_operator_def]) simp_all

lemma auto_index_items_ok: "gives all_ok (\<lambda>_. True) (auto_index_items V now ks)"
  by (induction ks) (simp_all add: gives_ret true_pre auto_index_item_ok)

lemma process_due_ok: "gives all_ok (\<lambda>_. True) (process_due_auto_indexes V)"
  unfolding process_due_auto_indexes_def
  by (intro true_pre quiet[OF read_clock_same] read_any auto_index_items_ok)

lemma discard_ok: "gives all_ok (\<lambda>_. True) discard_textually_reverted"
  unfolding discard_textually_reverted_def
  by (intro true_pre read_any gives_ret gives_upd TrueI) (simp add: items_ok_def set_items_def list_all_iff)

lemma poll_ok: "gives all_ok (\<lambda>_. True) (poll_once V)"
  unfolding poll_once_def list_items_def
  by (intro true_pre quiet[OF scan_now_same] gives_for apply_event_ok read_any enrich_ok discard_ok process_due_ok
      quiet[OF save_state_same] gives_if quiet[OF notify_changed_same] gives_ret TrueI)

lemma call_ok: "all_ok s \<Longrightarrow> all_ok (queue_call_run V c s)"
  by (cases c)
     (simp_all add: items_ok_def[of ok "_\<lparr>q_world := _, q_faults := _\<rparr>"] gives_discard[OF poll_ok] gives_discard[OF accept_ok]
       gives_discard[OF reject_ok] gives_discard[OF hold_ok] gives_discard[OF restore_ok] gives_discard[OF analyze_commit_ok]
       gives_discard[OF agent_commit_ok], simp add: items_ok_def)

lemma run_ok: "all_ok s \<Longrightarrow> all_ok (queue_run V cs s)"
  by (induction cs arbitrary: s) (auto simp: queue_run_def call_ok)

lemma init_ok: "all_ok (queue_init w)"
  by (simp add: items_ok_def queue_init_def empty_queue_state_def)

end

section \<open>The two properties of the items\<close>

definition auto_ok :: "queue_item \<Rightarrow> bool" where
  "auto_ok i = (qi_auto_processing i \<longrightarrow> qi_review_required i = Some (Some False) \<and> qi_auto_process_at i \<noteq> None)"

definition named_ok :: "queue_item \<Rightarrow> bool" where
  "named_ok i =
     ((qi_candidate_sha256 i = None \<longleftrightarrow> qi_change_type i = deleted) \<and>
      (case qi_candidate_sha256 i of
         None \<Rightarrow> qi_candidate_snapshot i = None
       | Some h \<Rightarrow> (\<exists>suffix. qi_candidate_snapshot i = Some (u ''directory-snapshots/'' @ h @ suffix))))"

interpretation auto: item_invariant auto_ok
  by unfold_locales (auto simp: auto_ok_def to_operator_def)

interpretation named: item_invariant named_ok
  by unfold_locales (auto simp: named_ok_def to_operator_def)

text \<open>C19: In every state the queue reaches, whatever the operator, the models, the scanner and the outside world do, an
  item set for automatic indexing is one the verdict freed from review and carries a deadline, a deletion has no candidate
  and every other item's candidate snapshot is named by the candidate's digest; so are the items kept in the history.\<close>

theorem queue_items_consistent:
  "list_all (\<lambda>(k, i). auto_ok i \<and> named_ok i) (qs_items (q_state (queue_run V calls (queue_init w)))) \<and>
   list_all (\<lambda>h. auto_ok (hi_item h) \<and> named_ok (hi_item h)) (qs_history (q_state (queue_run V calls (queue_init w))))"
  using auto.run_ok[OF auto.init_ok, of V calls w] named.run_ok[OF named.init_ok, of V calls w]
  by (auto simp: items_ok_def list_all_iff)

end
