(* ===== verification/QueueEffects.thy ===== *)
theory QueueEffects
  imports ChangeQueue "HOL-Library.Code_Target_Nat" "HOL-Library.Code_Target_Int"
begin

text \<open>
  The effect of the queue's operations: accepting, rejecting, undoing, the model's verdict and a failed poll.
\<close>

section \<open>Symbolic execution of the queue's steps\<close>

lemma wp_readE [wp_simps]: "wp (readE f) Q s = Q (Inr (f s)) s"
  by (simp add: wp_def readE_def)

lemma wp_updE [wp_simps]: "wp (updE f) Q s = Q (Inr ()) (f s)"
  by (simp add: wp_def updE_def)

lemma wp_read_clock [wp_simps]: "wp (read_clock V) Q s = Q (Inr (qe_time V (q_clock s))) (s\<lparr>q_clock := Suc (q_clock s)\<rparr>)"
  by (simp add: wp_def read_clock_def)

lemma wp_indexR [wp_simps]: "wp (indexR f) Q w = Q (f (w_index w)) w"
  by (simp add: wp_def indexR_def)

lemma wp_bindI:
  "wp m P s \<Longrightarrow> (\<And>e t. P (Inl e) t \<Longrightarrow> Q (Inl e) t) \<Longrightarrow> (\<And>x t. P (Inr x) t \<Longrightarrow> wp (f x) Q t) \<Longrightarrow> wp (bindE m f) Q s"
  unfolding wp_bindE by (erule wp_conseq) (auto split: sum.splits)

text \<open>What staging and extracting leave alone: the dicts, the index, and every file already there.\<close>

definition staged_only :: "change_queue \<Rightarrow> change_queue \<Rightarrow> bool" where
  "staged_only s t \<longleftrightarrow>
     q_state t = q_state s \<and> q_saved t = q_saved s \<and> q_revision t = q_revision s \<and> q_scan t = q_scan s \<and>
     w_index (q_world t) = w_index (q_world s) \<and> (\<forall>p b. file_at s p = Some b \<longrightarrow> file_at t p = Some b)"

lemma staged_only_refl [simp]: "staged_only s s"
  by (simp add: staged_only_def)

lemma staged_only_trans: "staged_only s t \<Longrightarrow> staged_only t v \<Longrightarrow> staged_only s v"
  by (simp add: staged_only_def)

lemma staged_only_preorder: "preorderR staged_only"
  by (rule preorderRI) (auto intro: staged_only_trans)

lemma stage_path_run:
  "wp (stage_path V path) (\<lambda>r t. staged_only s t \<and>
     (\<forall>f. r = Inr f \<longrightarrow> (\<exists>b. file_at s path = Some b \<and> sf_sha256 f = en_sha_bytes (qe_env V) b))) s"
proof (cases "w_files (q_world s) path")
  case None
  then show ?thesis
    by (simp add: stage_path_def worldE_def wp_simps wp_def[of "read_file path"] read_file_def)
next
  case (Some b)
  then show ?thesis
    by (auto simp: stage_path_def worldE_def wp_simps wp_def[of "read_file path"] read_file_def file_at_def
        wp_def[of "stage_stream _ _ _ _"] stage_stream_def stage_loop_result Let_def staged_only_def)
qed

lemma extract_staged_run:
  "wp (extract_staged V f d) (\<lambda>r t. staged_only s t \<and> (\<forall>snap. r = Inr snap \<longrightarrow> (\<exists>b. qe_extract V f b d = Inr snap))) s"
  by (cases "w_files (q_world s) (sf_path f)")
     (auto simp: extract_staged_def worldE_def wp_simps wp_def[of "read_file _"] read_file_def)

lemma snapshot_document_run: "wp (snapshot_document V a d) (\<lambda>r t. staged_only s t) s"
  unfolding snapshot_document_def wp_simps Let_def
  by (rule wp_conseq[OF stage_path_run])
     (auto split: sum.splits simp: wp_simps intro!: wp_conseq[OF extract_staged_run] dest: staged_only_trans)

section \<open>Accepting\<close>

definition acceptance_undone :: "change_queue \<Rightarrow> change_queue \<Rightarrow> bool" where
  "acceptance_undone s t \<longleftrightarrow>
     q_state t = q_state s \<and> q_saved t = q_saved s \<and> q_revision t = q_revision s \<and> q_scan t = q_scan s \<and>
     same_tables (w_index (q_world s)) (w_index (q_world t))"

lemma staged_undone: "staged_only s t \<Longrightarrow> acceptance_undone s t"
  by (simp add: staged_only_def acceptance_undone_def)

lemma wp_append_history:
  "wp (append_history V item action before) Q s \<longleftrightarrow>
     Q (Inr ()) (set_history (qs_history (q_state s) @
       [\<lparr>hi_id = u ''rev_'' @ take 16 (en_sha_text (qe_env V) (qi_id item @ [58] @ qe_iso V (qe_time V (q_clock s)))),
         hi_path = qi_path item, hi_change_type = qi_change_type item, hi_action = action,
         hi_processed_at = qe_iso V (qe_time V (Suc (q_clock s))), hi_summary = qi_summary item, hi_item = item,
         hi_accepted_before = before\<rparr>]) (s\<lparr>q_clock := Suc (Suc (q_clock s))\<rparr>))"
  by (simp add: append_history_def now_text_def wp_simps set_history_def)

lemma get_current_versionD:
  "get_current_version i d = Inr v \<Longrightarrow> map_option iv_sha256 v = current_sha i d"
  by (auto simp: get_current_version_def current_sha_def version_from_row_def split: option.splits sum.splits)

text \<open>What an acceptance that returned has done.\<close>

definition accepted_by :: "queue_env \<Rightarrow> queue_item \<Rightarrow> str \<Rightarrow> change_queue \<Rightarrow> change_queue \<Rightarrow> bool" where
  "accepted_by V item action s t \<longleftrightarrow>
     (\<exists>entry. qs_history (q_state t) = qs_history (q_state s) @ [entry] \<and> hi_item entry = item \<and> hi_action entry = action \<and>
        hi_accepted_before entry = accepted_of s (qi_path item)) \<and>
     qs_items (q_state t) = AList.delete (qi_id item) (qs_items (q_state s)) \<and>
     q_saved t = q_saved s \<and> q_revision t = q_revision s \<and>
     (if qi_change_type item = deleted
      then qs_accepted (q_state t) = AList.delete (qi_path item) (qs_accepted (q_state s)) \<and>
           (case current_sha (w_index (q_world s)) (document_id_of item) of
              None \<Rightarrow> w_index (q_world t) = w_index (q_world s)
            | Some h \<Rightarrow> (\<exists>b. remove_atomic (document_id_of item) h (w_index (q_world s)) = (Inr b, w_index (q_world t))))
      else (\<exists>candidate content f b snap rc.
             qi_candidate_snapshot item = Some candidate \<and> file_at s (runtime_file V candidate) = Some content \<and>
             sf_sha256 f = en_sha_bytes (qe_env V) content \<and> qe_extract V f b (document_id_of item) = Inr snap \<and>
             index_atomic (qe_env V) snap (Some (qi_baseline_sha256 item)) (w_index (q_world s)) = (Inr rc, w_index (q_world t)) \<and>
             qs_accepted (q_state t) = AList.update (qi_path item)
               \<lparr>ac_sha256 = the (qi_candidate_sha256 item), ac_snapshot = candidate\<rparr> (qs_accepted (q_state s))))"

lemma accept_deletion_run:
  assumes "qi_change_type item = deleted"
  shows "wp (accept_locked V item action)
    (\<lambda>r t. case r of Inl e \<Rightarrow> acceptance_undone s t | Inr _ \<Rightarrow> accepted_by V item action s t) s"
proof (cases "get_current_version (w_index (q_world s)) (document_id_of item)")
  case (Inl e)
  then show ?thesis
    by (simp add: assms accept_locked_def wp_simps current_version_def worldE_def acceptance_undone_def)
next
  case (Inr v)
  note h = get_current_versionD[OF Inr]
  show ?thesis
  proof (cases v)
    case None
    with h Inr assms show ?thesis
      by (simp add: accept_locked_def wp_simps wp_append_history current_version_def worldE_def pop_item_def
          set_items_def set_accepted_def set_history_def accepted_by_def accepted_of_def)
  next
    case (Some w)
    obtain r i where run: "remove_atomic (document_id_of item) (iv_sha256 w) (w_index (q_world s)) = (r, i)" by fastforce
    show ?thesis
    proof (cases r)
      case (Inl e)
      with run h Some Inr assms remove_atomic_error show ?thesis
        by (simp add: accept_locked_def wp_simps current_version_def worldE_def indexE_def wp_def[of "remove_atomic _ _"]
            acceptance_undone_def)
    next
      case (Inr b)
      with run h[symmetric] Some \<open>get_current_version _ _ = _\<close> assms show ?thesis
        by (auto simp: accept_locked_def wp_simps wp_append_history current_version_def worldE_def indexE_def pop_item_def
            wp_def[of "remove_atomic _ _"] set_items_def set_accepted_def set_history_def accepted_by_def accepted_of_def)
    qed
  qed
qed

lemma accept_document_run:
  assumes d: "qi_change_type item \<noteq> deleted"
  shows "wp (accept_locked V item action)
    (\<lambda>r t. case r of Inl e \<Rightarrow> acceptance_undone s t | Inr _ \<Rightarrow> accepted_by V item action s t) s"
proof (cases "qi_candidate_snapshot item")
  case None
  with d show ?thesis
    by (simp add: accept_locked_def wp_simps acceptance_undone_def)
next
  case (Some candidate)
  let ?Q = "\<lambda>r t. case r of Inl e \<Rightarrow> acceptance_undone s t | Inr _ \<Rightarrow> accepted_by V item action s t"
  let ?finish = "bindE (pop_item (qi_id item)) (\<lambda>_. append_history V item action (accepted_of s (qi_path item)))"
  let ?R = "\<lambda>r t. case r of Inl e \<Rightarrow> acceptance_undone s t | Inr _ \<Rightarrow> wp ?finish ?Q t"
  let ?accept = "updE (\<lambda>s. set_accepted (AList.update (qi_path item)
    \<lparr>ac_sha256 = the (qi_candidate_sha256 item), ac_snapshot = candidate\<rparr> (qs_accepted (q_state s))) s)"
  have index: "wp (bindE (worldE (indexE (index_atomic (qe_env V) snap (Some (qi_baseline_sha256 item))))) (\<lambda>_. ?accept)) ?R t"
    if t: "staged_only s t" and f: "file_at s (runtime_file V candidate) = Some content"
      "sf_sha256 f = en_sha_bytes (qe_env V) content" "qe_extract V f b (document_id_of item) = Inr snap" for t content f b snap
  proof -
    obtain r i where run: "index_atomic (qe_env V) snap (Some (qi_baseline_sha256 item)) (w_index (q_world t)) = (r, i)"
      by fastforce
    have same: "w_index (q_world t) = w_index (q_world s)" "q_state t = q_state s" "q_saved t = q_saved s"
      "q_revision t = q_revision s" "q_scan t = q_scan s"
      using t by (simp_all add: staged_only_def)
    show ?thesis
    proof (cases r)
      case (Inl e)
      with run same index_atomic_error[of "qe_env V" snap "Some (qi_baseline_sha256 item)" "w_index (q_world s)" e i] show ?thesis
        by (simp add: wp_simps worldE_def indexE_def wp_def[of "index_atomic _ _ _"] acceptance_undone_def)
    next
      case (Inr rc)
      have "accepted_by V item action s u"
        if "qs_history (q_state u) = qs_history (q_state s) @ [entry]" "hi_item entry = item" "hi_action entry = action"
          "hi_accepted_before entry = accepted_of s (qi_path item)"
          "qs_items (q_state u) = AList.delete (qi_id item) (qs_items (q_state s))" "q_saved u = q_saved s"
          "q_revision u = q_revision s" "w_index (q_world u) = i"
          "qs_accepted (q_state u) = AList.update (qi_path item)
             \<lparr>ac_sha256 = the (qi_candidate_sha256 item), ac_snapshot = candidate\<rparr> (qs_accepted (q_state s))" for u entry
        using that d Some f run Inr same unfolding accepted_by_def by auto
      with run Inr same show ?thesis
        by (simp add: wp_simps worldE_def indexE_def wp_def[of "index_atomic _ _ _"] wp_append_history pop_item_def
            set_items_def set_accepted_def set_history_def)
    qed
  qed
  show ?thesis
    unfolding accept_locked_def Some option.case if_not_P[OF d] wp_readE wp_bindE[of "readE _"] sum.case wp_bindE[of _ "\<lambda>_. ?finish"]
  proof (rule wp_bindI[OF stage_path_run])
    fix e t
    assume "staged_only s t \<and> (\<forall>f. Inl e = Inr f \<longrightarrow> (\<exists>b. file_at s (runtime_file V candidate) = Some b \<and> sf_sha256 f = en_sha_bytes (qe_env V) b))"
    then show "?R (Inl e) t" by (simp add: staged_undone)
  next
    fix f :: staged_file and t
    assume a: "staged_only s t \<and> (\<forall>g. Inr f = Inr g \<longrightarrow> (\<exists>b. file_at s (runtime_file V candidate) = Some b \<and> sf_sha256 g = en_sha_bytes (qe_env V) b))"
    then obtain content where f: "file_at s (runtime_file V candidate) = Some content" "sf_sha256 f = en_sha_bytes (qe_env V) content"
      by blast
    show "wp (bindE (extract_staged V f (document_id_of item)) (\<lambda>snap.
        bindE (worldE (indexE (index_atomic (qe_env V) snap (Some (qi_baseline_sha256 item))))) (\<lambda>_. ?accept))) ?R t"
    proof (rule wp_bindI[OF extract_staged_run])
      fix e u
      assume "staged_only t u \<and> (\<forall>snap. Inl e = Inr snap \<longrightarrow> (\<exists>b. qe_extract V f b (document_id_of item) = Inr snap))"
      with a show "?R (Inl e) u"
        by (auto intro: staged_undone staged_only_trans)
    next
      fix snap :: document_snapshot and u
      assume b: "staged_only t u \<and> (\<forall>x. Inr snap = Inr x \<longrightarrow> (\<exists>b. qe_extract V f b (document_id_of item) = Inr x))"
      then obtain b where "qe_extract V f b (document_id_of item) = Inr snap" by blast
      moreover have "staged_only s u" using a b staged_only_trans by blast
      ultimately show "wp (bindE (worldE (indexE (index_atomic (qe_env V) snap (Some (qi_baseline_sha256 item))))) (\<lambda>_. ?accept)) ?R u"
        by (intro index[OF _ f])
    qed
  qed
qed

lemma accept_locked_run:
  "wp (accept_locked V item action)
    (\<lambda>r t. case r of Inl e \<Rightarrow> acceptance_undone s t | Inr _ \<Rightarrow> accepted_by V item action s t) s"
  using accept_deletion_run accept_document_run by blast

lemma accept_run:
  assumes "item_of s k = Some item" "accept V k s = (Inr r, t)"
  obtains v where "accepted_by V item (u ''INDEX'') s v" "q_state t = q_state v" "q_world t = q_world v"
    "q_saved t = Some (q_state v)" "q_revision t = Suc (q_revision v)"
proof -
  obtain q v where run: "accept_locked V item (u ''INDEX'') s = (q, v)" by fastforce
  with assms obtain u where "q = Inr u" by (cases q) (auto simp: accept_def get_raw_def bindE_def readE_def retE_def)
  with run assms wpD[OF accept_locked_run run] that show ?thesis
    by (auto simp: accept_def get_raw_def bindE_def readE_def retE_def save_state_def notify_changed_def updE_def)
qed

lemma index_documents:
  assumes run: "index_atomic E snap e i = (Inr rc, i')" and inv: "ix_inv i" and d: "ds_document_id snap = d"
  shows "current_sha i' x = (if x = d then Some (ds_sha256 snap) else current_sha i x)"
  using index_atomic_effect(2)[OF run inv] index_atomic_effect(3)[OF run, of x] d by auto


definition extraction_names :: "queue_env \<Rightarrow> bool" where
  "extraction_names V \<longleftrightarrow>
     (\<forall>f b d snap. qe_extract V f b d = Inr snap \<longrightarrow> ds_document_id snap = d \<and> ds_sha256 snap = sf_sha256 f)"


text \<open>Accepting a deletion does not take an edited document out of the index: it removes the current version only,
  so the newest of the versions indexed before is served again while the accepted map has forgotten the path
  (\<^verbatim>\<open>remove_atomic\<close> was made for withdrawing one candidate).\<close>

lemma accepted_deletion_serves_predecessor:
  assumes "item_of s k = Some item" "qi_change_type item = deleted" "ix_inv (w_index (q_world s))"
    and "current_sha (w_index (q_world s)) (document_id_of item) = Some h" "accept V k s = (Inr r, t)"
  shows "accepted_of t (qi_path item) = None \<and>
    current_sha (w_index (q_world t)) (document_id_of item) =
      map_option id_sha256 (predecessor (document_id_of item) h (ix_docs (w_index (q_world s))))"
proof -
  from assms(1,5) obtain v where v: "accepted_by V item (u ''INDEX'') s v" "q_state t = q_state v" "q_world t = q_world v"
    by (rule accept_run)
  from v(1) assms(2,4) obtain b where
    r: "remove_atomic (document_id_of item) h (w_index (q_world s)) = (Inr b, w_index (q_world v))"
    and a: "qs_accepted (q_state v) = AList.delete (qi_path item) (qs_accepted (q_state s))"
    unfolding accepted_by_def by auto
  from removed_current[OF assms(3) r assms(4)] a v show ?thesis
    by (auto simp: accepted_of_def delete_conv')
qed

lemma item_of_eq: "item_of s = map_of (qs_items (q_state s))"
  by (rule ext) (simp add: item_of_def)

lemma accepted_of_eq: "accepted_of s = map_of (qs_accepted (q_state s))"
  by (rule ext) (simp add: accepted_of_def)

section \<open>Rejecting\<close>

definition baseline_restored :: "queue_env \<Rightarrow> queue_item \<Rightarrow> change_queue \<Rightarrow> (str \<Rightarrow> bytes option) \<Rightarrow> str \<Rightarrow> bool" where
  "baseline_restored V item s files path \<longleftrightarrow>
     (if qi_change_type item = added then files = (w_files (q_world s))(path := None)
      else \<exists>snapshot content. qi_baseline_snapshot item = Some snapshot \<and> file_at s (runtime_file V snapshot) = Some content \<and>
        files = (w_files (q_world s))(path \<mapsto> content))"

lemma restore_baseline_run:
  "wp (restore_source_to_baseline V item) (\<lambda>r t. case r of Inl e \<Rightarrow> True | Inr _ \<Rightarrow>
     \<exists>path. source_path V (qi_path item) = Inr path \<and> q_state t = q_state s \<and> w_index (q_world t) = w_index (q_world s) \<and>
       baseline_restored V item s (w_files (q_world t)) path) s"
  unfolding restore_source_to_baseline_def baseline_restored_def
  by (auto simp: wp_simps unlink_def copy_file_def set_file_def file_fault_def wp_def[of file_fault] file_at_def
      split: option.splits list.splits sum.splits)

definition scan_only :: "change_queue \<Rightarrow> change_queue \<Rightarrow> bool" where
  "scan_only s t \<longleftrightarrow> (\<exists>c. t = s\<lparr>q_scan := c\<rparr>)"

lemma scan_only_preorder: "preorderR scan_only"
proof (rule preorderRI)
  show "scan_only s s" for s
    unfolding scan_only_def by (rule exI[of _ "q_scan s"]) simp
qed (auto simp: scan_only_def)

lemma synchronise_scan_only: "steps scan_only (synchronise_scan_state V)"
proof -
  have "steps scan_only (scan_directory_now V)" "steps scan_only (updE (\<lambda>s. s\<lparr>q_scan := None\<rparr>))"
    by (rule stepsI; auto simp: scan_directory_now_def updE_def scan_only_def split: prod.splits)+
  then show ?thesis
    unfolding synchronise_scan_state_def
    by (intro steps_tryE steps_if steps_bindE steps_retE steps_raiseE scan_only_preorder)
qed

text \<open>Rejecting a change undoes it in the watched directory and nowhere else: when \<^verbatim>\<open>reject\<close> returns, the added
  file is gone or the changed or deleted one has the bytes of the baseline snapshot again, no other file, no row of the
  index and no accepted entry changed, the item has left the queue for the history, and the dicts are saved.\<close>

lemma reject_restores_baseline:
  assumes "item_of s k = Some item" "reject V k s = (Inr r, t)"
  shows "\<exists>path. source_path V (qi_path item) = Inr path \<and>
    (if qi_change_type item = added then w_files (q_world t) = (w_files (q_world s))(path := None)
     else \<exists>snapshot content. qi_baseline_snapshot item = Some snapshot \<and> file_at s (runtime_file V snapshot) = Some content \<and>
       w_files (q_world t) = (w_files (q_world s))(path \<mapsto> content)) \<and>
    w_index (q_world t) = w_index (q_world s) \<and> qs_accepted (q_state t) = qs_accepted (q_state s) \<and>
    item_of t = (item_of s)(k := None) \<and> map hi_item (qs_history (q_state t)) = map hi_item (qs_history (q_state s)) @ [item] \<and>
    q_saved t = Some (q_state t)"
proof -
  have "wp (reject V k) (\<lambda>r t. case r of Inl e \<Rightarrow> True | Inr _ \<Rightarrow> \<exists>path. source_path V (qi_path item) = Inr path \<and>
    baseline_restored V item s (w_files (q_world t)) path \<and>
    w_index (q_world t) = w_index (q_world s) \<and> qs_accepted (q_state t) = qs_accepted (q_state s) \<and>
    item_of t = (item_of s)(k := None) \<and> map hi_item (qs_history (q_state t)) = map hi_item (qs_history (q_state s)) @ [item] \<and>
    q_saved t = Some (q_state t)) s"
    unfolding reject_def get_raw_def wp_simps assms(1) option.case sum.case
    by (rule wp_conseq[OF restore_baseline_run])
       (auto simp: wp_simps wp_append_history pop_item_def set_items_def set_history_def save_state_def notify_changed_def
          item_of_eq delete_conv' scan_only_def split: sum.splits intro!: wp_conseq[OF wp_steps[OF synchronise_scan_only]])
  from wpD[OF this assms(2)] show ?thesis by (simp add: baseline_restored_def)
qed

section \<open>The model's verdict\<close>

lemma analyze_commit_run:
  assumes "item_of s k = Some item" "qi_candidate_sha256 item = sha"
  shows "\<exists>j. item_of (discard (analyze_commit V k sha v) s) k = Some j \<and> qi_auto_processing j = (\<not> ve_review_required v) \<and>
    qi_review_required j = Some (Some (ve_review_required v)) \<and>
    qi_auto_process_at j = (if ve_review_required v then None else Some (qe_iso V (qe_time V (q_clock s) + auto_process_delay))) \<and>
    qi_change_type j = qi_change_type item \<and> qi_before_text j = qi_before_text item \<and> qi_after_text j = qi_after_text item"
proof -
  have "wp (analyze_commit V k sha v) (\<lambda>r t. \<exists>j. item_of t k = Some j \<and> qi_auto_processing j = (\<not> ve_review_required v) \<and>
    qi_review_required j = Some (Some (ve_review_required v)) \<and>
    qi_auto_process_at j = (if ve_review_required v then None else Some (qe_iso V (qe_time V (q_clock s) + auto_process_delay))) \<and>
    qi_change_type j = qi_change_type item \<and> qi_before_text j = qi_before_text item \<and> qi_after_text j = qi_after_text item) s"
    using assms
    by (cases "ve_review_required v")
       (simp_all add: analyze_commit_def wp_simps auto_process_at_def submit_task_def now_text_def save_state_def
         notify_changed_def set_items_def item_of_def update_conv' Let_def)
  then show ?thesis unfolding discard_def wp_def .
qed

text \<open>The inputs the first locked part of \<^verbatim>\<open>_analyze_later\<close> takes from an item.\<close>

definition inputs_of :: "queue_item \<Rightarrow> analysis_inputs" where
  "inputs_of item = \<lparr>an_path = qi_path item, an_change_type = qi_change_type item, an_before_text = qi_before_text item,
     an_after_text = qi_after_text item\<rparr>"


text \<open>The second locked part of \<^verbatim>\<open>_analyze_later\<close> compares the candidate digest only.  A verdict reached on other
  inputs (the same bytes seen as an edit) is applied to a later item with that digest, and an addition, a deletion or a text
  with an injection term is set for automatic indexing although its own mandatory reason demands a review.\<close>

lemma stale_verdict_skips_mandatory_review:
  assumes "item_of s k = Some item" "qi_candidate_sha256 item = sha"
    and "mandatory_reason (en_udb (qe_env V)) (qi_change_type item) (qi_before_text item) (qi_after_text item) = Some reason"
    and "\<not> ve_review_required (verdict_of V earlier answer)"
  shows "\<exists>j. item_of (discard (analyze_commit V k sha (verdict_of V earlier answer)) s) k = Some j \<and> qi_auto_processing j \<and>
    qi_review_required j = Some (Some False) \<and>
    mandatory_reason (en_udb (qe_env V)) (qi_change_type j) (qi_before_text j) (qi_after_text j) = Some reason"
  using analyze_commit_run[OF assms(1,2), of V "verdict_of V earlier answer"] assms(3,4) by auto

section \<open>A poll that fails\<close>

definition same_scan :: "change_queue \<Rightarrow> change_queue \<Rightarrow> bool" where
  "same_scan s t \<longleftrightarrow> q_scan t = q_scan s"

lemma same_scan_preorder [step_rules]: "preorderR same_scan"
  unfolding same_scan_def by (rule preorderR_field)

lemma scan_kept [step_rules]:
  "steps same_scan (worldE m)" "steps same_scan (read_clock V)" "steps same_scan file_fault"
  "steps same_scan (set_file path content)" "steps same_scan (submit_task task)" "steps same_scan (put_item item)"
  "steps same_scan (pop_item k)"
  by (rule stepsI; auto simp: worldE_def onE_run read_clock_def file_fault_def set_file_def submit_task_def put_item_def
      pop_item_def updE_def set_items_def same_scan_def split: list.splits option.splits)+

lemma scan_kept_by_apply [step_rules]: "steps same_scan (apply_event V event)"
  unfolding apply_event_def event_candidate_def preview_def snapshot_document_def capture_snapshot_def stage_path_def
    extract_staged_def now_text_def copy_file_def Let_def
  by (intro step_rules)

text \<open>A poll that raises while it applies a scan's events loses them: the scanner has already saved the new snapshot,
  so when the directory is scanned again with the same files the events are not reported again, the failed one and all
  after it (the comment of \<^verbatim>\<open>_watch_loop\<close> says \<^verbatim>\<open>The next scan retries.\<close>).\<close>

lemma failed_poll_loses_events:
  assumes "scan_directory_now V s = (Inr result, s1)" "forE (apply_event V) (sr_events result) s1 = (Inl e, t)"
    and "qe_view V (w_files (q_world t)) = qe_view V (w_files (q_world s))"
    and "code_points_ok (qe_env V) (sr_root result) (scanned (qe_env V) (qe_view V (w_files (q_world s))) result True)"
    and "list_all (\<lambda>p. loadable (en_udb (qe_env V)) p (the (map_of (scanned (qe_env V) (qe_view V (w_files (q_world s))) result True) p)))
      (map fst (scanned (qe_env V) (qe_view V (w_files (q_world s))) result True))"
    and "\<not> sv_unreadable (qe_view V (w_files (q_world s)))"
    and "sv_resolve (qe_view V (w_files (q_world s))) (sr_root result) = Inr (sr_root result)"
  shows "poll_once V s = (Inl e, t) \<and> fst (scan_directory_now V t) = Inr (result\<lparr>sr_events := []\<rparr>)"
proof -
  from assms(1) obtain c where
    c: "scan_once (qe_env V) (qe_view V (w_files (q_world s))) (qe_directory V) (Some (qe_scan_state V)) True (q_scan s) = (Inr result, c)"
      "s1 = s\<lparr>q_scan := c\<rparr>"
    by (auto simp: scan_directory_now_def split: prod.splits)
  have "steps same_scan (forE (apply_event V) (sr_events result))" by (intro step_rules)
  from stepsD[OF this assms(2)] have "q_scan t = c" by (simp add: same_scan_def c(2))
  moreover have "poll_once V s = (Inl e, t)"
    using assms(1,2) by (simp add: poll_once_def bindE_def)
  ultimately show ?thesis
    using rescan_nothing[OF c(1) assms(4-7)] assms(3) by (simp add: scan_directory_now_def)
qed

section \<open>Undoing an acceptance\<close>

lemma position_of_last:
  assumes "list_all (\<lambda>h. hi_id h \<noteq> hi_id entry) hs"
  shows "position_of (hi_id entry) (hs @ [entry]) = Some (length hs)"
proof -
  have "find (\<lambda>i. hi_id ((hs @ [entry]) ! i) = hi_id entry) [0..<length hs] = None"
    using assms by (auto simp: find_None_iff nth_append list_all_length)
  then show ?thesis by (simp add: position_of_def nth_append find_append_none)
qed

text \<open>What undoing an acceptance does to the dicts.\<close>

definition reopened :: "history_entry \<Rightarrow> queue_state \<Rightarrow> queue_state \<Rightarrow> bool" where
  "reopened entry s t \<longleftrightarrow>
     map_of (qs_accepted t) = (map_of (qs_accepted s))(qi_path (hi_item entry) := hi_accepted_before entry) \<and>
     (\<exists>now. map_of (qs_items t) = (map_of (qs_items s))(qi_id (hi_item entry) \<mapsto> (hi_item entry)\<lparr>qi_auto_processing := False,
        qi_auto_process_at := None, qi_review_required := Some (Some True),
        qi_review_reason := Some ([44160, 53664, 32, 44592, 47197, 32, 48373, 44396, 47196, 32, 51088, 46041, 32, 52376, 47532, 44032, 32, 51473, 51648, 46104, 50632, 49845, 45768, 45796, 46]), qi_updated_at := now\<rparr>))"

lemma reopened_dicts [simp]:
  "reopened entry s (t\<lparr>qs_restored_ids := a, qs_history := b\<rparr>) = reopened entry s t"
  by (simp add: reopened_def)

lemma undo_acceptance_run:
  assumes "hi_action entry = u ''INDEX''"
  shows "wp (undo_history_entry V entry) (\<lambda>r t. case r of Inl e \<Rightarrow> True | Inr _ \<Rightarrow>
    reopened entry (q_state s) (q_state t) \<and> qs_history (q_state t) = qs_history (q_state s)) s"
  unfolding undo_history_entry_def Let_def wp_simps assms simp_thms if_True
  by (rule wp_conseq[OF wp_steps[OF undo_index_same]])
     (cases "hi_accepted_before entry"; auto simp: wp_simps same_state_def put_item_def now_text_def set_items_def set_accepted_def
        reopened_def update_conv' delete_conv' split: sum.splits)

lemma validate_same: "steps (\<lambda>s t. t = s) (validate_history_restore V entries)"
proof -
  have e: "preorderR (\<lambda>s t :: change_queue. t = s)" by (rule preorderRI) auto
  show ?thesis
    unfolding validate_history_restore_def
    by (intro steps_forE e steps_bindE steps_liftE steps_readE steps_if steps_retE steps_raiseE steps_case_option steps_case_list)
qed

lemma restore_last_run:
  assumes "qs_history (q_state t) = hs @ [entry]" "list_all (\<lambda>h. hi_id h \<noteq> hi_id entry) hs" "hi_action entry = u ''INDEX''"
  shows "wp (restore_history_before V (hi_id entry)) (\<lambda>r v. case r of Inl e \<Rightarrow> True | Inr n \<Rightarrow>
    n = 1 \<and> qs_history (q_state v) = hs \<and> reopened entry (q_state t) (q_state v) \<and> q_saved v = Some (q_state v)) t"
proof -
  have last: "rev (drop (length hs) (hs @ [entry])) = [entry]" "length (drop (length hs) (hs @ [entry])) = 1" by simp_all
  show ?thesis
    unfolding restore_history_before_def wp_simps assms(1) sum.case position_of_last[OF assms(2)] option.case Let_def last
      forE.simps
    by (rule wp_conseq[OF wp_steps[OF validate_same]])
       (auto split: sum.splits simp: wp_simps assms(1) scan_only_def save_state_def notify_changed_def
          intro!: wp_conseq[OF undo_acceptance_run[OF assms(3)]] wp_conseq[OF wp_steps[OF synchronise_scan_only]])
qed

text \<open>C23: Restoring the history entry of an acceptance takes it back: when both calls return, exactly one entry was
  restored, the history and the accepted map are those before the acceptance, and the queue's items are too, except that
  the item waits for the operator and is not indexed automatically.\<close>

theorem accept_then_restore:
  assumes "item_of s k = Some item" "qi_id item = k" "accept V k s = (Inr r, t)"
    and "list_all (\<lambda>h. hi_id h \<noteq> hi_id (last (qs_history (q_state t)))) (qs_history (q_state s))"
    and "restore_history_before V (hi_id (last (qs_history (q_state t)))) t = (Inr n, v)"
  shows "n = 1 \<and> qs_history (q_state v) = qs_history (q_state s) \<and> accepted_of v = accepted_of s \<and>
    (\<exists>now. item_of v = (item_of s)(k \<mapsto> item\<lparr>qi_auto_processing := False, qi_auto_process_at := None,
       qi_review_required := Some (Some True),
       qi_review_reason := Some ([44160, 53664, 32, 44592, 47197, 32, 48373, 44396, 47196, 32, 51088, 46041, 32, 52376, 47532, 44032, 32, 51473, 51648, 46104, 50632, 49845, 45768, 45796, 46]), qi_updated_at := now\<rparr>)) \<and>
    q_saved v = Some (q_state v)"
proof -
  from assms(1,3) obtain w where a: "accepted_by V item (u ''INDEX'') s w" "q_state t = q_state w"
    by (rule accept_run)
  from a(1) obtain entry where e: "qs_history (q_state w) = qs_history (q_state s) @ [entry]" "hi_item entry = item"
    "hi_action entry = u ''INDEX''" "hi_accepted_before entry = accepted_of s (qi_path item)"
    and i: "qs_items (q_state w) = AList.delete (qi_id item) (qs_items (q_state s))"
    unfolding accepted_by_def by blast
  from a(1) obtain x where x: "map_of (qs_accepted (q_state w)) = (map_of (qs_accepted (q_state s)))(qi_path item := x)"
    by (auto simp: accepted_by_def update_conv' delete_conv' split: if_splits)
  have "last (qs_history (q_state t)) = entry" using e(1) a(2) by simp
  with wpD[OF restore_last_run[of t "qs_history (q_state s)" entry V]] assms(4,5) e a(2)
  have "n = 1" "qs_history (q_state v) = qs_history (q_state s)" "reopened entry (q_state t) (q_state v)"
    "q_saved v = Some (q_state v)" by auto
  then show ?thesis
    using e i x a(2) assms(2) by (auto simp: reopened_def item_of_eq accepted_of_eq delete_conv')
qed

section \<open>A sample queue\<close>

definition sample_queue_env :: queue_env where
  "sample_queue_env =
     \<lparr>qe_env = sample_env, qe_directory = u ''/d'', qe_runtime = u ''/r'', qe_scan_state = u ''/r/scan'',
      qe_blobs = \<lparr>bs_root = u ''/b'', bs_max_upload_bytes = 100\<rparr>,
      qe_extract = (\<lambda>f b d. Inr ((sample_snapshot (sf_sha256 f) b)\<lparr>ds_document_id := d\<rparr>)),
      qe_resolve = Inr, qe_view = (\<lambda>_. one_file_view 5), qe_model = True, qe_time = int, qe_iso = (\<lambda>n. show_nat (nat n)),
      qe_fromiso = (\<lambda>_. None)\<rparr>"

definition sample_item :: "str \<Rightarrow> str option \<Rightarrow> str option \<Rightarrow> queue_item" where
  "sample_item change_type baseline candidate =
     \<lparr>qi_id = u ''i'', qi_path = u ''a.md'', qi_change_type = change_type, qi_status = [],
      qi_baseline_sha256 = baseline, qi_candidate_sha256 = candidate, qi_baseline_snapshot = baseline,
      qi_candidate_snapshot = candidate, qi_summary_status = [], qi_summary = None, qi_summary_error = None,
      qi_created_at = [], qi_updated_at = [], qi_before_text = [], qi_after_text = [], qi_review_required = Some None,
      qi_review_reason = None, qi_auto_processing = False, qi_auto_process_at = None, qi_baseline_document = None,
      qi_candidate_document = None, qi_changed_values = [], qi_agent_status = None, qi_agent_report = None,
      qi_agent_error = None, qi_agent_evidence = []\<rparr>"

definition sample_queue :: "queue_item \<Rightarrow> index_store \<Rightarrow> change_queue" where
  "sample_queue item i =
     \<lparr>q_world = \<lparr>w_audit = audit_init [], w_index = i, w_files = [u ''/r/new'' \<mapsto> u ''new'', u ''/r/old'' \<mapsto> u ''old''],
        w_unreadable = [], w_clock = 0, w_uuid = 0\<rparr>,
      q_state = empty_queue_state\<lparr>qs_items := [(u ''i'', item)]\<rparr>, q_saved = None, q_scan = None, q_revision = 0,
      q_tasks = [], q_clock = 0, q_faults = []\<rparr>"

definition edited_document :: index_store where
  "edited_document = two_versions
     \<lparr>ix_docs := map (\<lambda>r. r\<lparr>id_document_id := u ''watch:a.md'', id_metadata_json := u ''{}''\<rparr>) (ix_docs two_versions),
      ix_chunks := map (\<lambda>c. c\<lparr>ic_document_id := u ''watch:a.md''\<rparr>) (ix_chunks two_versions)\<rparr>"

lemma returns: "\<not> isl (fst (m s)) \<Longrightarrow> \<exists>r t. m s = (Inr r, t)"
  by (cases "m s", cases "fst (m s)") auto

lemma sample_runs:
  "\<not> isl (fst (accept sample_queue_env (u ''i'') (sample_queue (sample_item added None (Some (u ''new''))) empty_index)))"
  "\<not> isl (fst (accept sample_queue_env (u ''i'') (sample_queue (sample_item deleted (Some (u ''b'')) None) edited_document)))"
  by code_simp+

lemma sample_reject:
  "\<not> isl (fst (reject sample_queue_env (u ''i'') (sample_queue (sample_item edited (Some (u ''old'')) (Some (u ''new''))) empty_index)))"
  by code_simp

lemma sample_restore:
  "\<not> isl (fst (restore_history_before sample_queue_env
     (hi_id (last (qs_history (q_state (snd (accept sample_queue_env (u ''i'') (sample_queue (sample_item added None (Some (u ''new''))) empty_index)))))))
     (snd (accept sample_queue_env (u ''i'') (sample_queue (sample_item added None (Some (u ''new''))) empty_index)))))"
  by code_simp

lemma sample_names:
  "runtime_file sample_queue_env (u ''new'') = u ''/r/new''" "u ''watch:'' @ u ''a.md'' = u ''watch:a.md''"
  "runtime_file sample_queue_env (u ''old'') = u ''/r/old''"
  by code_simp+

lemma sample_extraction: "extraction_names sample_queue_env"
  by (simp add: extraction_names_def sample_queue_env_def sample_snapshot_def)

lemma edited_document_inv: "ix_inv edited_document" "current_sha edited_document (u ''watch:a.md'') = Some (u ''b'')"
  "map_option id_sha256 (predecessor (u ''watch:a.md'') (u ''b'') (ix_docs edited_document)) = Some (u ''a'')"
  by (simp_all add: edited_document_def two_versions_def empty_index_def ix_inv_def doc_key_def chunk_key_def
      current_sha_def current_row_def predecessor_def others_def newest_version_def)


lemma accepted_deletion_serves_predecessor_witness:
  "\<exists>r t. accept sample_queue_env (u ''i'') (sample_queue (sample_item deleted (Some (u ''b'')) None) edited_document) = (Inr r, t) \<and>
     accepted_of t (u ''a.md'') = None \<and> current_sha (w_index (q_world t)) (u ''watch:a.md'') = Some (u ''a'')"
proof -
  let ?s = "sample_queue (sample_item deleted (Some (u ''b'')) None) edited_document"
  from returns[of "accept sample_queue_env (u ''i'')", OF sample_runs(2)] obtain r t where
    run: "accept sample_queue_env (u ''i'') ?s = (Inr r, t)" by blast
  have s: "item_of ?s (u ''i'') = Some (sample_item deleted (Some (u ''b'')) None)"
    "qi_change_type (sample_item deleted (Some (u ''b'')) None) = deleted" "w_index (q_world ?s) = edited_document"
    "document_id_of (sample_item deleted (Some (u ''b'')) None) = u ''watch:a.md''"
    "qi_path (sample_item deleted (Some (u ''b'')) None) = u ''a.md''"
    by (simp_all add: sample_queue_def item_of_def sample_item_def empty_queue_state_def document_id_of_def sample_names)
  note p = accepted_deletion_serves_predecessor[OF s(1,2) _ _ run]
  from p edited_document_inv s run show ?thesis by simp
qed

lemma reject_restores_baseline_witness:
  "\<exists>r t. reject sample_queue_env (u ''i'') (sample_queue (sample_item edited (Some (u ''old'')) (Some (u ''new''))) empty_index) = (Inr r, t) \<and>
     w_files (q_world t) (u ''/d/a.md'') = Some (u ''old'')"
proof -
  let ?i = "sample_item edited (Some (u ''old'')) (Some (u ''new''))"
  from returns[of "reject sample_queue_env (u ''i'')", OF sample_reject] obtain r t where
    run: "reject sample_queue_env (u ''i'') (sample_queue ?i empty_index) = (Inr r, t)" by blast
  have s: "item_of (sample_queue ?i empty_index) (u ''i'') = Some ?i" "source_path sample_queue_env (qi_path ?i) = Inr (u ''/d/a.md'')"
    "qi_change_type ?i \<noteq> added" "qi_baseline_snapshot ?i = Some (u ''old'')"
    "file_at (sample_queue ?i empty_index) (u ''/r/old'') = Some (u ''old'')"
    by code_simp+
  from reject_restores_baseline[OF s(1) run] s run show ?thesis
    by (auto simp: sample_names)
qed


lemma stale_verdict_skips_mandatory_review_witness:
  "\<exists>j. item_of (discard (analyze_commit sample_queue_env (u ''i'') (Some (u ''new''))
       (verdict_of sample_queue_env (inputs_of (sample_item edited (Some (u ''old'')) (Some (u ''new''))))
         (Inr \<lparr>am_summary = [], am_review_required = False, am_review_reason = []\<rparr>)))
       (sample_queue (sample_item added None (Some (u ''new''))) empty_index)) (u ''i'') = Some j \<and> qi_auto_processing j"
proof -
  let ?i = "sample_item added None (Some (u ''new''))"
  have s: "item_of (sample_queue ?i empty_index) (u ''i'') = Some ?i" "qi_candidate_sha256 ?i = Some (u ''new'')"
    "\<not> ve_review_required (verdict_of sample_queue_env (inputs_of (sample_item edited (Some (u ''old'')) (Some (u ''new''))))
         (Inr \<lparr>am_summary = [], am_review_required = False, am_review_reason = []\<rparr>))"
    by code_simp+
  have m: "mandatory_reason (en_udb (qe_env sample_queue_env)) (qi_change_type ?i) (qi_before_text ?i) (qi_after_text ?i)
    = Some ([54028, 51068, 32, 51204, 52404, 51032, 32, 52628, 44032, 32, 46608, 45716, 32, 49325, 51228, 45716, 32, 44288, 47532, 51088, 32, 44160, 53664, 32, 45824, 49345, 51077, 45768, 45796, 46])"
    by (simp add: mandatory_reason_def sample_item_def)
  from stale_verdict_skips_mandatory_review[OF s(1,2) m s(3)] show ?thesis by blast
qed

lemma accept_then_restore_witness:
  "\<exists>r t n v. accept sample_queue_env (u ''i'') (sample_queue (sample_item added None (Some (u ''new''))) empty_index) = (Inr r, t) \<and>
     restore_history_before sample_queue_env (hi_id (last (qs_history (q_state t)))) t = (Inr n, v) \<and> n = 1 \<and>
     qs_history (q_state v) = []"
proof -
  let ?s = "sample_queue (sample_item added None (Some (u ''new''))) empty_index"
  from returns[of "accept sample_queue_env (u ''i'')", OF sample_runs(1)] obtain r t where
    run: "accept sample_queue_env (u ''i'') ?s = (Inr r, t)" by blast
  then have t: "t = snd (accept sample_queue_env (u ''i'') ?s)" by simp
  from returns[of "restore_history_before sample_queue_env (hi_id (last (qs_history (q_state t))))" t] sample_restore obtain n v where
    undo: "restore_history_before sample_queue_env (hi_id (last (qs_history (q_state t)))) t = (Inr n, v)" unfolding t by blast
  have s: "item_of ?s (u ''i'') = Some (sample_item added None (Some (u ''new'')))" "qi_id (sample_item added None (Some (u ''new''))) = u ''i''"
    by code_simp+
  have h: "qs_history (q_state ?s) = []" by (simp add: sample_queue_def empty_queue_state_def)
  from accept_then_restore[OF s run _ undo] h run undo show ?thesis by auto
qed

text \<open>A watched directory whose one file cannot be captured.\<close>

definition watch_env :: queue_env where
  "watch_env = sample_queue_env\<lparr>qe_env := scan_env, qe_scan_state := path_join (u ''/d'') default_state_filename\<rparr>"

definition watched_queue :: change_queue where
  "watched_queue = (sample_queue (sample_item added None None) empty_index)\<lparr>q_state := empty_queue_state\<rparr>"

lemma watched_capture_fails:
  "fst (forE (apply_event watch_env) (scan_events (en_udb scan_env) [] (one_file 5)) (watched_queue\<lparr>q_scan := c\<rparr>)) = Inl FileNotFoundError"
  by code_simp

lemma watched_first_scan:
  "\<exists>r c. scan_directory_now watch_env watched_queue = (Inr r, watched_queue\<lparr>q_scan := c\<rparr>) \<and> sr_root r = u ''/d'' \<and>
     sr_events r = scan_events (en_udb scan_env) [] (one_file 5) \<and>
     scanned scan_env (one_file_view 5) r True = one_file 5 \<and>
     code_points_ok scan_env (sr_root r) (scanned scan_env (one_file_view 5) r True)"
proof -
  have "\<not> list_ex surrogate (canonical_json (state_payload (en_udb scan_env) (u ''/d'') (one_file 5)) @ [10])"
    using one_file_text(1) by (auto simp: list_ex_iff list_all_iff surrogate_def)
  then obtain bs where w: "write_state (en_udb scan_env) (one_file_view 5) (u ''/d'') (one_file 5) None = (Inr (), Some bs)"
    by (simp add: write_state_def encode_strict_def one_file_view_def)
  have v: "sv_resolve_strict (one_file_view 5) (u ''/d'') = Inr (u ''/d'')" "sv_is_dir (one_file_view 5) (u ''/d'')"
    "sv_resolve (one_file_view 5) (case Some (path_join (u ''/d'') default_state_filename) of
       None \<Rightarrow> path_join (u ''/d'') default_state_filename | Some p \<Rightarrow> p) = Inr (path_join (u ''/d'') default_state_filename)"
    by (simp_all add: one_file_view_def)
  have l: "scan_load_state (en_udb scan_env) (one_file_view 5) (u ''/d'') None = Inr []" by (simp add: scan_load_state_def)
  from scan_once_again[OF v l one_file_scanned(1) w] one_file_scanned(1) one_file_text(1) show ?thesis
    by (auto simp: scan_directory_now_def watch_env_def sample_queue_env_def watched_queue_def sample_queue_def scanned_def
        code_points_ok_def list_all_iff)
qed

lemma failed_poll_loses_events_witness:
  "\<exists>t r. poll_once watch_env watched_queue = (Inl FileNotFoundError, t) \<and>
     fst (scan_directory_now watch_env watched_queue) = Inr r \<and> sr_events r \<noteq> [] \<and>
     fst (scan_directory_now watch_env t) = Inr (r\<lparr>sr_events := []\<rparr>)"
proof -
  from watched_first_scan obtain r c where r: "scan_directory_now watch_env watched_queue = (Inr r, watched_queue\<lparr>q_scan := c\<rparr>)"
    "sr_root r = u ''/d''" "sr_events r = scan_events (en_udb scan_env) [] (one_file 5)"
    "scanned scan_env (one_file_view 5) r True = one_file 5"
    "code_points_ok scan_env (sr_root r) (scanned scan_env (one_file_view 5) r True)" by blast
  obtain t where f: "forE (apply_event watch_env) (sr_events r) (watched_queue\<lparr>q_scan := c\<rparr>) = (Inl FileNotFoundError, t)"
    using watched_capture_fails[of c] r(3) by (metis prod.collapse)
  have e: "qe_env watch_env = scan_env" "\<And>f. qe_view watch_env f = one_file_view 5"
    by (simp_all add: watch_env_def sample_queue_env_def)
  have n: "scan_events (en_udb scan_env) [] (one_file 5) \<noteq> []" by code_simp
  from failed_poll_loses_events[OF r(1) f] r e n one_file_loadable(1) show ?thesis
    by (simp add: one_file_view_def)
qed

end
