(* ===== verification/ExtractorBase.thy ===== *)
theory ExtractorBase
  imports Complex_Main Pipeline Utf8 Paths
begin

text \<open>
  What the document extractors share (\<^verbatim>\<open>src/indexguard/extractors/base.py\<close>) and the Markdown extractor
  (\<^verbatim>\<open>extractors/markdown.py\<close>): the resource limits, the checks of a staged file, names and colours of XML attributes, the
  bounded collector of units and artifacts, the visible body and the snapshot.  An extractor reads the bytes of one staged
  file; \<open>content\<close> is what the file holds, \<open>None\<close> when it cannot be read.
\<close>

section \<open>Limits\<close>

record extraction_limits =
  lm_max_upload_bytes :: nat
  lm_max_archive_entries :: nat
  lm_max_archive_uncompressed_bytes :: nat
  lm_max_member_uncompressed_bytes :: nat
  lm_max_xml_bytes :: nat
  lm_max_script_bytes :: nat
  lm_max_preview_bytes :: nat
  lm_max_compression_ratio :: rat
  lm_max_xml_nodes :: nat
  lm_max_text_chars :: nat
  lm_max_text_units :: nat
  lm_max_artifacts :: nat
  lm_max_pdf_pages :: nat
  lm_max_pdf_xrefs :: nat

definition default_limits :: extraction_limits where
  "default_limits =
     \<lparr>lm_max_upload_bytes = 20 * 1024 * 1024, lm_max_archive_entries = 1000,
      lm_max_archive_uncompressed_bytes = 100 * 1024 * 1024, lm_max_member_uncompressed_bytes = 100 * 1024 * 1024,
      lm_max_xml_bytes = 10 * 1024 * 1024, lm_max_script_bytes = 1 * 1024 * 1024, lm_max_preview_bytes = 1 * 1024 * 1024,
      lm_max_compression_ratio = 100, lm_max_xml_nodes = 200000, lm_max_text_chars = 2000000,
      lm_max_text_units = 100000, lm_max_artifacts = 1000, lm_max_pdf_pages = 300, lm_max_pdf_xrefs = 200000\<rparr>"

section \<open>The staged file\<close>

definition staged_suffix :: "unicode_db \<Rightarrow> staged_file \<Rightarrow> str" where
  "staged_suffix U f = lower U (path_suffix (sf_filename f))"

definition verify_staged_file :: "env \<Rightarrow> extraction_limits \<Rightarrow> staged_file \<Rightarrow> bytes option \<Rightarrow> unit res" where
  "verify_staged_file E L f content =
     (if lm_max_upload_bytes L < sf_size f then Inl FileTooLargeError
      else (case content of
              None \<Rightarrow> Inl IntegrityError
            | Some b \<Rightarrow>
                if length b \<noteq> sf_size f then Inl IntegrityError
                else if en_sha_bytes E b \<noteq> sf_sha256 f then Inl IntegrityError
                else Inr ()))"

definition read_staged_bytes :: "env \<Rightarrow> extraction_limits \<Rightarrow> staged_file \<Rightarrow> bytes option \<Rightarrow> bytes res" where
  "read_staged_bytes E L f content =
     bindR (verify_staged_file E L f content) (\<lambda>_.
     let data = take (Suc (lm_max_upload_bytes L)) (the content) in
     if lm_max_upload_bytes L < length data then Inl FileTooLargeError
     else if length data \<noteq> sf_size f then Inl IntegrityError
     else Inr data)"

definition read_prefix :: "bytes option \<Rightarrow> nat \<Rightarrow> bytes res" where
  "read_prefix content n = (case content of None \<Rightarrow> Inl IntegrityError | Some b \<Rightarrow> Inr (take n b))"

section \<open>XML names and colours\<close>

definition split_xml_name :: "str \<Rightarrow> str option \<times> str" where
  "split_xml_name name =
     (if prefixes_str [123] name \<and> 125 \<in> set name
      then (Some (takeWhile (\<lambda>c. c \<noteq> 125) (tl name)), tl (dropWhile (\<lambda>c. c \<noteq> 125) (tl name)))
      else (None, name))"

definition local_name :: "str \<Rightarrow> str" where
  "local_name name = snd (split_xml_name name)"

definition attr_by_local_name :: "(str \<times> str) list \<Rightarrow> str \<Rightarrow> str option" where
  "attr_by_local_name attributes name = map_option snd (find (\<lambda>kv. local_name (fst kv) = name) attributes)"

definition is_hex_upper :: "nat \<Rightarrow> bool" where
  "is_hex_upper c \<longleftrightarrow> 48 \<le> c \<and> c \<le> 57 \<or> 65 \<le> c \<and> c \<le> 70"

definition hex_upper_value :: "nat \<Rightarrow> nat" where
  "hex_upper_value c = (if c \<le> 57 then c - 48 else c - 55)"

definition normalize_color_hex :: "unicode_db \<Rightarrow> str option \<Rightarrow> str option" where
  "normalize_color_hex U v =
     (case v of
        None \<Rightarrow> None
      | Some value \<Rightarrow>
          let compact = upper U (dropWhile (\<lambda>c. c = 35) (strip value));
              rgb = (if length compact = 8 then drop 2 compact else compact)
          in if length rgb \<noteq> 6 \<or> list_ex (\<lambda>c. \<not> is_hex_upper c) rgb then None else Some (35 # rgb))"

definition near_white_threshold :: nat where
  "near_white_threshold = 242"

definition is_near_white_hex :: "unicode_db \<Rightarrow> str option \<Rightarrow> bool" where
  "is_near_white_hex U v =
     (case normalize_color_hex U v of
        None \<Rightarrow> False
      | Some normalized \<Rightarrow>
          list_all (\<lambda>i. near_white_threshold \<le> 16 * hex_upper_value (normalized ! i) + hex_upper_value (normalized ! Suc i))
            [1, 3, 5])"

section \<open>The body text\<close>

text \<open>\<^verbatim>\<open>text.replace("\r\n", "\n")\<close>.\<close>

fun replace_crlf :: "str \<Rightarrow> str" where
  "replace_crlf (c # d # cs) = (if c = 13 \<and> d = 10 then 10 # replace_crlf cs else c # replace_crlf (d # cs))"
| "replace_crlf cs = cs"

definition normalize_body_text :: "unicode_db \<Rightarrow> str \<Rightarrow> str" where
  "normalize_body_text U text =
     (let lines = map (\<lambda>line. strip (join [32] (split_on 32 line))) (split_on 10 (uc_nfc U (replace_char 13 10 (replace_crlf text))))
      in strip (join [10] (filter (\<lambda>line. line \<noteq> []) lines)))"

definition unit_paragraph_key :: "text_unit \<Rightarrow> str option \<times> int option \<times> int option \<times> str option" where
  "unit_paragraph_key t =
     (let l = tu_location t in (tl_part l, tl_page l, tl_section l, tl_paragraph_id l))"

definition in_visible_body :: "text_unit \<Rightarrow> bool" where
  "in_visible_body t \<longleftrightarrow> tu_source_scope t = BODY \<and> tu_visibility t = VISIBLE \<and> tu_text t \<noteq> []"

fun compose_from :: "(str option \<times> int option \<times> int option \<times> str option) option \<Rightarrow> text_unit list \<Rightarrow> str" where
  "compose_from previous [] = []"
| "compose_from previous (t # ts) =
     (if \<not> in_visible_body t then compose_from previous ts
      else (if previous \<noteq> None \<and> previous \<noteq> Some (unit_paragraph_key t) then [10] else []) @ tu_text t @
           compose_from (Some (unit_paragraph_key t)) ts)"

definition compose_visible_body :: "text_unit list \<Rightarrow> str" where
  "compose_visible_body units = strip (compose_from None units)"

definition suspicious_controls :: "nat list" where
  "suspicious_controls =
     [0x061C, 0x200B, 0x200C, 0x200D, 0x200E, 0x200F, 0x202A, 0x202B, 0x202C, 0x202D, 0x202E,
      0x2060, 0x2066, 0x2067, 0x2068, 0x2069, 0xFEFF]"

definition suspicious_control_points :: "str \<Rightarrow> str list" where
  "suspicious_control_points text =
     sort (remdups (map (\<lambda>c. u ''U+'' @ hex4 c) (filter (\<lambda>c. c \<in> set suspicious_controls) text)))"

section \<open>The collector\<close>

text \<open>\<^verbatim>\<open>try: ... except ... as e: raise h(e)\<close>.\<close>

definition translate_errors :: "(err \<Rightarrow> err) \<Rightarrow> 'a res \<Rightarrow> 'a res" where
  "translate_errors h r = (case r of Inl e \<Rightarrow> Inl (h e) | Inr x \<Rightarrow> Inr x)"

lemma translate_errors_Inr_iff [simp]: "translate_errors h r = Inr x \<longleftrightarrow> r = Inr x"
  by (simp add: translate_errors_def split: sum.splits)

text \<open>An extractor's run over its own collector and package: what remains outside is its result.\<close>

definition run_local :: "('s, 'a) op \<Rightarrow> 's \<Rightarrow> ('a \<times> 's) res" where
  "run_local m s = (case m s of (r, t) \<Rightarrow> bindR r (\<lambda>x. Inr (x, t)))"

lemma run_local_Inr_iff: "run_local m s = Inr y \<longleftrightarrow> m s = (Inr (fst y), snd y)"
  by (cases y; cases "m s"; cases "fst (m s)") (auto simp: run_local_def bindR_def)

record extraction_collector =
  ec_units :: "text_unit list"
  ec_artifacts :: "artifact list"
  ec_text_chars :: nat
  ec_artifact_keys :: "(str \<times> str option \<times> str) list"

definition new_collector :: extraction_collector where
  "new_collector = \<lparr>ec_units = [], ec_artifacts = [], ec_text_chars = 0, ec_artifact_keys = []\<rparr>"

definition artifact_key :: "artifact \<Rightarrow> str \<times> str option \<times> str" where
  "artifact_key a = (ar_type a, ar_path a, ar_reason a)"

definition add_artifact :: "extraction_limits \<Rightarrow> artifact \<Rightarrow> (extraction_collector, unit) op" where
  "add_artifact L a c =
     (if artifact_key a \<in> set (ec_artifact_keys c) then (Inr (), c)
      else if lm_max_artifacts L \<le> length (ec_artifacts c) then (Inl MalformedDocumentError, c)
      else (Inr (), c\<lparr>ec_artifact_keys := artifact_key a # ec_artifact_keys c, ec_artifacts := ec_artifacts c @ [a]\<rparr>))"

definition hidden_text_artifact :: "text_unit \<Rightarrow> artifact" where
  "hidden_text_artifact t =
     \<lparr>ar_type = u ''HIDDEN_TEXT'', ar_reason = u ''Text is present in the package but is not expected to be visible.'',
      ar_path = None, ar_location = Some (tu_location t),
      ar_metadata = [(u ''style'', normalise (dump_text_style (tu_style t))), (u ''unit_id'', JStr (tu_id t))]\<rparr>"

definition control_artifact :: "text_unit \<Rightarrow> artifact" where
  "control_artifact t =
     \<lparr>ar_type = u ''CONTROL_CHARACTERS'', ar_reason = u ''Zero-width or bidirectional control characters were found.'',
      ar_path = None, ar_location = Some (tu_location t),
      ar_metadata = [(u ''codepoints'', JArr (map JStr (suspicious_control_points (tu_text t)))), (u ''unit_id'', JStr (tu_id t))]\<rparr>"

definition count_text :: "extraction_limits \<Rightarrow> text_unit \<Rightarrow> (extraction_collector, unit) op" where
  "count_text L t c =
     (let c1 = c\<lparr>ec_text_chars := ec_text_chars c + length (tu_text t)\<rparr> in
      if lm_max_text_chars L < ec_text_chars c1 then (Inl MalformedDocumentError, c1)
      else if lm_max_text_units L \<le> length (ec_units c1) then (Inl MalformedDocumentError, c1)
      else (Inr (), c1\<lparr>ec_units := ec_units c1 @ [t]\<rparr>))"

definition add_unit :: "extraction_limits \<Rightarrow> text_unit \<Rightarrow> (extraction_collector, unit) op" where
  "add_unit L t =
     (if tu_text t = [] then retE ()
      else bindE (count_text L t) (\<lambda>_.
           bindE (if tu_visibility t = HIDDEN_SUSPECTED \<and> strip (tu_text t) \<noteq> []
                  then add_artifact L (hidden_text_artifact t) else retE ()) (\<lambda>_.
           if suspicious_control_points (tu_text t) \<noteq> [] then add_artifact L (control_artifact t) else retE ())))"

section \<open>The snapshot\<close>

text \<open>The metadata is kept as its sorted association list.\<close>

definition build_snapshot ::
  "env \<Rightarrow> staged_file \<Rightarrow> str \<Rightarrow> document_format \<Rightarrow> str \<Rightarrow> str \<Rightarrow> extraction_collector \<Rightarrow> dict \<Rightarrow> str option \<Rightarrow>
   document_snapshot res" where
  "build_snapshot E f document_id format parser_name parser_version c metadata override =
     (let body = (case override of Some text \<Rightarrow> text | None \<Rightarrow> compose_visible_body (ec_units c)) in
      if body = [] then Inl MalformedDocumentError
      else
        let normalized = normalize_body_text (en_udb E) body in
        if normalized = [] then Inl MalformedDocumentError
        else
          let version = (if map_of metadata (u ''normalization_version'') = None
                         then [(u ''normalization_version'', JStr (u ''nfc-lines-v1''))] else []) in
          (case encode_strict normalized of
             None \<Rightarrow> Inl ValueError
           | Some encoded \<Rightarrow>
               Inr \<lparr>ds_document_id = document_id, ds_filename = sf_filename f, ds_format = format, ds_sha256 = sf_sha256 f,
                    ds_parser_name = parser_name, ds_parser_version = parser_version, ds_text = body,
                    ds_units = ec_units c, ds_artifacts = ec_artifacts c,
                    ds_metadata = sort_key fst (map (\<lambda>kv. (fst kv, normalise (snd kv))) (metadata @ version)),
                    ds_normalized_sha256 = Some (en_sha_bytes E encoded)\<rparr>))"

section \<open>Markdown\<close>

text \<open>\<^verbatim>\<open>data.decode("utf-8-sig")\<close>: a byte order mark at the start is dropped.\<close>

definition decode_sig :: "bytes \<Rightarrow> str option" where
  "decode_sig data = decode_strict (if take 3 data = [0xEF, 0xBB, 0xBF] then drop 3 data else data)"

definition markdown_probe :: "env \<Rightarrow> extraction_limits \<Rightarrow> staged_file \<Rightarrow> bytes option \<Rightarrow> unit res" where
  "markdown_probe E L f content =
     bindR (read_staged_bytes E L f content) (\<lambda>data.
     case decode_sig data of None \<Rightarrow> Inl MalformedDocumentError | Some text \<Rightarrow> Inr ())"

definition no_location :: text_location where
  "no_location = \<lparr>tl_page = None, tl_section = None, tl_paragraph_id = None, tl_run_index = None, tl_part = None, tl_bbox = None\<rparr>"

definition line_unit :: "nat \<times> str \<Rightarrow> text_unit" where
  "line_unit nl =
     \<lparr>tu_id = u ''line-'' @ show_nat (fst nl), tu_text = snd nl,
      tu_location = no_location\<lparr>tl_paragraph_id := Some (show_nat (fst nl))\<rparr>, tu_style = default_text_style,
      tu_visibility = VISIBLE, tu_source_scope = BODY\<rparr>"

definition markdown_extract :: "env \<Rightarrow> extraction_limits \<Rightarrow> staged_file \<Rightarrow> bytes option \<Rightarrow> str \<Rightarrow> document_snapshot res" where
  "markdown_extract E L f content document_id =
     bindR (read_staged_bytes E L f content) (\<lambda>data.
     case decode_sig data of
       None \<Rightarrow> Inl ValueError
     | Some text \<Rightarrow>
         bindR (run_local (forE (add_unit L) (map line_unit (filter (\<lambda>nl. strip (snd nl) \<noteq> []) (enumerate 1 (splitlines text)))))
                  new_collector) (\<lambda>(_, c).
         build_snapshot E f document_id MARKDOWN (u ''markdown-utf8'') (u ''1.0.0'') c
           [(u ''source_encoding'', JStr (u ''utf-8''))] (Some text)))"

section \<open>What the collector holds\<close>

text \<open>
  The bounds of the limits, and the evidence: a hidden unit with text and a unit with control characters are each backed
  by an artifact.
\<close>

definition evidenced :: "artifact list \<Rightarrow> text_unit \<Rightarrow> bool" where
  "evidenced artifacts t \<longleftrightarrow>
     (tu_visibility t = HIDDEN_SUSPECTED \<and> strip (tu_text t) \<noteq> [] \<longrightarrow> list_ex (\<lambda>a. ar_type a = u ''HIDDEN_TEXT'') artifacts) \<and>
     (suspicious_control_points (tu_text t) \<noteq> [] \<longrightarrow> list_ex (\<lambda>a. ar_type a = u ''CONTROL_CHARACTERS'') artifacts)"

definition within_limits :: "extraction_limits \<Rightarrow> extraction_collector \<Rightarrow> bool" where
  "within_limits L c \<longleftrightarrow>
     length (ec_units c) \<le> lm_max_text_units L \<and>
     ec_text_chars c = sum_list (map (\<lambda>t. length (tu_text t)) (ec_units c)) \<and> ec_text_chars c \<le> lm_max_text_chars L \<and>
     length (ec_artifacts c) \<le> lm_max_artifacts L \<and>
     distinct (map artifact_key (ec_artifacts c)) \<and> set (ec_artifact_keys c) = artifact_key ` set (ec_artifacts c)"

definition collected :: "extraction_limits \<Rightarrow> extraction_collector \<Rightarrow> bool" where
  "collected L c \<longleftrightarrow> within_limits L c \<and> list_all (evidenced (ec_artifacts c)) (ec_units c)"

lemma new_collector_collected: "collected L new_collector"
  by (simp add: collected_def within_limits_def new_collector_def)

lemma evidenced_mono: "evidenced as t \<Longrightarrow> set as \<subseteq> set bs \<Longrightarrow> evidenced bs t"
  unfolding evidenced_def list_ex_iff by blast

lemma add_artifact_returns:
  assumes "add_artifact L a c = (Inr x, d)" "within_limits L c"
  shows "within_limits L d" "ec_units d = ec_units c" "set (ec_artifacts c) \<subseteq> set (ec_artifacts d)"
    "artifact_key a \<in> artifact_key ` set (ec_artifacts d)"
  using assms by (auto simp: add_artifact_def within_limits_def split: if_splits)

lemma add_artifact_collected: "yields (collected L) (\<lambda>_. True) (add_artifact L a)"
proof (rule yieldsI)
  fix c x d
  assume c: "collected L c" and run: "add_artifact L a c = (Inr x, d)"
  then have "within_limits L c" by (simp add: collected_def)
  note r = add_artifact_returns[OF run this]
  from c r(1,2) evidenced_mono[OF _ r(3)] show "collected L d \<and> True"
    by (simp add: collected_def list_all_iff)
qed

lemma key_type: "artifact_key a \<in> artifact_key ` set as \<Longrightarrow> list_ex (\<lambda>b. ar_type b = ar_type a) as"
  by (auto simp: artifact_key_def list_ex_iff)

lemma count_text_returns:
  assumes "count_text L t c = (Inr x, d)" "within_limits L c"
  shows "within_limits L d" "ec_units d = ec_units c @ [t]" "ec_artifacts d = ec_artifacts c"
  using assms by (auto simp: count_text_def within_limits_def Let_def split: if_splits)

lemma maybe_artifact_returns:
  assumes "(if b then add_artifact L a else retE ()) c = (Inr x, d)" "within_limits L c"
  shows "within_limits L d" "ec_units d = ec_units c" "set (ec_artifacts c) \<subseteq> set (ec_artifacts d)"
    "b \<longrightarrow> artifact_key a \<in> artifact_key ` set (ec_artifacts d)"
  using assms by (cases b; auto dest: add_artifact_returns)+

lemma add_unit_collected: "yields (collected L) (\<lambda>_. True) (add_unit L t)"
proof (rule yieldsI)
  fix c x d
  assume c: "collected L c" and run: "add_unit L t c = (Inr x, d)"
  show "collected L d \<and> True"
  proof (cases "tu_text t = []")
    case True
    with c run show ?thesis by (simp add: add_unit_def)
  next
    case False
    with run obtain u c1 v c2 where
      1: "count_text L t c = (Inr u, c1)" and
      2: "(if tu_visibility t = HIDDEN_SUSPECTED \<and> strip (tu_text t) \<noteq> [] then add_artifact L (hidden_text_artifact t) else retE ()) c1
        = (Inr v, c2)" and
      3: "(if suspicious_control_points (tu_text t) \<noteq> [] then add_artifact L (control_artifact t) else retE ()) c2 = (Inr x, d)"
      unfolding add_unit_def by (auto simp: bindE_Inr_iff simp del: if_split)
    from c have w: "within_limits L c" by (simp add: collected_def)
    note r1 = count_text_returns[OF 1 w] and r2 = maybe_artifact_returns[OF 2] and r3 = maybe_artifact_returns[OF 3]
    note r2' = r2[OF r1(1)] and r3' = r3[OF r2(1)[OF r1(1)]]
    have "evidenced (ec_artifacts d) t"
      using r2'(4) r3'(3,4) key_type[of "hidden_text_artifact t" "ec_artifacts d"] key_type[of "control_artifact t" "ec_artifacts d"]
      by (auto simp: evidenced_def hidden_text_artifact_def control_artifact_def)
    moreover have "set (ec_artifacts c) \<subseteq> set (ec_artifacts d)" using r1(3) r2'(3) r3'(3) by simp
    ultimately show ?thesis
      using c r1(2) r2'(2) r3'(1,2) evidenced_mono by (fastforce simp: collected_def list_all_iff)
  qed
qed

lemma add_artifact_units: "add_artifact L a c = (r, d) \<Longrightarrow> ec_units d = ec_units c"
  by (auto simp: add_artifact_def split: if_splits)

lemma add_unit_units:
  assumes "add_unit L t c = (Inr x, d)"
  shows "ec_units d = ec_units c @ (if tu_text t = [] then [] else [t])"
proof (cases "tu_text t = []")
  case False
  show ?thesis using assms False unfolding add_unit_def
    by (auto simp: bindE_Inr_iff count_text_def Let_def simp del: if_split split: if_split_asm dest!: add_artifact_units)
qed (use assms in \<open>simp add: add_unit_def\<close>)

text \<open>The same with a property of every unit.\<close>

definition collected_all :: "extraction_limits \<Rightarrow> (text_unit \<Rightarrow> bool) \<Rightarrow> extraction_collector \<Rightarrow> bool" where
  "collected_all L Q c \<longleftrightarrow> collected L c \<and> list_all Q (ec_units c)"

lemma add_unit_all: "Q t \<Longrightarrow> yields (collected_all L Q) (\<lambda>_. True) (add_unit L t)"
  by (rule yieldsI) (auto simp: collected_all_def dest: add_unit_units yieldsD[OF add_unit_collected] split: if_splits)

lemma add_artifact_all: "yields (collected_all L Q) (\<lambda>_. True) (add_artifact L a)"
  by (rule yieldsI) (auto simp: collected_all_def dest: add_artifact_units yieldsD[OF add_artifact_collected])

lemma new_collector_all: "collected_all L Q new_collector"
  using new_collector_collected[of L] by (simp add: collected_all_def new_collector_def)

text \<open>A unit is suspected of being hidden exactly when its style says so.\<close>

definition marked :: "text_unit \<Rightarrow> bool" where
  "marked t \<longleftrightarrow> (tu_visibility t = HIDDEN_SUSPECTED \<longleftrightarrow> ts_hidden (tu_style t) = Some True)"

section \<open>Paragraphs\<close>

text \<open>The visible body as it is meant: the visible body units, grouped into runs of one paragraph, a line per run.\<close>

fun paragraph_runs :: "text_unit list \<Rightarrow> text_unit list list" where
  "paragraph_runs [] = []"
| "paragraph_runs (t # ts) =
     (case paragraph_runs ts of
        [] \<Rightarrow> [[t]]
      | g # gs \<Rightarrow> if unit_paragraph_key (hd g) = unit_paragraph_key t then (t # g) # gs else [t] # g # gs)"

definition run_text :: "text_unit list \<Rightarrow> str" where
  "run_text g = concat (map tu_text g)"

declare paragraph_runs.simps(2) [simp del]

lemma paragraph_runs_hd: "paragraph_runs (t # ts) = g # gs \<Longrightarrow> g \<noteq> [] \<and> hd g = t"
  by (auto simp: paragraph_runs.simps(2) split: list.splits if_splits)

lemma paragraph_runs_Nil_iff [simp]: "paragraph_runs ts = [] \<longleftrightarrow> ts = []"
  by (cases ts) (auto simp: paragraph_runs.simps(2) split: list.splits)

lemma concat_paragraph_runs: "concat (paragraph_runs ts) = ts"
  by (induction ts) (auto simp: paragraph_runs.simps(2) split: list.splits)

lemma paragraph_runs_Cons: obtains g gs where "paragraph_runs (t # ts) = g # gs"
  by (cases "paragraph_runs (t # ts)") simp_all

lemma compose_from_visible: "compose_from k ts = compose_from k (filter in_visible_body ts)"
  by (induction ts arbitrary: k) auto

lemma join_line: "ls \<noteq> [] \<Longrightarrow> join [10] (l # ls) = l @ 10 # join [10] ls"
  by (cases ls) auto

lemma compose_from_runs:
  "list_all in_visible_body (t # ts) \<Longrightarrow>
   compose_from (Some (unit_paragraph_key t)) ts =
     (case paragraph_runs (t # ts) of g # gs \<Rightarrow> run_text (tl g) @ (if gs = [] then [] else 10 # join [10] (map run_text gs)) | [] \<Rightarrow> [])"
proof (induction ts arbitrary: t)
  case (Cons s ts)
  obtain g gs where g: "paragraph_runs (s # ts) = g # gs" by (rule paragraph_runs_Cons)
  note h = paragraph_runs_hd[OF g]
  then have gt: "run_text g = tu_text s @ run_text (tl g)" by (cases g) (auto simp: run_text_def)
  have i: "compose_from (Some (unit_paragraph_key s)) ts = run_text (tl g) @ (if gs = [] then [] else 10 # join [10] (map run_text gs))"
    using Cons.IH[of s] Cons.prems g by simp
  have body: "compose_from (Some (unit_paragraph_key t)) (s # ts) =
      (if unit_paragraph_key t \<noteq> unit_paragraph_key s then [10] else []) @ tu_text s @ compose_from (Some (unit_paragraph_key s)) ts"
    using Cons.prems by simp
  show ?case
  proof (cases "unit_paragraph_key s = unit_paragraph_key t")
    case True
    then have "paragraph_runs (t # s # ts) = (t # g) # gs" using g h by (simp add: paragraph_runs.simps(2)[of t])
    then show ?thesis using body i gt True by (simp del: compose_from.simps)
  next
    case False
    then have "paragraph_runs (t # s # ts) = [t] # g # gs" using g h by (simp add: paragraph_runs.simps(2)[of t])
    then show ?thesis using body i gt False
      by (cases "gs = []") (auto simp: join_line run_text_def[of "[]"] simp del: compose_from.simps)
  qed
qed (simp add: run_text_def paragraph_runs.simps(2))

lemma compose_from_start:
  "list_all in_visible_body ts \<Longrightarrow> compose_from None ts = join [10] (map run_text (paragraph_runs ts))"
proof (cases ts)
  case (Cons t us)
  assume v: "list_all in_visible_body ts"
  obtain g gs where g: "paragraph_runs (t # us) = g # gs" by (rule paragraph_runs_Cons)
  note h = paragraph_runs_hd[OF g]
  then have gt: "run_text g = tu_text t @ run_text (tl g)" by (cases g) (auto simp: run_text_def)
  have "compose_from None ts = tu_text t @ compose_from (Some (unit_paragraph_key t)) us" using v Cons by simp
  also have "\<dots> = join [10] (map run_text (g # gs))"
    using compose_from_runs[of t us] v Cons g gt by (cases "gs = []") (auto simp: join_line)
  finally show ?thesis using g Cons by simp
qed simp

lemma build_snapshot_returns:
  assumes "build_snapshot E f d fmt pn pv c metadata override = Inr s"
  shows "ds_document_id s = d" "ds_filename s = sf_filename f" "ds_format s = fmt" "ds_sha256 s = sf_sha256 f"
    "ds_units s = ec_units c" "ds_artifacts s = ec_artifacts c" "ds_text s \<noteq> []"
    "ds_text s = (case override of Some text \<Rightarrow> text | None \<Rightarrow> compose_visible_body (ec_units c))"
    "normalize_body_text (en_udb E) (ds_text s) \<noteq> []"
  using assms by (auto simp: build_snapshot_def Let_def split: if_splits option.splits)

text \<open>What every extractor promises of a snapshot.\<close>

definition sound_snapshot :: "extraction_limits \<Rightarrow> staged_file \<Rightarrow> str \<Rightarrow> document_snapshot \<Rightarrow> bool" where
  "sound_snapshot L f document_id s \<longleftrightarrow>
     ds_document_id s = document_id \<and> ds_filename s = sf_filename f \<and> ds_sha256 s = sf_sha256 f \<and> ds_text s \<noteq> [] \<and>
     length (ds_units s) \<le> lm_max_text_units L \<and>
     sum_list (map (\<lambda>t. length (tu_text t)) (ds_units s)) \<le> lm_max_text_chars L \<and>
     length (ds_artifacts s) \<le> lm_max_artifacts L \<and> distinct (map artifact_key (ds_artifacts s)) \<and>
     list_all (evidenced (ds_artifacts s)) (ds_units s)"

lemma build_snapshot_sound:
  "collected L c \<Longrightarrow> build_snapshot E f d fmt pn pv c metadata override = Inr s \<Longrightarrow> sound_snapshot L f d s"
  using build_snapshot_returns(7)[of E f d fmt pn pv c metadata override s]
  by (simp add: sound_snapshot_def collected_def within_limits_def build_snapshot_returns(1,2,4,5,6))

lemma verified_bytes:
  "read_staged_bytes E L f content = Inr data \<Longrightarrow>
   content = Some data \<and> length data = sf_size f \<and> en_sha_bytes E data = sf_sha256 f \<and> length data \<le> lm_max_upload_bytes L"
  by (auto simp: read_staged_bytes_def verify_staged_file_def bindR_def Let_def split: if_splits option.splits)

lemma markdown_sound:
  "markdown_extract E L f content d = Inr s \<Longrightarrow>
   sound_snapshot L f d s \<and> list_all marked (ds_units s) \<and> ds_format s = MARKDOWN"
proof -
  assume "markdown_extract E L f content d = Inr s"
  then obtain data body c where
    run: "forE (add_unit L) (map line_unit (filter (\<lambda>nl. strip (snd nl) \<noteq> []) (enumerate 1 (splitlines body)))) new_collector = (Inr (), c)"
    and b: "build_snapshot E f d MARKDOWN (u ''markdown-utf8'') (u ''1.0.0'') c [(u ''source_encoding'', JStr (u ''utf-8''))] (Some body) = Inr s"
    unfolding markdown_extract_def bindR_Inr_iff
    by (auto simp: bindR_Inr_iff run_local_Inr_iff split: option.splits)
  have "yields (collected_all L marked) (\<lambda>_. True)
      (forE (add_unit L) (map line_unit (filter (\<lambda>nl. strip (snd nl) \<noteq> []) (enumerate 1 (splitlines body)))))"
    by (rule yields_for) (auto intro!: add_unit_all simp: marked_def line_unit_def default_text_style_def)
  from yieldsD[OF this new_collector_all run] have "collected_all L marked c" by simp
  then show ?thesis using b build_snapshot_returns[OF b] by (auto simp: collected_all_def intro: build_snapshot_sound)
qed

text \<open>The visible body of a document is what its paragraphs show: only visible, non-empty body units enter it, in
  order; the units of one paragraph that follow each other form one line, and each change of paragraph starts a new line.\<close>

lemma visible_body_paragraphs:
  "compose_visible_body units = strip (join [10] (map run_text (paragraph_runs (filter in_visible_body units)))) \<and>
   concat (paragraph_runs (filter in_visible_body units)) = filter in_visible_body units"
proof -
  have "list_all in_visible_body (filter in_visible_body units)" by (simp add: list_all_iff)
  then show ?thesis
    using compose_from_visible[of None units]
    by (simp add: compose_visible_body_def compose_from_start concat_paragraph_runs)
qed

end
