(* ===== verification/SafeZip.thy ===== *)
theory SafeZip
  imports ExtractorBase
begin

text \<open>
  The bounded ZIP and XML reader of the package formats (\<^verbatim>\<open>src/indexguard/extractors/safe_zip.py\<close>): member names, the
  checks of the archive directory, the read budget, XML members and the resolution of relationship targets.  Reading the
  archive's directory, inflating a member, parsing XML and converting text to a float are parameters of the reader; the
  compression ratio is compared exactly.
\<close>

section \<open>The reader's environment\<close>

record zip_info =
  zi_filename :: str
  zi_flag_bits :: nat
  zi_compress_type :: nat
  zi_external_attr :: nat
  zi_file_size :: int
  zi_compress_size :: int

datatype xml = Elem (el_tag: str) (el_attrs: "(str \<times> str) list") (el_text: "str option") (el_tail: "str option") (el_children: "xml list")

record package_env =
  pk_env :: env
  pk_limits :: extraction_limits
  pk_infolist :: "bytes \<Rightarrow> zip_info list res"
  pk_open_read :: "bytes \<Rightarrow> zip_info \<Rightarrow> nat \<Rightarrow> bytes res"
  pk_fromstring :: "bytes \<Rightarrow> xml res"
  pk_netloc_valid :: "str \<Rightarrow> bool"
  pk_float_ratio :: "str \<Rightarrow> nat \<Rightarrow> float_text option"
  pk_at_most_one :: "float_text \<Rightarrow> bool"

abbreviation pk_udb :: "package_env \<Rightarrow> unicode_db" where
  "pk_udb X \<equiv> en_udb (pk_env X)"

definition bad_zip_file :: err where "bad_zip_file = OtherError (u ''BadZipFile'')"
definition large_zip_file :: err where "large_zip_file = OtherError (u ''LargeZipFile'')"

text \<open>\<^verbatim>\<open>except RuntimeError\<close>: the class and its subclasses.\<close>

definition is_runtime_error :: "err \<Rightarrow> bool" where
  "is_runtime_error e \<longleftrightarrow> e \<in> {RuntimeError, OtherError (u ''NotImplementedError''), OtherError (u ''RecursionError'')}"

text \<open>What \<^verbatim>\<open>parse_xml\<close> turns into a malformed document: a refused construct, a parse error, a decoding error.\<close>

definition is_xml_error :: "err \<Rightarrow> bool" where
  "is_xml_error e \<longleftrightarrow> e \<in> {ValueError, OtherError (u ''DefusedXmlException''), OtherError (u ''ParseError''), OtherError (u ''UnicodeError'')}"

section \<open>Member names\<close>

definition zip_magic :: bytes where
  "zip_magic = [0x50, 0x4B, 0x03, 0x04]"

definition normalize_member_name :: "str \<Rightarrow> bool \<Rightarrow> str res" where
  "normalize_member_name name allow_directory =
     (if name = [] \<or> 0 \<in> set name \<or> 92 \<in> set name then Inl UnsafeArchiveError
      else if prefixes_str [47] name then Inl UnsafeArchiveError
      else
        let is_directory = suffixes_str [47] name;
            raw_parts = (if is_directory \<and> allow_directory then butlast (split_on 47 name) else split_on 47 name)
        in if raw_parts = [] \<or> list_ex (\<lambda>p. p \<in> {[], [46], dot_dot}) raw_parts then Inl UnsafeArchiveError
           else if 58 \<in> set (hd raw_parts) then Inl UnsafeArchiveError
           else
             let normalized = join [47] (path_parts (join [47] raw_parts)) in
             if normalized \<noteq> join [47] raw_parts then Inl UnsafeArchiveError
             else Inr normalized)"

section \<open>The archive directory\<close>

definition is_dir :: "zip_info \<Rightarrow> bool" where
  "is_dir i \<longleftrightarrow> suffixes_str [47] (zi_filename i)"

definition is_link_mode :: "nat \<Rightarrow> bool" where
  "is_link_mode mode \<longleftrightarrow> mode div 4096 mod 16 = 10"

definition allowed_compression :: "nat list" where
  "allowed_compression = [0, 8]"

definition check_entry :: "zip_info \<Rightarrow> unit res" where
  "check_entry i =
     (if odd (zi_flag_bits i) then Inl EncryptedDocumentError
      else if zi_compress_type i \<notin> set allowed_compression then Inl UnsafeArchiveError
      else if zi_external_attr i div 65536 \<noteq> 0 \<and> is_link_mode (zi_external_attr i div 65536) then Inl UnsafeArchiveError
      else Inr ())"

definition check_sizes :: "extraction_limits \<Rightarrow> zip_info \<Rightarrow> unit res" where
  "check_sizes L i =
     (if zi_file_size i < 0 \<or> zi_compress_size i < 0 then Inl UnsafeArchiveError
      else if int (lm_max_member_uncompressed_bytes L) < zi_file_size i then Inl UnsafeArchiveError
      else if zi_file_size i \<noteq> 0 \<and> zi_compress_size i = 0 then Inl UnsafeArchiveError
      else if zi_compress_size i \<noteq> 0 \<and> lm_max_compression_ratio L < of_int (zi_file_size i) / of_int (zi_compress_size i)
      then Inl UnsafeArchiveError
      else Inr ())"

fun validate_entries ::
  "package_env \<Rightarrow> zip_info list \<Rightarrow> str list \<Rightarrow> int \<Rightarrow> (str \<times> zip_info) list \<Rightarrow> (str \<times> zip_info) list res" where
  "validate_entries X [] seen_casefold total_size infos = Inr infos"
| "validate_entries X (i # is) seen_casefold total_size infos =
     bindR (normalize_member_name (zi_filename i) True) (\<lambda>normalized.
     let collision_key = casefold (pk_udb X) normalized in
     if collision_key \<in> set seen_casefold then Inl UnsafeArchiveError
     else
       bindR (check_entry i) (\<lambda>_.
       if is_dir i then validate_entries X is (collision_key # seen_casefold) total_size infos
       else
         bindR (check_sizes (pk_limits X) i) (\<lambda>_.
         if int (lm_max_archive_uncompressed_bytes (pk_limits X)) < total_size + zi_file_size i then Inl UnsafeArchiveError
         else validate_entries X is (collision_key # seen_casefold) (total_size + zi_file_size i) (infos @ [(normalized, i)]))))"

definition validate_directory :: "package_env \<Rightarrow> zip_info list \<Rightarrow> (str \<times> zip_info) list res" where
  "validate_directory X infos =
     (if infos = [] \<or> lm_max_archive_entries (pk_limits X) < length infos then Inl UnsafeArchiveError
      else validate_entries X infos [] 0 [])"

section \<open>The package\<close>

text \<open>An open package: the bytes behind it, the checked members in order, the members read so far and the bytes they took.\<close>

record zip_package =
  zk_content :: bytes
  zk_infos :: "(str \<times> zip_info) list"
  zk_cache :: "(str \<times> bytes) list"
  zk_read_total :: nat

definition open_package :: "package_env \<Rightarrow> staged_file \<Rightarrow> bytes option \<Rightarrow> zip_package res" where
  "open_package X f content =
     bindR (verify_staged_file (pk_env X) (pk_limits X) f content) (\<lambda>_.
     bindR (read_prefix content 4) (\<lambda>prefix.
     if prefix \<noteq> zip_magic then Inl UnsafeArchiveError
     else
       (case bindR (pk_infolist X (the content)) (validate_directory X) of
          Inl e \<Rightarrow>
            Inl (if e = EncryptedDocumentError then e
                 else if is_os_error e \<or> is_runtime_error e \<or> e \<in> {bad_zip_file, large_zip_file} then UnsafeArchiveError
                 else e)
        | Inr infos \<Rightarrow> Inr \<lparr>zk_content = the content, zk_infos = infos, zk_cache = [], zk_read_total = 0\<rparr>)))"

definition member_names :: "zip_package \<Rightarrow> str list" where
  "member_names p = map fst (zk_infos p)"

definition member_info :: "zip_package \<Rightarrow> str \<Rightarrow> zip_info res" where
  "member_info p name =
     bindR (normalize_member_name name False) (\<lambda>normalized.
     case map_of (zk_infos p) normalized of None \<Rightarrow> Inl MalformedDocumentError | Some i \<Rightarrow> Inr i)"

definition has_member :: "zip_package \<Rightarrow> str \<Rightarrow> bool" where
  "has_member p name =
     (case normalize_member_name name False of
        Inl e \<Rightarrow> False
      | Inr normalized \<Rightarrow> normalized \<in> set (map fst (zk_infos p)))"

definition fetch_member :: "package_env \<Rightarrow> str \<Rightarrow> zip_info \<Rightarrow> nat \<Rightarrow> (zip_package, bytes) op" where
  "fetch_member X normalized i limit p =
     (case pk_open_read X (zk_content p) i (Suc limit) of
        Inl e \<Rightarrow> (Inl (if is_os_error e \<or> is_runtime_error e \<or> e = bad_zip_file then UnsafeArchiveError else e), p)
      | Inr data \<Rightarrow>
          if limit < length data \<or> int (length data) \<noteq> zi_file_size i then (Inl UnsafeArchiveError, p)
          else
            let p1 = p\<lparr>zk_read_total := zk_read_total p + length data\<rparr> in
            if lm_max_archive_uncompressed_bytes (pk_limits X) < zk_read_total p1 then (Inl UnsafeArchiveError, p1)
            else (Inr data, p1\<lparr>zk_cache := zk_cache p1 @ [(normalized, data)]\<rparr>))"

definition read_member :: "package_env \<Rightarrow> str \<Rightarrow> nat option \<Rightarrow> (zip_package, bytes) op" where
  "read_member X name max_bytes =
     bindE (liftE (normalize_member_name name False)) (\<lambda>normalized.
     bindE (readE (\<lambda>p. member_info p normalized)) (\<lambda>info.
     bindE (liftE info) (\<lambda>i.
     let limit = (case max_bytes of None \<Rightarrow> lm_max_member_uncompressed_bytes (pk_limits X) | Some n \<Rightarrow> n) in
     if int limit < zi_file_size i then raiseE UnsafeArchiveError
     else
       bindE (readE (\<lambda>p. map_of (zk_cache p) normalized)) (\<lambda>hit.
       case hit of
         Some cached \<Rightarrow> if limit < length cached then raiseE UnsafeArchiveError else retE cached
       | None \<Rightarrow> fetch_member X normalized i limit))))"

text \<open>\<^verbatim>\<open>root.iter()\<close>: the elements in document order.\<close>

fun iter :: "xml \<Rightarrow> xml list" where
  "iter (Elem tag attrs text tail children) = Elem tag attrs text tail children # concat (map iter children)"

definition parse_xml :: "package_env \<Rightarrow> str \<Rightarrow> nat option \<Rightarrow> (zip_package, xml) op" where
  "parse_xml X name max_bytes =
     (let limit = (case max_bytes of None \<Rightarrow> lm_max_xml_bytes (pk_limits X) | Some n \<Rightarrow> n) in
      bindE (read_member X name (Some limit)) (\<lambda>data.
      case pk_fromstring X data of
        Inl e \<Rightarrow> raiseE (if is_xml_error e then MalformedDocumentError else e)
      | Inr tree \<Rightarrow> if lm_max_xml_nodes (pk_limits X) < length (iter tree) then raiseE MalformedDocumentError else retE tree))"

section \<open>Relationship targets\<close>

text \<open>\<^verbatim>\<open>urllib.parse.unquote\<close>: the escapes of each ASCII run, decoded together.\<close>

fun unquote_bytes :: "str \<Rightarrow> bytes" where
  "unquote_bytes (c # h # l # cs) =
     (case (hex_value h, hex_value l) of
        (Some a, Some b) \<Rightarrow> if c = 37 then (16 * a + b) # unquote_bytes cs else c # unquote_bytes (h # l # cs)
      | _ \<Rightarrow> c # unquote_bytes (h # l # cs))"
| "unquote_bytes cs = cs"

function unquote :: "str \<Rightarrow> str" where
  "unquote s =
     (case s of
        [] \<Rightarrow> []
      | c # cs \<Rightarrow>
          if c < 128
          then decode_replace (unquote_bytes (takeWhile (\<lambda>d. d < 128) s)) @ unquote (dropWhile (\<lambda>d. d < 128) s)
          else c # unquote cs)"
  by pat_completeness auto
termination
  by (relation "measure length") (auto simp: le_imp_less_Suc length_dropWhile_le)

declare unquote.simps [simp del]

text \<open>\<^verbatim>\<open>urllib.parse.urlsplit\<close>, as far as its scheme, network location and path.\<close>

definition is_scheme_char :: "nat \<Rightarrow> bool" where
  "is_scheme_char c \<longleftrightarrow> 48 \<le> c \<and> c \<le> 57 \<or> 65 \<le> c \<and> c \<le> 90 \<or> 97 \<le> c \<and> c \<le> 122 \<or> c \<in> {43, 45, 46}"

definition is_alpha :: "nat \<Rightarrow> bool" where
  "is_alpha c \<longleftrightarrow> 65 \<le> c \<and> c \<le> 90 \<or> 97 \<le> c \<and> c \<le> 122"

definition split_scheme :: "str \<Rightarrow> str \<times> str" where
  "split_scheme url =
     (let leading = takeWhile (\<lambda>c. c \<noteq> 58) url in
      if 58 \<in> set url \<and> leading \<noteq> [] \<and> is_alpha (hd url) \<and> list_all is_scheme_char leading
      then (leading, tl (dropWhile (\<lambda>c. c \<noteq> 58) url)) else ([], url))"

definition split_netloc :: "str \<Rightarrow> str \<times> str" where
  "split_netloc url =
     (if prefixes_str [47, 47] url
      then (takeWhile (\<lambda>c. c \<notin> {47, 63, 35}) (drop 2 url), dropWhile (\<lambda>c. c \<notin> {47, 63, 35}) (drop 2 url))
      else ([], url))"

definition split_url :: "package_env \<Rightarrow> str \<Rightarrow> (str \<times> str \<times> str) res" where
  "split_url X s =
     (let url = filter (\<lambda>c. c \<notin> {9, 10, 13}) (dropWhile (\<lambda>c. c \<le> 32) s);
          (scheme, rest) = split_scheme url;
          (netloc, rest) = split_netloc rest
      in if (91 \<in> set netloc) \<noteq> (93 \<in> set netloc) then Inl ValueError
         else if netloc \<noteq> [] \<and> \<not> pk_netloc_valid X netloc then Inl ValueError
         else Inr (scheme, netloc, takeWhile (\<lambda>c. c \<noteq> 63) (takeWhile (\<lambda>c. c \<noteq> 35) rest)))"

fun resolve_parts :: "str list \<Rightarrow> str list \<Rightarrow> str list res" where
  "resolve_parts base_parts [] = Inr base_parts"
| "resolve_parts base_parts (part # parts) =
     (if part = [] \<or> part = [46] then resolve_parts base_parts parts
      else if part = dot_dot
      then (if base_parts = [] then Inl UnsafeArchiveError else resolve_parts (butlast base_parts) parts)
      else if 0 \<in> set part \<or> 58 \<in> set part then Inl UnsafeArchiveError
      else resolve_parts (base_parts @ [part]) parts)"

definition resolve_target :: "package_env \<Rightarrow> str option \<Rightarrow> str \<Rightarrow> str res" where
  "resolve_target X source_part target =
     (let decoded = unquote (strip target) in
      bindR (split_url X decoded) (\<lambda>(scheme, netloc, path).
      if scheme \<noteq> [] \<or> netloc \<noteq> [] \<or> 92 \<in> set decoded \<or> prefixes_str [47] path then Inl UnsafeArchiveError
      else if path = [] then Inl UnsafeArchiveError
      else
        bindR (case source_part of
                 None \<Rightarrow> Inr []
               | Some source_name \<Rightarrow>
                   bindR (normalize_member_name source_name False) (\<lambda>source. Inr (butlast (split_on 47 source)))) (\<lambda>base_parts.
        bindR (resolve_parts base_parts (split_on 47 path)) (\<lambda>parts.
        if parts = [] then Inl UnsafeArchiveError
        else normalize_member_name (join [47] parts) False))))"

section \<open>Canonical names\<close>

definition plain_parts :: "str list \<Rightarrow> bool" where
  "plain_parts ps \<longleftrightarrow> list_all (\<lambda>p. p \<notin> {[], [46], dot_dot}) ps"

definition canonical_name :: "str \<Rightarrow> bool" where
  "canonical_name n \<longleftrightarrow> plain_parts (split_on 47 n) \<and> 0 \<notin> set n \<and> 92 \<notin> set n \<and> 58 \<notin> set (hd (split_on 47 n))"

lemma odd_parts_iff: "list_ex (\<lambda>p. p \<in> {[], [46], dot_dot}) ps \<longleftrightarrow> \<not> plain_parts ps"
  by (auto simp: plain_parts_def list_ex_iff list_all_iff)

lemma plain_parts_no_empty: "plain_parts ps \<Longrightarrow> [] \<notin> set ps"
  by (auto simp: plain_parts_def list_all_iff)

lemma split_on_snoc: "split_on d (s @ [d]) = split_on d s @ [[]]"
  by (induction s) (auto split: list.splits)

lemma ends_with_slash: "suffixes_str [47] s \<longleftrightarrow> (\<exists>t. s = t @ [47])"
  by (cases s rule: rev_cases) (auto simp: suffixes_str_def)

lemma split_first_slash: "split_on d (d # s) = [] # split_on d s"
  by simp

lemma canonical_no_edge_slash:
  assumes "canonical_name n"
  shows "n \<noteq> []" "\<not> prefixes_str [47] n" "\<not> suffixes_str [47] n"
proof -
  have p: "[] \<notin> set (split_on 47 n)" using assms by (simp add: canonical_name_def plain_parts_no_empty)
  then show "n \<noteq> []" by auto
  from p show "\<not> prefixes_str [47] n" by (cases n) (auto simp: prefixes_str_def)
  from p show "\<not> suffixes_str [47] n" by (auto simp: ends_with_slash split_on_snoc)
qed

lemma path_parts_canonical: "plain_parts (split_on 47 n) \<Longrightarrow> join [47] (path_parts n) = n"
proof -
  assume "plain_parts (split_on 47 n)"
  then have "path_parts n = split_on 47 n"
    unfolding path_parts_def plain_parts_def by (intro filter_True) (auto simp: list_all_iff)
  then show ?thesis by (simp add: join_split_on)
qed

lemma normalize_canonical:
  assumes "canonical_name n"
  shows "normalize_member_name n d = Inr n"
proof -
  note e = canonical_no_edge_slash[OF assms]
  have c: "0 \<notin> set n" "92 \<notin> set n" "plain_parts (split_on 47 n)" "58 \<notin> set (hd (split_on 47 n))"
    using assms by (simp_all add: canonical_name_def)
  show ?thesis
    unfolding normalize_member_name_def Let_def odd_parts_iff using c e
    by (simp add: join_split_on path_parts_canonical)
qed

lemma normalize_directory:
  assumes "canonical_name n"
  shows "normalize_member_name (n @ [47]) True = Inr n"
proof -
  note e = canonical_no_edge_slash[OF assms]
  have c: "0 \<notin> set n" "92 \<notin> set n" "plain_parts (split_on 47 n)" "58 \<notin> set (hd (split_on 47 n))"
    using assms by (simp_all add: canonical_name_def)
  have s: "suffixes_str [47] (n @ [47])" by (auto simp: ends_with_slash)
  have p: "\<not> prefixes_str [47] (n @ [47])" using e by (cases n) (auto simp: prefixes_str_def)
  show ?thesis
    unfolding normalize_member_name_def Let_def odd_parts_iff using c e s p
    by (simp add: join_split_on path_parts_canonical split_on_snoc)
qed

lemma normalize_returns:
  assumes "normalize_member_name name d = Inr n"
  shows "canonical_name n \<and> (name = n \<or> d \<and> name = n @ [47])"
proof -
  define raw where "raw = (if suffixes_str [47] name \<and> d then butlast (split_on 47 name) else split_on 47 name)"
  have "raw \<noteq> [] \<and> plain_parts raw \<and> 58 \<notin> set (hd raw) \<and> n = join [47] raw \<and> 0 \<notin> set name \<and> 92 \<notin> set name"
    using assms unfolding normalize_member_name_def raw_def[symmetric] Let_def odd_parts_iff by (simp split: if_splits)
  then have r: "raw \<noteq> []" "plain_parts raw" "58 \<notin> set (hd raw)" and n: "n = join [47] raw"
    and c: "0 \<notin> set name" "92 \<notin> set name" by blast+
  have "set raw \<subseteq> set (split_on 47 name)" by (auto simp: raw_def dest: in_set_butlastD)
  then have "\<forall>x\<in>set raw. 47 \<notin> set x" using split_on_no_sep by blast
  then have split: "split_on 47 n = raw" unfolding n by (rule split_on_join[OF r(1)])
  have eq: "name = n \<or> d \<and> name = n @ [47]"
  proof (cases "suffixes_str [47] name \<and> d")
    case True
    then obtain t where t: "name = t @ [47]" by (auto simp: ends_with_slash)
    with True have "n = t" by (simp add: n raw_def split_on_snoc join_split_on)
    with t True show ?thesis by simp
  next
    case False
    then have "raw = split_on 47 name" by (auto simp: raw_def)
    then show ?thesis by (simp add: n join_split_on)
  qed
  then have "set n \<subseteq> set name" by auto
  with eq r c show ?thesis unfolding canonical_name_def split by blast
qed

lemma normalize_iff:
  "normalize_member_name name d = Inr n \<longleftrightarrow> canonical_name n \<and> (name = n \<or> d \<and> name = n @ [47])"
proof
  show "normalize_member_name name d = Inr n \<Longrightarrow> canonical_name n \<and> (name = n \<or> d \<and> name = n @ [47])"
    by (rule normalize_returns)
  assume "canonical_name n \<and> (name = n \<or> d \<and> name = n @ [47])"
  then show "normalize_member_name name d = Inr n"
    by (elim conjE disjE) (simp_all add: normalize_canonical normalize_directory)
qed

lemma normalize_error: "normalize_member_name name d = Inl e \<Longrightarrow> e = UnsafeArchiveError"
  by (auto simp: normalize_member_name_def Let_def split: if_splits)

section \<open>What the checked directory holds\<close>

definition safe_entry :: "extraction_limits \<Rightarrow> zip_info \<Rightarrow> bool" where
  "safe_entry L i \<longleftrightarrow>
     even (zi_flag_bits i) \<and> zi_compress_type i \<in> set allowed_compression \<and> \<not> is_link_mode (zi_external_attr i div 65536) \<and>
     0 \<le> zi_file_size i \<and> zi_file_size i \<le> int (lm_max_member_uncompressed_bytes L) \<and>
     of_int (zi_file_size i) \<le> lm_max_compression_ratio L * of_int (zi_compress_size i)"

definition bounded_archive :: "package_env \<Rightarrow> (str \<times> zip_info) list \<Rightarrow> bool" where
  "bounded_archive X infos \<longleftrightarrow>
     length infos \<le> lm_max_archive_entries (pk_limits X) \<and>
     distinct (map (\<lambda>ni. casefold (pk_udb X) (fst ni)) infos) \<and>
     list_all (\<lambda>ni. canonical_name (fst ni) \<and> zi_filename (snd ni) = fst ni \<and> safe_entry (pk_limits X) (snd ni)) infos \<and>
     sum_list (map (\<lambda>ni. zi_file_size (snd ni)) infos) \<le> int (lm_max_archive_uncompressed_bytes (pk_limits X))"

lemma check_sizes_safe:
  assumes "check_entry i = Inr v" "check_sizes L i = Inr w"
  shows "safe_entry L i"
proof -
  have s: "0 \<le> zi_file_size i" "0 \<le> zi_compress_size i" "zi_file_size i = 0 \<or> zi_compress_size i \<noteq> 0"
      "zi_compress_size i = 0 \<or> of_int (zi_file_size i) / of_int (zi_compress_size i) \<le> lm_max_compression_ratio L"
    using assms(2) by (auto simp: check_sizes_def split: if_splits)
  have "rat_of_int (zi_file_size i) \<le> lm_max_compression_ratio L * of_int (zi_compress_size i)"
  proof (cases "zi_compress_size i = 0")
    case False
    then have "0 < rat_of_int (zi_compress_size i)" using s(2) by simp
    with s(4) False show ?thesis by (simp add: pos_divide_le_eq)
  qed (use s in simp)
  with s(1) assms show ?thesis
    by (auto simp: safe_entry_def check_entry_def check_sizes_def is_link_mode_def split: if_splits)
qed

lemma validate_entries_bounded:
  assumes "validate_entries X is seen t0 infos = Inr result"
    and "length infos + length is \<le> m" "distinct (map (\<lambda>ni. casefold (pk_udb X) (fst ni)) infos)"
    and "set (map (\<lambda>ni. casefold (pk_udb X) (fst ni)) infos) \<subseteq> set seen"
    and "list_all (\<lambda>ni. canonical_name (fst ni) \<and> zi_filename (snd ni) = fst ni \<and> safe_entry (pk_limits X) (snd ni)) infos"
    and "t0 = sum_list (map (\<lambda>ni. zi_file_size (snd ni)) infos)" "t0 \<le> int (lm_max_archive_uncompressed_bytes (pk_limits X))"
  shows "length result \<le> m \<and> distinct (map (\<lambda>ni. casefold (pk_udb X) (fst ni)) result) \<and>
    list_all (\<lambda>ni. canonical_name (fst ni) \<and> zi_filename (snd ni) = fst ni \<and> safe_entry (pk_limits X) (snd ni)) result \<and>
    sum_list (map (\<lambda>ni. zi_file_size (snd ni)) result) \<le> int (lm_max_archive_uncompressed_bytes (pk_limits X))"
  using assms
proof (induction "is" arbitrary: seen t0 infos)
  case (Cons i "is")
  from Cons.prems(1) obtain n where n: "normalize_member_name (zi_filename i) True = Inr n"
    and fresh: "casefold (pk_udb X) n \<notin> set seen" and e: "check_entry i = Inr ()"
    and run: "(if is_dir i then validate_entries X is (casefold (pk_udb X) n # seen) t0 infos
       else bindR (check_sizes (pk_limits X) i) (\<lambda>_.
         if int (lm_max_archive_uncompressed_bytes (pk_limits X)) < t0 + zi_file_size i then Inl UnsafeArchiveError
         else validate_entries X is (casefold (pk_udb X) n # seen) (t0 + zi_file_size i) (infos @ [(n, i)]))) = Inr result"
    by (auto simp: bindR_Inr_iff Let_def split: if_splits)
  show ?case
  proof (cases "is_dir i")
    case True
    with run have "validate_entries X is (casefold (pk_udb X) n # seen) t0 infos = Inr result" by simp
    from Cons.IH[OF this] Cons.prems show ?thesis by auto
  next
    case False
    with run have s: "check_sizes (pk_limits X) i = Inr ()"
      and fit: "t0 + zi_file_size i \<le> int (lm_max_archive_uncompressed_bytes (pk_limits X))"
      and next_run: "validate_entries X is (casefold (pk_udb X) n # seen) (t0 + zi_file_size i) (infos @ [(n, i)]) = Inr result"
      by (auto simp: bindR_Inr_iff split: if_splits)
    have "canonical_name n" "zi_filename i = n"
      using normalize_returns[OF n] False by (auto simp: is_dir_def ends_with_slash)
    moreover have "safe_entry (pk_limits X) i" using check_sizes_safe[OF e s] .
    ultimately show ?thesis
      using Cons.IH[OF next_run] Cons.prems(2-) fit fresh by auto
  qed
qed simp

lemma directory_bounded: "validate_directory X raw = Inr infos \<Longrightarrow> bounded_archive X infos"
  unfolding validate_directory_def bounded_archive_def
  by (auto simp del: validate_entries.simps split: if_splits
      dest!: validate_entries_bounded[where m = "lm_max_archive_entries (pk_limits X)"])

section \<open>The read budget\<close>

definition within_budget :: "package_env \<Rightarrow> zip_package \<Rightarrow> bool" where
  "within_budget X p \<longleftrightarrow>
     bounded_archive X (zk_infos p) \<and> distinct (map fst (zk_cache p)) \<and>
     zk_read_total p = sum_list (map (\<lambda>nd. length (snd nd)) (zk_cache p)) \<and>
     zk_read_total p \<le> lm_max_archive_uncompressed_bytes (pk_limits X) \<and>
     list_all (\<lambda>nd. map_option zi_file_size (map_of (zk_infos p) (fst nd)) = Some (int (length (snd nd)))) (zk_cache p)"

lemma open_package_returns:
  assumes "open_package X f content = Inr p"
  shows "\<exists>data raw. content = Some data \<and> length data = sf_size f \<and> en_sha_bytes (pk_env X) data = sf_sha256 f \<and>
    sf_size f \<le> lm_max_upload_bytes (pk_limits X) \<and> pk_infolist X data = Inr raw \<and>
    validate_directory X raw = Inr (zk_infos p) \<and> zk_content p = data \<and> zk_cache p = [] \<and> zk_read_total p = 0"
  using assms
  by (auto simp: open_package_def bindR_Inr_iff verify_staged_file_def not_less split: if_splits option.splits sum.splits)

lemma open_package_budget: "open_package X f content = Inr p \<Longrightarrow> within_budget X p"
  by (drule open_package_returns) (auto simp: within_budget_def directory_bounded)

lemma member_info_iff: "member_info p name = Inr i \<longleftrightarrow> canonical_name name \<and> map_of (zk_infos p) name = Some i"
  by (auto simp: member_info_def bindR_Inr_iff normalize_iff split: option.splits)

lemma read_member_returns:
  assumes "read_member X name m p = (Inr data, q)" "within_budget X p"
  shows "within_budget X q \<and> zk_infos q = zk_infos p \<and> zk_content q = zk_content p \<and>
    canonical_name name \<and> map_option zi_file_size (map_of (zk_infos p) name) = Some (int (length data)) \<and>
    length data \<le> (case m of None \<Rightarrow> lm_max_member_uncompressed_bytes (pk_limits X) | Some n \<Rightarrow> n)"
proof -
  define limit where "limit = (case m of None \<Rightarrow> lm_max_member_uncompressed_bytes (pk_limits X) | Some n \<Rightarrow> n)"
  from assms(1) obtain i where n: "normalize_member_name name False = Inr name" and c: "canonical_name name"
    and i: "map_of (zk_infos p) name = Some i" and l: "zi_file_size i \<le> int limit"
    and run: "(case map_of (zk_cache p) name of
         Some cached \<Rightarrow> if limit < length cached then raiseE UnsafeArchiveError else retE cached
       | None \<Rightarrow> fetch_member X name i limit) p = (Inr data, q)"
    by (auto simp: read_member_def bindE_Inr_iff member_info_iff normalize_iff limit_def[symmetric] Let_def
        eq_commute[of "Inr _" "normalize_member_name _ _"] eq_commute[of "Inr _" "member_info _ _"]
        split: if_split_asm)
  show ?thesis
  proof (cases "map_of (zk_cache p) name")
    case (Some cached)
    with run have "data = cached" "q = p" "length cached \<le> limit" by (auto split: if_splits)
    moreover have "(name, cached) \<in> set (zk_cache p)" using Some by (rule map_of_SomeD)
    ultimately show ?thesis using assms(2) c by (auto simp: within_budget_def list_all_iff limit_def)
  next
    case None
    with run have "int (length data) = zi_file_size i" "length data \<le> limit"
      and q: "q = p\<lparr>zk_read_total := zk_read_total p + length data, zk_cache := zk_cache p @ [(name, data)]\<rparr>"
      and fits: "zk_read_total p + length data \<le> lm_max_archive_uncompressed_bytes (pk_limits X)"
      by (auto simp: fetch_member_def Let_def split: sum.splits if_splits)
    moreover have "name \<notin> fst ` set (zk_cache p)" using None by (simp add: map_of_eq_None_iff)
    ultimately show ?thesis using assms(2) c i by (auto simp: within_budget_def limit_def[symmetric])
  qed
qed

lemma read_member_budget: "yields (within_budget X) (\<lambda>_. True) (read_member X name m)"
  by (rule yieldsI) (simp add: read_member_returns)

text \<open>A member name is accepted exactly when it is canonical: non-empty components separated by single slashes, none of
  them a dot or two dots, no NUL, no backslash and no drive letter; a directory entry may carry one final slash, which is
  dropped.  Nothing else is rewritten, so the accepted name is the name in the archive.\<close>

lemma member_name_canonical:
  "normalize_member_name name allow_directory = Inr n \<longleftrightarrow>
   canonical_name n \<and> (name = n \<or> allow_directory \<and> name = n @ [47])"
  by (rule normalize_iff)


lemma resolve_target_errors:
  "resolve_target X source_part target = Inl e \<Longrightarrow> e = UnsafeArchiveError \<or> e = ValueError"
proof -
  have parts: "resolve_parts base ps = Inl e \<Longrightarrow> e = UnsafeArchiveError" for base ps
    by (induction base ps rule: resolve_parts.induct) (auto split: if_splits)
  assume "resolve_target X source_part target = Inl e"
  then show ?thesis
    by (auto simp: resolve_target_def bindR_def Let_def split_url_def dest: parts normalize_error
        split: if_splits sum.splits prod.splits option.splits)
qed

text \<open>A relationship target never leaves the package: whatever the target and the part it stands in, what is resolved is
  a canonical member name, so no parent step, no absolute path and no drive; otherwise the target is refused.\<close>

lemma resolve_target_contained:
  "case resolve_target X source_part target of
     Inr n \<Rightarrow> canonical_name n
   | Inl e \<Rightarrow> e = UnsafeArchiveError \<or> e = ValueError"
proof (cases "resolve_target X source_part target")
  case (Inl e)
  then show ?thesis using resolve_target_errors by simp
next
  case (Inr n)
  then have "\<exists>m. normalize_member_name m False = Inr n"
    by (auto simp: resolve_target_def bindR_Inr_iff Let_def split: if_splits prod.splits)
  with Inr show ?thesis using normalize_returns by auto
qed

text \<open>The target \<^verbatim>\<open>//[\<close> is refused with a plain \<^verbatim>\<open>ValueError\<close>: the exception of \<^verbatim>\<open>urlsplit\<close> is not translated into
  one of the typed errors.\<close>

lemma bracket_target_untyped:
  "resolve_target X source_part (u ''//['') = Inl ValueError \<and> \<not> is_indexguard_error ValueError"
proof -
  have "u ''//['' = [47, 47, 91]" by (simp add: u_def)
  moreover have "strip [47, 47, 91] = [47, 47, 91]" by (simp add: strip_def lstrip_def rstrip_def is_space_def)
  moreover have "unquote_bytes [47, 47, 91] = [47, 47, 91]" by (simp add: hex_value_def)
  moreover have "decode_replace [47, 47, 91] = [47, 47, 91]"
    by (simp add: decode_replace_def decode_with_def utf8_parts.simps utf8_step_def)
  ultimately have d: "unquote (strip (u ''//['')) = [47, 47, 91]" by (simp add: unquote.simps)
  have "split_url X [47, 47, 91] = Inl ValueError"
    by (simp add: split_url_def split_scheme_def split_netloc_def prefixes_str_def Let_def)
  then show ?thesis by (simp add: resolve_target_def d bindR_def is_indexguard_error_def)
qed

end
