(* ===== verification/XmlTree.thy ===== *)
theory XmlTree
  imports SafeZip "HOL-Library.AList"
begin

text \<open>
  What the two package extractors share: walking a part's XML tree with the ancestors of each element, gathering the text
  tokens of a run, and turning the gathered runs into text units, over the open package and the collector
  (\<^verbatim>\<open>extractors/docx.py\<close>, \<^verbatim>\<open>extractors/hwpx.py\<close>).  An element's identity is its position in the tree.
\<close>

section \<open>Walking the tree\<close>

definition tag_name :: "xml \<Rightarrow> str" where
  "tag_name e = local_name (el_tag e)"

definition children_named :: "xml \<Rightarrow> str \<Rightarrow> xml list" where
  "children_named e name = filter (\<lambda>c. tag_name c = name) (el_children e)"

definition descendants :: "xml \<Rightarrow> str \<Rightarrow> xml list" where
  "descendants e name = filter (\<lambda>c. tag_name c = name) (iter e)"

definition first_of :: "'a list \<Rightarrow> 'a option" where
  "first_of xs = (case xs of [] \<Rightarrow> None | x # ys \<Rightarrow> Some x)"

type_synonym xnode = "nat list \<times> xml"

text \<open>\<^verbatim>\<open>root.iter()\<close> with the chain of parents of each element, nearest first.\<close>

fun visit :: "xnode list \<Rightarrow> nat list \<Rightarrow> xml \<Rightarrow> (xnode \<times> xnode list) list"
  and visit_children :: "xnode list \<Rightarrow> nat list \<Rightarrow> nat \<Rightarrow> xml list \<Rightarrow> (xnode \<times> xnode list) list" where
  "visit up here (Elem tag attrs text tail children) =
     ((here, Elem tag attrs text tail children), up) #
     visit_children ((here, Elem tag attrs text tail children) # up) here 0 children"
| "visit_children up here i [] = []"
| "visit_children up here i (e # es) = visit up (here @ [i]) e @ visit_children up here (Suc i) es"

definition nodes :: "xml \<Rightarrow> (xnode \<times> xnode list) list" where
  "nodes e = visit [] [] e"

definition nearest :: "xnode list \<Rightarrow> str \<Rightarrow> xnode option" where
  "nearest up name = find (\<lambda>a. tag_name (snd a) = name) up"

definition has_ancestor :: "xnode list \<Rightarrow> str list \<Rightarrow> bool" where
  "has_ancestor up names = list_ex (\<lambda>a. tag_name (snd a) \<in> set names) up"

definition paragraph_paths :: "xml \<Rightarrow> nat list list" where
  "paragraph_paths e = map (fst \<circ> fst) (filter (\<lambda>n. tag_name (snd (fst n)) = u ''p'') (nodes e))"

definition index_in :: "'a \<Rightarrow> 'a list \<Rightarrow> nat" where
  "index_in x xs = (if x \<in> set xs then length (takeWhile (\<lambda>y. y \<noteq> x) xs) else 0)"

lemma visit_iter: "map (snd \<circ> fst) (visit up here e) = iter e"
  "map (snd \<circ> fst) (visit_children up here i es) = concat (map iter es)"
  by (induction up here e and up here i es rule: visit_visit_children.induct) auto

lemma nodes_iter: "map (snd \<circ> fst) (nodes e) = iter e"
  by (simp add: nodes_def visit_iter)

section \<open>Attributes\<close>

text \<open>\<^verbatim>\<open>attr_by_local_name(e.attrib, name) or default\<close>.\<close>

definition attr :: "xml \<Rightarrow> str \<Rightarrow> str option" where
  "attr e name = attr_by_local_name (el_attrs e) name"

definition attr_or :: "xml \<Rightarrow> str \<Rightarrow> str \<Rightarrow> str" where
  "attr_or e name fallback = (case attr e name of None \<Rightarrow> fallback | Some v \<Rightarrow> if v = [] then fallback else v)"

definition text_of :: "xml \<Rightarrow> str" where
  "text_of e = (case el_text e of None \<Rightarrow> [] | Some t \<Rightarrow> t)"

definition tail_of :: "xml \<Rightarrow> str" where
  "tail_of e = (case el_tail e of None \<Rightarrow> [] | Some t \<Rightarrow> t)"

section \<open>Gathering runs\<close>

type_synonym 'k groups = "('k \<times> xnode \<times> xnode \<times> str list) list"

fun add_token :: "'k \<Rightarrow> xnode \<Rightarrow> xnode \<Rightarrow> str \<Rightarrow> 'k groups \<Rightarrow> 'k groups" where
  "add_token key run par token [] = [(key, run, par, [token])]"
| "add_token key run par token ((k, r, p, tokens) # gs) =
     (if k = key then (k, r, p, tokens @ [token]) # gs else (k, r, p, tokens) # add_token key run par token gs)"

text \<open>The tokens of the groups, put together, are the tokens added.\<close>

definition group_tokens :: "'k groups \<Rightarrow> 'k \<Rightarrow> str list" where
  "group_tokens gs key = (case map_of gs key of None \<Rightarrow> [] | Some (r, p, tokens) \<Rightarrow> tokens)"

lemma add_token_tokens:
  "group_tokens (add_token key run par token gs) =
   (group_tokens gs)(key := group_tokens gs key @ [token])"
  by (induction key run par token gs rule: add_token.induct) (auto simp: group_tokens_def fun_eq_iff)

lemma add_token_keys: "fst ` set (add_token key run par token gs) = insert key (fst ` set gs)"
  by (induction key run par token gs rule: add_token.induct) auto

lemma add_token_distinct: "distinct (map fst gs) \<Longrightarrow> distinct (map fst (add_token key run par token gs))"
  by (induction key run par token gs rule: add_token.induct) (auto simp: add_token_keys)

text \<open>
  Both formats gather the tokens of a part in one pass over its elements: an element either belongs to no run and changes
  nothing, or its token is added to the group of its key.  That pass loses, reorders and mixes nothing.
\<close>

definition tokens_of :: "('n \<Rightarrow> 'k option) \<Rightarrow> ('n \<Rightarrow> str) \<Rightarrow> 'n list \<Rightarrow> 'k \<Rightarrow> str list" where
  "tokens_of key_of token_of ns key = map token_of (filter (\<lambda>n. key_of n = Some key) ns)"

locale token_gathering =
  fixes gathers :: "'n list \<Rightarrow> 'k groups \<Rightarrow> 'k groups \<Rightarrow> bool"
    and key_of :: "'n \<Rightarrow> 'k option"
    and token_of :: "'n \<Rightarrow> str"
  assumes nothing_left: "gathers [] gs result \<Longrightarrow> result = gs"
    and skipped: "gathers (n # ns) gs result \<Longrightarrow> key_of n = None \<Longrightarrow> gathers ns gs result"
    and gathered: "gathers (n # ns) gs result \<Longrightarrow> key_of n = Some k \<Longrightarrow>
      \<exists>run par. gathers ns (add_token k run par (token_of n) gs) result"
begin

lemma tokens: "gathers ns gs result \<Longrightarrow> group_tokens result key = group_tokens gs key @ tokens_of key_of token_of ns key"
proof (induction ns arbitrary: gs)
  case (Cons n ns)
  show ?case
  proof (cases "key_of n")
    case None
    with Cons.IH[OF skipped[OF Cons.prems]] show ?thesis by (simp add: tokens_of_def)
  next
    case (Some k)
    from gathered[OF Cons.prems Some] obtain run par where "gathers ns (add_token k run par (token_of n) gs) result" by blast
    from Cons.IH[OF this] Some show ?thesis by (simp add: add_token_tokens tokens_of_def)
  qed
qed (auto simp: tokens_of_def dest: nothing_left)

lemma distinct_keys: "gathers ns gs result \<Longrightarrow> distinct (map fst gs) \<Longrightarrow> distinct (map fst result)"
proof (induction ns arbitrary: gs)
  case (Cons n ns)
  show ?case
  proof (cases "key_of n")
    case None
    with Cons show ?thesis using skipped by blast
  next
    case (Some k)
    from gathered[OF Cons.prems(1) Some] obtain run par where "gathers ns (add_token k run par (token_of n) gs) result" by blast
    from Cons.IH[OF this add_token_distinct[OF Cons.prems(2)]] show ?thesis .
  qed
qed (auto dest: nothing_left)

lemma complete: "gathers ns [] result \<Longrightarrow>
  group_tokens result key = tokens_of key_of token_of ns key \<and> distinct (map fst result)"
  using tokens[of ns "[]" result key] distinct_keys[of ns "[]" result] by (simp add: group_tokens_def)

end

section \<open>An extraction in progress\<close>

record extract_state =
  xs_package :: zip_package
  xs_collector :: extraction_collector

definition on_package :: "(zip_package, 'a) op \<Rightarrow> (extract_state, 'a) op" where
  "on_package = onE xs_package (\<lambda>p s. s\<lparr>xs_package := p\<rparr>)"

definition on_collector :: "(extraction_collector, 'a) op \<Rightarrow> (extract_state, 'a) op" where
  "on_collector = onE xs_collector (\<lambda>c s. s\<lparr>xs_collector := c\<rparr>)"

text \<open>The units of the gathered runs: runs of white space give none, and runs are numbered within their paragraph.\<close>

fun add_groups ::
  "(nat \<Rightarrow> nat \<Rightarrow> 'k \<Rightarrow> xnode \<Rightarrow> xnode \<Rightarrow> str \<Rightarrow> text_unit res) \<Rightarrow> extraction_limits \<Rightarrow> nat \<Rightarrow> (nat list \<times> nat) list \<Rightarrow>
   'k groups \<Rightarrow> (extract_state, unit) op" where
  "add_groups unit_of L group_index run_counters [] = retE ()"
| "add_groups unit_of L group_index run_counters ((key, run, paragraph, tokens) # gs) =
     (let text = concat tokens in
      if strip text = [] then add_groups unit_of L (Suc group_index) run_counters gs
      else
        let run_index = (case map_of run_counters (fst paragraph) of None \<Rightarrow> 0 | Some n \<Rightarrow> n) in
        bindE (liftE (unit_of group_index run_index key run paragraph text)) (\<lambda>t.
        bindE (on_collector (add_unit L t)) (\<lambda>_.
        add_groups unit_of L (Suc group_index) (AList.update (fst paragraph) (Suc run_index) run_counters) gs)))"

definition hidden_or_visible :: "text_style \<Rightarrow> visibility" where
  "hidden_or_visible style = (if ts_hidden style = Some True then HIDDEN_SUSPECTED else VISIBLE)"

definition plain_artifact :: "str \<Rightarrow> str \<Rightarrow> str option \<Rightarrow> artifact" where
  "plain_artifact type reason path = \<lparr>ar_type = type, ar_reason = reason, ar_path = path, ar_location = None, ar_metadata = []\<rparr>"

section \<open>What every step keeps\<close>

text \<open>The bounds of the package and of the collector, and a property \<open>Q\<close> of every unit.\<close>

definition sound_state :: "package_env \<Rightarrow> (text_unit \<Rightarrow> bool) \<Rightarrow> extract_state \<Rightarrow> bool" where
  "sound_state X Q s \<longleftrightarrow> within_budget X (xs_package s) \<and> collected_all (pk_limits X) Q (xs_collector s)"

lemma yields_package: "yields (within_budget X) P m \<Longrightarrow> yields (sound_state X Q) P (on_package m)"
  by (rule yieldsI) (auto simp: on_package_def onE_run sound_state_def dest: yieldsD)

lemma yields_collector: "yields (collected_all (pk_limits X) Q) P m \<Longrightarrow> yields (sound_state X Q) P (on_collector m)"
  by (rule yieldsI) (auto simp: on_collector_def onE_run sound_state_def dest: yieldsD)

lemmas yields_add_unit [yields_rules] = yields_collector[OF add_unit_all]
lemmas yields_add_artifact [yields_rules] = yields_collector[OF add_artifact_all]

lemma parse_xml_budget: "yields (within_budget X) (\<lambda>_. True) (parse_xml X name m)"
  unfolding parse_xml_def Let_def
  by (rule yields_bind[OF read_member_budget])
    (auto intro!: yields_rules simp: yields_def retE_def raiseE_def split: sum.splits if_splits)

lemma yields_parse [yields_rules]: "yields (sound_state X Q) (\<lambda>_. True) (on_package (parse_xml X name m))"
  by (rule yields_package) (rule parse_xml_budget)

lemma add_groups_sound:
  assumes "\<And>g r key run par text t. unit_of g r key run par text = Inr t \<Longrightarrow> Q t"
  shows "yields (sound_state X Q) (\<lambda>_. True) (add_groups unit_of (pk_limits X) g counters gs)"
proof (induction gs arbitrary: g counters)
  case (Cons h gs)
  obtain key run par tokens where h: "h = (key, run, par, tokens)" by (cases h) auto
  show ?case
    unfolding h add_groups.simps Let_def
    by (intro yields_if Cons.IH yields_bind[OF yields_lift[where P = Q]] yields_bind[OF yields_add_unit]) (auto intro: assms)
qed (auto intro: yields_ret)

lemma empty_state_sound: "open_package X f content = Inr p \<Longrightarrow> sound_state X Q \<lparr>xs_package = p, xs_collector = new_collector\<rparr>"
  by (simp add: sound_state_def open_package_budget new_collector_all)

end
