(* ===== verification/Docx.thy ===== *)
theory Docx
  imports XmlTree
begin

text \<open>
  The Word extractor (\<^verbatim>\<open>src/indexguard/extractors/docx.py\<close>): the package descriptor, the style catalogue with its
  inheritance, the effective style of a run and whether it is hidden, tracked changes, active content, external references
  and the parts of a document.
\<close>

section \<open>The package descriptor\<close>

definition cfb_magic :: bytes where
  "cfb_magic = [0xD0, 0xCF, 0x11, 0xE0, 0xA1, 0xB1, 0x1A, 0xE1]"

definition word_namespaces :: "str list" where
  "word_namespaces =
     [u ''http://schemas.openxmlformats.org/wordprocessingml/2006/main'', u ''http://purl.oclc.org/ooxml/wordprocessingml/main'']"

fun content_overrides :: "xml list \<Rightarrow> (str \<times> str) list \<Rightarrow> (str \<times> str) list" where
  "content_overrides [] overrides = overrides"
| "content_overrides (e # es) overrides =
     (case (attr e (u ''PartName''), attr e (u ''ContentType'')) of
        (Some (p # ps), Some (t # ts)) \<Rightarrow>
          content_overrides es (AList.update (dropWhile (\<lambda>c. c = 47) (p # ps)) (t # ts) overrides)
      | _ \<Rightarrow> content_overrides es overrides)"

fun main_parts :: "package_env \<Rightarrow> xml list \<Rightarrow> str list res" where
  "main_parts X [] = Inr []"
| "main_parts X (r # rs) =
     (let rel_type = attr_or r (u ''Type'') [];
          target_mode = lower (pk_udb X) (attr_or r (u ''TargetMode'') (u ''Internal''));
          target = attr_or r (u ''Target'') []
      in if suffixes_str (u ''/officeDocument'') rel_type \<and> target \<noteq> [] \<and> target_mode \<noteq> u ''external''
         then bindR (resolve_target X None target) (\<lambda>p. bindR (main_parts X rs) (\<lambda>ps. Inr (p # ps)))
         else main_parts X rs)"

definition word_descriptor :: "package_env \<Rightarrow> (zip_package, str \<times> str) op" where
  "word_descriptor X =
     bindE (readE (\<lambda>p. has_member p (u ''[Content_Types].xml'') \<and> has_member p (u ''_rels/.rels''))) (\<lambda>present.
     if \<not> present then raiseE FormatMismatchError
     else
     bindE (parse_xml X (u ''[Content_Types].xml'') None) (\<lambda>content_types.
     let overrides = content_overrides (descendants content_types (u ''Override'')) [] in
     bindE (parse_xml X (u ''_rels/.rels'') None) (\<lambda>relationships.
     bindE (liftE (main_parts X (descendants relationships (u ''Relationship'')))) (\<lambda>parts.
     bindE (readE (\<lambda>p. length parts = 1 \<and> has_member p (hd parts))) (\<lambda>unique.
     if \<not> unique then raiseE FormatMismatchError
     else
       let main_part = hd parts;
           content_type = (case map_of overrides main_part of None \<Rightarrow> [] | Some t \<Rightarrow> t)
       in if \<not> occurs_in (u ''wordprocessingml'') content_type \<and> \<not> occurs_in (u ''ms-word'') content_type
          then raiseE FormatMismatchError
          else retE (main_part, content_type))))))"

section \<open>Styles\<close>

text \<open>A field is \<open>None\<close> when the properties do not set it; a set colour or size may itself be absent.\<close>

record style_props =
  sp_vanish :: "bool option"
  sp_web_hidden :: "bool option"
  sp_color :: "str option option"
  sp_size :: "float_text option option"
  sp_highlight :: "str option"
  sp_style_ref :: "str option option"

definition no_props :: style_props where
  "no_props = \<lparr>sp_vanish = None, sp_web_hidden = None, sp_color = None, sp_size = None, sp_highlight = None, sp_style_ref = None\<rparr>"

definition over :: "'a option \<Rightarrow> 'a option \<Rightarrow> 'a option" where
  "over new old = (case new of None \<Rightarrow> old | Some v \<Rightarrow> Some v)"

text \<open>\<^verbatim>\<open>properties.update(new)\<close>.\<close>

definition update_props :: "style_props \<Rightarrow> style_props \<Rightarrow> style_props" where
  "update_props old new =
     \<lparr>sp_vanish = over (sp_vanish new) (sp_vanish old), sp_web_hidden = over (sp_web_hidden new) (sp_web_hidden old),
      sp_color = over (sp_color new) (sp_color old), sp_size = over (sp_size new) (sp_size old),
      sp_highlight = over (sp_highlight new) (sp_highlight old), sp_style_ref = over (sp_style_ref new) (sp_style_ref old)\<rparr>"

record style_definition =
  sd_based_on :: "str option"
  sd_properties :: style_props

record style_catalog =
  sc_defaults :: style_props
  sc_definitions :: "(str \<times> style_definition) list"
  sc_default_paragraph :: "str option"
  sc_default_character :: "str option"

definition on_off :: "unicode_db \<Rightarrow> xml \<Rightarrow> bool" where
  "on_off U e =
     (case attr e (u ''val'') of
        None \<Rightarrow> True
      | Some v \<Rightarrow> lower U (strip v) \<notin> {u ''0'', u ''false'', u ''off'', u ''no''})"

definition last_named :: "xml \<Rightarrow> str \<Rightarrow> xml option" where
  "last_named e name = first_of (rev (children_named e name))"

definition run_properties :: "package_env \<Rightarrow> xml option \<Rightarrow> style_props" where
  "run_properties X rpr =
     (case rpr of
        None \<Rightarrow> no_props
      | Some e \<Rightarrow>
          let size_node = (case last_named e (u ''sz'') of None \<Rightarrow> last_named e (u ''szCs'') | Some n \<Rightarrow> Some n)
          in \<lparr>sp_vanish = map_option (on_off (pk_udb X)) (last_named e (u ''vanish'')),
              sp_web_hidden = map_option (on_off (pk_udb X)) (last_named e (u ''webHidden'')),
              sp_color = map_option (\<lambda>n. normalize_color_hex (pk_udb X) (attr n (u ''val''))) (last_named e (u ''color'')),
              sp_size = map_option (\<lambda>n. pk_float_ratio X (attr_or n (u ''val'') []) 2) size_node,
              sp_highlight = map_option (\<lambda>n. lower (pk_udb X) (attr_or n (u ''val'') [])) (last_named e (u ''highlight'')),
              sp_style_ref = map_option (\<lambda>n. attr n (u ''val'')) (last_named e (u ''rStyle''))\<rparr>)"

fun load_styles :: "package_env \<Rightarrow> xml list \<Rightarrow> style_catalog \<Rightarrow> style_catalog res" where
  "load_styles X [] C = Inr C"
| "load_styles X (e # es) C =
     (let style_id = attr_or e (u ''styleId'') [] in
      if style_id = [] then load_styles X es C
      else if style_id \<in> set (map fst (sc_definitions C)) then Inl MalformedDocumentError
      else
        let based_on = (case first_of (children_named e (u ''basedOn'')) of None \<Rightarrow> None | Some b \<Rightarrow> attr b (u ''val''));
            d = \<lparr>sd_based_on = based_on, sd_properties = run_properties X (first_of (children_named e (u ''rPr'')))\<rparr>;
            C1 = C\<lparr>sc_definitions := sc_definitions C @ [(style_id, d)]\<rparr>;
            is_default = (lower (pk_udb X) (attr_or e (u ''default'') []) \<in> {u ''1'', u ''true'', u ''on''});
            style_type = lower (pk_udb X) (attr_or e (u ''type'') [])
        in if is_default \<and> style_type = u ''paragraph'' \<and> sc_default_paragraph C1 \<noteq> None then Inl MalformedDocumentError
           else
             let C2 = (if is_default \<and> style_type = u ''paragraph'' then C1\<lparr>sc_default_paragraph := Some style_id\<rparr> else C1)
             in if is_default \<and> style_type = u ''character'' \<and> sc_default_character C2 \<noteq> None then Inl MalformedDocumentError
                else load_styles X es
                       (if is_default \<and> style_type = u ''character'' then C2\<lparr>sc_default_character := Some style_id\<rparr> else C2))"

definition empty_catalog :: style_catalog where
  "empty_catalog = \<lparr>sc_defaults = no_props, sc_definitions = [], sc_default_paragraph = None, sc_default_character = None\<rparr>"

definition load_style_catalog :: "package_env \<Rightarrow> (zip_package, style_catalog) op" where
  "load_style_catalog X =
     bindE (readE (\<lambda>p. find (\<lambda>n. lower (pk_udb X) n = u ''word/styles.xml'') (member_names p))) (\<lambda>style_part.
     case style_part of
       None \<Rightarrow> retE empty_catalog
     | Some part \<Rightarrow>
         bindE (parse_xml X part None) (\<lambda>tree.
         let defaults = (case first_of (descendants tree (u ''rPrDefault'')) of
                           None \<Rightarrow> no_props
                         | Some e \<Rightarrow> run_properties X (first_of (children_named e (u ''rPr''))))
         in liftE (load_styles X (children_named tree (u ''style'')) (empty_catalog\<lparr>sc_defaults := defaults\<rparr>))))"

text \<open>The styles a style is based on, ending at an unknown style, at none, or with an error at a repeated one.\<close>

function resolved_style :: "style_catalog \<Rightarrow> str option \<Rightarrow> str list \<Rightarrow> style_props res" where
  "resolved_style C style visiting =
     (case style of
        None \<Rightarrow> Inr no_props
      | Some s \<Rightarrow>
          if s = [] then Inr no_props
          else if s \<in> set visiting then Inl MalformedDocumentError
          else
            (case map_of (sc_definitions C) s of
               None \<Rightarrow> Inr no_props
             | Some d \<Rightarrow>
                 bindR (resolved_style C (sd_based_on d) (s # visiting)) (\<lambda>base.
                 Inr (update_props base (sd_properties d)))))"
  by pat_completeness auto
termination
proof (relation "measure (\<lambda>(C, style, visiting). card (fst ` set (sc_definitions C) - set visiting))")
  fix C :: style_catalog and style visiting s d
  assume "style = Some s" and new: "s \<notin> set visiting" and d: "map_of (sc_definitions C) s = Some d"
  from d have "s \<in> fst ` set (sc_definitions C)" by (metis domI dom_map_of_conv_image_fst)
  with new have "fst ` set (sc_definitions C) - set (s # visiting) \<subset> fst ` set (sc_definitions C) - set visiting" by auto
  then show "((C, sd_based_on d, s # visiting), (C, style, visiting))
      \<in> measure (\<lambda>(C, style, visiting). card (fst ` set (sc_definitions C) - set visiting))"
    by (simp add: psubset_card_mono)
qed simp

declare resolved_style.simps [simp del]

definition or_else :: "str option \<Rightarrow> str option \<Rightarrow> str option" where
  "or_else a b = (case a of None \<Rightarrow> b | Some v \<Rightarrow> if v = [] then b else Some v)"

definition paragraph_style_ref :: "xml \<Rightarrow> str option" where
  "paragraph_style_ref par =
     (case first_of (children_named par (u ''pPr'')) of
        None \<Rightarrow> None
      | Some ppr \<Rightarrow>
          (case first_of (children_named ppr (u ''pStyle'')) of None \<Rightarrow> None | Some n \<Rightarrow> attr n (u ''val'')))"

text \<open>Whether properties hide a run: an explicit mark, near-white text on no visible highlight, or text of at most a point.\<close>

definition hides :: "package_env \<Rightarrow> style_props \<Rightarrow> bool" where
  "hides X properties =
     (let color = (case sp_color properties of None \<Rightarrow> None | Some v \<Rightarrow> v);
          size = (case sp_size properties of None \<Rightarrow> None | Some v \<Rightarrow> v);
          white_on_visible_background = (sp_highlight properties \<notin> {None, Some (u ''none''), Some (u ''white'')})
      in sp_vanish properties = Some True \<or> sp_web_hidden properties = Some True \<or>
         is_near_white_hex (pk_udb X) color \<and> \<not> white_on_visible_background \<or>
         (case size of None \<Rightarrow> False | Some x \<Rightarrow> pk_at_most_one X x))"

definition effective_style :: "package_env \<Rightarrow> style_catalog \<Rightarrow> xml \<Rightarrow> xml \<Rightarrow> text_style res" where
  "effective_style X C run par =
     (let direct = run_properties X (first_of (children_named run (u ''rPr'')));
          paragraph_style = or_else (paragraph_style_ref par) (sc_default_paragraph C);
          run_style = (case sp_style_ref direct of Some (Some v) \<Rightarrow> Some v | _ \<Rightarrow> sc_default_character C)
      in bindR (resolved_style C paragraph_style []) (\<lambda>from_paragraph.
         bindR (resolved_style C run_style []) (\<lambda>from_run.
         let properties = update_props (update_props (update_props (sc_defaults C) from_paragraph) from_run) direct
         in Inr (default_text_style
              \<lparr>ts_color_hex := (case sp_color properties of None \<Rightarrow> None | Some v \<Rightarrow> v),
               ts_font_size_pt := (case sp_size properties of None \<Rightarrow> None | Some v \<Rightarrow> v),
               ts_hidden := Some (hides X properties),
               ts_style_ref := or_else run_style paragraph_style\<rparr>))))"

section \<open>A part\<close>

definition text_tags :: "str list" where
  "text_tags = [u ''t'', u ''delText'', u ''instrText'', u ''tab'', u ''br'', u ''cr'']"

definition is_word_text :: "xml \<Rightarrow> bool" where
  "is_word_text e \<longleftrightarrow>
     (case split_xml_name (el_tag e) of
        (namespace, name) \<Rightarrow> namespace \<in> Some ` set word_namespaces \<and> name \<in> set text_tags)"

definition word_token :: "xml \<Rightarrow> str" where
  "word_token e =
     (if tag_name e = u ''tab'' then [9] else if tag_name e \<in> {u ''br'', u ''cr''} then [10] else text_of e)"

definition is_deleted :: "xml \<Rightarrow> xnode list \<Rightarrow> bool" where
  "is_deleted e up \<longleftrightarrow> tag_name e \<in> {u ''delText'', u ''instrText''} \<or> has_ancestor up [u ''del'', u ''moveFrom'']"

definition unit_scope :: "source_scope \<Rightarrow> bool \<Rightarrow> source_scope" where
  "unit_scope scope deleted = (if deleted \<or> scope = AUXILIARY then AUXILIARY else scope)"

fun gather_word ::
  "source_scope \<Rightarrow> (xnode \<times> xnode list) list \<Rightarrow> (nat list \<times> source_scope) groups \<Rightarrow> bool \<Rightarrow>
   (nat list \<times> source_scope) groups \<times> bool" where
  "gather_word scope [] groups revision_found = (groups, revision_found)"
| "gather_word scope ((node, up) # ns) groups revision_found =
     (if \<not> is_word_text (snd node) then gather_word scope ns groups revision_found
      else
        (case (nearest up (u ''r''), nearest up (u ''p'')) of
           (Some run, Some par) \<Rightarrow>
             let deleted = is_deleted (snd node) up in
             gather_word scope ns
               (add_token (fst run, unit_scope scope deleted) run par (word_token (snd node)) groups)
               (revision_found \<or> deleted \<or> has_ancestor up [u ''ins'', u ''moveTo''])
         | _ \<Rightarrow> gather_word scope ns groups revision_found))"

definition word_unit ::
  "package_env \<Rightarrow> style_catalog \<Rightarrow> str \<Rightarrow> nat list list \<Rightarrow> nat \<Rightarrow> nat \<Rightarrow> nat list \<times> source_scope \<Rightarrow> xnode \<Rightarrow> xnode \<Rightarrow> str \<Rightarrow>
   text_unit res" where
  "word_unit X C part paths group_index run_index key run par text =
     (let p_index = index_in (fst par) paths in
      bindR (effective_style X C (snd run) (snd par)) (\<lambda>style.
      Inr \<lparr>tu_id = part @ u '':p'' @ show_nat p_index @ u '':r'' @ show_nat run_index @ u '':'' @ show_nat group_index,
           tu_text = text,
           tu_location = no_location\<lparr>tl_part := Some part,
             tl_paragraph_id := Some (attr_or (snd par) (u ''paraId'') (show_nat p_index)),
             tl_run_index := Some (int run_index)\<rparr>,
           tu_style = style, tu_visibility = hidden_or_visible style, tu_source_scope = snd key\<rparr>))"

definition word_part :: "package_env \<Rightarrow> style_catalog \<Rightarrow> str \<Rightarrow> source_scope \<Rightarrow> (extract_state, nat) op" where
  "word_part X C part scope =
     bindE (on_package (parse_xml X part None)) (\<lambda>tree.
     let paths = paragraph_paths tree;
         (groups, revision_found) = gather_word scope (nodes tree) [] False
     in bindE (add_groups (word_unit X C part paths) (pk_limits X) 0 [] groups) (\<lambda>_.
        bindE (if revision_found
               then on_collector (add_artifact (pk_limits X)
                      (plain_artifact (u ''TRACKED_CHANGES'') (u ''Word revision markup is present.'') (Some part)))
               else retE ()) (\<lambda>_.
        retE (length paths))))"

section \<open>The document\<close>

definition docx_probe :: "package_env \<Rightarrow> staged_file \<Rightarrow> bytes option \<Rightarrow> unit res" where
  "docx_probe X f content =
     bindR (verify_staged_file (pk_env X) (pk_limits X) f content) (\<lambda>_.
     bindR (read_prefix content 8) (\<lambda>prefix.
     if prefix = cfb_magic then Inl EncryptedDocumentError
     else if take 4 prefix \<noteq> zip_magic then Inl FormatMismatchError
     else
       bindR (open_package X f content) (\<lambda>p.
       bindR (run_local (word_descriptor X) p) (\<lambda>_. Inr ()))))"

definition active_member :: "str \<Rightarrow> bool" where
  "active_member lower_name \<longleftrightarrow>
     suffixes_str (u ''vbaproject.bin'') lower_name \<or> prefixes_str (u ''word/activex/'') lower_name \<or>
     prefixes_str (u ''word/embeddings/'') lower_name"

definition lower_names :: "unicode_db \<Rightarrow> str list \<Rightarrow> (str \<times> str) list" where
  "lower_names U names = fold (\<lambda>n m. AList.update (lower U n) n m) names []"

definition flag_members :: "package_env \<Rightarrow> (extract_state, unit) op" where
  "flag_members X =
     bindE (readE (\<lambda>s. lower_names (pk_udb X) (member_names (xs_package s)))) (\<lambda>names.
     forE (\<lambda>(lower_name, original).
       if active_member lower_name
       then on_collector (add_artifact (pk_limits X)
              (plain_artifact (u ''ACTIVE_CONTENT'') (u ''DOCX contains macro, ActiveX, or embedded-object content.'') (Some original)))
       else retE ()) names)"

definition flag_relationship :: "package_env \<Rightarrow> xml \<Rightarrow> (extract_state, unit) op" where
  "flag_relationship X r =
     (let rel_type = lower (pk_udb X) (attr_or r (u ''Type'') []);
          mode = lower (pk_udb X) (attr_or r (u ''TargetMode'') []);
          target = attr r (u ''Target'')
      in if mode = u ''external'' \<and> target \<noteq> None \<and> target \<noteq> Some []
         then on_collector (add_artifact (pk_limits X)
                ((plain_artifact (if suffixes_str (u ''/hyperlink'') rel_type then u ''EXTERNAL_REFERENCE'' else u ''ACTIVE_CONTENT'')
                   (u ''DOCX contains an external package relationship.'') target)
                 \<lparr>ar_metadata := [(u ''relationship_type'', JStr rel_type)]\<rparr>))
         else if list_ex (\<lambda>marker. occurs_in marker rel_type) [u ''oleobject'', u ''/control'', u ''/package'']
         then on_collector (add_artifact (pk_limits X)
                (plain_artifact (u ''ACTIVE_CONTENT'') (u ''DOCX relationship references active or embedded content.'') target))
         else retE ())"

definition flag_relationships :: "package_env \<Rightarrow> (extract_state, unit) op" where
  "flag_relationships X =
     bindE (readE (\<lambda>s. filter (suffixes_str (u ''.rels'')) (member_names (xs_package s)))) (\<lambda>rels_parts.
     forE (\<lambda>rels_part.
       bindE (on_package (parse_xml X rels_part None)) (\<lambda>rels.
       forE (flag_relationship X) (descendants rels (u ''Relationship'')))) rels_parts)"

definition last_segment :: "str \<Rightarrow> str" where
  "last_segment name = rev (takeWhile (\<lambda>c. c \<noteq> 47) (rev name))"

definition is_auxiliary_part :: "str \<Rightarrow> bool" where
  "is_auxiliary_part name \<longleftrightarrow>
     prefixes_str (u ''word/'') name \<and> suffixes_str (u ''.xml'') name \<and>
     list_ex (\<lambda>marker. occurs_in marker (last_segment name))
       [u ''header'', u ''footer'', u ''footnotes'', u ''endnotes'', u ''comments'']"

definition docx_run :: "package_env \<Rightarrow> (extract_state, dict) op" where
  "docx_run X =
     bindE (on_package (word_descriptor X)) (\<lambda>(main_part, content_type).
     bindE (on_package (load_style_catalog X)) (\<lambda>styles.
     bindE (flag_members X) (\<lambda>_.
     bindE (if occurs_in (u ''macroenabled'') (lower (pk_udb X) content_type)
            then on_collector (add_artifact (pk_limits X)
                   (plain_artifact (u ''ACTIVE_CONTENT'') (u ''Word package is macro-enabled.'') None))
            else retE ()) (\<lambda>_.
     bindE (flag_relationships X) (\<lambda>_.
     bindE (word_part X styles main_part BODY) (\<lambda>paragraph_count.
     bindE (readE (\<lambda>s. filter is_auxiliary_part (member_names (xs_package s)))) (\<lambda>auxiliary_parts.
     bindE (forE (\<lambda>part. bindE (word_part X styles part AUXILIARY) (\<lambda>_. retE ())) auxiliary_parts) (\<lambda>_.
     retE
       [(u ''main_part'', JStr main_part), (u ''content_type'', JStr content_type),
        (u ''paragraph_count'', JInt (int paragraph_count)),
        (u ''auxiliary_parts'', JArr (map JStr auxiliary_parts)),
        (u ''style_count'', JInt (int (length (sc_definitions styles))))]))))))))"

definition docx_extract :: "package_env \<Rightarrow> staged_file \<Rightarrow> bytes option \<Rightarrow> str \<Rightarrow> document_snapshot res" where
  "docx_extract X f content document_id =
     bindR (docx_probe X f content) (\<lambda>_.
     bindR (open_package X f content) (\<lambda>p.
     bindR (run_local (docx_run X) \<lparr>xs_package = p, xs_collector = new_collector\<rparr>) (\<lambda>(metadata, s).
     build_snapshot (pk_env X) f document_id DOCX (u ''ooxml-style-security'') (u ''0.1.0'') (xs_collector s) metadata None)))"

section \<open>Inheritance\<close>

text \<open>
  The definitions a style is made of, the most special first: a chain ends at no name or at an unknown one.  A cycle has no
  chain.
\<close>

inductive style_chain :: "style_catalog \<Rightarrow> str option \<Rightarrow> style_definition list \<Rightarrow> bool" for C where
  none: "style_chain C None []"
| empty: "style_chain C (Some []) []"
| unknown: "s \<noteq> [] \<Longrightarrow> map_of (sc_definitions C) s = None \<Longrightarrow> style_chain C (Some s) []"
| known: "s \<noteq> [] \<Longrightarrow> map_of (sc_definitions C) s = Some d \<Longrightarrow> style_chain C (sd_based_on d) ds \<Longrightarrow>
    style_chain C (Some s) (d # ds)"

definition merged :: "style_definition list \<Rightarrow> style_props" where
  "merged ds = foldr (\<lambda>d base. update_props base (sd_properties d)) ds no_props"

inductive_simps style_chain_simps: "style_chain C None ds" "style_chain C (Some s) ds"

lemma style_chain_unique: "style_chain C style ds \<Longrightarrow> style_chain C style es \<Longrightarrow> ds = es"
proof (induction arbitrary: es rule: style_chain.induct)
  case (known s d ds)
  then obtain fs where "es = d # fs" "style_chain C (sd_based_on d) fs" by (auto simp: style_chain_simps(2)[of C s])
  with known.IH show ?case by simp
qed (auto simp: style_chain_simps)

lemma resolved_style_chain:
  "resolved_style C style visiting = Inr p \<Longrightarrow> \<exists>ds. style_chain C style ds \<and> p = merged ds"
proof (induction C style visiting arbitrary: p rule: resolved_style.induct)
  case (1 C style visiting)
  note run = 1(2)[unfolded resolved_style.simps[of C style visiting]]
  show ?case
  proof (cases style)
    case None
    with run show ?thesis by (auto simp: merged_def style_chain_simps)
  next
    case (Some s)
    note st = Some
    show ?thesis
    proof (cases "s = [] \<or> map_of (sc_definitions C) s = None")
      case True
      with run st show ?thesis by (auto simp: merged_def style_chain_simps split: if_splits)
    next
      case False
      then obtain d where d: "map_of (sc_definitions C) s = Some d" and ne: "s \<noteq> []" by auto
      with run st obtain base where new: "s \<notin> set visiting"
        and base: "resolved_style C (sd_based_on d) (s # visiting) = Inr base" "p = update_props base (sd_properties d)"
        by (auto simp: bindR_Inr_iff split: if_splits)
      from 1(1)[OF st ne new d base(1)] obtain ds where "style_chain C (sd_based_on d) ds" "base = merged ds" by blast
      with base(2) st d ne have "style_chain C style (d # ds)" "p = merged (d # ds)"
        by (auto simp: merged_def intro: style_chain.known)
      then show ?thesis by blast
    qed
  qed
qed

lemma style_chain_resolved:
  "style_chain C style ds \<Longrightarrow> (\<And>v es. v \<in> set visiting \<Longrightarrow> style_chain C (Some v) es \<Longrightarrow> length ds < length es) \<Longrightarrow>
   resolved_style C style visiting = Inr (merged ds)"
proof (induction arbitrary: visiting rule: style_chain.induct)
  case (known s d ds)
  have chain: "style_chain C (Some s) (d # ds)" by (rule style_chain.known[OF known.hyps])
  have "resolved_style C (sd_based_on d) (s # visiting) = Inr (merged ds)"
  proof (rule known.IH)
    fix v es
    assume "v \<in> set (s # visiting)" "style_chain C (Some v) es"
    then show "length ds < length es"
      using known.prems[of v es] style_chain_unique[OF chain, of es] by auto
  qed
  moreover have "s \<notin> set visiting" using known.prems chain by blast
  ultimately show ?case
    using known.hyps by (simp add: resolved_style.simps[of C "Some s" visiting] bindR_def merged_def)
next
  case (unknown s)
  have "style_chain C (Some s) []" by (rule style_chain.unknown[OF unknown.hyps])
  then have "s \<notin> set visiting" using unknown.prems by fastforce
  then show ?case using unknown.hyps by (simp add: resolved_style.simps[of C "Some s" visiting] merged_def)
qed (simp_all add: resolved_style.simps merged_def)

lemma resolved_style_error: "resolved_style C style visiting = Inl e \<Longrightarrow> e = MalformedDocumentError"
proof (induction C style visiting rule: resolved_style.induct)
  case (1 C style visiting)
  from 1(2) show ?case
    unfolding resolved_style.simps[of C style visiting] bindR_def
    by (auto dest: 1(1) split: option.split_asm if_split_asm sum.split_asm)
qed


section \<open>Gathering\<close>

text \<open>What the document means by the text of a run: the text elements below it, in order, that lie in a paragraph; deleted
  text and field code are set aside as auxiliary.\<close>

definition token_key :: "source_scope \<Rightarrow> xnode \<times> xnode list \<Rightarrow> (nat list \<times> source_scope) option" where
  "token_key scope n =
     (case n of (node, up) \<Rightarrow>
        if is_word_text (snd node) \<and> nearest up (u ''p'') \<noteq> None
        then map_option (\<lambda>run. (fst run, unit_scope scope (is_deleted (snd node) up))) (nearest up (u ''r''))
        else None)"

interpretation word: token_gathering "\<lambda>ns gs result. \<exists>b. result = fst (gather_word scope ns gs b)" "token_key scope"
    "\<lambda>n. word_token (snd (fst n))" for scope
proof unfold_locales
  fix n ns gs result k
  assume run: "\<exists>b. result = fst (gather_word scope (n # ns) gs b)"
  {
    assume "token_key scope n = None"
    then show "\<exists>b. result = fst (gather_word scope ns gs b)"
      using run by (cases n) (fastforce simp: token_key_def split: if_splits option.splits)
  next
    assume "token_key scope n = Some k"
    then show "\<exists>run par b. result = fst (gather_word scope ns (add_token k run par (word_token (snd (fst n))) gs) b)"
      using run by (cases n) (fastforce simp: token_key_def Let_def split: if_splits option.splits)
  }
qed auto

text \<open>Gathering a Word part loses and reorders no text: each run has one group per scope, and the tokens of the group are
  the texts, tabs and breaks of that run in document order.\<close>

lemma word_text_complete:
  "group_tokens (fst (gather_word scope ns [] revision_found)) key =
     tokens_of (token_key scope) (\<lambda>n. word_token (snd (fst n))) ns key \<and>
   distinct (map fst (fst (gather_word scope ns [] revision_found)))"
  by (rule word.complete) blast

section \<open>What the extractor promises\<close>

lemma word_descriptor_budget: "yields (within_budget X) (\<lambda>_. True) (word_descriptor X)"
  unfolding word_descriptor_def Let_def
  by (intro yields_bind[OF yields_read[where P = "\<lambda>_. True"]] yields_if yields_raise yields_ret
      yields_bind[OF parse_xml_budget] yields_bind[OF yields_lift[where P = "\<lambda>_. True"]] TrueI)

lemma load_style_catalog_budget: "yields (within_budget X) (\<lambda>_. True) (load_style_catalog X)"
  unfolding load_style_catalog_def Let_def
  by (intro yields_bind[OF yields_read[where P = "\<lambda>_. True"]] yields_option yields_ret
      yields_bind[OF parse_xml_budget] yields_lift TrueI)

lemma flag_members_sound: "yields (sound_state X Q) (\<lambda>_. True) (flag_members X)"
  unfolding flag_members_def
  by (intro yields_bind[OF yields_read[where P = "\<lambda>_. True"]] yields_for TrueI)
    (auto intro: yields_add_artifact yields_ret split: prod.splits)

lemma flag_relationships_sound: "yields (sound_state X Q) (\<lambda>_. True) (flag_relationships X)"
  unfolding flag_relationships_def flag_relationship_def Let_def
  by (intro yields_bind[OF yields_read[where P = "\<lambda>_. True"]] yields_for yields_bind[OF yields_parse] yields_if
      yields_add_artifact yields_ret TrueI)

lemma word_unit_marked: "word_unit X C part paths g r key run par text = Inr t \<Longrightarrow> marked t"
  by (auto simp: word_unit_def bindR_Inr_iff Let_def marked_def hidden_or_visible_def split: if_splits)

lemma word_part_sound: "yields (sound_state X marked) (\<lambda>_. True) (word_part X C part scope)"
  unfolding word_part_def Let_def case_prod_beta
  by (intro yields_bind[OF yields_parse] yields_bind[OF add_groups_sound]
      yields_bind[OF yields_if[OF yields_add_artifact yields_ret]] yields_ret TrueI) (erule word_unit_marked)

lemma docx_run_sound: "yields (sound_state X marked) (\<lambda>_. True) (docx_run X)"
  unfolding docx_run_def case_prod_beta
  by (intro yields_bind[OF yields_package[OF word_descriptor_budget]] yields_bind[OF yields_package[OF load_style_catalog_budget]]
      yields_bind[OF flag_members_sound] yields_bind[OF yields_if[OF yields_add_artifact yields_ret]]
      yields_bind[OF flag_relationships_sound] yields_bind[OF word_part_sound]
      yields_bind[OF yields_read[where P = "\<lambda>_. True"]] yields_bind[OF yields_for] yields_ret TrueI)

lemma docx_returns:
  assumes "docx_extract X f content d = Inr s"
  shows "sound_snapshot (pk_limits X) f d s \<and> list_all marked (ds_units s) \<and> ds_format s = DOCX \<and>
    ds_text s = compose_visible_body (ds_units s)"
proof -
  from assms obtain p metadata t where p: "open_package X f content = Inr p"
    and run: "docx_run X \<lparr>xs_package = p, xs_collector = new_collector\<rparr> = (Inr metadata, t)"
    and b: "build_snapshot (pk_env X) f d DOCX (u ''ooxml-style-security'') (u ''0.1.0'') (xs_collector t) metadata None = Inr s"
    by (auto simp: docx_extract_def bindR_Inr_iff run_local_Inr_iff)
  from yieldsD[OF docx_run_sound empty_state_sound[OF p] run] have "sound_state X marked t" by simp
  with b show ?thesis
    using build_snapshot_sound[of "pk_limits X" "xs_collector t"] build_snapshot_returns[OF b] by (auto simp: sound_state_def collected_all_def)
qed

end
