(* ===== verification/Hwpx.thy ===== *)
theory Hwpx
  imports XmlTree
begin

text \<open>
  The HWPX extractor (\<^verbatim>\<open>src/indexguard/extractors/hwpx.py\<close>): the package descriptor (manifest and spine), character
  styles, the sections in spine order, active content, encryption and the auxiliary parts.
\<close>

section \<open>The package descriptor\<close>

definition hwpx_mimetype :: bytes where
  "hwpx_mimetype = u ''application/hwp+zip''"

definition hwpml_prefix :: str where
  "hwpml_prefix = u ''http://www.hancom.co.kr/hwpml/''"

text \<open>\<^verbatim>\<open>bytes.strip()\<close>.\<close>

definition is_byte_space :: "nat \<Rightarrow> bool" where
  "is_byte_space b \<longleftrightarrow> b = 32 \<or> 9 \<le> b \<and> b \<le> 13"

definition bytes_strip :: "bytes \<Rightarrow> bytes" where
  "bytes_strip bs = rev (dropWhile is_byte_space (rev (dropWhile is_byte_space bs)))"

type_synonym manifest = "(str \<times> str \<times> str) list"

definition content_hpf :: str where
  "content_hpf = u ''Contents/content.hpf''"

definition header_xml :: str where
  "header_xml = u ''Contents/header.xml''"

definition manifest_target :: "package_env \<Rightarrow> zip_package \<Rightarrow> str \<Rightarrow> str res" where
  "manifest_target X p href =
     bindR (resolve_target X (Some content_hpf) href) (\<lambda>target.
     bindR (if has_member p target then Inr target
            else bindR (resolve_target X None href) (\<lambda>root_target.
                 Inr (if has_member p root_target then root_target else target))) (\<lambda>chosen.
     if has_member p chosen then Inr chosen else Inl MalformedDocumentError))"

fun load_manifest :: "package_env \<Rightarrow> zip_package \<Rightarrow> xml list \<Rightarrow> manifest \<Rightarrow> manifest res" where
  "load_manifest X p [] manifest = Inr manifest"
| "load_manifest X p (item # items) manifest =
     (let item_id = attr_or item (u ''id'') []; href = attr_or item (u ''href'') [];
          media_type = attr_or item (u ''media-type'') []
      in if item_id \<noteq> [] \<and> href \<noteq> []
         then bindR (manifest_target X p href) (\<lambda>target.
              load_manifest X p items (AList.update item_id (target, media_type) manifest))
         else load_manifest X p items manifest)"

fun spine_sections :: "manifest \<Rightarrow> xml list \<Rightarrow> str list res" where
  "spine_sections manifest [] = Inr []"
| "spine_sections manifest (itemref # itemrefs) =
     (let item_id = attr_or itemref (u ''idref'') [] in
      case (if item_id = [] then None else map_of manifest item_id) of
        None \<Rightarrow> Inl MalformedDocumentError
      | Some (target, media_type) \<Rightarrow> bindR (spine_sections manifest itemrefs) (\<lambda>sections. Inr (target # sections)))"

definition hwpx_descriptor :: "package_env \<Rightarrow> (zip_package, str list \<times> manifest) op" where
  "hwpx_descriptor X =
     bindE (readE (\<lambda>p. list_all (has_member p) [u ''mimetype'', content_hpf, header_xml])) (\<lambda>present.
     if \<not> present then raiseE FormatMismatchError
     else
     bindE (read_member X (u ''mimetype'') (Some 128)) (\<lambda>mimetype.
     if bytes_strip mimetype \<noteq> hwpx_mimetype then raiseE FormatMismatchError
     else
     bindE (parse_xml X content_hpf None) (\<lambda>content.
     bindE (readE (\<lambda>p. load_manifest X p (descendants content (u ''item'')) [])) (\<lambda>loaded.
     bindE (liftE loaded) (\<lambda>manifest.
     bindE (liftE (spine_sections manifest (descendants content (u ''itemref'')))) (\<lambda>sections.
     if sections = [] then raiseE MalformedDocumentError else retE (sections, manifest)))))))"

section \<open>Character styles\<close>

definition character_style :: "package_env \<Rightarrow> xml \<Rightarrow> str \<Rightarrow> text_style" where
  "character_style X e style_id =
     (let color = normalize_color_hex (pk_udb X) (attr e (u ''textColor''));
          size = (case attr e (u ''height'') of None \<Rightarrow> None | Some h \<Rightarrow> pk_float_ratio X h 100);
          explicit_hidden = list_ex (\<lambda>key. lower (pk_udb X) (attr_or e key []) \<in> {u ''1'', u ''true'', u ''on''})
            [u ''hidden'', u ''invisible''];
          hidden = (explicit_hidden \<or> is_near_white_hex (pk_udb X) color \<or>
            (case size of None \<Rightarrow> False | Some x \<Rightarrow> pk_at_most_one X x))
      in default_text_style\<lparr>ts_color_hex := color, ts_font_size_pt := size, ts_hidden := Some hidden, ts_style_ref := Some style_id\<rparr>)"

fun character_styles :: "package_env \<Rightarrow> xml list \<Rightarrow> (str \<times> text_style) list \<Rightarrow> (str \<times> text_style) list" where
  "character_styles X [] styles = styles"
| "character_styles X (e # es) styles =
     (case attr e (u ''id'') of
        None \<Rightarrow> character_styles X es styles
      | Some style_id \<Rightarrow> character_styles X es (AList.update style_id (character_style X e style_id) styles))"

section \<open>A section\<close>

definition is_hwp_text :: "xml \<Rightarrow> bool" where
  "is_hwp_text e \<longleftrightarrow>
     (case split_xml_name (el_tag e) of
        (Some namespace, name) \<Rightarrow> prefixes_str hwpml_prefix namespace \<and> name \<in> {u ''t'', u ''lineBreak'', u ''tab''}
      | (None, name) \<Rightarrow> False)"

definition hwp_token :: "xml \<Rightarrow> str" where
  "hwp_token e =
     (if tag_name e = u ''t'' then text_of e
      else if tag_name e = u ''lineBreak'' then 10 # tail_of e
      else 9 # tail_of e)"

fun gather_hwp :: "(xnode \<times> xnode list) list \<Rightarrow> nat list groups \<Rightarrow> nat list groups" where
  "gather_hwp [] groups = groups"
| "gather_hwp ((node, up) # ns) groups =
     (if \<not> is_hwp_text (snd node) then gather_hwp ns groups
      else
        (case (nearest up (u ''run''), nearest up (u ''p'')) of
           (Some run, Some par) \<Rightarrow> gather_hwp ns (add_token (fst run) run par (hwp_token (snd node)) groups)
         | _ \<Rightarrow> gather_hwp ns groups))"

definition run_style :: "(str \<times> text_style) list \<Rightarrow> xml \<Rightarrow> text_style" where
  "run_style styles run =
     (let style_ref = attr run (u ''charPrIDRef'') in
      case map_of styles (case style_ref of None \<Rightarrow> [] | Some r \<Rightarrow> r) of
        None \<Rightarrow> default_text_style\<lparr>ts_style_ref := style_ref\<rparr>
      | Some style \<Rightarrow> style)"

definition hwp_unit ::
  "(str \<times> text_style) list \<Rightarrow> str \<Rightarrow> nat \<Rightarrow> nat list list \<Rightarrow> nat \<Rightarrow> nat \<Rightarrow> nat list \<Rightarrow> xnode \<Rightarrow> xnode \<Rightarrow> str \<Rightarrow> text_unit res" where
  "hwp_unit styles part section_index paths group_index run_index key run par text =
     (let p_index = index_in (fst par) paths;
          paragraph_id = attr_or (snd par) (u ''id'') (show_nat p_index);
          style = run_style styles (snd run)
      in Inr \<lparr>tu_id = u ''section'' @ show_nat section_index @ u '':p'' @ paragraph_id @ u '':r'' @ show_nat run_index @ u '':'' @
                show_nat group_index,
              tu_text = text,
              tu_location = no_location\<lparr>tl_section := Some (int section_index), tl_paragraph_id := Some paragraph_id,
                tl_run_index := Some (int run_index), tl_part := Some part\<rparr>,
              tu_style = style, tu_visibility = hidden_or_visible style, tu_source_scope = BODY\<rparr>)"

definition hwp_section :: "package_env \<Rightarrow> (str \<times> text_style) list \<Rightarrow> str \<Rightarrow> nat \<Rightarrow> (extract_state, nat) op" where
  "hwp_section X styles part section_index =
     bindE (on_package (parse_xml X part None)) (\<lambda>tree.
     let paths = paragraph_paths tree in
     bindE (add_groups (hwp_unit styles part section_index paths) (pk_limits X) 0 [] (gather_hwp (nodes tree) [])) (\<lambda>_.
     retE (length paths)))"

fun hwp_sections ::
  "package_env \<Rightarrow> (str \<times> text_style) list \<Rightarrow> nat \<Rightarrow> str list \<Rightarrow> nat \<Rightarrow> (extract_state, nat) op" where
  "hwp_sections X styles section_index [] paragraph_count = retE paragraph_count"
| "hwp_sections X styles section_index (part # parts) paragraph_count =
     bindE (hwp_section X styles part section_index) (\<lambda>n.
     hwp_sections X styles (Suc section_index) parts (paragraph_count + n))"

section \<open>The document\<close>

definition hwpx_probe :: "package_env \<Rightarrow> staged_file \<Rightarrow> bytes option \<Rightarrow> unit res" where
  "hwpx_probe X f content =
     bindR (verify_staged_file (pk_env X) (pk_limits X) f content) (\<lambda>_.
     bindR (read_prefix content 4) (\<lambda>prefix.
     if prefix \<noteq> zip_magic then Inl FormatMismatchError
     else
       bindR (open_package X f content) (\<lambda>p.
       bindR (run_local (hwpx_descriptor X) p) (\<lambda>_. Inr ()))))"

definition image_suffixes :: "str list" where
  "image_suffixes = [u ''.png'', u ''.jpg'', u ''.jpeg'', u ''.gif'', u ''.bmp'', u ''.webp'']"

definition declares_encryption :: "unicode_db \<Rightarrow> xml \<Rightarrow> bool" where
  "declares_encryption U tree \<longleftrightarrow> list_ex (\<lambda>e. occurs_in (u ''encrypt'') (lower U (tag_name e))) (iter tree)"

definition check_member :: "package_env \<Rightarrow> str \<Rightarrow> (extract_state, unit) op" where
  "check_member X name =
     (let lower_name = lower (pk_udb X) name in
      bindE (if prefixes_str (u ''meta-inf/'') lower_name \<and> suffixes_str (u ''.xml'') lower_name
             then bindE (on_package (parse_xml X name None)) (\<lambda>tree.
                  if declares_encryption (pk_udb X) tree then raiseE EncryptedDocumentError else retE ())
             else retE ()) (\<lambda>_.
      bindE (if prefixes_str (u ''scripts/'') lower_name
             then bindE (readE (\<lambda>s. member_info (xs_package s) name)) (\<lambda>info.
                  bindE (liftE info) (\<lambda>i.
                  if zi_file_size i \<noteq> 0
                  then on_collector (add_artifact (pk_limits X)
                         (plain_artifact (u ''ACTIVE_CONTENT'') (u ''HWPX contains a non-empty script payload.'') (Some name)))
                  else retE ()))
             else retE ()) (\<lambda>_.
      if prefixes_str (u ''bindata/'') lower_name \<and> \<not> list_ex (\<lambda>x. suffixes_str x lower_name) image_suffixes
      then on_collector (add_artifact (pk_limits X)
             (plain_artifact (u ''ACTIVE_CONTENT'') (u ''HWPX contains OLE or an unscannable binary object.'') (Some name)))
      else retE ())))"

definition is_auxiliary_text :: "xml \<Rightarrow> bool" where
  "is_auxiliary_text e \<longleftrightarrow> tag_name e \<in> {u ''t'', u ''title'', u ''description''} \<and> strip (text_of e) \<noteq> []"

definition auxiliary_unit :: "str \<Rightarrow> str list \<Rightarrow> text_unit" where
  "auxiliary_unit part texts =
     \<lparr>tu_id = u ''aux:'' @ part, tu_text = join [10] texts, tu_location = no_location\<lparr>tl_part := Some part\<rparr>,
      tu_style = default_text_style, tu_visibility = VISIBLE, tu_source_scope = AUXILIARY\<rparr>"

fun hwp_auxiliary :: "package_env \<Rightarrow> str list \<Rightarrow> str list \<Rightarrow> str list \<Rightarrow> (extract_state, str list) op" where
  "hwp_auxiliary X excluded [] auxiliary_parts = retE auxiliary_parts"
| "hwp_auxiliary X excluded (part # parts) auxiliary_parts =
     (if part \<in> set excluded \<or> \<not> suffixes_str (u ''.xml'') (lower (pk_udb X) part) \<or> prefixes_str (u ''Scripts/'') part
      then hwp_auxiliary X excluded parts auxiliary_parts
      else
        bindE (on_package (parse_xml X part None)) (\<lambda>tree.
        let texts = map text_of (filter is_auxiliary_text (iter tree)) in
        if texts = [] then hwp_auxiliary X excluded parts auxiliary_parts
        else
          bindE (on_collector (add_unit (pk_limits X) (auxiliary_unit part texts))) (\<lambda>_.
          hwp_auxiliary X excluded parts (auxiliary_parts @ [part]))))"

definition hwpx_run :: "package_env \<Rightarrow> (extract_state, dict) op" where
  "hwpx_run X =
     bindE (on_package (hwpx_descriptor X)) (\<lambda>(sections, manifest).
     bindE (readE (\<lambda>s. member_names (xs_package s))) (\<lambda>names.
     bindE (forE (check_member X) names) (\<lambda>_.
     bindE (on_package (parse_xml X header_xml None)) (\<lambda>header.
     let styles = character_styles X (descendants header (u ''charPr'')) [] in
     bindE (hwp_sections X styles 0 sections 0) (\<lambda>paragraph_count.
     bindE (hwp_auxiliary X (sections @ [header_xml, content_hpf]) (map (fst \<circ> snd) manifest) []) (\<lambda>auxiliary_parts.
     retE
       [(u ''sections'', JArr (map JStr sections)), (u ''paragraph_count'', JInt (int paragraph_count)),
        (u ''char_style_count'', JInt (int (length styles))), (u ''auxiliary_parts'', JArr (map JStr auxiliary_parts)),
        (u ''loader'', JObj [(u ''name'', JStr (u ''owpml-spine'')), (u ''status'', JStr (u ''used'')),
                           (u ''detail'', JStr (u ''direct_hwpx_xml_extraction''))])]))))))"

definition hwpx_extract :: "package_env \<Rightarrow> staged_file \<Rightarrow> bytes option \<Rightarrow> str \<Rightarrow> document_snapshot res" where
  "hwpx_extract X f content document_id =
     bindR (hwpx_probe X f content) (\<lambda>_.
     bindR (open_package X f content) (\<lambda>p.
     bindR (run_local (hwpx_run X) \<lparr>xs_package = p, xs_collector = new_collector\<rparr>) (\<lambda>(metadata, s).
     build_snapshot (pk_env X) f document_id HWPX (u ''owpml-spine-security'') (u ''0.1.0'') (xs_collector s) metadata None)))"

section \<open>Gathering\<close>

definition hwp_key :: "xnode \<times> xnode list \<Rightarrow> nat list option" where
  "hwp_key n =
     (case n of (node, up) \<Rightarrow>
        if is_hwp_text (snd node) \<and> nearest up (u ''p'') \<noteq> None then map_option fst (nearest up (u ''run'')) else None)"

interpretation hwp: token_gathering "\<lambda>ns gs result. result = gather_hwp ns gs" hwp_key "\<lambda>n. hwp_token (snd (fst n))"
proof unfold_locales
  fix n ns gs result k
  assume run: "result = gather_hwp (n # ns) gs"
  {
    assume "hwp_key n = None"
    then show "result = gather_hwp ns gs"
      using run by (cases n) (auto simp: hwp_key_def split: if_splits option.splits)
  next
    assume "hwp_key n = Some k"
    then show "\<exists>run par. result = gather_hwp ns (add_token k run par (hwp_token (snd (fst n))) gs)"
      using run by (cases n) (fastforce simp: hwp_key_def split: if_splits option.splits)
  }
qed auto

lemma hwp_text_complete:
  "group_tokens (gather_hwp ns []) key = tokens_of hwp_key (\<lambda>n. hwp_token (snd (fst n))) ns key \<and>
   distinct (map fst (gather_hwp ns []))"
  by (rule hwp.complete) (rule refl)

text \<open>Text behind an inline element of a text element, other than a tab or a line break, belongs to no token.\<close>

definition hp_tag :: "str \<Rightarrow> str" where
  "hp_tag name = 123 # hwpml_prefix @ 125 # name"

definition inline_section :: "str \<Rightarrow> str \<Rightarrow> str \<Rightarrow> xml" where
  "inline_section name shown behind =
     Elem (hp_tag (u ''sec'')) [] None None [Elem (hp_tag (u ''p'')) [] None None [Elem (hp_tag (u ''run'')) [] None None
       [Elem (hp_tag (u ''t'')) [] (Some shown) None [Elem (hp_tag name) [] None (Some behind) []]]]]"

text \<open>Text of an HWPX paragraph can be lost: in a text element with a non-breaking space, a highlight mark or the start of a
  tracked insertion, what follows the inline element is in no gathered run, while behind a tab it is kept.\<close>

lemma inline_tail_dropped:
  "map (\<lambda>name. map (\<lambda>(k, r, p, tokens). concat tokens) (gather_hwp (nodes (inline_section name shown behind)) []))
     [u ''nbSpace'', u ''markpenBegin'', u ''insertBegin'', u ''tab''] = [[shown], [shown], [shown], [shown @ 9 # behind]]"
proof -
  have tags: "split_xml_name (hp_tag name) = (Some hwpml_prefix, name)" for name
    by (simp add: split_xml_name_def hp_tag_def prefixes_str_def hwpml_prefix_def u_def)
  show ?thesis
    by (simp add: nodes_def inline_section_def is_hwp_text_def hwp_token_def tag_name_def local_name_def tags nearest_def
        text_of_def tail_of_def prefixes_str_def u_def)
qed

section \<open>What the extractor promises\<close>

lemma hwpx_descriptor_budget: "yields (within_budget X) (\<lambda>r. fst r \<noteq> []) (hwpx_descriptor X)"
  unfolding hwpx_descriptor_def Let_def
  by (intro yields_bind[OF yields_read[where P = "\<lambda>_. True"]] yields_if yields_raise yields_ret
      yields_bind[OF parse_xml_budget] yields_bind[OF read_member_budget] yields_bind[OF yields_lift[where P = "\<lambda>_. True"]] TrueI) simp

lemma check_member_sound: "yields (sound_state X Q) (\<lambda>_. True) (check_member X name)"
  unfolding check_member_def Let_def
  by (intro yields_bind[where P = "\<lambda>_. True"] yields_read yields_if yields_raise yields_ret yields_parse yields_lift
      yields_add_artifact TrueI)

lemma hwp_unit_marked: "hwp_unit styles part i paths g r key run par text = Inr t \<Longrightarrow> marked t"
  by (auto simp: hwp_unit_def Let_def marked_def hidden_or_visible_def split: if_splits)

lemma hwp_sections_sound: "yields (sound_state X marked) (\<lambda>_. True) (hwp_sections X styles i parts n)"
proof (induction parts arbitrary: i n)
  case (Cons part parts)
  have "yields (sound_state X marked) (\<lambda>_. True) (hwp_section X styles part i)"
    unfolding hwp_section_def Let_def
    by (intro yields_bind[OF yields_parse] yields_bind[OF add_groups_sound] yields_ret TrueI) (erule hwp_unit_marked)
  then show ?case by (simp add: yields_bind[OF _ Cons.IH])
qed (simp add: yields_ret)

lemma hwp_auxiliary_sound: "yields (sound_state X marked) (\<lambda>_. True) (hwp_auxiliary X excluded parts done_parts)"
proof (induction parts arbitrary: done_parts)
  case (Cons part parts)
  have "marked (auxiliary_unit part texts)" for texts by (simp add: marked_def auxiliary_unit_def default_text_style_def)
  then show ?case
    unfolding hwp_auxiliary.simps Let_def
    by (intro yields_if Cons.IH yields_bind[OF yields_parse] yields_bind[OF yields_add_unit])
qed (simp add: yields_ret)

lemma hwpx_run_sound: "yields (sound_state X marked) (\<lambda>_. True) (hwpx_run X)"
  unfolding hwpx_run_def case_prod_beta Let_def
  by (intro yields_bind[OF yields_package[OF hwpx_descriptor_budget]] yields_bind[OF yields_read[where P = "\<lambda>_. True"]]
      yields_bind[OF yields_for[OF check_member_sound]] yields_bind[OF yields_parse] yields_bind[OF hwp_sections_sound]
      yields_bind[OF hwp_auxiliary_sound] yields_ret TrueI)

lemma hwpx_returns:
  assumes "hwpx_extract X f content d = Inr s"
  shows "sound_snapshot (pk_limits X) f d s \<and> list_all marked (ds_units s) \<and> ds_format s = HWPX \<and>
    ds_text s = compose_visible_body (ds_units s)"
proof -
  from assms obtain p metadata t where p: "open_package X f content = Inr p"
    and run: "hwpx_run X \<lparr>xs_package = p, xs_collector = new_collector\<rparr> = (Inr metadata, t)"
    and b: "build_snapshot (pk_env X) f d HWPX (u ''owpml-spine-security'') (u ''0.1.0'') (xs_collector t) metadata None = Inr s"
    by (auto simp: hwpx_extract_def bindR_Inr_iff run_local_Inr_iff)
  from yieldsD[OF hwpx_run_sound empty_state_sound[OF p] run] have "sound_state X marked t" by simp
  with b show ?thesis
    using build_snapshot_sound[of "pk_limits X" "xs_collector t"] build_snapshot_returns[OF b] by (auto simp: sound_state_def collected_all_def)
qed

end
