(* ===== verification/Pdf.thy ===== *)
theory Pdf
  imports ExtractorBase
begin

text \<open>
  The PDF extractor (\<^verbatim>\<open>src/indexguard/extractors/pdf.py\<close>) and its optional layout normaliser
  (\<^verbatim>\<open>extractors/opendataloader_pdf.py\<close>): spans, the evidence that text is hidden, the check that the layout body does not
  bring hidden text back, and the fallback to the visible units.  The parsed PDF, the converter's run and floating-point
  arithmetic are parameters; a page is loaded with everything the extractor asks of it.
\<close>

section \<open>The reader's environment\<close>

record float_ops =
  fo_le :: "float_text \<Rightarrow> float_text \<Rightarrow> bool"
  fo_lt :: "float_text \<Rightarrow> float_text \<Rightarrow> bool"
  fo_sub :: "float_text \<Rightarrow> float_text \<Rightarrow> float_text"
  fo_mul :: "float_text \<Rightarrow> float_text \<Rightarrow> float_text"
  fo_div :: "float_text \<Rightarrow> float_text \<Rightarrow> float_text"
  fo_round :: "float_text \<Rightarrow> int"

record pdf_span =
  ps_text :: str
  ps_bbox :: bbox
  ps_color :: "int option"
  ps_size :: float_text
  ps_alpha :: "float_text option"

record pdf_trace =
  tr_type :: int
  tr_opacity :: "float_text option"
  tr_chars :: "nat list"
  tr_bbox :: bbox
  tr_seqno :: "int option"
  tr_color :: "float_text list option"
  tr_size :: float_text

record pdf_drawing =
  dr_seqno :: "int option"
  dr_filled :: bool
  dr_opacity :: "float_text option"
  dr_rect :: "bbox option"

record pdf_page =
  pp_rect :: bbox
  pp_blocks :: "(int \<times> pdf_span list list) list"
  pp_drawings :: "pdf_drawing list"
  pp_traces :: "pdf_trace list"
  pp_has_images :: bool

record pdf_document =
  pd_needs_pass :: bool
  pd_is_encrypted :: bool
  pd_page_count :: int
  pd_xref_length :: int
  pd_xref_keys :: "nat \<Rightarrow> str list res"
  pd_embedded_names :: "str list"
  pd_load_page :: "nat \<Rightarrow> pdf_page res"

text \<open>The converter's run: an exception by name, or an exit status with the Markdown files written.\<close>

datatype odl_outcome = Odl_Raised str | Odl_Exited int "str list"

record pdf_env =
  pe_env :: env
  pe_limits :: extraction_limits
  pe_floats :: float_ops
  pe_open :: "bytes \<Rightarrow> pdf_document res"
  pe_java_found :: bool
  pe_package_found :: bool
  pe_convert :: "bytes \<Rightarrow> odl_outcome"

section \<open>Numbers and boxes\<close>

definition hex_padded :: "nat \<Rightarrow> nat \<Rightarrow> str" where
  "hex_padded width n = (let h = hex_digits n in replicate (width - length h) 48 @ h)"

definition color_hex :: "int option \<Rightarrow> str option" where
  "color_hex v = (case v of None \<Rightarrow> None | Some n \<Rightarrow> Some (35 # hex_padded 6 (nat (n mod 0x1000000))))"

definition opacity_of :: "float_ops \<Rightarrow> float_text option \<Rightarrow> float_text option" where
  "opacity_of F v =
     (case v of None \<Rightarrow> None | Some x \<Rightarrow> Some (if fo_lt F (u ''1.0'') x then fo_div F x (u ''255.0'') else x))"

definition trace_color :: "float_ops \<Rightarrow> float_text list option \<Rightarrow> str option" where
  "trace_color F v =
     (case v of
        None \<Rightarrow> None
      | Some [] \<Rightarrow> None
      | Some (c # cs) \<Rightarrow>
          let channels = (if cs = [] then [c, c, c] else c # cs) in
          if length channels < 3 then None
          else Some (35 # concat (map (\<lambda>x. hex_padded 2 (nat (max 0 (min 255 (fo_round F (fo_mul F x (u ''255.0'')))))))
                 (take 3 channels))))"

text \<open>Python's \<^verbatim>\<open>max(a, b)\<close> and \<^verbatim>\<open>min(a, b)\<close>: the first argument unless the second is strictly beyond it.\<close>

definition fmax :: "float_ops \<Rightarrow> float_text \<Rightarrow> float_text \<Rightarrow> float_text" where
  "fmax F a b = (if fo_lt F a b then b else a)"

definition fmin :: "float_ops \<Rightarrow> float_text \<Rightarrow> float_text \<Rightarrow> float_text" where
  "fmin F a b = (if fo_lt F b a then b else a)"

fun bbox_overlaps :: "float_ops \<Rightarrow> bbox \<Rightarrow> bbox \<Rightarrow> bool" where
  "bbox_overlaps F (l0, l1, l2, l3) (r0, r1, r2, r3) \<longleftrightarrow>
     \<not> (fo_le F l2 r0 \<or> fo_le F r2 l0 \<or> fo_le F l3 r1 \<or> fo_le F r3 l1)"

fun covered_fraction :: "float_ops \<Rightarrow> bbox \<Rightarrow> bbox \<Rightarrow> float_text" where
  "covered_fraction F (t0, t1, t2, t3) (c0, c1, c2, c3) =
     (let width = fmax F (u ''0.0'') (fo_sub F t2 t0);
          height = fmax F (u ''0.0'') (fo_sub F t3 t1);
          area = fo_mul F width height
      in if fo_le F area (u ''0'') then u ''0.0''
         else
           let intersection_width = fmax F (u ''0.0'') (fo_sub F (fmin F t2 c2) (fmax F t0 c0));
               intersection_height = fmax F (u ''0.0'') (fo_sub F (fmin F t3 c3) (fmax F t1 c1))
           in fo_div F (fo_mul F intersection_width intersection_height) area)"

definition opaque_cover :: "float_ops \<Rightarrow> pdf_drawing \<Rightarrow> (int \<times> bbox) option" where
  "opaque_cover F d =
     (case (dr_seqno d, opacity_of F (dr_opacity d), dr_rect d) of
        (Some sequence, Some opacity, Some rectangle) \<Rightarrow>
          if \<not> dr_filled d \<or> fo_lt F opacity (u ''0.95'') then None else Some (sequence, rectangle)
      | _ \<Rightarrow> None)"

section \<open>A page\<close>

definition pdf_span_unit :: "pdf_env \<Rightarrow> bbox \<Rightarrow> nat \<Rightarrow> nat \<Rightarrow> nat \<times> nat \<times> pdf_span \<Rightarrow> text_unit" where
  "pdf_span_unit V page_rect page_index span_number b =
     (case b of (block_index, line_index, sp) \<Rightarrow>
        let F = pe_floats V;
            color = color_hex (ps_color sp);
            opacity = opacity_of F (ps_alpha sp);
            hidden = (is_near_white_hex (en_udb (pe_env V)) color \<or> fo_le F (ps_size sp) (u ''1.0'') \<or>
              (case opacity of None \<Rightarrow> False | Some x \<Rightarrow> fo_le F x (u ''0.05'')) \<or>
              \<not> bbox_overlaps F (ps_bbox sp) page_rect)
        in \<lparr>tu_id = u ''page'' @ show_nat (Suc page_index) @ u '':span'' @ show_nat span_number, tu_text = ps_text sp,
            tu_location = no_location\<lparr>tl_page := Some (int (Suc page_index)),
              tl_paragraph_id := Some (u ''block'' @ show_nat block_index @ u '':line'' @ show_nat line_index),
              tl_run_index := Some (int span_number), tl_bbox := Some (ps_bbox sp)\<rparr>,
            tu_style = default_text_style\<lparr>ts_color_hex := color, ts_font_size_pt := Some (ps_size sp), ts_opacity := opacity,
              ts_hidden := Some hidden\<rparr>,
            tu_visibility = (if hidden then HIDDEN_SUSPECTED else VISIBLE), tu_source_scope = BODY\<rparr>)"

definition page_spans :: "pdf_page \<Rightarrow> (nat \<times> nat \<times> pdf_span) list" where
  "page_spans p =
     filter (\<lambda>(b, l, sp). ps_text sp \<noteq> [])
       (concat (map (\<lambda>(block_index, kind, lines).
          if kind \<noteq> 0 then []
          else concat (map (\<lambda>(line_index, spans). map (\<lambda>sp. (block_index, line_index, sp)) spans) (enumerate 0 lines)))
        (enumerate 0 (pp_blocks p))))"

definition page_units :: "pdf_env \<Rightarrow> nat \<Rightarrow> pdf_page \<Rightarrow> text_unit list" where
  "page_units V page_index p =
     map (\<lambda>(span_number, b). pdf_span_unit V (pp_rect p) page_index span_number b) (enumerate 0 (page_spans p))"

text \<open>\<^verbatim>\<open>"".join(text.split())\<close>.\<close>

definition squeeze :: "str \<Rightarrow> str" where
  "squeeze text = concat (split_ws text)"

definition trace_text :: "pdf_trace \<Rightarrow> str res" where
  "trace_text t =
     (let chars = filter (\<lambda>c. c \<noteq> 0) (tr_chars t)
      in if list_ex (\<lambda>c. 0x10FFFF < c) chars then Inl ValueError else Inr chars)"

definition trace_covered :: "float_ops \<Rightarrow> (int \<times> bbox) list \<Rightarrow> pdf_trace \<Rightarrow> bool" where
  "trace_covered F covers t =
     (case tr_seqno t of
        None \<Rightarrow> False
      | Some sequence \<Rightarrow>
          list_ex (\<lambda>(cover_sequence, cover_bbox). sequence < cover_sequence \<and>
            fo_le F (u ''0.8'') (covered_fraction F (tr_bbox t) cover_bbox)) covers)"

definition trace_hides :: "float_ops \<Rightarrow> (int \<times> bbox) list \<Rightarrow> pdf_trace \<Rightarrow> bool" where
  "trace_hides F covers t \<longleftrightarrow>
     tr_type t = 3 \<or> (case opacity_of F (tr_opacity t) of None \<Rightarrow> False | Some x \<Rightarrow> fo_le F x (u ''0.05'')) \<or>
     trace_covered F covers t"

definition same_text :: "str \<Rightarrow> text_unit \<Rightarrow> bool" where
  "same_text text t \<longleftrightarrow> squeeze (tu_text t) = squeeze text"

definition half_covered :: "float_ops \<Rightarrow> bbox \<Rightarrow> text_unit \<Rightarrow> bool" where
  "half_covered F box t =
     (case tl_bbox (tu_location t) of
        None \<Rightarrow> False
      | Some b \<Rightarrow> fo_le F (u ''0.5'') (covered_fraction F b box) \<or> fo_le F (u ''0.5'') (covered_fraction F box b))"

definition overlaps_unit :: "float_ops \<Rightarrow> bbox \<Rightarrow> text_unit \<Rightarrow> bool" where
  "overlaps_unit F box t = (case tl_bbox (tu_location t) of None \<Rightarrow> False | Some b \<Rightarrow> bbox_overlaps F b box)"

text \<open>The units of the page a hiding trace speaks of: those with its text, else those it half covers, that it overlaps.\<close>

definition trace_selects :: "float_ops \<Rightarrow> text_unit list \<Rightarrow> str \<Rightarrow> bbox \<Rightarrow> text_unit \<Rightarrow> bool" where
  "trace_selects F units text box t \<longleftrightarrow>
     (if list_ex (same_text text) units then same_text text t else half_covered F box t) \<and> overlaps_unit F box t"

definition hide_unit :: "int \<Rightarrow> float_text option \<Rightarrow> text_unit \<Rightarrow> text_unit" where
  "hide_unit render_mode opacity t =
     t\<lparr>tu_visibility := HIDDEN_SUSPECTED,
       tu_style := (tu_style t)\<lparr>ts_hidden := Some True, ts_render_mode := Some render_mode, ts_opacity := opacity\<rparr>\<rparr>"

definition trace_unit :: "float_ops \<Rightarrow> nat \<Rightarrow> nat \<Rightarrow> pdf_trace \<Rightarrow> str \<Rightarrow> text_unit" where
  "trace_unit F page_index trace_index t text =
     \<lparr>tu_id = u ''page'' @ show_nat (Suc page_index) @ u '':trace'' @ show_nat trace_index, tu_text = text,
      tu_location = no_location\<lparr>tl_page := Some (int (Suc page_index)), tl_bbox := Some (tr_bbox t)\<rparr>,
      tu_style = default_text_style\<lparr>ts_color_hex := trace_color F (tr_color t), ts_font_size_pt := Some (tr_size t),
        ts_opacity := opacity_of F (tr_opacity t), ts_render_mode := Some (tr_type t), ts_hidden := Some True\<rparr>,
      tu_visibility = HIDDEN_SUSPECTED, tu_source_scope = BODY\<rparr>"

fun scan_traces ::
  "pdf_env \<Rightarrow> nat \<Rightarrow> (int \<times> bbox) list \<Rightarrow> nat \<Rightarrow> pdf_trace list \<Rightarrow> text_unit list \<Rightarrow> (extraction_collector, text_unit list) op" where
  "scan_traces V page_index covers trace_index [] units = retE units"
| "scan_traces V page_index covers trace_index (t # ts) units =
     bindE (liftE (trace_text t)) (\<lambda>text.
     if text = [] \<or> \<not> trace_hides (pe_floats V) covers t then scan_traces V page_index covers (Suc trace_index) ts units
     else
       let F = pe_floats V;
           selects = trace_selects F units text (tr_bbox t);
           marked_units = map (\<lambda>x. if selects x then hide_unit (tr_type t) (opacity_of F (tr_opacity t)) x else x) units
       in bindE (if list_ex selects units then retE () else add_unit (pe_limits V) (trace_unit F page_index trace_index t text)) (\<lambda>_.
          scan_traces V page_index covers (Suc trace_index) ts marked_units))"

definition scan_page :: "pdf_env \<Rightarrow> pdf_document \<Rightarrow> nat \<Rightarrow> (extraction_collector, unit) op" where
  "scan_page V D page_index =
     bindE (liftE (pd_load_page D page_index)) (\<lambda>p.
     let units = page_units V page_index p;
         covers = map the (filter (\<lambda>c. c \<noteq> None) (map (opaque_cover (pe_floats V)) (pp_drawings p)))
     in bindE (scan_traces V page_index covers 0 (pp_traces p) units) (\<lambda>marked_units.
        bindE (forE (add_unit (pe_limits V)) marked_units) (\<lambda>_.
        if units = [] \<and> pp_has_images p
        then add_artifact (pe_limits V)
               \<lparr>ar_type = u ''UNSCANNABLE_CONTENT'', ar_reason = u ''PDF page contains images but no extractable text.'',
                ar_path = None, ar_location = Some (no_location\<lparr>tl_page := Some (int (Suc page_index))\<rparr>), ar_metadata = []\<rparr>
        else retE ())))"

section \<open>The document\<close>

definition pdf_magic :: bytes where
  "pdf_magic = u ''%PDF-''"

definition pdf_probe :: "pdf_env \<Rightarrow> staged_file \<Rightarrow> bytes option \<Rightarrow> unit res" where
  "pdf_probe V f content =
     bindR (verify_staged_file (pe_env V) (pe_limits V) f content) (\<lambda>_.
     bindR (read_prefix content (length pdf_magic)) (\<lambda>prefix.
     if prefix \<noteq> pdf_magic then Inl FormatMismatchError else Inr ()))"

definition active_keys :: "str list" where
  "active_keys = [u ''JS'', u ''JavaScript'', u ''OpenAction'', u ''AA'', u ''Launch'', u ''RichMedia'']"

definition active_content :: "str \<Rightarrow> str \<Rightarrow> dict \<Rightarrow> artifact" where
  "active_content reason path metadata =
     \<lparr>ar_type = u ''ACTIVE_CONTENT'', ar_reason = reason, ar_path = Some path, ar_location = None, ar_metadata = metadata\<rparr>"

definition flag_xref :: "pdf_env \<Rightarrow> pdf_document \<Rightarrow> nat \<Rightarrow> (extraction_collector, unit) op" where
  "flag_xref V D xref =
     (case pd_xref_keys D xref of
        Inl e \<Rightarrow> if e = RuntimeError then retE () else raiseE e
      | Inr keys \<Rightarrow>
          let found = filter (\<lambda>k. k \<in> set keys) active_keys in
          if found = [] then retE ()
          else add_artifact (pe_limits V)
                 (active_content (u ''PDF contains an action or executable-content dictionary.'') (u ''xref:'' @ show_nat xref)
                    [(u ''keys'', JArr (map JStr (sort found)))]))"

record odl_result =
  or_text :: "str option"
  or_status :: str
  or_detail :: "str option"

definition layout_failed :: "str \<Rightarrow> str \<Rightarrow> odl_result" where
  "layout_failed status detail = \<lparr>or_text = None, or_status = status, or_detail = Some detail\<rparr>"

definition normalize_pdf_with_opendataloader :: "pdf_env \<Rightarrow> bytes \<Rightarrow> odl_result res" where
  "normalize_pdf_with_opendataloader V data =
     (if \<not> pe_java_found V then Inr (layout_failed (u ''unavailable'') (u ''java_not_found''))
      else if \<not> pe_package_found V then Inr (layout_failed (u ''unavailable'') (u ''package_not_installed''))
      else
        (case pe_convert V data of
           Odl_Raised name \<Rightarrow> Inr (layout_failed (u ''failed'') name)
         | Odl_Exited returncode markdown_files \<Rightarrow>
             if returncode \<noteq> 0 then Inr (layout_failed (u ''failed'') (u ''opendataloader_conversion_failed''))
             else if markdown_files = [] then Inr (layout_failed (u ''failed'') (u ''markdown_output_missing''))
             else
               let raw_markdown = join [10] markdown_files in
               if lm_max_text_chars (pe_limits V) < length raw_markdown then Inl MalformedDocumentError
               else
                 let text = normalize_body_text (en_udb (pe_env V)) raw_markdown in
                 if text = [] then Inr (layout_failed (u ''failed'') (u ''empty_markdown_output''))
                 else Inr \<lparr>or_text = Some text, or_status = u ''used'', or_detail = None\<rparr>))"

definition contains_hidden_text :: "str \<Rightarrow> text_unit list \<Rightarrow> bool" where
  "contains_hidden_text visible_body units =
     list_ex (\<lambda>t. tu_visibility t = HIDDEN_SUSPECTED \<and> strip (tu_text t) \<noteq> [] \<and>
       occurs_in (squeeze (tu_text t)) (squeeze visible_body)) units"

definition pdf_scan :: "pdf_env \<Rightarrow> pdf_document \<Rightarrow> (extraction_collector, unit) op" where
  "pdf_scan V D =
     (if pd_needs_pass D \<or> pd_is_encrypted D then raiseE EncryptedDocumentError
      else if pd_page_count D < 1 \<or> int (lm_max_pdf_pages (pe_limits V)) < pd_page_count D then raiseE MalformedDocumentError
      else if int (lm_max_pdf_xrefs (pe_limits V)) < pd_xref_length D then raiseE MalformedDocumentError
      else
        bindE (forE (flag_xref V D) [1..<nat (pd_xref_length D)]) (\<lambda>_.
        bindE (forE (\<lambda>name. add_artifact (pe_limits V) (active_content (u ''PDF contains an embedded file.'') name []))
          (pd_embedded_names D)) (\<lambda>_.
        forE (scan_page V D) [0..<nat (pd_page_count D)])))"

definition pdf_snapshot ::
  "pdf_env \<Rightarrow> staged_file \<Rightarrow> str \<Rightarrow> pdf_document \<Rightarrow> odl_result \<Rightarrow> extraction_collector \<Rightarrow> document_snapshot res" where
  "pdf_snapshot V f document_id D layout c =
     (let rejected = (case or_text layout of None \<Rightarrow> False | Some text \<Rightarrow> contains_hidden_text text (ec_units c));
          override = (if rejected then None else or_text layout);
          status = (if rejected then u ''rejected'' else or_status layout);
          detail = (if rejected then Some (u ''contains_hidden_text_evidence'') else or_detail layout)
      in build_snapshot (pe_env V) f document_id PDF
           (if status = u ''used'' then u ''opendataloader-pdf-layout+pymupdf-security'' else u ''pymupdf-security-fallback'')
           (u ''0.1.0'') c
           [(u ''page_count'', JInt (pd_page_count D)), (u ''xref_count'', JInt (pd_xref_length D)),
            (u ''opendataloader'', JObj [(u ''status'', JStr status), (u ''detail'', d_opt JStr detail)])] override)"

definition is_value_error :: "err \<Rightarrow> bool" where
  "is_value_error e \<longleftrightarrow> e \<in> {ValueError, ValidationError, OtherError (u ''UnicodeError'')}"

definition pdf_extract :: "pdf_env \<Rightarrow> staged_file \<Rightarrow> bytes option \<Rightarrow> str \<Rightarrow> document_snapshot res" where
  "pdf_extract V f content document_id =
     bindR (pdf_probe V f content) (\<lambda>_.
     bindR (read_staged_bytes (pe_env V) (pe_limits V) f content) (\<lambda>data.
     bindR (translate_errors
              (\<lambda>e. if e = RuntimeError \<or> is_value_error e \<or> e = OtherError (u ''FileDataError'') then MalformedDocumentError else e)
              (pe_open V data)) (\<lambda>D.
     translate_errors (\<lambda>e. if e = RuntimeError \<or> is_value_error e \<or> e = TypeError then MalformedDocumentError else e)
       (bindR (run_local (pdf_scan V D) new_collector) (\<lambda>(_, c).
        bindR (normalize_pdf_with_opendataloader V data) (\<lambda>layout.
        pdf_snapshot V f document_id D layout c))))))"

section \<open>What the extractor promises\<close>

lemma pdf_span_unit_marked: "marked (pdf_span_unit V page_rect page_index n b)"
  by (auto simp: pdf_span_unit_def marked_def Let_def split: prod.splits)

lemma hide_unit_marked: "marked (hide_unit m opacity t)"
  by (simp add: hide_unit_def marked_def)

lemma page_units_marked: "list_all marked (page_units V page_index p)"
  by (auto simp: page_units_def list_all_iff pdf_span_unit_marked)

lemma scan_traces_sound:
  "list_all marked us \<Longrightarrow>
   yields (collected_all (pe_limits V) marked) (list_all marked) (scan_traces V page_index covers i ts us)"
proof (induction ts arbitrary: us i)
  case (Cons t ts)
  have unit: "marked (trace_unit F page_index i t x)" for F x by (simp add: trace_unit_def marked_def)
  have hidden: "list_all marked (map (\<lambda>x. if P x then hide_unit m opacity x else x) us)" for P m opacity
    using Cons.prems by (auto simp: list_all_iff hide_unit_marked)
  show ?case
    unfolding scan_traces.simps Let_def
    by (intro yields_bind[OF yields_lift[where P = "\<lambda>_. True"]] yields_if Cons.IH Cons.prems hidden
        yields_bind[OF yields_if[OF yields_ret add_unit_all]] unit TrueI)
qed (simp add: yields_ret)

lemma forE_units_sound:
  "list_all Q us \<Longrightarrow> yields (collected_all L Q) (\<lambda>_. True) (forE (add_unit L) us)"
  by (rule yields_for) (auto intro: add_unit_all simp: list_all_iff)

lemma scan_page_sound: "yields (collected_all (pe_limits V) marked) (\<lambda>_. True) (scan_page V D i)"
  unfolding scan_page_def Let_def
  by (intro yields_bind[OF yields_lift[where P = "\<lambda>_. True"]] yields_bind[OF scan_traces_sound[OF page_units_marked]]
      yields_bind[OF forE_units_sound] yields_if add_artifact_all yields_ret TrueI)

lemma flag_xref_sound: "yields (collected_all (pe_limits V) Q) (\<lambda>_. True) (flag_xref V D xref)"
  by (auto simp: flag_xref_def Let_def intro: add_artifact_all yields_ret yields_raise split: sum.splits)

lemma pdf_scan_sound: "yields (collected_all (pe_limits V) marked) (\<lambda>_. True) (pdf_scan V D)"
  unfolding pdf_scan_def
  by (intro yields_if yields_raise yields_bind[OF yields_for[OF flag_xref_sound]]
      yields_bind[OF yields_for[OF add_artifact_all]] yields_for scan_page_sound)

lemma pdf_returns:
  assumes "pdf_extract V f content d = Inr s"
  shows "sound_snapshot (pe_limits V) f d s \<and> list_all marked (ds_units s) \<and> ds_format s = PDF \<and>
    (ds_text s = compose_visible_body (ds_units s) \<or> \<not> contains_hidden_text (ds_text s) (ds_units s))"
proof -
  from assms obtain D c layout where run: "pdf_scan V D new_collector = (Inr (), c)"
    and b: "pdf_snapshot V f d D layout c = Inr s"
    by (auto simp: pdf_extract_def bindR_Inr_iff run_local_Inr_iff)
  from yieldsD[OF pdf_scan_sound new_collector_all run] have c: "collected_all (pe_limits V) marked c" by simp
  note b' = b[unfolded pdf_snapshot_def Let_def]
  note r = build_snapshot_returns[OF b']
  from c have "sound_snapshot (pe_limits V) f d s" using b' by (auto simp: collected_all_def intro: build_snapshot_sound)
  with r(3,5,8) c show ?thesis by (auto simp: collected_all_def split: option.splits if_splits)
qed

end
