(* ===== verification/Registry.thy ===== *)
theory Registry
  imports Docx Hwpx Pdf RiskEngine "HOL-Library.Code_Target_Nat" "HOL-Library.Code_Target_Int"
begin

text \<open>
  Format detection and dispatch (\<^verbatim>\<open>src/indexguard/extractors/registry.py\<close>), the contract every extractor keeps, and what it
  means for the risk engine.
\<close>

section \<open>The contract of an extractor\<close>

locale sound_extractor =
  fixes extracts :: "staged_file \<Rightarrow> bytes option \<Rightarrow> str \<Rightarrow> document_snapshot res"
    and limits :: extraction_limits
    and format :: document_format
  assumes contract: "extracts f content d = Inr s \<Longrightarrow>
    sound_snapshot limits f d s \<and> list_all marked (ds_units s) \<and> ds_format s = format"
begin

lemma bounded:
  "extracts f content d = Inr s \<Longrightarrow>
   sum_list (map (\<lambda>t. length (tu_text t)) (ds_units s)) \<le> lm_max_text_chars limits \<and>
   length (ds_artifacts s) \<le> lm_max_artifacts limits"
  using contract by (simp add: sound_snapshot_def)

lemma names: "extracts f content d = Inr s \<Longrightarrow> ds_document_id s = d \<and> ds_sha256 s = sf_sha256 f"
  using contract by (simp add: sound_snapshot_def)

lemma hidden_evidence:
  assumes "extracts f content d = Inr s" "t \<in> set (ds_units s)" "ts_hidden (tu_style t) = Some True" "strip (tu_text t) \<noteq> []"
  shows "tu_visibility t = HIDDEN_SUSPECTED" "list_ex (\<lambda>a. ar_type a = u ''HIDDEN_TEXT'') (ds_artifacts s)"
proof -
  from contract[OF assms(1)] assms(2) have "marked t" "evidenced (ds_artifacts s) t"
    by (auto simp: sound_snapshot_def list_all_iff)
  with assms(3,4) show "tu_visibility t = HIDDEN_SUSPECTED" "list_ex (\<lambda>a. ar_type a = u ''HIDDEN_TEXT'') (ds_artifacts s)"
    by (auto simp: marked_def evidenced_def)
qed

end

interpretation markdown: sound_extractor "markdown_extract E L" L MARKDOWN for E L
  by unfold_locales (rule markdown_sound)

interpretation docx: sound_extractor "docx_extract X" "pk_limits X" DOCX for X
  by unfold_locales (use docx_returns in blast)

interpretation hwpx: sound_extractor "hwpx_extract X" "pk_limits X" HWPX for X
  by unfold_locales (use hwpx_returns in blast)

interpretation pdf: sound_extractor "pdf_extract V" "pe_limits V" PDF for V
  by unfold_locales (use pdf_returns in blast)

section \<open>The registry\<close>

record registry =
  rg_package :: package_env
  rg_pdf :: pdf_env

definition rg_env :: "registry \<Rightarrow> env" where
  "rg_env R = pk_env (rg_package R)"

definition rg_limits :: "registry \<Rightarrow> extraction_limits" where
  "rg_limits R = pk_limits (rg_package R)"

definition pdf_reader :: "registry \<Rightarrow> pdf_env" where
  "pdf_reader R = (rg_pdf R)\<lparr>pe_env := rg_env R, pe_limits := rg_limits R\<rparr>"

definition extractor_by_suffix :: "str \<Rightarrow> document_format option" where
  "extractor_by_suffix ext =
     (if ext = u ''.pdf'' then Some PDF
      else if ext = u ''.docx'' then Some DOCX
      else if ext = u ''.hwpx'' then Some HWPX
      else if ext \<in> {u ''.md'', u ''.markdown''} then Some MARKDOWN
      else None)"

fun probe_format :: "registry \<Rightarrow> document_format \<Rightarrow> staged_file \<Rightarrow> bytes option \<Rightarrow> unit res" where
  "probe_format R PDF f content = pdf_probe (pdf_reader R) f content"
| "probe_format R DOCX f content = docx_probe (rg_package R) f content"
| "probe_format R HWPX f content = hwpx_probe (rg_package R) f content"
| "probe_format R MARKDOWN f content = markdown_probe (rg_env R) (rg_limits R) f content"

fun extract_format :: "registry \<Rightarrow> document_format \<Rightarrow> staged_file \<Rightarrow> bytes option \<Rightarrow> str \<Rightarrow> document_snapshot res" where
  "extract_format R PDF f content d = pdf_extract (pdf_reader R) f content d"
| "extract_format R DOCX f content d = docx_extract (rg_package R) f content d"
| "extract_format R HWPX f content d = hwpx_extract (rg_package R) f content d"
| "extract_format R MARKDOWN f content d = markdown_extract (rg_env R) (rg_limits R) f content d"

definition detect_format :: "registry \<Rightarrow> staged_file \<Rightarrow> bytes option \<Rightarrow> document_format res" where
  "detect_format R f content =
     (let ext = staged_suffix (en_udb (rg_env R)) f in
      if ext = u ''.hwp'' then Inl UnsupportedLegacyHwpError
      else
        (case extractor_by_suffix ext of
           None \<Rightarrow> Inl UnsupportedFormatError
         | Some format \<Rightarrow> bindR (probe_format R format f content) (\<lambda>_. Inr format)))"

definition extract_document :: "registry \<Rightarrow> staged_file \<Rightarrow> bytes option \<Rightarrow> str \<Rightarrow> document_snapshot res" where
  "extract_document R f content document_id =
     bindR (detect_format R f content) (\<lambda>format. extract_format R format f content document_id)"

interpretation dispatch: sound_extractor "extract_format R format" "rg_limits R" format for R format
proof unfold_locales
  fix f content d s
  assume "extract_format R format f content d = Inr s"
  then show "sound_snapshot (rg_limits R) f d s \<and> list_all marked (ds_units s) \<and> ds_format s = format"
    using pdf.contract[of "pdf_reader R" f content d s] docx.contract[of "rg_package R" f content d s]
      hwpx.contract[of "rg_package R" f content d s] markdown.contract[of "rg_env R" "rg_limits R" f content d s]
    by (cases format) (simp_all add: rg_limits_def pdf_reader_def)
qed

lemma extract_document_format:
  "extract_document R f content d = Inr s \<Longrightarrow>
   \<exists>format. extractor_by_suffix (staged_suffix (en_udb (rg_env R)) f) = Some format \<and> extract_format R format f content d = Inr s"
  by (auto simp: extract_document_def detect_format_def Let_def bindR_Inr_iff split: if_splits option.splits)

section \<open>Runs of a Word part\<close>

lemma add_token_origin:
  "\<forall>(k, r, p, tokens) \<in> set gs. origin k r p \<Longrightarrow> origin key run par \<Longrightarrow>
   \<forall>(k, r, p, tokens) \<in> set (add_token key run par token gs). origin k r p"
  by (induction key run par token gs rule: add_token.induct) auto

text \<open>An element of the walk that belongs to a group of the part, with the run and the paragraph it stands in.\<close>

definition word_origin ::
  "source_scope \<Rightarrow> (xnode \<times> xnode list) list \<Rightarrow> nat list \<times> source_scope \<Rightarrow> xnode \<Rightarrow> xnode \<Rightarrow> bool" where
  "word_origin scope ns key run par \<longleftrightarrow>
     list_ex (\<lambda>n. token_key scope n = Some key \<and> nearest (snd n) (u ''r'') = Some run \<and> nearest (snd n) (u ''p'') = Some par) ns"

lemma gather_word_origin:
  assumes "\<forall>(k, r, p, tokens) \<in> set gs. word_origin scope all_nodes k r p" "set ns \<subseteq> set all_nodes"
  shows "\<forall>(k, r, p, tokens) \<in> set (fst (gather_word scope ns gs b)). word_origin scope all_nodes k r p"
  using assms
proof (induction ns arbitrary: gs b)
  case (Cons n ns)
  obtain node up where n: "n = (node, up)" by (cases n)
  show ?case
  proof (cases "is_word_text (snd node) \<and> nearest up (u ''r'') \<noteq> None \<and> nearest up (u ''p'') \<noteq> None")
    case True
    then obtain run par where w: "is_word_text (snd node)" "nearest up (u ''r'') = Some run" "nearest up (u ''p'') = Some par" by auto
    let ?k = "(fst run, unit_scope scope (is_deleted (snd node) up))"
    have "word_origin scope all_nodes ?k run par"
      using w n Cons.prems(2) by (auto simp: word_origin_def token_key_def list_ex_iff intro!: bexI[of _ n])
    note o = add_token_origin[OF Cons.prems(1) this, of "word_token (snd node)"]
    have "gather_word scope (n # ns) gs b = gather_word scope ns (add_token ?k run par (word_token (snd node)) gs)
        (b \<or> is_deleted (snd node) up \<or> has_ancestor up [u ''ins'', u ''moveTo''])"
      using w unfolding n by (simp add: Let_def)
    then show ?thesis using Cons.IH[OF o] Cons.prems(2) by simp
  next
    case False
    then have "gather_word scope (n # ns) gs b = gather_word scope ns gs b" unfolding n by (auto split: option.splits)
    with Cons show ?thesis by simp
  qed
qed simp

lemma add_groups_units:
  assumes "add_groups unit_of L g counters gs s = (Inr v, t)"
  shows "set (ec_units (xs_collector s)) \<subseteq> set (ec_units (xs_collector t)) \<and>
    (\<forall>(key, run, par, tokens) \<in> set gs. strip (concat tokens) \<noteq> [] \<longrightarrow>
       (\<exists>g r x. unit_of g r key run par (concat tokens) = Inr x \<and> (tu_text x \<noteq> [] \<longrightarrow> x \<in> set (ec_units (xs_collector t)))))"
  using assms
proof (induction gs arbitrary: g counters s)
  case (Cons h gs)
  obtain key run par tokens where h: "h = (key, run, par, tokens)" by (cases h) auto
  show ?case
  proof (cases "strip (concat tokens) = []")
    case True
    with Cons h show ?thesis by fastforce
  next
    case False
    with Cons.prems obtain r x s1 counters' where x: "unit_of g r key run par (concat tokens) = Inr x"
      and a: "on_collector (add_unit L x) s = (Inr (), s1)"
      and rest: "add_groups unit_of L (Suc g) counters' gs s1 = (Inr v, t)"
      unfolding h by (auto simp: Let_def bindE_Inr_iff eq_commute[of "Inr _" "unit_of _ _ _ _ _ _"])
    from a obtain c where "add_unit L x (xs_collector s) = (Inr (), c)" "s1 = s\<lparr>xs_collector := c\<rparr>"
      by (auto simp: on_collector_def onE_run)
    then have "set (ec_units (xs_collector s1)) = set (ec_units (xs_collector s)) \<union> (if tu_text x = [] then {} else {x})"
      by (auto dest: add_unit_units)
    with Cons.IH[OF rest] x show ?thesis unfolding h by (auto split: if_splits)
  qed
qed simp

lemma group_tokens_in: "group_tokens gs key \<noteq> [] \<Longrightarrow> \<exists>run par. (key, run, par, group_tokens gs key) \<in> set gs"
proof -
  assume ne: "group_tokens gs key \<noteq> []"
  then obtain run par tokens where "map_of gs key = Some (run, par, tokens)"
    by (auto simp: group_tokens_def split: option.splits)
  with map_of_SomeD[OF this] have "(key, run, par, group_tokens gs key) \<in> set gs" by (simp add: group_tokens_def)
  then show ?thesis by blast
qed

text \<open>C38: Every run of a Word part reaches the collector: when a part is extracted, each run with text in a paragraph is a unit
  whose text is the run's tokens in order, whose style is the run's effective style, which is marked as suspected hidden
  exactly when that style hides, and which is auxiliary when it is deleted text or the part is.\<close>

theorem word_run_extracted:
  assumes "word_part X C part scope s = (Inr n, t)" "parse_xml X part None (xs_package s) = (Inr tree, p)"
    and "node \<in> set (nodes tree)" "token_key scope node = Some key"
    and "strip (concat (tokens_of (token_key scope) (\<lambda>m. word_token (snd (fst m))) (nodes tree) key)) \<noteq> []"
  shows "\<exists>run par style x. word_origin scope (nodes tree) key run par \<and>
    effective_style X C (snd run) (snd par) = Inr style \<and> x \<in> set (ec_units (xs_collector t)) \<and>
    tu_text x = concat (tokens_of (token_key scope) (\<lambda>m. word_token (snd (fst m))) (nodes tree) key) \<and>
    tu_style x = style \<and> tu_visibility x = hidden_or_visible style \<and> tu_source_scope x = snd key"
proof -
  define gs where "gs = fst (gather_word scope (nodes tree) [] False)"
  let ?tokens = "tokens_of (token_key scope) (\<lambda>m. word_token (snd (fst m))) (nodes tree) key"
  have "group_tokens gs key = ?tokens" unfolding gs_def by (rule word.complete[THEN conjunct1]) blast
  moreover have "?tokens \<noteq> []" using assms(5) by auto
  ultimately obtain run par where g: "(key, run, par, ?tokens) \<in> set gs" using group_tokens_in by metis
  have "\<forall>(k, r, q, tokens) \<in> set gs. word_origin scope (nodes tree) k r q"
    unfolding gs_def by (rule gather_word_origin) simp_all
  with g have o: "word_origin scope (nodes tree) key run par" by auto
  from assms(1,2) obtain t1 where run_groups:
    "add_groups (word_unit X C part (paragraph_paths tree)) (pk_limits X) 0 [] gs (s\<lparr>xs_package := p\<rparr>) = (Inr (), t1)"
    and last: "ec_units (xs_collector t) = ec_units (xs_collector t1)"
    by (auto simp: word_part_def gs_def bindE_Inr_iff Let_def case_prod_beta on_package_def on_collector_def onE_run
        dest: add_artifact_units split: if_splits)
  from add_groups_units[OF run_groups] g assms(5) obtain i r x where
    x: "word_unit X C part (paragraph_paths tree) i r key run par (concat ?tokens) = Inr x"
    and kept: "tu_text x \<noteq> [] \<longrightarrow> x \<in> set (ec_units (xs_collector t1))"
    by fastforce
  from x obtain style where style: "effective_style X C (snd run) (snd par) = Inr style"
    "tu_text x = concat ?tokens" "tu_style x = style" "tu_visibility x = hidden_or_visible style" "tu_source_scope x = snd key"
    by (auto simp: word_unit_def Let_def bindR_Inr_iff)
  have "concat ?tokens \<noteq> []" using assms(5) by (metis strip_Nil)
  with kept style(2) last have "x \<in> set (ec_units (xs_collector t))" by simp
  with o style show ?thesis by blast
qed

section \<open>What a snapshot promises\<close>


lemma hidden_candidate_answer:
  assumes "extract_document R f content d = Inr (pa_candidate p)"
    and "list_ex (\<lambda>t. ts_hidden (tu_style t) = Some True) (ds_units (pa_candidate p))"
    and "engine_analyzer U judge name (build_request E p rid now) = Inr b"
  shows "po_decision (sb_policy b) = BLOCK \<and> po_index_action (sb_policy b) = QUARANTINE \<and> 70 \<le> po_risk_score (sb_policy b)"
proof (rule dangerous_answer[OF assms(3)])
  from extract_document_format[OF assms(1)] dispatch.contract have "list_all marked (ds_units (pa_candidate p))" by blast
  with assms(2) have "hidden_units (build_request E p rid now) \<noteq> []"
    by (auto simp: hidden_units_def build_request_def list_ex_iff list_all_iff marked_def filter_empty_conv)
  then show "hidden_units (build_request E p rid now) \<noteq> [] \<or>
      (\<exists>a\<in>set (rq_candidate_artifacts (build_request E p rid now)). upper U (ar_type a) \<in> set hard_block_artifact_types) \<or>
      (\<exists>c\<in>set (prompt_candidates (build_request E p rid now)). contains_prompt_injection U (fst c))" by simp
qed

text \<open>C15: Hidden text cannot be indexed unseen: when the candidate of an analysis was extracted from a document with a hidden
  unit, the engine's answer to the request the gateway builds is BLOCK and QUARANTINE, whatever the judge says.\<close>

theorem hidden_text_quarantined:
  assumes "extract_document R f content d = Inr (pa_candidate p)"
    and "list_ex (\<lambda>t. ts_hidden (tu_style t) = Some True) (ds_units (pa_candidate p))"
    and "engine_analyzer U judge name (build_request E p rid now) = Inr b"
  shows "po_decision (sb_policy b) = BLOCK \<and> po_index_action (sb_policy b) = QUARANTINE \<and> 70 \<le> po_risk_score (sb_policy b)"
  using assms by (rule hidden_candidate_answer)

text \<open>The layout body of a PDF brings no hidden text back: the text of an extracted PDF is either the visible body of its
  units or a layout body in which, white space aside, the text of no unit suspected of being hidden occurs.\<close>

lemma pdf_body_hides_hidden_text:
  assumes "extract_document R f content d = Inr s" "ds_format s = PDF"
  shows "ds_text s = compose_visible_body (ds_units s) \<or> \<not> contains_hidden_text (ds_text s) (ds_units s)"
proof -
  from extract_document_format[OF assms(1)] obtain format where x: "extract_format R format f content d = Inr s" by blast
  with dispatch.contract assms(2) have "format = PDF" by blast
  with x show ?thesis using pdf_returns by auto
qed

section \<open>Concrete documents\<close>

definition w_tag :: "str \<Rightarrow> str" where
  "w_tag name = 123 # hd word_namespaces @ 125 # name"

definition leaf :: "str \<Rightarrow> str option \<Rightarrow> xml" where
  "leaf name body = Elem (w_tag name) [] body None []"

definition inner :: "str \<Rightarrow> xml list \<Rightarrow> xml" where
  "inner name children = Elem (w_tag name) [] None None children"

definition sample_document :: xml where
  "sample_document = inner (u ''document'') [inner (u ''body'') [inner (u ''p'')
     [inner (u ''r'') [leaf (u ''t'') (Some (u ''shown''))],
      inner (u ''r'') [inner (u ''rPr'') [leaf (u ''vanish'') None], leaf (u ''t'') (Some (u ''secret''))]]]]"

definition sample_xml :: "bytes \<Rightarrow> xml res" where
  "sample_xml data =
     (if data = [1] then Inr (Elem (u ''Types'') [] None None
        [Elem (u ''Override'') [(u ''PartName'', u ''/word/document.xml''), (u ''ContentType'', u ''wordprocessingml'')] None None []])
      else if data = [2] then Inr (Elem (u ''Relationships'') [] None None
        [Elem (u ''Relationship'') [(u ''Type'', u ''x/officeDocument''), (u ''Target'', u ''word/document.xml'')] None None []])
      else if data = [3] then Inr sample_document
      else Inl ValueError)"

definition sample_entry :: "str \<Rightarrow> zip_info" where
  "sample_entry name = \<lparr>zi_filename = name, zi_flag_bits = 0, zi_compress_type = 0, zi_external_attr = 0, zi_file_size = 1,
     zi_compress_size = 1\<rparr>"

definition sample_package :: package_env where
  "sample_package =
     \<lparr>pk_env = sample_env, pk_limits = default_limits,
      pk_infolist = (\<lambda>_. Inr (map sample_entry [u ''[Content_Types].xml'', u ''_rels/.rels'', u ''word/document.xml''])),
      pk_open_read = (\<lambda>_ i n. Inr [if zi_filename i = u ''[Content_Types].xml'' then 1
         else if zi_filename i = u ''_rels/.rels'' then 2 else 3]),
      pk_fromstring = sample_xml, pk_netloc_valid = (\<lambda>_. False), pk_float_ratio = (\<lambda>_ _. None), pk_at_most_one = (\<lambda>_. False)\<rparr>"

definition sample_docx :: staged_file where
  "sample_docx = \<lparr>sf_filename = u ''a.docx'', sf_path = u ''blob'', sf_sha256 = zip_magic, sf_size = 4\<rparr>"

definition sample_floats :: float_ops where
  "sample_floats = \<lparr>fo_le = (\<lambda>_ _. False), fo_lt = (\<lambda>_ _. False), fo_sub = (\<lambda>a _. a), fo_mul = (\<lambda>a _. a),
     fo_div = (\<lambda>a _. a), fo_round = (\<lambda>_. 0)\<rparr>"

definition sample_page :: pdf_page where
  "sample_page =
     \<lparr>pp_rect = (u ''0'', u ''0'', u ''9'', u ''9''),
      pp_blocks = [(0, [[\<lparr>ps_text = u ''shown'', ps_bbox = (u ''1'', u ''1'', u ''2'', u ''2''), ps_color = Some 0, ps_size = u ''10.0'', ps_alpha = None\<rparr>,
         \<lparr>ps_text = u ''secret'', ps_bbox = (u ''1'', u ''1'', u ''2'', u ''2''), ps_color = Some 0xFFFFFF, ps_size = u ''10.0'', ps_alpha = None\<rparr>]])],
      pp_drawings = [], pp_traces = [], pp_has_images = False\<rparr>"

definition sample_reader :: registry where
  "sample_reader =
     \<lparr>rg_package = sample_package,
      rg_pdf = \<lparr>pe_env = sample_env, pe_limits = default_limits, pe_floats = sample_floats,
         pe_open = (\<lambda>_. Inr \<lparr>pd_needs_pass = False, pd_is_encrypted = False, pd_page_count = 1, pd_xref_length = 2,
            pd_xref_keys = (\<lambda>_. Inr [u ''Type'']), pd_embedded_names = [], pd_load_page = (\<lambda>_. Inr sample_page)\<rparr>),
         pe_java_found = True, pe_package_found = True, pe_convert = (\<lambda>_. Odl_Exited 0 [u ''# shown sec ret''])\<rparr>\<rparr>"

definition sample_word_snapshot :: document_snapshot where
  "sample_word_snapshot = projr (extract_document sample_reader sample_docx (Some zip_magic) (u ''doc''))"

lemma sample_word_extracted:
  "extract_document sample_reader sample_docx (Some zip_magic) (u ''doc'') = Inr sample_word_snapshot \<and>
   list_ex (\<lambda>t. ts_hidden (tu_style t) = Some True) (ds_units sample_word_snapshot)"
proof -
  have "case extract_document sample_reader sample_docx (Some zip_magic) (u ''doc'') of
      Inl e \<Rightarrow> False | Inr s \<Rightarrow> list_ex (\<lambda>t. ts_hidden (tu_style t) = Some True) (ds_units s)"
    by code_simp
  then show ?thesis by (auto simp: sample_word_snapshot_def split: sum.splits)
qed


lemma hidden_text_quarantined_witness:
  "case engine_analyzer ascii_db None (u ''engine'')
      (build_request sample_env (sample_prepared\<lparr>pa_candidate := sample_word_snapshot\<rparr>) (u ''req_1'') (u ''D1'')) of
     Inl e \<Rightarrow> False
   | Inr b \<Rightarrow> po_decision (sb_policy b) = BLOCK \<and> po_index_action (sb_policy b) = QUARANTINE"
proof -
  let ?p = "sample_prepared\<lparr>pa_candidate := sample_word_snapshot\<rparr>"
  have name: "length_between 1 200 (strip (u ''engine''))"
    by (simp add: length_between_def u_def strip_def lstrip_def rstrip_def is_space_def)
  obtain b where b: "engine_analyzer ascii_db None (u ''engine'') (build_request sample_env ?p (u ''req_1'') (u ''D1'')) = Inr b"
    using static_allow_iff[OF name] by blast
  have "extract_document sample_reader sample_docx (Some zip_magic) (u ''doc'') = Inr (pa_candidate ?p)"
    "list_ex (\<lambda>t. ts_hidden (tu_style t) = Some True) (ds_units (pa_candidate ?p))"
    using sample_word_extracted by simp_all
  from hidden_text_quarantined[OF this b] show ?thesis by (simp add: b)
qed

definition sample_pdf :: staged_file where
  "sample_pdf = \<lparr>sf_filename = u ''b.PDF'', sf_path = u ''blob'', sf_sha256 = pdf_magic, sf_size = 5\<rparr>"

lemma pdf_body_hides_hidden_text_witness:
  "case extract_document sample_reader sample_pdf (Some pdf_magic) (u ''doc'') of
     Inl e \<Rightarrow> False
   | Inr s \<Rightarrow> ds_format s = PDF \<and> (ds_text s = compose_visible_body (ds_units s) \<or> \<not> contains_hidden_text (ds_text s) (ds_units s))"
proof -
  have "case extract_document sample_reader sample_pdf (Some pdf_magic) (u ''doc'') of Inl e \<Rightarrow> False | Inr s \<Rightarrow> ds_format s = PDF"
    by code_simp
  then obtain s where s: "extract_document sample_reader sample_pdf (Some pdf_magic) (u ''doc'') = Inr s" "ds_format s = PDF"
    by (auto split: sum.splits)
  from pdf_body_hides_hidden_text[OF this] s show ?thesis by simp
qed

definition sample_state :: extract_state where
  "sample_state =
     \<lparr>xs_package = projr (open_package sample_package sample_docx (Some zip_magic)), xs_collector = new_collector\<rparr>"

definition sample_part_run :: "nat res \<times> extract_state" where
  "sample_part_run = word_part sample_package empty_catalog (u ''word/document.xml'') BODY sample_state"

definition sample_part_parse :: "xml res \<times> zip_package" where
  "sample_part_parse = parse_xml sample_package (u ''word/document.xml'') None (xs_package sample_state)"

text \<open>The text element of the hidden run.\<close>

definition sample_node :: "xnode \<times> xnode list" where
  "sample_node = nodes sample_document ! 8"

lemma word_run_extracted_witness:
  "list_ex (\<lambda>x. tu_text x = u ''secret'' \<and> tu_visibility x = HIDDEN_SUSPECTED) (ec_units (xs_collector (snd sample_part_run)))"
proof -
  have key: "token_key BODY sample_node = Some ([0, 0, 1], BODY)" and n: "8 < length (nodes sample_document)"
    and body: "concat (tokens_of (token_key BODY) (\<lambda>m. word_token (snd (fst m))) (nodes sample_document) ([0, 0, 1], BODY)) = u ''secret''"
    and ne: "strip (u ''secret'') \<noteq> []"
    by code_simp+
  have r: "fst sample_part_run = Inr 1" and p: "fst sample_part_parse = Inr sample_document" by code_simp+
  have styles: "list_all (\<lambda>m. if token_key BODY m = Some ([0, 0, 1], BODY)
      then list_all (\<lambda>run. list_all (\<lambda>par. case effective_style sample_package empty_catalog (snd run) (snd par) of
             Inl e \<Rightarrow> False | Inr style \<Rightarrow> ts_hidden style = Some True)
           (case nearest (snd m) (u ''p'') of None \<Rightarrow> [] | Some x \<Rightarrow> [x]))
         (case nearest (snd m) (u ''r'') of None \<Rightarrow> [] | Some x \<Rightarrow> [x]) else True) (nodes sample_document)"
    by code_simp
  have run: "word_part sample_package empty_catalog (u ''word/document.xml'') BODY sample_state = (Inr 1, snd sample_part_run)"
    using r by (metis sample_part_run_def prod.collapse)
  have parse: "parse_xml sample_package (u ''word/document.xml'') None (xs_package sample_state) = (Inr sample_document, snd sample_part_parse)"
    using p by (metis sample_part_parse_def prod.collapse)
  have mem: "sample_node \<in> set (nodes sample_document)" using n by (simp add: sample_node_def)
  from word_run_extracted[OF run parse mem key] body ne obtain run par style x where
    o: "word_origin BODY (nodes sample_document) ([0, 0, 1], BODY) run par"
    and e: "effective_style sample_package empty_catalog (snd run) (snd par) = Inr style"
    and x: "x \<in> set (ec_units (xs_collector (snd sample_part_run)))" "tu_text x = u ''secret''"
      "tu_visibility x = hidden_or_visible style"
    by auto
  from o e styles have "ts_hidden style = Some True" by (fastforce simp: word_origin_def list_ex_iff list_all_iff)
  with x show ?thesis by (auto simp: list_ex_iff hidden_or_visible_def)
qed

end
