(* ===== verification/Wiring.thy ===== *)
theory Wiring
  imports Registry DocumentDiff QueueEffects
begin

text \<open>
  The pipeline and the queue with the extractors and the comparison they call (\<^verbatim>\<open>src/indexguard/pipeline.py\<close>,
  \<^verbatim>\<open>change_queue.py\<close>): what the components promise of each other holds of the modelled ones, so that the results that rest
  on a law of the extractors hold without it.
\<close>

definition indexguard_extraction :: "registry \<Rightarrow> extraction" where
  "indexguard_extraction R =
     \<lparr>ex_detect = (\<lambda>f data. detect_format R f (Some data)),
      ex_extract = (\<lambda>f data document_id. extract_document R f (Some data) document_id),
      ex_diff = diff_documents (en_udb (rg_env R))\<rparr>"

definition queue_extract :: "registry \<Rightarrow> staged_file \<Rightarrow> bytes \<Rightarrow> str \<Rightarrow> document_snapshot res" where
  "queue_extract R f data document_id = extract_document R f (Some data) document_id"

lemma queue_extract_names: "qe_extract V = queue_extract R \<Longrightarrow> extraction_names V"
proof -
  assume V: "qe_extract V = queue_extract R"
  have "ds_document_id s = d \<and> ds_sha256 s = sf_sha256 f" if "extract_document R f content d = Inr s" for f content d s
    using extract_document_format[OF that] dispatch.names by blast
  then show ?thesis unfolding extraction_names_def V queue_extract_def by blast
qed

text \<open>An analysis the pipeline prepares is one of extracted documents and of their comparison.\<close>

lemma prepared_is_extracted:
  assumes "prepare_streams B (indexguard_extraction R) E d bs bn cs cn changed_by mt w = (Inr p, w')"
  obtains f b g c where "extract_document R f (Some b) d = Inr (pa_baseline p)" "extract_document R g (Some c) d = Inr (pa_candidate p)"
    "ds_format (pa_baseline p) = ds_format (pa_candidate p)"
    "pa_diff p = diff_documents (en_udb (rg_env R)) (pa_baseline p) (pa_candidate p)"
proof -
  from assms obtain f b g c format where
    x: "extract_document R f (Some b) d = Inr (pa_baseline p)" "extract_document R g (Some c) d = Inr (pa_candidate p)"
    and formats: "detect_format R f (Some b) = Inr format" "detect_format R g (Some c) = Inr format"
    and diff: "pa_diff p = diff_documents (en_udb (rg_env R)) (pa_baseline p) (pa_candidate p)"
    unfolding prepare_streams_def indexguard_extraction_def
    by (auto simp: bindE_Inr_iff Let_def eq_commute[of "Inr _" "extract_document _ _ _ _"]
        eq_commute[of "Inr _" "detect_format _ _ _"] split: if_splits option.splits)
  from x formats have "extract_format R format f (Some b) d = Inr (pa_baseline p)"
    "extract_format R format g (Some c) d = Inr (pa_candidate p)"
    by (simp_all add: extract_document_def bindR_def)
  with dispatch.contract have "ds_format (pa_baseline p) = ds_format (pa_candidate p)" by metis
  with x diff that show thesis by blast
qed

lemma prepared_hidden_text_quarantined:
  assumes "prepare_streams B (indexguard_extraction R) E d bs bn cs cn changed_by mt w = (Inr p, w')"
    and "list_ex (\<lambda>t. ts_hidden (tu_style t) = Some True) (ds_units (pa_candidate p))"
    and "engine_analyzer U judge name (build_request E p rid now) = Inr b"
  shows "po_decision (sb_policy b) = BLOCK \<and> po_index_action (sb_policy b) = QUARANTINE"
  using assms(1) by (rule prepared_is_extracted) (use hidden_candidate_answer[OF _ assms(2,3)] in blast)

end
