(* ===== verification/QueueWorld.thy ===== *)
theory QueueWorld
  imports QueueSafety QueueEffects
begin

text \<open>
  What the change queue (\<^verbatim>\<open>change_queue.py\<close>) does to the world it shares with the gateway: it writes no audit event, keeps
  the index tables consistent, and adds versions of watched documents only.
\<close>

definition watched :: "str \<Rightarrow> bool" where
  "watched document_id \<longleftrightarrow> take 6 document_id = u ''watch:''"

lemma watched_item: "watched (document_id_of item)"
  by (simp add: watched_def document_id_of_def u_def)

definition world_kept :: "index_store world \<Rightarrow> index_store world \<Rightarrow> bool" where
  "world_kept v w \<longleftrightarrow>
     w_audit w = w_audit v \<and> (ix_inv (w_index v) \<longrightarrow> ix_inv (w_index w)) \<and>
     (\<forall>k\<in>versions (w_index w). k \<in> versions (w_index v) \<or> watched (fst k))"

definition queue_kept :: "change_queue \<Rightarrow> change_queue \<Rightarrow> bool" where
  "queue_kept s t \<longleftrightarrow> world_kept (q_world s) (q_world t)"

lemma world_kept_preorder [step_rules]: "preorderR world_kept"
  by (rule preorderRI) (fastforce simp: world_kept_def)+

lemma queue_kept_preorder [step_rules]: "preorderR queue_kept"
  by (rule preorderRI) (auto simp: queue_kept_def preorderR_refl[OF world_kept_preorder]
      intro: preorderR_trans[OF world_kept_preorder])

lemma world_keptI: "w_audit w = w_audit v \<Longrightarrow> w_index w = w_index v \<Longrightarrow> world_kept v w"
  by (simp add: world_kept_def)

lemma queue_keptI: "q_world t = q_world s \<Longrightarrow> queue_kept s t"
  by (simp add: queue_kept_def world_kept_def)

section \<open>The queue's readers\<close>

definition get_item :: "str \<Rightarrow> (change_queue, queue_item) op" where
  "get_item item_id = get_raw item_id"

definition list_history :: "(change_queue, history_entry list) op" where
  "list_history = readE (\<lambda>s. qs_history (q_state s))"

text \<open>
  \<^verbatim>\<open>wait_for_update\<close>: \<open>wait_timeout\<close> is how long it waits at most, \<open>must_wait\<close> whether it waits at all, and \<open>queue_update\<close>
  what it answers when the wait is over; other operations may run during the wait.
\<close>

definition wait_timeout :: "rat \<Rightarrow> rat" where
  "wait_timeout seconds = max 0 (min seconds 60)"

definition must_wait :: "int \<Rightarrow> rat \<Rightarrow> (change_queue, bool) op" where
  "must_wait after_revision seconds = readE (\<lambda>s. after_revision = int (q_revision s) \<and> wait_timeout seconds \<noteq> 0)"

definition queue_update :: "(change_queue, nat \<times> queue_item list) op" where
  "queue_update = bindE (readE q_revision) (\<lambda>revision. bindE list_items (\<lambda>items. retE (revision, items)))"

section \<open>Primitive steps\<close>

lemma upd_kept: "(\<And>s. q_world (f s) = q_world s) \<Longrightarrow> steps queue_kept (updE f)"
  by (rule stepsI) (auto simp: updE_def intro: queue_keptI)

lemma upd_dicts_kept [step_rules]:
  "steps queue_kept (updE (\<lambda>s. set_items (f s) s))" "steps queue_kept (updE (\<lambda>s. set_accepted (g s) s))"
  "steps queue_kept (updE (\<lambda>s. set_history (h s) s))" "steps queue_kept (updE (\<lambda>s. s\<lparr>q_scan := None\<rparr>))"
  "steps queue_kept (updE (\<lambda>s. let ids = qs_restored_ids (q_state s) @ new in s\<lparr>q_state := (q_state s)\<lparr>qs_restored_ids := drop (length ids - 256) ids,
       qs_history := take p (qs_history (q_state s))\<rparr>\<rparr>))"
  by (rule upd_kept, simp add: set_items_def set_accepted_def set_history_def Let_def)+

lemma read_clock_kept [step_rules]: "steps queue_kept (read_clock V)"
  by (rule stepsI) (auto simp: read_clock_def intro: queue_keptI)

lemma file_fault_kept [step_rules]: "steps queue_kept file_fault"
  by (rule stepsI) (auto simp: file_fault_def intro: queue_keptI split: list.splits option.splits)

lemma set_file_kept [step_rules]: "steps queue_kept (set_file path content)"
  by (rule stepsI) (auto simp: set_file_def updE_def queue_kept_def intro: world_keptI)

lemma bookkeeping_kept [step_rules]:
  "steps queue_kept (submit_task task)" "steps queue_kept save_state" "steps queue_kept notify_changed"
  "steps queue_kept (put_item item)" "steps queue_kept (pop_item k)"
  unfolding submit_task_def save_state_def notify_changed_def put_item_def pop_item_def
  by (rule upd_kept, simp add: set_items_def)+

lemma scan_now_kept [step_rules]: "steps queue_kept (scan_directory_now V)"
  by (rule stepsI) (auto simp: scan_directory_now_def intro: queue_keptI split: prod.splits)

lemma worldE_kept [step_rules]: "steps world_kept m \<Longrightarrow> steps queue_kept (worldE m)"
  by (rule stepsI) (auto simp: worldE_def onE_run queue_kept_def dest: stepsD)

lemma world_primitives_kept [step_rules]:
  "steps world_kept (read_file path)" "steps world_kept (indexR f)" "steps world_kept (stage_stream B E stream name)"
  by (rule stepsI; force simp: read_file_def indexR_def stage_stream_def Let_def
      split: option.splits if_splits sum.splits intro: world_keptI)+

lemma pipeline_search_kept [step_rules]: "steps world_kept (pipeline_search E q n d)"
  unfolding pipeline_search_def by (intro step_rules)

lemma remove_kept [step_rules]: "steps world_kept (indexE (remove_atomic d h))"
proof (rule stepsI)
  fix v r w
  assume "indexE (remove_atomic d h) v = (r, w)"
  then obtain i where i: "io_remove (sqlite_indexer undefined) d h (w_index v) = (r, i)" "w = v\<lparr>w_index := i\<rparr>"
    by (auto simp: indexE_def onE_run sqlite_indexer_def)
  from sqlite.remove_stored_le[OF i(1)] sqlite.ops_ok(2)[OF _ i(1)] i(2) show "world_kept v w"
    by (auto simp: world_kept_def)
qed

lemma index_kept: "watched (ds_document_id s) \<Longrightarrow> steps world_kept (indexE (index_atomic E s e))"
proof (rule stepsI)
  fix v r w
  assume d: "watched (ds_document_id s)" and "indexE (index_atomic E s e) v = (r, w)"
  then obtain i where i: "io_index (sqlite_indexer E) s e (w_index v) = (r, i)" "w = v\<lparr>w_index := i\<rparr>"
    by (auto simp: indexE_def onE_run sqlite_indexer_def)
  from sqlite.index_stored_le[OF i(1)] sqlite.ops_ok(1)[OF _ i(1)] i(2) d show "world_kept v w"
    by (auto simp: world_kept_def)
qed

section \<open>Operations\<close>

lemma file_operations_kept [step_rules]:
  "steps queue_kept (now_text V)" "steps queue_kept (auto_process_at V)" "steps queue_kept (copy_file a b)"
  "steps queue_kept (unlink a)" "steps queue_kept (stage_path V a)" "steps queue_kept (extract_staged V f d)"
  unfolding now_text_def auto_process_at_def copy_file_def unlink_def stage_path_def extract_staged_def
  by (intro step_rules)+

lemma helpers_kept [step_rules]:
  "steps queue_kept (snapshot_document V a d)" "steps queue_kept (capture_snapshot V a d)"
  "steps queue_kept (restore_source_to_baseline V item)" "steps queue_kept (restore_source_to_candidate V item)"
  "steps queue_kept (current_version d)" "steps queue_kept (synchronise_scan_state V)" "steps queue_kept (get_raw k)"
  "steps queue_kept (append_history V item action before)"
  unfolding snapshot_document_def capture_snapshot_def restore_source_to_baseline_def restore_source_to_candidate_def
    current_version_def synchronise_scan_state_def get_raw_def append_history_def Let_def
  by (intro step_rules)+

text \<open>An extracted snapshot of an item is one of a watched document.\<close>

lemma steps_bind_returned:
  assumes "preorderR R" "steps R m" "\<And>s x t. m s = (Inr x, t) \<Longrightarrow> P x" "\<And>x. P x \<Longrightarrow> steps R (f x)"
  shows "steps R (bindE m f)"
proof (rule stepsI)
  fix s r t
  assume run: "bindE m f s = (r, t)"
  obtain q v where m: "m s = (q, v)" by fastforce
  show "R s t"
  proof (cases q)
    case (Inl e)
    with run m assms(2) show ?thesis by (auto dest: stepsD)
  next
    case (Inr x)
    with run m have "f x v = (r, t)" by simp
    then have "R v t" using stepsD assms(3)[OF m[unfolded Inr]] assms(4) by metis
    with stepsD[OF assms(2) m] assms(1) show ?thesis by (auto dest: preorderR_trans)
  qed
qed

lemma extracted_watched:
  assumes "extraction_names V" "extract_staged V f (document_id_of item) s = (Inr snap, t)"
  shows "watched (ds_document_id snap)"
proof -
  from wpD[OF extract_staged_run assms(2)] obtain b where "qe_extract V f b (document_id_of item) = Inr snap" by blast
  with assms(1) show ?thesis by (metis extraction_names_def watched_item)
qed

lemma extract_then_kept:
  assumes "extraction_names V" "\<And>snap. watched (ds_document_id snap) \<Longrightarrow> steps queue_kept (f snap)"
  shows "steps queue_kept (bindE (extract_staged V staged (document_id_of item)) f)"
  by (rule steps_bind_returned[where P = "\<lambda>snap. watched (ds_document_id snap)"])
     (use assms extracted_watched in \<open>blast intro: step_rules\<close>)+

lemma accept_locked_kept [step_rules]:
  assumes V: "extraction_names V"
  shows "steps queue_kept (accept_locked V item action)"
  unfolding accept_locked_def by (intro step_rules extract_then_kept[OF V] index_kept; assumption)

lemma undo_index_kept [step_rules]: "extraction_names V \<Longrightarrow> steps queue_kept (undo_index V item)"
  unfolding undo_index_def by (intro step_rules extract_then_kept index_kept; assumption)

lemma undo_entry_kept [step_rules]: "extraction_names V \<Longrightarrow> steps queue_kept (undo_history_entry V entry)"
  unfolding undo_history_entry_def Let_def by (intro step_rules; assumption)

lemma validate_restore_kept [step_rules]: "steps queue_kept (validate_history_restore V entries)"
  unfolding validate_history_restore_def by (intro step_rules)

lemma event_kept [step_rules]: "steps queue_kept (apply_event V event)"
  unfolding apply_event_def event_candidate_def preview_def Let_def by (intro step_rules)

lemma enrich_kept [step_rules]: "steps queue_kept (enrich_item V key)"
  unfolding enrich_item_def requeue_legacy_def backfill_agent_def Let_def by (intro step_rules)

lemma auto_index_kept [step_rules]: "extraction_names V \<Longrightarrow> steps queue_kept (auto_index_item V now k)"
  unfolding auto_index_item_def by (intro step_rules; assumption)

lemma auto_items_kept [step_rules]: "extraction_names V \<Longrightarrow> steps queue_kept (auto_index_items V now ks)"
  by (induction ks) (simp_all, (intro step_rules; assumption)+)

lemma reverted_kept [step_rules]: "steps queue_kept discard_textually_reverted"
  unfolding discard_textually_reverted_def by (intro step_rules)

lemma due_kept [step_rules]: "extraction_names V \<Longrightarrow> steps queue_kept (process_due_auto_indexes V)"
  unfolding process_due_auto_indexes_def by (intro step_rules; assumption)

lemma list_kept [step_rules]: "steps queue_kept list_items"
  unfolding list_items_def by (intro step_rules)

lemma poll_kept: "extraction_names V \<Longrightarrow> steps queue_kept (poll_once V)"
  unfolding poll_once_def by (intro step_rules; assumption)

lemma accept_kept: "extraction_names V \<Longrightarrow> steps queue_kept (accept V k)"
  unfolding accept_def by (intro step_rules; assumption)

lemma reject_kept: "steps queue_kept (reject V k)"
  unfolding reject_def by (intro step_rules)

lemma hold_kept: "steps queue_kept (hold_for_review V k)"
  unfolding hold_for_review_def Let_def by (intro step_rules)

lemma restore_kept: "extraction_names V \<Longrightarrow> steps queue_kept (restore_history_before V h)"
  unfolding restore_history_before_def Let_def[of "drop _ _"] by (intro step_rules; assumption)

lemma commit_kept: "steps queue_kept (analyze_commit V k sha v)" "steps queue_kept (agent_commit V k sha rows answer)"
  unfolding analyze_commit_def agent_commit_def Let_def by (intro step_rules)+

lemma readers_kept: "steps queue_kept (get_item k)" "steps queue_kept list_history" "steps queue_kept queue_update"
  unfolding get_item_def list_history_def queue_update_def by (intro step_rules)+

end
