(* ===== verification/RepositoryReview.thy ===== *)
theory RepositoryReview
  imports Operations
begin

text \<open>
  The read-only repository review (\<^verbatim>\<open>repository_review.py\<close>).  git and the language model are parameters: \<open>rv_run\<close> gives the
  exit status and the standard output of a git command (or the exception of a timeout), \<open>rv_model\<close> the answer of
  \<^verbatim>\<open>analyze_agent_task\<close> to the evidence.
\<close>

record review_env =
  rv_root :: str
  rv_run :: "str list \<Rightarrow> (int \<times> str) res"
  rv_model :: "json \<Rightarrow> str res"

record repository_commit =
  rc_sha :: str
  rc_subject :: str
  rc_committed_at :: str

record review_report =
  rr_review_id :: str
  rr_generated_at :: str
  rr_status :: str
  rr_automatic_application_allowed :: bool
  rr_commit_count :: nat
  rr_commits :: "repository_commit list"
  rr_changed_paths :: "str list"
  rr_deterministic_controls :: "str list"
  rr_model_report :: str

section \<open>Git evidence\<close>

definition git :: "review_env \<Rightarrow> str list \<Rightarrow> str res" where
  "git V arguments =
     bindR (rv_run V ([u ''git'', u ''-c'', u ''safe.directory='' @ rv_root V] @ arguments)) (\<lambda>(returncode, stdout).
     Inr (if returncode \<noteq> 0 then [] else stdout))"

text \<open>\<^verbatim>\<open>text.partition(sep)\<close> for a separator of one character: the head, whether it was found, the tail.\<close>

definition partition_at :: "nat \<Rightarrow> str \<Rightarrow> str \<times> bool \<times> str" where
  "partition_at d s = (takeWhile (\<lambda>c. c \<noteq> d) s, d \<in> set s, drop 1 (dropWhile (\<lambda>c. c \<noteq> d) s))"

definition commit_of_line :: "str \<Rightarrow> repository_commit option" where
  "commit_of_line line =
     (let (sha, separator, rest) = partition_at 31 line;
          (subject, separator2, committed_at) = partition_at 31 rest
      in if sha \<noteq> [] \<and> separator \<and> separator2
         then Some \<lparr>rc_sha = sha, rc_subject = subject, rc_committed_at = committed_at\<rparr> else None)"

definition commits_of_output :: "str \<Rightarrow> repository_commit list" where
  "commits_of_output output = List.map_filter commit_of_line (splitlines output)"

definition commits :: "review_env \<Rightarrow> int \<Rightarrow> repository_commit list res" where
  "commits V limit =
     bindR (git V [u ''log'', u ''--max-count='' @ show_int limit, u ''--format=%H%x1f%s%x1f%cI'']) (\<lambda>output.
     Inr (commits_of_output output))"

definition show_arguments :: "repository_commit \<Rightarrow> str list" where
  "show_arguments c = [u ''show'', u ''--format='', u ''--name-only'', rc_sha c]"

fun changed_path_lines :: "review_env \<Rightarrow> repository_commit list \<Rightarrow> str list res" where
  "changed_path_lines V [] = Inr []"
| "changed_path_lines V (c # cs) =
     bindR (git V (show_arguments c)) (\<lambda>output.
     bindR (changed_path_lines V cs) (\<lambda>rest.
     Inr (map strip (filter (\<lambda>line. strip line \<noteq> []) (splitlines output)) @ rest)))"

definition changed_paths :: "review_env \<Rightarrow> repository_commit list \<Rightarrow> str list res" where
  "changed_paths V cs = bindR (changed_path_lines V cs) (\<lambda>paths. Inr (sort (remdups paths)))"

section \<open>The report\<close>

definition controls :: "str list" where
  "controls = [u ''READ_ONLY_GIT_EVIDENCE'', u ''MODEL_OUTPUT_DISPLAY_ONLY'', u ''AUTOMATIC_REPOSITORY_APPLICATION_BLOCKED'',
     u ''OPERATOR_REVIEW_REQUIRED'']"

definition dump_commit :: "repository_commit \<Rightarrow> json" where
  "dump_commit c = JObj [(u ''sha'', JStr (rc_sha c)), (u ''subject'', JStr (rc_subject c)), (u ''committed_at'', JStr (rc_committed_at c))]"

definition review_evidence :: "repository_commit list \<Rightarrow> str list \<Rightarrow> str list \<Rightarrow> json" where
  "review_evidence cs paths working_tree =
     JObj [(u ''commits'', JArr (map dump_commit cs)), (u ''changed_paths'', JArr (map JStr (take 160 paths))),
           (u ''working_tree'', JArr (map JStr (take 80 working_tree))), (u ''controls'', JArr (map JStr controls))]"

definition model_section :: "str res \<Rightarrow> (str \<times> str) res" where
  "model_section answer =
     (case answer of
        Inr report \<Rightarrow> Inr (report, u ''REVIEW_REQUIRED'')
      | Inl (ExternalServiceError r) \<Rightarrow>
          Inr ([47784, 45944, 32, 48372, 44256, 49436, 47484, 32, 49373, 49457, 54616, 51648, 32, 47803, 54664, 49845, 45768, 45796, 46, 32, 50896, 44201, 32, 48516, 49437, 51060, 32, 48373, 44396, 46112, 32, 46412, 44620, 51648, 32, 48320, 44221, 32, 48152, 50689, 51008, 32, 48372, 47448, 54644, 50556, 32, 54633, 45768, 45796, 46, 32, 91] @
                 the (error_code (ExternalServiceError r)) @ u '']'',
               u ''MODEL_UNAVAILABLE_REVIEW_REQUIRED'')
      | Inl e \<Rightarrow> Inl e)"

definition review :: "review_env \<Rightarrow> env \<Rightarrow> int \<Rightarrow> ('i world, review_report) op" where
  "review V E max_commits =
     bindE (liftE (commits V max_commits)) (\<lambda>cs.
     bindE (liftE (changed_paths V cs)) (\<lambda>paths.
     bindE (liftE (git V [u ''status'', u ''--short''])) (\<lambda>working_tree.
     bindE (liftE (model_section (rv_model V (review_evidence cs paths (splitlines working_tree))))) (\<lambda>(model_report, status).
     bindE (next_uuid E) (\<lambda>hex.
     bindE (utc_now E) (\<lambda>now.
     retE \<lparr>rr_review_id = u ''repo_'' @ hex, rr_generated_at = now, rr_status = status,
           rr_automatic_application_allowed = False, rr_commit_count = length cs, rr_commits = cs,
           rr_changed_paths = paths, rr_deterministic_controls = controls, rr_model_report = model_report\<rparr>))))))"

definition dump_review_report :: "review_report \<Rightarrow> json" where
  "dump_review_report r =
     JObj [(u ''review_id'', JStr (rr_review_id r)), (u ''generated_at'', JStr (rr_generated_at r)), (u ''status'', JStr (rr_status r)),
           (u ''automatic_application_allowed'', JBool (rr_automatic_application_allowed r)),
           (u ''commit_count'', JInt (int (rr_commit_count r))), (u ''commits'', JArr (map dump_commit (rr_commits r))),
           (u ''changed_paths'', JArr (map JStr (rr_changed_paths r))),
           (u ''deterministic_controls'', JArr (map JStr (rr_deterministic_controls r))), (u ''model_report'', JStr (rr_model_report r))]"

section \<open>Reading git's records\<close>

text \<open>The line git writes for a commit, and text without a line boundary of \<^verbatim>\<open>str.splitlines\<close>.\<close>

definition commit_line :: "repository_commit \<Rightarrow> str" where
  "commit_line c = rc_sha c @ 31 # rc_subject c @ 31 # rc_committed_at c"

definition one_line :: "str \<Rightarrow> bool" where
  "one_line s \<longleftrightarrow> list_all (\<lambda>c. \<not> is_linebreak c) s"

definition plain_field :: "str \<Rightarrow> bool" where
  "plain_field s \<longleftrightarrow> one_line s \<and> 31 \<notin> set s"

lemma split_lines_break:
  "\<lbrakk>one_line s; is_linebreak c; c \<noteq> 13\<rbrakk> \<Longrightarrow> split_lines_from acc (s @ c # r) = (rev acc @ s) # split_lines_from [] r"
  by (induction s arbitrary: acc) (auto simp: one_line_def)

lemma splitlines_break: "\<lbrakk>one_line s; is_linebreak c; c \<noteq> 13\<rbrakk> \<Longrightarrow> splitlines (s @ c # r) = s # splitlines r"
  by (simp add: splitlines_def split_lines_break)

lemma partition_at_found: "d \<notin> set s \<Longrightarrow> partition_at d (s @ d # r) = (s, True, r)"
  unfolding partition_at_def by (induction s) auto

lemma commit_of_commit_line:
  "\<lbrakk>31 \<notin> set (rc_sha c); 31 \<notin> set (rc_subject c); rc_sha c \<noteq> []\<rbrakk> \<Longrightarrow> commit_of_line (commit_line c) = Some c"
  by (simp add: commit_of_line_def commit_line_def partition_at_found)

lemma one_line_simps [simp]:
  "one_line (s @ t) \<longleftrightarrow> one_line s \<and> one_line t" "one_line (c # s) \<longleftrightarrow> \<not> is_linebreak c \<and> one_line s" "one_line []"
  by (simp_all add: one_line_def)

lemma break_codes: "is_linebreak 10" "is_linebreak 8232" "\<not> is_linebreak 31"
  by (simp_all add: is_linebreak_def)

section \<open>Properties\<close>

text \<open>A log whose fields contain no line boundary and no separator is read back exactly: one record per commit, in
  order, with git's hash, subject and date.\<close>

lemma commits_roundtrip:
  "list_all (\<lambda>c. plain_field (rc_sha c) \<and> plain_field (rc_subject c) \<and> one_line (rc_committed_at c) \<and> rc_sha c \<noteq> []) cs \<Longrightarrow>
   commits_of_output (concat (map (\<lambda>c. commit_line c @ [10]) cs)) = cs"
proof (induction cs)
  case Nil
  show ?case by (simp add: commits_of_output_def splitlines_def List.map_filter_simps)
next
  case (Cons c cs)
  then have "one_line (commit_line c)" by (simp add: commit_line_def plain_field_def break_codes)
  then have "splitlines (commit_line c @ 10 # concat (map (\<lambda>c. commit_line c @ [10]) cs))
    = commit_line c # splitlines (concat (map (\<lambda>c. commit_line c @ [10]) cs))"
    using break_codes by (simp add: splitlines_break)
  with Cons commit_of_commit_line[of c] show ?case
    by (simp add: commits_of_output_def List.map_filter_simps plain_field_def)
qed

definition sample_commit :: repository_commit where
  "sample_commit = \<lparr>rc_sha = u ''4f2a'', rc_subject = u ''fix'', rc_committed_at = u ''2025-01-01''\<rparr>"

lemma commits_roundtrip_witness: "commits_of_output (concat (map (\<lambda>c. commit_line c @ [10]) [sample_commit])) = [sample_commit]"
  by (rule commits_roundtrip) (simp add: sample_commit_def plain_field_def one_line_def is_linebreak_def u_def)

text \<open>The subject of a commit forges a record and with it an argument of git: git folds line feeds in a subject but
  leaves the other line boundaries of \<^verbatim>\<open>str.splitlines\<close> (here U+2028).  A single commit whose subject is \<open>a\<close>, then such a
  boundary, then any text \<open>option\<close> before two separators, is read as two records, and the review runs \<^verbatim>\<open>git show\<close> with
  \<open>option\<close> in the place of the hash, for example \<^verbatim>\<open>--output=\<close> and the name of a file to overwrite.\<close>

lemma subject_forges_argument:
  assumes "plain_field sha" "sha \<noteq> []" "one_line date"
    and "plain_field a" "plain_field option" "option \<noteq> []"
  shows "map show_arguments (commits_of_output (commit_line \<lparr>rc_sha = sha, rc_subject = a @ [31] @ [8232] @ option @ [31] @ [31], rc_committed_at = date\<rparr> @ [10]))
    = [[u ''show'', u ''--format='', u ''--name-only'', sha], [u ''show'', u ''--format='', u ''--name-only'', option]]"
proof -
  let ?first = "commit_line \<lparr>rc_sha = sha, rc_subject = a, rc_committed_at = []\<rparr>"
  let ?second = "commit_line \<lparr>rc_sha = option, rc_subject = [], rc_committed_at = 31 # date\<rparr>"
  have "commit_line \<lparr>rc_sha = sha, rc_subject = a @ [31] @ [8232] @ option @ [31] @ [31], rc_committed_at = date\<rparr> @ [10]
    = ?first @ 8232 # ?second @ 10 # []"
    by (simp add: commit_line_def)
  moreover have "one_line ?first" "one_line ?second"
    using assms by (simp_all add: commit_line_def plain_field_def break_codes)
  ultimately have "splitlines (commit_line \<lparr>rc_sha = sha, rc_subject = a @ [31] @ [8232] @ option @ [31] @ [31], rc_committed_at = date\<rparr> @ [10])
    = [?first, ?second]"
    using break_codes by (simp add: splitlines_break) (simp add: splitlines_def)
  with assms show ?thesis
    by (simp add: commits_of_output_def List.map_filter_simps commit_of_commit_line plain_field_def show_arguments_def)
qed

lemma subject_forges_argument_witness:
  "rc_sha (commits_of_output (commit_line \<lparr>rc_sha = u ''4f2a'',
     rc_subject = u ''fix'' @ [31] @ [8232] @ u ''--output=/srv/index.db'' @ [31] @ [31], rc_committed_at = u ''2025''\<rparr> @ [10]) ! 1)
   = u ''--output=/srv/index.db''"
proof -
  let ?out = "commits_of_output (commit_line \<lparr>rc_sha = u ''4f2a'',
     rc_subject = u ''fix'' @ [31] @ [8232] @ u ''--output=/srv/index.db'' @ [31] @ [31], rc_committed_at = u ''2025''\<rparr> @ [10])"
  have p: "plain_field (u ''4f2a'')" "u ''4f2a'' \<noteq> []" "one_line (u ''2025'')" "plain_field (u ''fix'')"
    "plain_field (u ''--output=/srv/index.db'')" "u ''--output=/srv/index.db'' \<noteq> []"
    by (simp_all add: plain_field_def one_line_def is_linebreak_def u_def)
  from subject_forges_argument[OF p(1-3) p(4-6)] have
    e: "map show_arguments ?out = [[u ''show'', u ''--format='', u ''--name-only'', u ''4f2a''],
      [u ''show'', u ''--format='', u ''--name-only'', u ''--output=/srv/index.db'']]" .
  have "length (map show_arguments ?out) = 2" unfolding e by simp
  then have "show_arguments (?out ! 1) = map show_arguments ?out ! 1" by (subst nth_map) (simp_all only: length_map)
  also have "\<dots> = [u ''show'', u ''--format='', u ''--name-only'', u ''--output=/srv/index.db'']" unfolding e by simp
  finally show ?thesis by (simp add: show_arguments_def)
qed

text \<open>The report is for display: it never allows automatic application, always asks for a review, and lists
  the commits it counted and each changed path once, in order.\<close>

lemma review_display_only:
  "case review V E n w of
     (Inl e, w') \<Rightarrow> w' = w
   | (Inr r, w') \<Rightarrow> \<not> rr_automatic_application_allowed r \<and> rr_commit_count r = length (rr_commits r) \<and>
       rr_deterministic_controls r = controls \<and> rr_status r \<in> {u ''REVIEW_REQUIRED'', u ''MODEL_UNAVAILABLE_REVIEW_REQUIRED''} \<and>
       sorted (rr_changed_paths r) \<and> distinct (rr_changed_paths r) \<and>
       w_audit w' = w_audit w \<and> w_index w' = w_index w \<and> w_files w' = w_files w"
  by (auto simp: review_def monad_defs next_uuid_def utc_now_def changed_paths_def bindR_def model_section_def
      split: sum.splits prod.splits err.splits)

end
