(* ===== verification/HttpGateway.thy ===== *)
theory HttpGateway
  imports Wiring QueueWorld RepositoryReview
begin

text \<open>
  The HTTP surface of the gateway (\<^verbatim>\<open>src/indexguard/api.py\<close>): its routes with their parameters, headers and checks, the
  mapping of exceptions to fail-closed answers, and who may change what.  A request arrives parsed by the web framework;
  \<open>Unreadable\<close> is a parameter it could not read at its type, \<open>None\<close> a body that is absent or not JSON.  A form field or a
  header that is empty or absent is what the framework reports as absent.
\<close>

section \<open>Requests and answers\<close>

datatype 'a param = Absent | Unreadable | Given 'a

record upload =
  up_filename :: "str option"
  up_bytes :: bytes

datatype route =
    Health
  | ListReviewQueue
  | WaitForUpdate "int param" "rat param"
  | GetQueueItem str
  | AcceptItem str
  | RejectItem str
  | HoldItem str
  | ListHistory
  | RestoreHistory str
  | PrepareUpload "str param" "upload param" "upload param" "str param"
  | SubmitResult str "json option"
  | FinalizeResult str "json option"
  | ListAnalyses "int param"
  | GetStatus str
  | GetAnalysisRequest str
  | DispatchAnalysis str
  | ExecuteCommand str "json option"
  | GetAnalysis str
  | SearchIndex "str param" "int param" "str param"
  | CurrentIndex "str param"
  | ReviewRepository

record http_request =
  hr_route :: route
  hr_b_token :: "str option"
  hr_operator_token :: "str option"

record http_answer =
  ha_status :: nat
  ha_body :: json

text \<open>What a handler gives back: a value, the 404 of a queue route, or the framework's refusal of the parameters.\<close>

datatype reply = Reply json | NotFound str | Unprocessable

section \<open>The application\<close>

text \<open>
  \<open>gc_invalid\<close> gives the framework's list of validation errors of a request (location, message, type).  The pipeline and
  the queue share one environment, blob store, world and extractor registry.
\<close>

record gateway =
  gc_b_token :: "str option"
  gc_operator_token :: "str option"
  gc_analyzer :: "risk_analyzer option"
  gc_registry :: registry
  gc_queue :: queue_env
  gc_review :: review_env
  gc_invalid :: "route \<Rightarrow> (str list \<times> str \<times> str) list"

definition gw_env :: "gateway \<Rightarrow> env" where
  "gw_env C = rg_env (gc_registry C)"

definition gw_queue :: "gateway \<Rightarrow> queue_env" where
  "gw_queue C = (gc_queue C)\<lparr>qe_env := gw_env C, qe_extract := queue_extract (gc_registry C)\<rparr>"

text \<open>\<^verbatim>\<open>secrets.compare_digest\<close> on two strings refuses text outside ASCII.\<close>

definition compare_digest :: "str \<Rightarrow> str \<Rightarrow> bool res" where
  "compare_digest a b = (if list_all (\<lambda>c. c < 128) a \<and> list_all (\<lambda>c. c < 128) b then Inr (a = b) else Inl TypeError)"

definition selected_token :: "str option \<Rightarrow> str option \<Rightarrow> str option" where
  "selected_token argument environment = (if argument \<noteq> None then argument else environment)"

definition create_app :: "str option \<Rightarrow> str option \<Rightarrow> str option \<Rightarrow> str option \<Rightarrow> gateway \<Rightarrow> gateway res" where
  "create_app b_token b_environment operator_token operator_environment C =
     (let b = selected_token b_token b_environment; operator = selected_token operator_token operator_environment;
          application = C\<lparr>gc_b_token := b, gc_operator_token := operator\<rparr>
      in case (truthy_text b, truthy_text operator) of
           (Some x, Some y) \<Rightarrow> bindR (compare_digest x y) (\<lambda>same. if same then Inl ValueError else Inr application)
         | _ \<Rightarrow> Inr application)"

section \<open>Tokens\<close>

definition require_token :: "str option \<Rightarrow> str option \<Rightarrow> unit res" where
  "require_token provided expected =
     (case truthy_text expected of
        None \<Rightarrow> Inl ServiceConfigurationError
      | Some token \<Rightarrow>
          (case provided of
             None \<Rightarrow> Inl AuthenticationError
           | Some p \<Rightarrow> bindR (compare_digest p token) (\<lambda>same. if same then Inr () else Inl AuthenticationError)))"

definition valid_token :: "str option \<Rightarrow> str option \<Rightarrow> bool res" where
  "valid_token expected provided =
     (case (truthy_text expected, truthy_text provided) of
        (Some token, Some p) \<Rightarrow> compare_digest p token
      | _ \<Rightarrow> Inr False)"

definition require_any_token :: "str option \<Rightarrow> str option \<Rightarrow> str option \<Rightarrow> str option \<Rightarrow> unit res" where
  "require_any_token b_provided b_expected operator_provided operator_expected =
     bindR (valid_token b_expected b_provided) (\<lambda>b_valid.
     bindR (valid_token operator_expected operator_provided) (\<lambda>operator_valid.
     if b_valid \<or> operator_valid then Inr ()
     else if truthy_text b_expected = None \<and> truthy_text operator_expected = None then Inl ServiceConfigurationError
     else Inl AuthenticationError))"

text \<open>It returns whether or not a token is configured, and raises nothing.\<close>

definition require_operator_if_configured :: "str option \<Rightarrow> unit res" where
  "require_operator_if_configured expected = (if truthy_text expected \<noteq> None then Inr () else Inr ())"

definition guarded :: "unit res \<Rightarrow> ('s, 'a) op \<Rightarrow> ('s, 'a) op" where
  "guarded check m = bindE (liftE check) (\<lambda>_. m)"

section \<open>Parameters\<close>

definition text_param :: "str param \<Rightarrow> nat \<Rightarrow> nat \<Rightarrow> str option" where
  "text_param p lo hi = (case p of Given s \<Rightarrow> if length_between lo hi s then Some s else None | _ \<Rightarrow> None)"

definition optional_text :: "str param \<Rightarrow> nat \<Rightarrow> nat \<Rightarrow> str option option" where
  "optional_text p lo hi = (if p = Absent then Some None else map_option Some (text_param p lo hi))"

definition int_param :: "int param \<Rightarrow> int \<Rightarrow> int \<Rightarrow> int \<Rightarrow> int option" where
  "int_param p fallback lo hi =
     (case p of Absent \<Rightarrow> Some fallback | Unreadable \<Rightarrow> None | Given n \<Rightarrow> if lo \<le> n \<and> n \<le> hi then Some n else None)"

definition plain_param :: "'a param \<Rightarrow> 'a \<Rightarrow> 'a option" where
  "plain_param p fallback = (case p of Absent \<Rightarrow> Some fallback | Unreadable \<Rightarrow> None | Given x \<Rightarrow> Some x)"

definition file_param :: "upload param \<Rightarrow> upload option" where
  "file_param p = (case p of Given f \<Rightarrow> Some f | _ \<Rightarrow> None)"

definition body_param :: "(json \<Rightarrow> 'a option) \<Rightarrow> json option \<Rightarrow> 'a option" where
  "body_param validate body = Option.bind body validate"

text \<open>A handler runs only with valid parameters.\<close>

definition with_param :: "'a option \<Rightarrow> ('a \<Rightarrow> (change_queue, reply) op) \<Rightarrow> (change_queue, reply) op" where
  "with_param p handler = (case p of None \<Rightarrow> retE Unprocessable | Some x \<Rightarrow> handler x)"

section \<open>Answer bodies\<close>

definition dump_status_view :: "analysis_status_view \<Rightarrow> json" where
  "dump_status_view v =
     JObj [(u ''analysis_id'', JStr (av_analysis_id v)), (u ''document_id'', JStr (av_document_id v)), (u ''version'', JInt (av_version v)),
           (u ''attempt'', JInt (av_attempt v)), (u ''state'', d_enum workflow_state_value (av_state v)),
           (u ''candidate_sha256'', JStr (av_candidate_sha256 v)), (u ''changed_by'', JStr (av_changed_by v)),
           (u ''prepared_at'', d_opt JStr (av_prepared_at v)), (u ''latest_request_id'', d_opt JStr (av_latest_request_id v)),
           (u ''latest_policy'', d_opt dump_policy_result (av_latest_policy v)),
           (u ''latest_outcome'', d_opt dump_index_outcome (av_latest_outcome v)),
           (u ''allowed_commands'', d_list (d_enum operator_action_value) (av_allowed_commands v)),
           (u ''audit_chain_valid'', JBool (av_audit_chain_valid v)),
           (u ''supersedes_analysis_id'', d_opt JStr (av_supersedes_analysis_id v))]"

definition dump_command_result :: "operator_command_result \<Rightarrow> json" where
  "dump_command_result r =
     JObj [(u ''command'', dump_operator_command (cr_command r)), (u ''status'', dump_status_view (cr_status r)),
           (u ''outcome'', d_opt dump_index_outcome (cr_outcome r)),
           (u ''replacement_analysis_id'', d_opt JStr (cr_replacement_analysis_id r)),
           (u ''idempotent_replay'', JBool (cr_idempotent_replay r))]"

text \<open>A score is a whole number; its float is written with one decimal.\<close>

definition dump_index_search_hit :: "index_search_hit \<Rightarrow> json" where
  "dump_index_search_hit h =
     JObj [(u ''document_id'', JStr (ih_document_id h)), (u ''sha256'', JStr (ih_sha256 h)), (u ''chunk_index'', JInt (int (ih_chunk_index h))),
           (u ''text'', JStr (ih_text h)), (u ''score'', JFloat (show_nat (ih_score h) @ u ''.0''))]"

definition dump_search_response :: "index_search_response \<Rightarrow> json" where
  "dump_search_response r =
     JObj [(u ''query'', JStr (sr_query r)), (u ''document_id'', d_opt JStr (sr_document_id r)),
           (u ''current_sha256'', d_opt JStr (sr_current_sha256 r)), (u ''results'', d_list dump_index_search_hit (sr_results r))]"

definition dump_current_index :: "current_index_view \<Rightarrow> json" where
  "dump_current_index v = JObj [(u ''document_id'', JStr (cv_document_id v)), (u ''sha256'', d_opt JStr (cv_sha256 v))]"

definition queue_item_json :: "queue_item \<Rightarrow> json" where
  "queue_item_json i = JObj (public_record i)"

definition action_result_json :: "queue_action_result \<Rightarrow> json" where
  "action_result_json r =
     JObj [(u ''id'', JStr (qr_id r)), (u ''action'', JStr (qr_action r)), (u ''path'', JStr (qr_path r)), (u ''message'', JStr (qr_message r))]"

definition restore_result_json :: "nat \<Rightarrow> json" where
  "restore_result_json n =
     JObj [(u ''restored_count'', JInt (int n)),
           (u ''message'', JStr (if n = 0 then [49440, 53469, 54620, 32, 44160, 53664, 32, 44592, 47197, 51008, 32, 51060, 48120, 32, 48373, 44396, 46104, 50612, 32, 51080, 49845, 45768, 45796, 46]
              else show_nat n @ [44148, 51032, 32, 52376, 47532, 32, 44592, 47197, 51012, 32, 49440, 53469, 54620, 32, 44160, 53664, 32, 51060, 51204, 32, 49345, 53468, 47196, 32, 48373, 44396, 54664, 49845, 45768, 45796, 46]))]"

section \<open>Handlers\<close>

definition answering :: "('a \<Rightarrow> json) \<Rightarrow> (change_queue, 'a) op \<Rightarrow> (change_queue, reply) op" where
  "answering dump m = bindE m (\<lambda>x. retE (Reply (dump x)))"

text \<open>\<^verbatim>\<open>except KeyError: raise HTTPException(404)\<close>.\<close>

definition or_not_found :: "str \<Rightarrow> (change_queue, reply) op \<Rightarrow> (change_queue, reply) op" where
  "or_not_found detail m = tryE m (\<lambda>e. if e = KeyError then retE (NotFound detail) else raiseE e) retE"

definition item_missing :: str where "item_missing = u ''review queue item not found''"
definition entry_missing :: str where "entry_missing = u ''review history entry not found''"

definition queue_action :: "gateway \<Rightarrow> str \<Rightarrow> (change_queue, reply) op \<Rightarrow> (change_queue, reply) op" where
  "queue_action C detail m = guarded (require_operator_if_configured (gc_operator_token C)) (or_not_found detail m)"

definition filename_or :: "str \<Rightarrow> upload \<Rightarrow> str" where
  "filename_or fallback f = (case truthy_text (up_filename f) of None \<Rightarrow> fallback | Some name \<Rightarrow> name)"

definition finalize_legacy :: "gateway \<Rightarrow> str \<Rightarrow> policy_result \<Rightarrow> (index_store world, analysis_status_view) op" where
  "finalize_legacy C aid policy =
     bindE (ensure_request (gw_env C) aid) (\<lambda>request.
     submit_policy_result (sqlite_indexer (gw_env C)) (gw_env C) aid
       \<lparr>sb_request_id = rq_request_id request, sb_submitted_by = u ''legacy-b-api'', sb_policy = policy\<rparr>)"

definition dispatch_configured :: "gateway \<Rightarrow> str \<Rightarrow> (index_store world, analysis_status_view) op" where
  "dispatch_configured C aid =
     (case gc_analyzer C of
        None \<Rightarrow> raiseE ServiceConfigurationError
      | Some analyzer \<Rightarrow> dispatch (sqlite_indexer (gw_env C)) (gw_env C) aid analyzer)"

definition update_handler :: "int param \<Rightarrow> rat param \<Rightarrow> (change_queue, reply) op" where
  "update_handler after_revision wait_seconds =
     with_param (plain_param after_revision (- 1)) (\<lambda>after.
     with_param (plain_param wait_seconds 55) (\<lambda>seconds.
     answering (\<lambda>(revision, items). JObj [(u ''revision'', JInt (int revision)), (u ''items'', d_list queue_item_json items)]) queue_update))"

definition prepare_handler :: "gateway \<Rightarrow> str param \<Rightarrow> upload param \<Rightarrow> upload param \<Rightarrow> str param \<Rightarrow> (change_queue, reply) op" where
  "prepare_handler C document_id baseline candidate changed_by =
     with_param (text_param document_id 1 200) (\<lambda>d.
     with_param (file_param baseline) (\<lambda>old.
     with_param (file_param candidate) (\<lambda>new.
     with_param (if changed_by = Absent then Some (u ''api-user'') else text_param changed_by 1 200) (\<lambda>by'.
     answering dump_prepared_analysis (worldE (prepare_streams (qe_blobs (gc_queue C)) (indexguard_extraction (gc_registry C)) (gw_env C) d
       (up_bytes old) (filename_or (u ''baseline'') old) (up_bytes new) (filename_or (u ''candidate'') new) by' None))))))"

definition submit_handler :: "gateway \<Rightarrow> str option \<Rightarrow> str \<Rightarrow> json option \<Rightarrow> (change_queue, reply) op" where
  "submit_handler C b aid body =
     with_param (body_param validate_policy_submission body) (\<lambda>submission.
     guarded (require_token b (gc_b_token C))
       (answering dump_status_view (worldE (submit_policy_result (sqlite_indexer (gw_env C)) (gw_env C) aid submission))))"

definition finalize_handler :: "gateway \<Rightarrow> str option \<Rightarrow> str \<Rightarrow> json option \<Rightarrow> (change_queue, reply) op" where
  "finalize_handler C b aid body =
     with_param (body_param validate_policy_result body) (\<lambda>policy.
     guarded (require_token b (gc_b_token C)) (answering dump_status_view (worldE (finalize_legacy C aid policy))))"

definition request_handler :: "gateway \<Rightarrow> str option \<Rightarrow> str \<Rightarrow> (change_queue, reply) op" where
  "request_handler C b aid =
     guarded (require_token b (gc_b_token C)) (answering dump_risk_analysis_request (worldE (get_request (gw_env C) aid None)))"

definition dispatch_handler :: "gateway \<Rightarrow> str option \<Rightarrow> str \<Rightarrow> (change_queue, reply) op" where
  "dispatch_handler C operator aid =
     guarded (require_token operator (gc_operator_token C)) (answering dump_status_view (worldE (dispatch_configured C aid)))"

definition command_handler :: "gateway \<Rightarrow> str option \<Rightarrow> str \<Rightarrow> json option \<Rightarrow> (change_queue, reply) op" where
  "command_handler C operator aid body =
     with_param (body_param validate_operator_command body) (\<lambda>command.
     guarded (require_token operator (gc_operator_token C))
       (answering dump_command_result (worldE (execute_command (sqlite_indexer (gw_env C)) (gw_env C) aid command))))"

definition analysis_handler :: "gateway \<Rightarrow> str option \<Rightarrow> str option \<Rightarrow> str \<Rightarrow> (change_queue, reply) op" where
  "analysis_handler C b operator aid =
     guarded (require_any_token b (gc_b_token C) operator (gc_operator_token C))
       (answering dump_prepared_analysis (worldE (get_prepared aid)))"

definition search_handler :: "gateway \<Rightarrow> str option \<Rightarrow> str param \<Rightarrow> int param \<Rightarrow> str param \<Rightarrow> (change_queue, reply) op" where
  "search_handler C operator q limit document_id =
     with_param (text_param q 1 2000) (\<lambda>query.
     with_param (int_param limit 5 1 50) (\<lambda>n.
     with_param (optional_text document_id 1 200) (\<lambda>d.
     guarded (require_token operator (gc_operator_token C))
       (answering dump_search_response (worldE (search_snapshot (gw_env C) query n d))))))"

definition current_handler :: "gateway \<Rightarrow> str option \<Rightarrow> str param \<Rightarrow> (change_queue, reply) op" where
  "current_handler C operator document_id =
     with_param (text_param document_id 1 200) (\<lambda>d.
     guarded (require_token operator (gc_operator_token C)) (answering dump_current_index (worldE (current_index d))))"

definition review_handler :: "gateway \<Rightarrow> str option \<Rightarrow> (change_queue, reply) op" where
  "review_handler C operator =
     guarded (require_token operator (gc_operator_token C))
       (answering dump_review_report (worldE (review (gc_review C) (gw_env C) 12)))"

lemmas handler_defs = update_handler_def prepare_handler_def submit_handler_def finalize_handler_def request_handler_def
  dispatch_handler_def command_handler_def analysis_handler_def search_handler_def current_handler_def review_handler_def

declare handler_defs [simp]

fun handle :: "gateway \<Rightarrow> str option \<Rightarrow> str option \<Rightarrow> route \<Rightarrow> (change_queue, reply) op" where
  "handle C b op Health = retE (Reply (JObj [(u ''status'', JStr (u ''ok'')), (u ''service'', JStr (u ''document-gateway''))]))"
| "handle C b op ListReviewQueue = answering (d_list queue_item_json) (poll_once (gw_queue C))"
| "handle C b op (WaitForUpdate after_revision wait_seconds) = update_handler after_revision wait_seconds"
| "handle C b op (GetQueueItem k) = or_not_found item_missing (answering queue_item_json (get_item k))"
| "handle C b op (AcceptItem k) = queue_action C item_missing (answering action_result_json (accept (gw_queue C) k))"
| "handle C b op (RejectItem k) = queue_action C item_missing (answering action_result_json (reject (gw_queue C) k))"
| "handle C b op (HoldItem k) = queue_action C item_missing (answering queue_item_json (hold_for_review (gw_queue C) k))"
| "handle C b op ListHistory = answering (d_list (\<lambda>h. JObj (public_history h))) list_history"
| "handle C b op (RestoreHistory h) = queue_action C entry_missing (answering restore_result_json (restore_history_before (gw_queue C) h))"
| "handle C b op (PrepareUpload document_id baseline candidate changed_by) = prepare_handler C document_id baseline candidate changed_by"
| "handle C b op (SubmitResult aid body) = submit_handler C b aid body"
| "handle C b op (FinalizeResult aid body) = finalize_handler C b aid body"
| "handle C b op (ListAnalyses limit) =
     with_param (int_param limit 100 1 200) (\<lambda>n. answering (d_list dump_status_view) (worldE (list_statuses (gw_env C) n)))"
| "handle C b op (GetStatus aid) = answering dump_status_view (worldE (get_status (gw_env C) aid))"
| "handle C b op (GetAnalysisRequest aid) = request_handler C b aid"
| "handle C b op (DispatchAnalysis aid) = dispatch_handler C op aid"
| "handle C b op (ExecuteCommand aid body) = command_handler C op aid body"
| "handle C b op (GetAnalysis aid) = analysis_handler C b op aid"
| "handle C b op (SearchIndex q limit document_id) = search_handler C op q limit document_id"
| "handle C b op (CurrentIndex document_id) = current_handler C op document_id"
| "handle C b op ReviewRepository = review_handler C op"

section \<open>Fail-closed answers\<close>

definition fail_closed_payload :: "str \<Rightarrow> str \<Rightarrow> (str \<times> json) list \<Rightarrow> bool \<Rightarrow> json" where
  "fail_closed_payload code message details retry =
     JObj [(u ''analysis_status'', d_enum analysis_status_value FAILED), (u ''decision'', d_enum decision_value BLOCK),
           (u ''risk_score'', JNull), (u ''risk_score_source'', JStr (u ''not_calculated_by_gateway'')),
           (u ''findings'', JArr [dump_finding \<lparr>fi_type = code, fi_before = None, fi_after = None, fi_reason = message,
              fi_severity = None, fi_source = None, fi_location = None\<rparr>]),
           (u ''index_action'', d_enum index_action_value QUARANTINE),
           (u ''error'', JObj ([(u ''code'', JStr code), (u ''message'', JStr message), (u ''retryable'', JBool retry)] @ details))]"

definition error_answer :: "env \<Rightarrow> err \<Rightarrow> http_answer" where
  "error_answer E e =
     (case (error_code e, status_code e) of
        (Some code, Some status) \<Rightarrow>
          \<lparr>ha_status = status, ha_body = fail_closed_payload code (en_error_text E e) [] (retryable e)\<rparr>
      | _ \<Rightarrow> \<lparr>ha_status = 500, ha_body = fail_closed_payload (u ''INTERNAL_GATEWAY_ERROR'')
               (u ''the gateway could not complete the request safely'') [] True\<rparr>)"

definition invalid_answer :: "(str list \<times> str \<times> str) list \<Rightarrow> http_answer" where
  "invalid_answer items =
     \<lparr>ha_status = 422, ha_body = fail_closed_payload (u ''INVALID_REQUEST'') (u ''request does not match the gateway contract'')
        [(u ''details'', JArr (map (\<lambda>(loc, msg, kind). JObj [(u ''loc'', JArr (map JStr loc)), (u ''msg'', JStr msg), (u ''type'', JStr kind)]) items))]
        False\<rparr>"

definition answer_of :: "gateway \<Rightarrow> route \<Rightarrow> reply res \<Rightarrow> http_answer" where
  "answer_of C route r =
     (case r of
        Inr (Reply j) \<Rightarrow> \<lparr>ha_status = 200, ha_body = j\<rparr>
      | Inr (NotFound detail) \<Rightarrow> \<lparr>ha_status = 404, ha_body = JObj [(u ''detail'', JStr detail)]\<rparr>
      | Inr Unprocessable \<Rightarrow> invalid_answer (gc_invalid C route)
      | Inl e \<Rightarrow> error_answer (gw_env C) e)"

definition respond :: "gateway \<Rightarrow> http_request \<Rightarrow> change_queue \<Rightarrow> http_answer \<times> change_queue" where
  "respond C rq s =
     (case handle C (hr_b_token rq) (hr_operator_token rq) (hr_route rq) s of (r, t) \<Rightarrow> (answer_of C (hr_route rq) r, t))"

end
