(* ===== verification/BServices.thy ===== *)
theory BServices
  imports HttpGateway
begin

text \<open>
  The tools B reaches over MCP (\<^verbatim>\<open>mcp_server.py\<close>) and B's own HTTP service (\<^verbatim>\<open>risk_api.py\<close>).  A tool call arrives parsed
  by the MCP library, which passes the default of an argument that is left out.
\<close>

section \<open>MCP tools\<close>

datatype mcp_call =
    ListPendingAnalyses int
  | GetAnalysisInput str str
  | SubmitPolicyResult str policy_submission
  | GetAnalysisStatus str

definition default_pending_limit :: int where "default_pending_limit = 50"

fun mcp_tool :: "env \<Rightarrow> mcp_call \<Rightarrow> (index_store world, json) op" where
  "mcp_tool E (ListPendingAnalyses limit) =
     bindE (list_pending_requests E limit) (\<lambda>requests.
     retE (JObj [(u ''count'', JInt (int (length requests))), (u ''analyses'', d_list dump_risk_analysis_request requests)]))"
| "mcp_tool E (GetAnalysisInput aid rid) = bindE (get_request E aid (Some rid)) (\<lambda>request. retE (dump_risk_analysis_request request))"
| "mcp_tool E (SubmitPolicyResult aid submission) =
     bindE (submit_policy_result (sqlite_indexer E) E aid submission) (\<lambda>status. retE (dump_status_view status))"
| "mcp_tool E (GetAnalysisStatus aid) = bindE (get_status E aid) (\<lambda>status. retE (dump_status_view status))"

text \<open>\<^verbatim>\<open>_mcp_port\<close>: \<open>parse\<close> is Python's \<^verbatim>\<open>int()\<close> on a text, \<open>raw\<close> the environment variable.\<close>

definition default_mcp_port :: int where "default_mcp_port = 8001"

definition mcp_port :: "(str \<Rightarrow> int option) \<Rightarrow> str option \<Rightarrow> int res" where
  "mcp_port parse raw =
     (case parse (case raw of None \<Rightarrow> show_int default_mcp_port | Some r \<Rightarrow> r) of
        None \<Rightarrow> Inl ValueError
      | Some port \<Rightarrow> if \<not> (1 \<le> port \<and> port \<le> 65535) then Inl ValueError else Inr port)"

lemma mcp_tool_quiet: "steps (quiet ix_inv versions E) (mcp_tool E call)"
  by (cases call; simp)
     (intro quiet_rules get_request_quiet sqlite.submit_quiet pure_quiet list_pending_pure pure_rules)+

section \<open>B's HTTP service\<close>

text \<open>The check of the \<^verbatim>\<open>Authorization\<close> header; \<open>BearerRefused\<close> is the service's 401.\<close>

datatype bearer = BearerAccepted | BearerRefused

definition require_bearer_token :: "unicode_db \<Rightarrow> str option \<Rightarrow> str option \<Rightarrow> bearer res" where
  "require_bearer_token U provided expected =
     (case truthy_text expected of
        None \<Rightarrow> Inr BearerAccepted
      | Some token \<Rightarrow>
          let (scheme, separator, rest) = partition_at 32 (case provided of None \<Rightarrow> [] | Some p \<Rightarrow> p)
          in if \<not> separator \<or> casefold U scheme \<noteq> u ''bearer'' then Inr BearerRefused
             else bindR (compare_digest rest token) (\<lambda>same. Inr (if same then BearerAccepted else BearerRefused)))"

record risk_service =
  rs_udb :: unicode_db
  rs_token :: "str option"
  rs_engine :: risk_engine

definition default_submitter :: str where "default_submitter = u ''indexguard-risk-engine-v1''"

definition analysis_failure :: "risk_analysis_request \<Rightarrow> err \<Rightarrow> policy_submission" where
  "analysis_failure request e =
     fail_closed_submission request (u ''ANALYSIS_FAILURE'') (u ''B could not complete analysis safely; candidate is quarantined.'')
       (u ''indexguard-risk-engine-fail-closed'') (Some [(u ''error_type'', JStr (exn_name e))])"

definition risk_analyze :: "risk_service \<Rightarrow> risk_analysis_request \<Rightarrow> policy_submission" where
  "risk_analyze S request =
     (case analyze (rs_udb S) (rs_engine S) request of Inl e \<Rightarrow> analysis_failure request e | Inr submission \<Rightarrow> submission)"

text \<open>
  \<^verbatim>\<open>POST /analyze\<close>: the status and, for 200, the submission.  A body that is no request is refused with 422 before the
  token is looked at; an exception out of the token check is the framework's 500.
\<close>

definition analyze_route :: "risk_service \<Rightarrow> str option \<Rightarrow> json option \<Rightarrow> nat \<times> policy_submission option" where
  "analyze_route S authorization body =
     (case body_param validate_risk_analysis_request body of
        None \<Rightarrow> (422, None)
      | Some request \<Rightarrow>
          (case require_bearer_token (rs_udb S) authorization (rs_token S) of
             Inl e \<Rightarrow> (500, None)
           | Inr BearerRefused \<Rightarrow> (401, None)
           | Inr BearerAccepted \<Rightarrow> (200, Some (risk_analyze S request))))"

definition llm_enabled :: "unicode_db \<Rightarrow> str option \<Rightarrow> bool res" where
  "llm_enabled U raw =
     (let value = casefold U (strip (case raw of None \<Rightarrow> u ''false'' | Some r \<Rightarrow> r)) in
      if value \<notin> {u ''true'', u ''false'', u ''1'', u ''0'', u ''yes'', u ''no''} then Inl ValueError
      else Inr (value \<in> {u ''true'', u ''1'', u ''yes''}))"

text \<open>\<^verbatim>\<open>_engine_from_environment\<close>; \<open>build_judge\<close> is \<^verbatim>\<open>OpenAIRiskJudge.from_environment\<close>.\<close>

definition engine_from_environment ::
  "unicode_db \<Rightarrow> risk_judge res \<Rightarrow> str option \<Rightarrow> str option \<Rightarrow> risk_engine res" where
  "engine_from_environment U build_judge enabled submitted_by =
     bindR (llm_enabled U enabled) (\<lambda>on.
     bindR (if on then bindR build_judge (\<lambda>j. Inr (Some j)) else Inr None) (\<lambda>judge.
     risk_engine_init judge (case submitted_by of None \<Rightarrow> default_submitter | Some name \<Rightarrow> name)))"

section \<open>The service as an analyzer\<close>

lemma suffixes_appendI: "p = q @ t \<Longrightarrow> suffixes_str t p"
  by (simp add: suffixes_str_def)

lemma analysis_failure_safe:
  "sb_request_id (analysis_failure rq e) = rq_request_id rq \<and>
   po_candidate_sha256 (sb_policy (analysis_failure rq e)) = Some (rq_candidate_sha256 rq) \<and>
   check_policy_submission (analysis_failure rq e) \<and> check_policy_result (sb_policy (analysis_failure rq e)) \<and>
   po_analysis_status (sb_policy (analysis_failure rq e)) = FAILED"
  using fail_closed_safe
  by (auto simp: analysis_failure_def fail_closed_submission_def check_policy_submission_def u_def)

lemma risk_analyze_bound:
  assumes "length_between 1 200 (re_submitted_by (rs_engine S))"
  shows "sb_request_id (risk_analyze S rq) = rq_request_id rq \<and>
    po_candidate_sha256 (sb_policy (risk_analyze S rq)) = Some (rq_candidate_sha256 rq) \<and>
    check_policy_submission (risk_analyze S rq) \<and> check_policy_result (sb_policy (risk_analyze S rq))"
  using analyze_bound[OF _ assms] analysis_failure_safe[of rq] by (auto simp: risk_analyze_def split: sum.splits)

text \<open>B's service, built once from its environment, satisfies what the gateway's workflow relies on in an analyzer.\<close>

definition service_analyzer ::
  "unicode_db \<Rightarrow> risk_judge res \<Rightarrow> str option \<Rightarrow> str option \<Rightarrow> risk_analysis_request \<Rightarrow> policy_submission res" where
  "service_analyzer U build_judge enabled submitted_by rq =
     bindR (engine_from_environment U build_judge enabled submitted_by) (\<lambda>eng.
     Inr (risk_analyze \<lparr>rs_udb = U, rs_token = None, rs_engine = eng\<rparr> rq))"

lemma environment_engine_name:
  "engine_from_environment U build_judge enabled submitted_by = Inr eng \<Longrightarrow> length_between 1 200 (re_submitted_by eng)"
  by (auto simp: engine_from_environment_def bindR_Inr_iff dest: engine_init_name)

interpretation service: bound_analyzer "service_analyzer U build_judge enabled submitted_by" for U build_judge enabled submitted_by
proof
  fix r s
  assume "service_analyzer U build_judge enabled submitted_by r = Inr s"
  then obtain eng where "engine_from_environment U build_judge enabled submitted_by = Inr eng"
    "s = risk_analyze \<lparr>rs_udb = U, rs_token = None, rs_engine = eng\<rparr> r"
    by (auto simp: service_analyzer_def bindR_Inr_iff)
  then show "sb_request_id s = rq_request_id r \<and> po_candidate_sha256 (sb_policy s) = Some (rq_candidate_sha256 r) \<and>
      check_policy_submission s \<and> check_policy_result (sb_policy s)"
    using risk_analyze_bound[of "\<lparr>rs_udb = U, rs_token = None, rs_engine = eng\<rparr>"] environment_engine_name by auto
qed

section \<open>Properties\<close>

text \<open>C40: B's service fails closed: it answers 200 exactly to a valid request with an accepted token, and then with a
  valid submission bound to the request and its candidate, whatever the engine and its judge do; when the engine raises
  the submission is a failed analysis, BLOCK and QUARANTINE.  With a configured token a request without the token is never
  answered 200.\<close>

theorem risk_service_fails_closed:
  "case engine_from_environment U build_judge enabled submitted_by of
     Inl e \<Rightarrow> True
   | Inr eng \<Rightarrow>
       (case analyze_route \<lparr>rs_udb = U, rs_token = token, rs_engine = eng\<rparr> authorization body of
          (status, None) \<Rightarrow> status \<in> {401, 422, 500}
        | (status, Some s) \<Rightarrow> status = 200 \<and>
            (case body_param validate_risk_analysis_request body of
               None \<Rightarrow> False
             | Some rq \<Rightarrow>
                 sb_request_id s = rq_request_id rq \<and> po_candidate_sha256 (sb_policy s) = Some (rq_candidate_sha256 rq) \<and>
                 check_policy_submission s \<and> check_policy_result (sb_policy s) \<and>
                 (case analyze U eng rq of
                    Inl e \<Rightarrow> po_analysis_status (sb_policy s) = FAILED \<and> po_decision (sb_policy s) = BLOCK \<and>
                      po_index_action (sb_policy s) = QUARANTINE
                  | Inr answer \<Rightarrow> s = answer)) \<and>
            (case truthy_text token of
               None \<Rightarrow> True
             | Some t \<Rightarrow> (case authorization of None \<Rightarrow> False | Some p \<Rightarrow> suffixes_str t p)))"
proof (cases "engine_from_environment U build_judge enabled submitted_by")
  case (Inr eng)
  let ?S = "\<lparr>rs_udb = U, rs_token = token, rs_engine = eng\<rparr>"
  have token: "case truthy_text token of None \<Rightarrow> True | Some t \<Rightarrow> (case authorization of None \<Rightarrow> False | Some p \<Rightarrow> suffixes_str t p)"
    if "require_bearer_token U authorization token = Inr BearerAccepted"
  proof (cases authorization)
    case None
    with that show ?thesis by (auto simp: require_bearer_token_def partition_at_def Let_def split: option.splits)
  next
    case (Some p)
    have "\<exists>q. p = q @ drop 1 (dropWhile (\<lambda>c. c \<noteq> 32) p)"
      by (metis append.assoc append_take_drop_id takeWhile_dropWhile_id)
    then have "suffixes_str (drop 1 (dropWhile (\<lambda>c. c \<noteq> 32) p)) p" by (auto intro: suffixes_appendI)
    with that Some show ?thesis
      by (auto simp: require_bearer_token_def partition_at_def Let_def bindR_Inr_iff compare_digest_def split: if_splits option.splits)
  qed
  have answer: "case analyze U eng rq of
      Inl e \<Rightarrow> po_analysis_status (sb_policy (risk_analyze ?S rq)) = FAILED \<and> po_decision (sb_policy (risk_analyze ?S rq)) = BLOCK \<and>
        po_index_action (sb_policy (risk_analyze ?S rq)) = QUARANTINE
    | Inr answer \<Rightarrow> risk_analyze ?S rq = answer" for rq
    by (simp add: risk_analyze_def analysis_failure_def fail_closed_submission_def split: sum.splits)
  have name: "length_between 1 200 (re_submitted_by (rs_engine ?S))" using environment_engine_name[OF Inr] by simp
  show ?thesis
  proof (cases "body_param validate_risk_analysis_request body")
    case None
    with Inr show ?thesis by (simp add: analyze_route_def)
  next
    case (Some rq)
    show ?thesis
    proof (cases "require_bearer_token U authorization token")
      case (Inl e)
      with Inr Some show ?thesis by (simp add: analyze_route_def)
    next
      case i: (Inr b)
      with Inr Some risk_analyze_bound[OF name, of rq] answer[of rq] token show ?thesis
        by (cases b) (simp_all add: analyze_route_def)
    qed
  qed
qed simp

end
