(* ===== verification/HttpSafety.thy ===== *)
theory HttpSafety
  imports BServices
begin

text \<open>
  Who may change what through the gateway's HTTP surface, what a refused request leaves behind, and the gateway as a
  whole: HTTP requests, MCP tools of B, the queue's background work and outside changes of files, in any order.
\<close>

section \<open>Admission\<close>

text \<open>The token check of a route.\<close>

fun admission :: "gateway \<Rightarrow> str option \<Rightarrow> str option \<Rightarrow> route \<Rightarrow> unit res" where
  "admission C b op (SubmitResult aid body) = require_token b (gc_b_token C)"
| "admission C b op (FinalizeResult aid body) = require_token b (gc_b_token C)"
| "admission C b op (GetAnalysisRequest aid) = require_token b (gc_b_token C)"
| "admission C b op (DispatchAnalysis aid) = require_token op (gc_operator_token C)"
| "admission C b op (ExecuteCommand aid body) = require_token op (gc_operator_token C)"
| "admission C b op (SearchIndex q limit d) = require_token op (gc_operator_token C)"
| "admission C b op (CurrentIndex d) = require_token op (gc_operator_token C)"
| "admission C b op ReviewRepository = require_token op (gc_operator_token C)"
| "admission C b op (GetAnalysis aid) = require_any_token b (gc_b_token C) op (gc_operator_token C)"
| "admission C b op _ = Inr ()"

lemma compare_digest_Inl: "compare_digest a b = Inl e \<Longrightarrow> e = TypeError"
  by (simp add: compare_digest_def split: if_splits)

lemma compare_digest_Inr: "compare_digest a b = Inr x \<Longrightarrow> x \<longleftrightarrow> a = b"
  by (simp add: compare_digest_def split: if_splits)

lemma require_token_Inl: "require_token p t = Inl e \<Longrightarrow> e \<in> {AuthenticationError, ServiceConfigurationError, TypeError}"
  by (auto simp: require_token_def bindR_def dest: compare_digest_Inl split: option.splits sum.splits if_splits)

lemma require_token_Inr: "require_token p t = Inr () \<Longrightarrow> p = t \<and> truthy_text t = t \<and> t \<noteq> None"
  by (auto simp: require_token_def bindR_Inr_iff truthy_text_def dest!: compare_digest_Inr split: option.splits list.splits if_splits)

lemma require_any_Inl:
  "require_any_token b tb op to = Inl e \<Longrightarrow> e \<in> {AuthenticationError, ServiceConfigurationError, TypeError}"
  by (auto simp: require_any_token_def valid_token_def bindR_def dest: compare_digest_Inl
      split: option.splits sum.splits if_splits)

lemma admission_Inl: "admission C b op route = Inl e \<Longrightarrow> e \<in> {AuthenticationError, ServiceConfigurationError, TypeError}"
  by (cases route) (auto dest: require_token_Inl require_any_Inl)

lemma guarded_Inl: "guarded (Inl e) m s = (Inl e, s)"
  by (simp add: guarded_def bindE_def liftE_def)

lemma with_param_guarded:
  "with_param p (\<lambda>x. guarded (Inl e) (f x)) s = (Inr Unprocessable, s) \<or> with_param p (\<lambda>x. guarded (Inl e) (f x)) s = (Inl e, s)"
  by (cases p) (simp_all add: with_param_def guarded_Inl retE_def)

lemma refused_unchanged:
  "admission C b op route = Inl e \<Longrightarrow> handle C b op route s = (Inr Unprocessable, s) \<or> handle C b op route s = (Inl e, s)"
proof (cases route)
  case (SearchIndex q limit d)
  assume "admission C b op route = Inl e"
  with SearchIndex show ?thesis
    by (auto simp: with_param_def guarded_Inl retE_def split: option.splits)
next
  case (CurrentIndex d)
  assume "admission C b op route = Inl e"
  with CurrentIndex show ?thesis by (simp add: with_param_guarded)
qed (simp_all add: with_param_guarded guarded_Inl)

section \<open>Fail-closed answers\<close>

definition fail_closed :: "json \<Rightarrow> bool" where
  "fail_closed j \<longleftrightarrow>
     jget (u ''analysis_status'') j = Some (JStr (u ''FAILED'')) \<and> jget (u ''decision'') j = Some (JStr (u ''BLOCK'')) \<and>
     jget (u ''index_action'') j = Some (JStr (u ''QUARANTINE''))"

lemma payload_fail_closed: "fail_closed (fail_closed_payload code message details retry)"
  by (simp add: fail_closed_def fail_closed_payload_def d_enum_def u_def)

lemma error_answer_status: "ha_status (error_answer E e) = (case status_code e of None \<Rightarrow> 500 | Some n \<Rightarrow> n)"
  using status_code_Some_iff[of e] by (auto simp: error_answer_def is_indexguard_error_def split: option.splits)

lemma error_answer_closed: "fail_closed (ha_body (error_answer E e)) \<and> 400 \<le> ha_status (error_answer E e)"
proof
  show "fail_closed (ha_body (error_answer E e))"
    by (simp add: error_answer_def payload_fail_closed split: option.splits)
  show "400 \<le> ha_status (error_answer E e)" unfolding error_answer_status by (cases e) simp_all
qed

lemma invalid_answer_closed: "fail_closed (ha_body (invalid_answer items)) \<and> ha_status (invalid_answer items) = 422"
  by (simp add: invalid_answer_def payload_fail_closed)

fun queue_entry_route :: "route \<Rightarrow> bool" where
  "queue_entry_route (GetQueueItem k) = True"
| "queue_entry_route (AcceptItem k) = True"
| "queue_entry_route (RejectItem k) = True"
| "queue_entry_route (HoldItem k) = True"
| "queue_entry_route (RestoreHistory h) = True"
| "queue_entry_route _ = False"

lemma answering_found: "fst (answering dump m s) \<noteq> Inr (NotFound d)"
  by (cases "m s", cases "fst (m s)") (auto simp: answering_def retE_def)

lemma guarded_found: "(\<And>s. fst (m s) \<noteq> Inr (NotFound d)) \<Longrightarrow> fst (guarded check m s) \<noteq> Inr (NotFound d)"
  by (cases check) (auto simp: guarded_def bindE_def liftE_def)

lemma with_param_found: "(\<And>x s. fst (f x s) \<noteq> Inr (NotFound d)) \<Longrightarrow> fst (with_param p f s) \<noteq> Inr (NotFound d)"
  by (cases p) (simp_all add: with_param_def retE_def)

lemma only_queue_404: "\<not> queue_entry_route route \<Longrightarrow> fst (handle C b op route s) \<noteq> Inr (NotFound d)"
  by (cases route) (simp_all add: retE_def answering_found guarded_found with_param_found)

section \<open>Effects of single requests\<close>

text \<open>
  \<open>gw_step E A\<close>: the audit log only grows, the invariants of the tables are kept, and a version that is new is one that
  \<open>A\<close> allows.
\<close>

definition gw_step :: "env \<Rightarrow> (str \<times> str \<Rightarrow> bool) \<Rightarrow> change_queue \<Rightarrow> change_queue \<Rightarrow> bool" where
  "gw_step E A s t \<longleftrightarrow>
     au_grows (w_audit (q_world s)) (w_audit (q_world t)) \<and>
     (au_inv E (w_audit (q_world s)) \<longrightarrow> au_inv E (w_audit (q_world t))) \<and>
     (ix_inv (w_index (q_world s)) \<longrightarrow> ix_inv (w_index (q_world t))) \<and>
     (\<forall>k\<in>versions (w_index (q_world t)). k \<in> versions (w_index (q_world s)) \<or> A k)"

lemma gw_step_preorder: "preorderR (gw_step E A)"
  by (rule preorderRI) (force simp: gw_step_def intro: au_grows_trans)+


text \<open>The structure of a handler keeps a step relation of the operation it runs.\<close>

lemmas gw_rules = steps_retE[OF gw_step_preorder] steps_raiseE[OF gw_step_preorder] steps_bindE[OF gw_step_preorder]
  steps_liftE[OF gw_step_preorder] steps_tryE[OF gw_step_preorder] steps_if steps_case_option

lemma answering_step: "steps (gw_step E A) m \<Longrightarrow> steps (gw_step E A) (answering dump m)"
  unfolding answering_def by (intro gw_rules)

lemma guarded_step: "steps (gw_step E A) m \<Longrightarrow> steps (gw_step E A) (guarded check m)"
  unfolding guarded_def by (intro gw_rules)

lemma not_found_step: "steps (gw_step E A) m \<Longrightarrow> steps (gw_step E A) (or_not_found detail m)"
  unfolding or_not_found_def by (intro gw_rules)

lemma queue_action_step: "steps (gw_step E A) m \<Longrightarrow> steps (gw_step E A) (queue_action C detail m)"
  unfolding queue_action_def by (intro guarded_step not_found_step)

lemma with_param_step: "(\<And>x. steps (gw_step E A) (f x)) \<Longrightarrow> steps (gw_step E A) (with_param p f)"
  unfolding with_param_def by (intro gw_rules)

lemma kept_gw: "steps queue_kept m \<Longrightarrow> (\<And>k. watched (fst k) \<Longrightarrow> A k) \<Longrightarrow> steps (gw_step E A) m"
  by (rule stepsI, drule (1) stepsD) (force simp: queue_kept_def world_kept_def gw_step_def)

lemma pure_gw: "pureE m \<Longrightarrow> steps (gw_step E A) m"
  by (rule stepsI) (metis pureE_def preorderR_refl[OF gw_step_preorder] snd_conv)

lemma pure_readE: "pureE (readE f)"
  by (simp add: pureE_def readE_def)

lemma readers_pure: "pureE (get_item k)" "pureE list_history" "pureE queue_update"
  unfolding get_item_def get_raw_def list_history_def queue_update_def list_items_def by (intro pure_rules pure_readE)+

lemma quiet_gw: "steps (quiet ix_inv versions E) m \<Longrightarrow> steps (gw_step E A) (worldE m)"
  by (rule stepsI)
     (auto simp: worldE_def onE_run quiet_def evolves_def shrinks_def gw_step_def dest!: stepsD)

lemma gw_queue_names: "extraction_names (gw_queue C)"
  by (rule queue_extract_names[of _ "gc_registry C"]) (simp add: gw_queue_def)

lemma review_quiet: "steps (quiet ix_inv versions E) (review V E' n)"
  unfolding review_def by (intro quiet_rules next_uuid_quiet utc_now_quiet pure_quiet pure_rules)

lemma finalize_legacy_quiet: "steps (quiet ix_inv versions (gw_env C)) (finalize_legacy C aid policy)"
  unfolding finalize_legacy_def by (intro quiet_rules ensure_request_quiet sqlite.submit_quiet)

lemma dispatch_configured_quiet: "steps (quiet ix_inv versions (gw_env C)) (dispatch_configured C aid)"
  unfolding dispatch_configured_def by (intro quiet_rules sqlite.dispatch_quiet)

lemma pure_prod: "(\<And>a b. pureE (f a b)) \<Longrightarrow> pureE (case x of (a, b) \<Rightarrow> f a b)"
  by (cases x) simp

lemma search_pure: "pureE (search_snapshot E q n d)"
  unfolding search_snapshot_def Let_def by (intro pure_rules pure_prod)

lemma current_pure: "pureE (current_index d)" and prepared_pure: "pureE (get_prepared aid)"
  unfolding current_index_def get_prepared_def Let_def by (intro pure_rules)+

text \<open>The routes through which the review queue acts.\<close>

fun queue_route :: "route \<Rightarrow> bool" where
  "queue_route ListReviewQueue = True"
| "queue_route (AcceptItem k) = True"
| "queue_route (RejectItem k) = True"
| "queue_route (HoldItem k) = True"
| "queue_route (RestoreHistory h) = True"
| "queue_route _ = False"

lemma queue_route_step:
  "queue_route route \<Longrightarrow> steps (gw_step (gw_env C) (\<lambda>k. watched (fst k))) (handle C b op route)"
  by (cases route; simp; intro answering_step queue_action_step kept_gw poll_kept accept_kept reject_kept hold_kept
      restore_kept gw_queue_names; assumption)

lemma other_route_step:
  "\<not> queue_route route \<Longrightarrow> (\<And>aid body. route \<noteq> ExecuteCommand aid body) \<Longrightarrow>
   steps (gw_step (gw_env C) (\<lambda>_. False)) (handle C b op route)"
proof (cases route)
  case (ExecuteCommand aid body)
  assume "\<And>aid body. route \<noteq> ExecuteCommand aid body"
  with ExecuteCommand show ?thesis by blast
next
  case (WaitForUpdate after_revision seconds)
  show ?thesis unfolding WaitForUpdate handle.simps handler_defs by (intro with_param_step answering_step pure_gw readers_pure)
next
  case (PrepareUpload d old new by')
  show ?thesis unfolding PrepareUpload handle.simps handler_defs by (intro with_param_step answering_step quiet_gw prepare_quiet)
next
  case (GetQueueItem k)
  show ?thesis unfolding GetQueueItem handle.simps by (intro not_found_step answering_step pure_gw readers_pure)
next
  case ListHistory
  show ?thesis unfolding ListHistory handle.simps by (intro answering_step pure_gw readers_pure)
qed (simp_all add: gw_rules, (intro answering_step guarded_step with_param_step
   quiet_gw sqlite.submit_quiet finalize_legacy_quiet pure_quiet list_statuses_pure get_status_pure get_request_quiet
   dispatch_configured_quiet prepared_pure search_pure current_pure review_quiet)+)

text \<open>The command of a request, if the request carries C's token and a valid command.\<close>

definition operator_command_of :: "gateway \<Rightarrow> http_request \<Rightarrow> (str \<times> operator_command) option" where
  "operator_command_of C rq =
     (case hr_route rq of
        ExecuteCommand aid (Some j) \<Rightarrow>
          if require_token (hr_operator_token rq) (gc_operator_token C) = Inr ()
          then map_option (\<lambda>cmd. (aid, cmd)) (validate_operator_command j) else None
      | _ \<Rightarrow> None)"

definition may_add :: "gateway \<Rightarrow> http_request \<Rightarrow> change_queue \<Rightarrow> str \<times> str \<Rightarrow> bool" where
  "may_add C rq s k \<longleftrightarrow>
     (queue_route (hr_route rq) \<and> watched (fst k)) \<or>
     (case operator_command_of C rq of None \<Rightarrow> False | Some (aid, cmd) \<Rightarrow> approves (gw_env C) (q_world s) aid cmd k)"

lemma command_step:
  assumes "handle C b op (ExecuteCommand aid body) s = (r, t)"
    and "rq = \<lparr>hr_route = ExecuteCommand aid body, hr_b_token = b, hr_operator_token = op\<rparr>"
  shows "gw_step (gw_env C) (may_add C rq s) s t"
proof (cases "operator_command_of C rq")
  case None
  with assms have "t = s"
    by (cases "require_token op (gc_operator_token C)")
       (auto simp: operator_command_of_def with_param_def body_param_def guarded_Inl retE_def split: option.splits)
  then show ?thesis by (simp add: preorderR_refl[OF gw_step_preorder])
next
  case (Some a)
  with assms(2) obtain j cmd where a: "a = (aid, cmd)" and body: "body = Some j"
    and tok: "require_token op (gc_operator_token C) = Inr ()" and cmd: "validate_operator_command j = Some cmd"
    by (auto simp: operator_command_of_def split: option.splits if_splits)
  obtain q w where x: "execute_command (sqlite_indexer (gw_env C)) (gw_env C) aid cmd (q_world s) = (q, w)" by fastforce
  with assms(1) body tok cmd have t: "t = s\<lparr>q_world := w\<rparr>"
    by (cases q) (auto simp: with_param_def body_param_def guarded_def answering_def monad_defs worldE_def onE_def)
  from wpD[OF sqlite.execute_post x] Some a t show ?thesis
    by (auto simp: gw_step_def evolves_def may_add_def)
qed

lemma request_step: "gw_step (gw_env C) (may_add C rq s) s (snd (respond C rq s))"
proof -
  obtain r t where h: "handle C (hr_b_token rq) (hr_operator_token rq) (hr_route rq) s = (r, t)" by fastforce
  have weaken: "gw_step (gw_env C) (may_add C rq s) s t" if "gw_step (gw_env C) A s t" "\<And>k. A k \<Longrightarrow> may_add C rq s k" for A
    using that unfolding gw_step_def by blast
  have "gw_step (gw_env C) (may_add C rq s) s t"
  proof (cases "hr_route rq")
    case (ExecuteCommand aid body)
    with h show ?thesis by (intro command_step[of C "hr_b_token rq" "hr_operator_token rq" aid body s r]) simp_all
  qed (use h weaken[OF stepsD[OF queue_route_step h]] weaken[OF stepsD[OF other_route_step h]] in \<open>auto simp: may_add_def\<close>)
  with h show ?thesis by (simp add: respond_def)
qed

section \<open>Properties of requests\<close>

text \<open>C2: A request without the token its route demands changes nothing and is told nothing: the state of the gateway is
  untouched, and the answer is 401, 422, 500 or 503 with the verdict FAILED, BLOCK, QUARANTINE.\<close>

theorem unauthorised_changes_nothing:
  "case admission C (hr_b_token rq) (hr_operator_token rq) (hr_route rq) of
     Inr _ \<Rightarrow> True
   | Inl e \<Rightarrow> snd (respond C rq s) = s \<and> ha_status (fst (respond C rq s)) \<in> {401, 422, 500, 503} \<and>
       fail_closed (ha_body (fst (respond C rq s)))"
proof (cases "admission C (hr_b_token rq) (hr_operator_token rq) (hr_route rq)")
  case (Inl e)
  from refused_unchanged[OF this, of s] admission_Inl[OF this] Inl show ?thesis
    using error_answer_closed[of "gw_env C" e] error_answer_status[of "gw_env C" e] invalid_answer_closed
    by (auto simp: respond_def answer_of_def)
qed simp

text \<open>C3: Every answer is either the 200 of a handler that returned, the 404 of a queue route, or a failure that
  carries FAILED, BLOCK and QUARANTINE: no error of the gateway can be read as a permission.\<close>

theorem errors_fail_closed:
  "(ha_status (fst (respond C rq s)) = 200 \<and> \<not> isl (fst (handle C (hr_b_token rq) (hr_operator_token rq) (hr_route rq) s))) \<or>
   (ha_status (fst (respond C rq s)) = 404 \<and> queue_entry_route (hr_route rq)) \<or>
   (400 \<le> ha_status (fst (respond C rq s)) \<and> fail_closed (ha_body (fst (respond C rq s))))"
proof -
  obtain r t where h: "handle C (hr_b_token rq) (hr_operator_token rq) (hr_route rq) s = (r, t)" by fastforce
  show ?thesis
  proof (cases r)
    case (Inl e)
    with h error_answer_closed[of "gw_env C" e] show ?thesis by (simp add: respond_def answer_of_def)
  next
    case (Inr x)
    with h only_queue_404[of "hr_route rq" C "hr_b_token rq" "hr_operator_token rq" s] invalid_answer_closed show ?thesis
      by (cases x) (auto simp: respond_def answer_of_def)
  qed
qed

text \<open>An HTTP request adds at most what its caller may add: versions of watched documents through the routes of the
  review queue, and otherwise only the candidate of an APPROVE command that carries C's token and names its hash, with
  B's completed ALLOW + INDEX result for it.  B's token adds nothing.\<close>

lemma request_adds_only_approved:
  "versions (w_index (q_world (snd (respond C rq s)))) \<subseteq> versions (w_index (q_world s)) \<union> {k. may_add C rq s k}"
  using request_step[of C rq s] by (auto simp: gw_step_def)

text \<open>The roles are separate: an application is created only with different tokens (or refused with a typed error), and
  then no text passes both B's check and C's, so whoever holds B's token alone cannot send a command.\<close>

lemma roles_separate:
  "case create_app b_token b_environment operator_token operator_environment C of
     Inl e \<Rightarrow> e \<in> {ValueError, TypeError}
   | Inr G \<Rightarrow> gc_b_token G = selected_token b_token b_environment \<and>
       gc_operator_token G = selected_token operator_token operator_environment \<and>
       \<not> (require_token p (gc_b_token G) = Inr () \<and> require_token p (gc_operator_token G) = Inr ()) \<and>
       \<not> (require_token p (gc_b_token G) = Inr () \<and>
          operator_command_of G \<lparr>hr_route = route, hr_b_token = b, hr_operator_token = p\<rparr> \<noteq> None)"
proof -
  let ?b = "selected_token b_token b_environment" and ?op = "selected_token operator_token operator_environment"
  have differ: "\<not> (require_token p ?b = Inr () \<and> require_token p ?op = Inr ())"
    if "create_app b_token b_environment operator_token operator_environment C = Inr G" for G
    using that by (auto simp: create_app_def Let_def bindR_Inr_iff compare_digest_def
        dest!: require_token_Inr split: option.splits if_splits)
  have tokens: "gc_b_token G = ?b \<and> gc_operator_token G = ?op"
    if "create_app b_token b_environment operator_token operator_environment C = Inr G" for G
    using that by (auto simp: create_app_def Let_def bindR_Inr_iff split: option.splits if_splits)
  have raised: "e \<in> {ValueError, TypeError}"
    if "create_app b_token b_environment operator_token operator_environment C = Inl e" for e
    using that by (auto simp: create_app_def Let_def bindR_def dest: compare_digest_Inl split: option.splits sum.splits if_splits)
  show ?thesis
    using differ tokens raised
    by (auto simp: operator_command_of_def split: sum.splits route.splits option.splits if_splits)
qed

text \<open>C4: The review queue is open: although B's and C's tokens are configured, a request without any token that accepts an
  item is served, and its snapshot becomes the current version of the document without an audit event, an analysis
  of B or a command of C (\<^verbatim>\<open>_require_operator_if_configured\<close> refuses nothing).\<close>

theorem open_accept_indexes:
  assumes "item_of s k = Some item" "qi_change_type item \<noteq> deleted" "ix_inv (w_index (q_world s))"
    and "respond C \<lparr>hr_route = AcceptItem k, hr_b_token = None, hr_operator_token = None\<rparr> s = (a, t)" "ha_status a = 200"
  shows "\<exists>candidate content. qi_candidate_snapshot item = Some candidate \<and>
    file_at s (runtime_file (gw_queue C) candidate) = Some content \<and>
    current_sha (w_index (q_world t)) (document_id_of item) = Some (en_sha_bytes (gw_env C) content) \<and>
    w_audit (q_world t) = w_audit (q_world s)"
proof -
  have handled: "handle C None None (AcceptItem k) = or_not_found item_missing (answering action_result_json (accept (gw_queue C) k))"
    by (simp add: queue_action_def guarded_def require_operator_if_configured_def bindE_def liftE_def fun_eq_iff)
  obtain q z where acc: "accept (gw_queue C) k s = (q, z)" by fastforce
  have "ha_status (error_answer (gw_env C) e) \<noteq> 200" for e
    using error_answer_closed[of "gw_env C" e] by simp
  with acc assms(4,5) handled obtain r where r: "q = Inr r" and z: "z = t"
    by (cases q) (auto simp: respond_def or_not_found_def answering_def monad_defs answer_of_def split: if_splits)
  from accept_run[OF assms(1) acc[unfolded r]] obtain v where
    v: "accepted_by (gw_queue C) item (u ''INDEX'') s v" and w: "q_world z = q_world v" by metis
  from v assms(2) obtain candidate content f b snap rc where
    c: "qi_candidate_snapshot item = Some candidate" "file_at s (runtime_file (gw_queue C) candidate) = Some content"
    and f: "sf_sha256 f = en_sha_bytes (qe_env (gw_queue C)) content" "qe_extract (gw_queue C) f b (document_id_of item) = Inr snap"
    and ix: "index_atomic (qe_env (gw_queue C)) snap (Some (qi_baseline_sha256 item)) (w_index (q_world s)) = (Inr rc, w_index (q_world v))"
    unfolding accepted_by_def by auto
  have "ds_document_id snap = document_id_of item" "ds_sha256 snap = en_sha_bytes (gw_env C) content"
    using gw_queue_names[of C] f unfolding extraction_names_def by (auto simp: gw_queue_def)
  with index_atomic_effect(2)[OF ix assms(3)] w z have
    "current_sha (w_index (q_world t)) (document_id_of item) = Some (en_sha_bytes (gw_env C) content)" by simp
  moreover have "w_audit (q_world t) = w_audit (q_world s)"
    using stepsD[OF accept_kept[OF gw_queue_names] acc] z by (simp add: queue_kept_def world_kept_def)
  ultimately show ?thesis using c by blast
qed

text \<open>A gateway with both tokens, and a queue with one new Markdown file.\<close>

definition sample_gateway :: gateway where
  "sample_gateway =
     \<lparr>gc_b_token = Some (u ''token-of-b''), gc_operator_token = Some (u ''token-of-c''), gc_analyzer = None,
      gc_registry = sample_reader, gc_queue = sample_queue_env,
      gc_review = \<lparr>rv_root = u ''/repo'', rv_run = (\<lambda>_. Inr (0, [])), rv_model = (\<lambda>_. Inl (ExternalServiceError True))\<rparr>,
      gc_invalid = (\<lambda>_. [])\<rparr>"

definition markdown_queue :: change_queue where
  "markdown_queue = (sample_queue ((sample_item added None (Some (u ''new.md'')))) empty_index)
     \<lparr>q_world := \<lparr>w_audit = audit_init [], w_index = empty_index, w_files = [u ''/r/new.md'' \<mapsto> u ''new''],
        w_unreadable = [], w_clock = 0, w_uuid = 0\<rparr>\<rparr>"

lemma sample_accepted:
  "ha_status (fst (respond sample_gateway \<lparr>hr_route = AcceptItem (u ''i''), hr_b_token = None, hr_operator_token = None\<rparr> markdown_queue)) = 200"
  by code_simp

lemma open_accept_indexes_witness:
  "current_sha (w_index (q_world (snd (respond sample_gateway
     \<lparr>hr_route = AcceptItem (u ''i''), hr_b_token = None, hr_operator_token = None\<rparr> markdown_queue)))) (u ''watch:a.md'') = Some (u ''new'')"
proof -
  let ?rq = "\<lparr>hr_route = AcceptItem (u ''i''), hr_b_token = None, hr_operator_token = None\<rparr>"
  let ?i = "sample_item added None (Some (u ''new.md''))"
  obtain a t where run: "respond sample_gateway ?rq markdown_queue = (a, t)" by fastforce
  with sample_accepted have ok: "ha_status a = 200" by simp
  have s: "item_of markdown_queue (u ''i'') = Some ?i" "qi_change_type ?i \<noteq> deleted"
    "file_at markdown_queue (runtime_file (gw_queue sample_gateway) (u ''new.md'')) = Some (u ''new'')"
    "document_id_of ?i = u ''watch:a.md''" "qi_candidate_snapshot ?i = Some (u ''new.md'')"
    "en_sha_bytes (gw_env sample_gateway) (u ''new'') = u ''new''"
    by code_simp+
  have "ix_inv (w_index (q_world markdown_queue))" using empty_index_inv by (simp add: markdown_queue_def)
  from open_accept_indexes[OF s(1,2) this run ok] s(3-6) run show ?thesis by auto
qed

section \<open>The whole gateway\<close>

text \<open>
  One step of the running system: a request, a tool call of B, the watcher's poll, the commit of a background analysis or
  report with whatever the model answered, or a change others make to files (with failures for the queue's file operations
  to come).
\<close>

datatype system_call =
    HttpCall http_request
  | McpCall mcp_call
  | WatcherPoll
  | AnalysisDone str "str option" verdict
  | AgentDone str "str option" "agent_source list" "str res"
  | FilesChange "str \<Rightarrow> bytes option" "err option list"

fun system_step :: "gateway \<Rightarrow> system_call \<Rightarrow> change_queue \<Rightarrow> change_queue" where
  "system_step C (HttpCall rq) s = snd (respond C rq s)"
| "system_step C (McpCall call) s = discard (worldE (mcp_tool (gw_env C) call)) s"
| "system_step C WatcherPoll s = discard (poll_once (gw_queue C)) s"
| "system_step C (AnalysisDone k sha v) s = discard (analyze_commit (gw_queue C) k sha v) s"
| "system_step C (AgentDone k sha rows answer) s = discard (agent_commit (gw_queue C) k sha rows answer) s"
| "system_step C (FilesChange files faults) s = s\<lparr>q_world := (q_world s)\<lparr>w_files := files\<rparr>, q_faults := faults\<rparr>"

text \<open>The calls of a trace, latest first.\<close>

definition system_run :: "gateway \<Rightarrow> system_call list \<Rightarrow> change_queue \<Rightarrow> change_queue" where
  "system_run C trace s = foldr (system_step C) trace s"

definition commanded_in :: "gateway \<Rightarrow> system_call list \<Rightarrow> str \<Rightarrow> str \<Rightarrow> bool" where
  "commanded_in C trace aid sha \<longleftrightarrow>
     (\<exists>rq cmd. HttpCall rq \<in> set trace \<and> operator_command_of C rq = Some (aid, cmd) \<and>
        oc_action cmd = APPROVE \<and> oc_expected_candidate_sha256 cmd = sha)"

definition call_may_add :: "gateway \<Rightarrow> system_call \<Rightarrow> change_queue \<Rightarrow> str \<times> str \<Rightarrow> bool" where
  "call_may_add C call s k \<longleftrightarrow> watched (fst k) \<or> (\<exists>rq. call = HttpCall rq \<and> may_add C rq s k)"

lemma gw_step_weaken: "gw_step E A s t \<Longrightarrow> (\<And>k. A k \<Longrightarrow> B k) \<Longrightarrow> gw_step E B s t"
  unfolding gw_step_def by blast

lemma steps_discard: "steps (gw_step E A) m \<Longrightarrow> gw_step E A s (discard m s)"
  by (simp add: steps_def discard_def)

lemma system_step_effect: "gw_step (gw_env C) (call_may_add C call s) s (system_step C call s)"
proof (cases call)
  case (HttpCall rq)
  with request_step[of C rq s] show ?thesis
    by (auto elim!: gw_step_weaken simp: call_may_add_def)
next
  case (FilesChange files faults)
  then show ?thesis by (simp add: gw_step_def)
next
  case (McpCall c)
  then show ?thesis by (simp add: steps_discard quiet_gw mcp_tool_quiet)
qed (simp_all add: steps_discard kept_gw poll_kept commit_kept gw_queue_names call_may_add_def)

lemma may_add_command:
  "may_add C rq s k \<Longrightarrow> \<not> watched (fst k) \<Longrightarrow>
   \<exists>aid cmd. operator_command_of C rq = Some (aid, cmd) \<and> approves (gw_env C) (q_world s) aid cmd k"
  by (auto simp: may_add_def split: option.splits)

lemma commanded_later: "commanded_in C trace aid sha \<Longrightarrow> commanded_in C (call # trace) aid sha"
  by (auto simp: commanded_in_def)

lemma system_invariant:
  assumes "q_world s = world_init (fresh_index csize overlap faults) audit_faults unreadable"
  shows "au_inv (gw_env C) (w_audit (q_world (system_run C trace s))) \<and> ix_inv (w_index (q_world (system_run C trace s))) \<and>
    (\<forall>k\<in>versions (w_index (q_world (system_run C trace s))). watched (fst k) \<or>
       (\<exists>aid. commanded_in C trace aid (snd k) \<and> justified (gw_env C) (w_audit (q_world (system_run C trace s))) aid k))"
proof (induction trace)
  case Nil
  have "reachable undefined undefined (gw_env C) [] (q_world s)"
    unfolding assms by (rule reachable.start) (rule fresh_index_init)
  then show ?case using reachable_invariant[of undefined undefined "gw_env C" "[]" "q_world s"]
    by (auto simp: system_run_def approved_in_def)
next
  case (Cons call trace)
  let ?s = "system_run C trace s" and ?t = "system_run C (call # trace) s"
  have t: "?t = system_step C call ?s" by (simp add: system_run_def)
  note ef = system_step_effect[of C call ?s, folded t]
  have grows: "au_grows (w_audit (q_world ?s)) (w_audit (q_world ?t))" using ef by (simp add: gw_step_def)
  have "watched (fst k) \<or> (\<exists>aid. commanded_in C (call # trace) aid (snd k) \<and> justified (gw_env C) (w_audit (q_world ?t)) aid k)"
    if k: "k \<in> versions (w_index (q_world ?t))" for k
  proof (cases "watched (fst k)")
    case False
    with ef k have "k \<in> versions (w_index (q_world ?s)) \<or> (\<exists>rq. call = HttpCall rq \<and> may_add C rq ?s k)"
      by (auto simp: gw_step_def call_may_add_def)
    then show ?thesis
    proof
      assume "k \<in> versions (w_index (q_world ?s))"
      with Cons.IH False obtain aid where "commanded_in C trace aid (snd k)" "justified (gw_env C) (w_audit (q_world ?s)) aid k"
        by blast
      with justified_grows[OF grows] commanded_later show ?thesis by blast
    next
      assume "\<exists>rq. call = HttpCall rq \<and> may_add C rq ?s k"
      with False may_add_command obtain rq aid cmd where c: "call = HttpCall rq" "operator_command_of C rq = Some (aid, cmd)"
        "approves (gw_env C) (q_world ?s) aid cmd k" by blast
      then have "commanded_in C (call # trace) aid (snd k)" by (auto simp: commanded_in_def approves_def candidate_key_def)
      with justified_grows[OF grows approves_justified[OF c(3)]] show ?thesis by blast
    qed
  qed simp
  with Cons.IH ef show ?case by (auto simp: gw_step_def)
qed

text \<open>C1: The gateway as a whole: from a new runtime directory, with any saved queue, after any sequence of HTTP requests,
  tool calls of B, polls, background results and outside changes of files, and under any failures, the audit tables and
  the index tables are consistent, and every indexed version that is not of a watched document has an APPROVE command
  with C's token that names its hash, and the audit log shows B's completed ALLOW + INDEX result for it.\<close>

theorem gateway_indexes_only_approved:
  "au_inv (gw_env C) (w_audit (q_world (system_run C trace
     (s\<lparr>q_world := world_init (fresh_index csize overlap faults) audit_faults unreadable\<rparr>)))) \<and>
   ix_inv (w_index (q_world (system_run C trace
     (s\<lparr>q_world := world_init (fresh_index csize overlap faults) audit_faults unreadable\<rparr>)))) \<and>
   versions (w_index (q_world (system_run C trace
     (s\<lparr>q_world := world_init (fresh_index csize overlap faults) audit_faults unreadable\<rparr>))))
     \<subseteq> {k. watched (fst k)} \<union>
        {k. \<exists>aid. commanded_in C trace aid (snd k) \<and> justified (gw_env C) (w_audit (q_world (system_run C trace
             (s\<lparr>q_world := world_init (fresh_index csize overlap faults) audit_faults unreadable\<rparr>)))) aid k}"
  using system_invariant[of "s\<lparr>q_world := world_init (fresh_index csize overlap faults) audit_faults unreadable\<rparr>"
      csize overlap faults audit_faults unreadable C trace]
  by auto

end
