(* ===== verification/DashboardClient.thy ===== *)
theory DashboardClient
  imports HttpSafety ModelClient
begin

text \<open>
  The dashboard's typed client of the gateway (\<^verbatim>\<open>apps/dashboard/api_client.py\<close>): its view models, one operation per route,
  its reading of errors, and the check that a command's result is about the command.  The HTTP library is a parameter; the
  properties put the modelled gateway behind it, so they say whether the two sides of the contract fit.
\<close>

section \<open>View models\<close>

fun v_nat :: "json \<Rightarrow> nat option" where
  "v_nat (JInt i) = (if 0 \<le> i then Some (nat i) else None)"
| "v_nat _ = None"

text \<open>\<^verbatim>\<open>dict[str, str]\<close>; a model without \<^verbatim>\<open>extra="forbid"\<close> ignores further keys.\<close>

fun v_text_dict :: "json \<Rightarrow> (str \<times> str) list option" where
  "v_text_dict (JObj kvs) = those (map (\<lambda>(k, j). map_option (Pair k) (v_str j)) kvs)"
| "v_text_dict _ = None"

fun v_open_model :: "((str \<Rightarrow> json option) \<Rightarrow> 'a option) \<Rightarrow> json \<Rightarrow> 'a option" where
  "v_open_model f (JObj kvs) = f (map_of kvs)"
| "v_open_model f _ = None"

record health_status =
  hs_status :: str
  hs_service :: str

definition validate_health_status :: "json \<Rightarrow> health_status option" where
  "validate_health_status = v_model
     [u ''status'', u ''service'']
     (\<lambda>m. do {
        status_v \<leftarrow> req m (u ''status'') (v_str);
        service_v \<leftarrow> req m (u ''service'') (v_str);
        Some \<lparr>hs_status = status_v, hs_service = service_v\<rparr>})"

record dashboard_hit =
  dh_document_id :: str
  dh_sha256 :: str
  dh_chunk_index :: int
  dh_text :: str

definition validate_dashboard_hit :: "json \<Rightarrow> dashboard_hit option" where
  "validate_dashboard_hit = v_model
     [u ''document_id'', u ''sha256'', u ''chunk_index'', u ''text'']
     (\<lambda>m. do {
        document_id_v \<leftarrow> req m (u ''document_id'') (v_str);
        sha256_v \<leftarrow> req m (u ''sha256'') (v_str);
        chunk_index_v \<leftarrow> req m (u ''chunk_index'') (v_int);
        text_v \<leftarrow> req m (u ''text'') (v_str);
        Some \<lparr>dh_document_id = document_id_v, dh_sha256 = sha256_v, dh_chunk_index = chunk_index_v, dh_text = text_v\<rparr>})"

record dashboard_response =
  dp_query :: str
  dp_results :: "dashboard_hit list"

definition validate_dashboard_response :: "json \<Rightarrow> dashboard_response option" where
  "validate_dashboard_response = v_model
     [u ''query'', u ''results'']
     (\<lambda>m. do {
        query_v \<leftarrow> req m (u ''query'') (v_str);
        results_v \<leftarrow> req m (u ''results'') (v_list validate_dashboard_hit);
        Some \<lparr>dp_query = query_v, dp_results = results_v\<rparr>})"

record document_view =
  dv_filename :: str
  dv_format :: str
  dv_parser_name :: str
  dv_parser_version :: str
  dv_extracted_characters :: int
  dv_artifact_count :: int
  dv_artifacts :: "str list"
  dv_extraction_status :: str

definition validate_document_view :: "json \<Rightarrow> document_view option" where
  "validate_document_view = v_model
     [u ''filename'', u ''format'', u ''parser_name'', u ''parser_version'', u ''extracted_characters'', u ''artifact_count'', u ''artifacts'', u ''extraction_status'']
     (\<lambda>m. do {
        filename_v \<leftarrow> req m (u ''filename'') (v_str);
        format_v \<leftarrow> req m (u ''format'') (v_str);
        parser_name_v \<leftarrow> req m (u ''parser_name'') (v_str);
        parser_version_v \<leftarrow> req m (u ''parser_version'') (v_str);
        extracted_characters_v \<leftarrow> req m (u ''extracted_characters'') (v_int);
        artifact_count_v \<leftarrow> req m (u ''artifact_count'') (v_int);
        artifacts_v \<leftarrow> dflt m (u ''artifacts'') [] (v_list v_str);
        extraction_status_v \<leftarrow> req m (u ''extraction_status'') (v_str);
        Some \<lparr>dv_filename = filename_v, dv_format = format_v, dv_parser_name = parser_name_v, dv_parser_version =
          parser_version_v, dv_extracted_characters = extracted_characters_v, dv_artifact_count = artifact_count_v, dv_artifacts =
          artifacts_v, dv_extraction_status = extraction_status_v\<rparr>})"

definition validate_changed_value :: "json \<Rightarrow> changed_value option" where
  "validate_changed_value = v_model
     [u ''kind'', u ''before'', u ''after'']
     (\<lambda>m. do {
        kind_v \<leftarrow> req m (u ''kind'') (v_str);
        before_v \<leftarrow> dflt m (u ''before'') [] (v_str);
        after_v \<leftarrow> dflt m (u ''after'') [] (v_str);
        Some \<lparr>cg_kind = kind_v, cg_before = before_v, cg_after = after_v\<rparr>})"

record review_item =
  rv_id :: str
  rv_path :: str
  rv_change_type :: str
  rv_status :: str
  rv_baseline_sha256 :: "str option"
  rv_candidate_sha256 :: "str option"
  rv_summary_status :: str
  rv_summary :: "str option"
  rv_summary_error :: "str option"
  rv_created_at :: str
  rv_updated_at :: str
  rv_before_text :: str
  rv_after_text :: str
  rv_review_required :: "bool option"
  rv_review_reason :: "str option"
  rv_auto_processing :: bool
  rv_auto_process_at :: "str option"
  rv_baseline_document :: "document_view option"
  rv_candidate_document :: "document_view option"
  rv_changed_values :: "changed_value list"
  rv_agent_status :: str
  rv_agent_report :: "str option"
  rv_agent_error :: "str option"
  rv_agent_evidence :: "((str \<times> str) list) list"

definition validate_review_item :: "json \<Rightarrow> review_item option" where
  "validate_review_item = v_model
     [u ''id'', u ''path'', u ''change_type'', u ''status'', u ''baseline_sha256'', u ''candidate_sha256'', u ''summary_status'', u ''summary'', u ''summary_error'', u ''created_at'', u ''updated_at'', u ''before_text'', u ''after_text'', u ''review_required'', u ''review_reason'', u ''auto_processing'', u ''auto_process_at'', u ''baseline_document'', u ''candidate_document'', u ''changed_values'', u ''agent_status'', u ''agent_report'', u ''agent_error'', u ''agent_evidence'']
     (\<lambda>m. do {
        id_v \<leftarrow> req m (u ''id'') (v_str);
        path_v \<leftarrow> req m (u ''path'') (v_str);
        change_type_v \<leftarrow> req m (u ''change_type'') (v_str);
        status_v \<leftarrow> req m (u ''status'') (v_str);
        baseline_sha256_v \<leftarrow> dflt m (u ''baseline_sha256'') None (v_opt v_str);
        candidate_sha256_v \<leftarrow> dflt m (u ''candidate_sha256'') None (v_opt v_str);
        summary_status_v \<leftarrow> req m (u ''summary_status'') (v_str);
        summary_v \<leftarrow> dflt m (u ''summary'') None (v_opt v_str);
        summary_error_v \<leftarrow> dflt m (u ''summary_error'') None (v_opt v_str);
        created_at_v \<leftarrow> req m (u ''created_at'') (v_str);
        updated_at_v \<leftarrow> req m (u ''updated_at'') (v_str);
        before_text_v \<leftarrow> dflt m (u ''before_text'') [] (v_str);
        after_text_v \<leftarrow> dflt m (u ''after_text'') [] (v_str);
        review_required_v \<leftarrow> dflt m (u ''review_required'') None (v_opt v_bool);
        review_reason_v \<leftarrow> dflt m (u ''review_reason'') None (v_opt v_str);
        auto_processing_v \<leftarrow> dflt m (u ''auto_processing'') False (v_bool);
        auto_process_at_v \<leftarrow> dflt m (u ''auto_process_at'') None (v_opt v_str);
        baseline_document_v \<leftarrow> dflt m (u ''baseline_document'') None (v_opt validate_document_view);
        candidate_document_v \<leftarrow> dflt m (u ''candidate_document'') None (v_opt validate_document_view);
        changed_values_v \<leftarrow> dflt m (u ''changed_values'') [] (v_list validate_changed_value);
        agent_status_v \<leftarrow> dflt m (u ''agent_status'') (u ''NOT_REQUIRED'') (v_str);
        agent_report_v \<leftarrow> dflt m (u ''agent_report'') None (v_opt v_str);
        agent_error_v \<leftarrow> dflt m (u ''agent_error'') None (v_opt v_str);
        agent_evidence_v \<leftarrow> dflt m (u ''agent_evidence'') [] (v_list v_text_dict);
        Some \<lparr>rv_id = id_v, rv_path = path_v, rv_change_type = change_type_v, rv_status = status_v, rv_baseline_sha256 =
          baseline_sha256_v, rv_candidate_sha256 = candidate_sha256_v, rv_summary_status = summary_status_v, rv_summary =
          summary_v, rv_summary_error = summary_error_v, rv_created_at = created_at_v, rv_updated_at = updated_at_v,
          rv_before_text = before_text_v, rv_after_text = after_text_v, rv_review_required = review_required_v, rv_review_reason =
          review_reason_v, rv_auto_processing = auto_processing_v, rv_auto_process_at = auto_process_at_v, rv_baseline_document =
          baseline_document_v, rv_candidate_document = candidate_document_v, rv_changed_values = changed_values_v, rv_agent_status
          = agent_status_v, rv_agent_report = agent_report_v, rv_agent_error = agent_error_v, rv_agent_evidence =
          agent_evidence_v\<rparr>})"

definition validate_queue_action_result :: "json \<Rightarrow> queue_action_result option" where
  "validate_queue_action_result = v_model
     [u ''id'', u ''action'', u ''path'', u ''message'']
     (\<lambda>m. do {
        id_v \<leftarrow> req m (u ''id'') (v_str);
        action_v \<leftarrow> req m (u ''action'') (v_str);
        path_v \<leftarrow> req m (u ''path'') (v_str);
        message_v \<leftarrow> req m (u ''message'') (v_str);
        Some \<lparr>qr_id = id_v, qr_action = action_v, qr_path = path_v, qr_message = message_v\<rparr>})"

record history_view =
  hv_id :: str
  hv_path :: str
  hv_change_type :: str
  hv_action :: str
  hv_processed_at :: str
  hv_summary :: "str option"

definition validate_history_view :: "json \<Rightarrow> history_view option" where
  "validate_history_view = v_model
     [u ''id'', u ''path'', u ''change_type'', u ''action'', u ''processed_at'', u ''summary'']
     (\<lambda>m. do {
        id_v \<leftarrow> req m (u ''id'') (v_str);
        path_v \<leftarrow> req m (u ''path'') (v_str);
        change_type_v \<leftarrow> req m (u ''change_type'') (v_str);
        action_v \<leftarrow> req m (u ''action'') (v_str);
        processed_at_v \<leftarrow> req m (u ''processed_at'') (v_str);
        summary_v \<leftarrow> dflt m (u ''summary'') None (v_opt v_str);
        Some \<lparr>hv_id = id_v, hv_path = path_v, hv_change_type = change_type_v, hv_action = action_v, hv_processed_at =
          processed_at_v, hv_summary = summary_v\<rparr>})"

record restore_view =
  rz_restored_count :: int
  rz_message :: str

definition validate_restore_view :: "json \<Rightarrow> restore_view option" where
  "validate_restore_view = v_model
     [u ''restored_count'', u ''message'']
     (\<lambda>m. do {
        restored_count_v \<leftarrow> req m (u ''restored_count'') (v_int);
        message_v \<leftarrow> req m (u ''message'') (v_str);
        Some \<lparr>rz_restored_count = restored_count_v, rz_message = message_v\<rparr>})"

record update_view =
  uv_revision :: int
  uv_items :: "review_item list"

definition validate_update_view :: "json \<Rightarrow> update_view option" where
  "validate_update_view = v_model
     [u ''revision'', u ''items'']
     (\<lambda>m. do {
        revision_v \<leftarrow> req m (u ''revision'') (v_int);
        items_v \<leftarrow> req m (u ''items'') (v_list validate_review_item);
        Some \<lparr>uv_revision = revision_v, uv_items = items_v\<rparr>})"

definition check_analysis_status_view :: "analysis_status_view \<Rightarrow> bool" where
  "check_analysis_status_view x \<longleftrightarrow> 1 \<le> av_version x \<and> 1 \<le> av_attempt x"

definition validate_analysis_status_view :: "json \<Rightarrow> analysis_status_view option" where
  "validate_analysis_status_view = v_model
     [u ''analysis_id'', u ''document_id'', u ''version'', u ''attempt'', u ''state'', u ''candidate_sha256'', u ''changed_by'', u ''prepared_at'', u ''latest_request_id'', u ''latest_policy'', u ''latest_outcome'', u ''allowed_commands'', u ''audit_chain_valid'', u ''supersedes_analysis_id'']
     (\<lambda>m. do {
        analysis_id_v \<leftarrow> req m (u ''analysis_id'') (v_str);
        document_id_v \<leftarrow> req m (u ''document_id'') (v_str);
        version_v \<leftarrow> req m (u ''version'') (v_int);
        attempt_v \<leftarrow> req m (u ''attempt'') (v_int);
        state_v \<leftarrow> req m (u ''state'') (v_enum workflow_state_value all_workflow_state);
        candidate_sha256_v \<leftarrow> req m (u ''candidate_sha256'') (v_str);
        changed_by_v \<leftarrow> req m (u ''changed_by'') (v_str);
        prepared_at_v \<leftarrow> dflt m (u ''prepared_at'') None (v_opt v_str);
        latest_request_id_v \<leftarrow> dflt m (u ''latest_request_id'') None (v_opt v_str);
        latest_policy_v \<leftarrow> dflt m (u ''latest_policy'') None (v_opt validate_policy_result);
        latest_outcome_v \<leftarrow> dflt m (u ''latest_outcome'') None (v_opt validate_index_outcome);
        allowed_commands_v \<leftarrow> dflt m (u ''allowed_commands'') [] (v_list (v_enum operator_action_value all_operator_action));
        audit_chain_valid_v \<leftarrow> req m (u ''audit_chain_valid'') (v_bool);
        supersedes_analysis_id_v \<leftarrow> dflt m (u ''supersedes_analysis_id'') None (v_opt v_str);
        Contracts.guarded check_analysis_status_view
         \<lparr>av_analysis_id = analysis_id_v, av_document_id = document_id_v, av_version = version_v, av_attempt = attempt_v,
          av_state = state_v, av_candidate_sha256 = candidate_sha256_v, av_changed_by = changed_by_v, av_prepared_at =
          prepared_at_v, av_latest_request_id = latest_request_id_v, av_latest_policy = latest_policy_v, av_latest_outcome =
          latest_outcome_v, av_allowed_commands = allowed_commands_v, av_audit_chain_valid = audit_chain_valid_v,
          av_supersedes_analysis_id = supersedes_analysis_id_v\<rparr>})"

definition validate_operator_command_result :: "json \<Rightarrow> operator_command_result option" where
  "validate_operator_command_result = v_model
     [u ''command'', u ''status'', u ''outcome'', u ''replacement_analysis_id'', u ''idempotent_replay'']
     (\<lambda>m. do {
        command_v \<leftarrow> req m (u ''command'') (validate_operator_command);
        status_v \<leftarrow> req m (u ''status'') (validate_analysis_status_view);
        outcome_v \<leftarrow> dflt m (u ''outcome'') None (v_opt validate_index_outcome);
        replacement_analysis_id_v \<leftarrow> dflt m (u ''replacement_analysis_id'') None (v_opt v_str);
        idempotent_replay_v \<leftarrow> dflt m (u ''idempotent_replay'') False (v_bool);
        Some \<lparr>cr_command = command_v, cr_status = status_v, cr_outcome = outcome_v, cr_replacement_analysis_id =
          replacement_analysis_id_v, cr_idempotent_replay = idempotent_replay_v\<rparr>})"

definition validate_repository_commit :: "json \<Rightarrow> repository_commit option" where
  "validate_repository_commit = v_open_model
     (\<lambda>m. do {
        sha_v \<leftarrow> req m (u ''sha'') (v_str);
        subject_v \<leftarrow> req m (u ''subject'') (v_str);
        committed_at_v \<leftarrow> req m (u ''committed_at'') (v_str);
        Some \<lparr>rc_sha = sha_v, rc_subject = subject_v, rc_committed_at = committed_at_v\<rparr>})"

definition validate_review_report :: "json \<Rightarrow> review_report option" where
  "validate_review_report = v_open_model
     (\<lambda>m. do {
        review_id_v \<leftarrow> req m (u ''review_id'') (v_str);
        generated_at_v \<leftarrow> req m (u ''generated_at'') (v_str);
        status_v \<leftarrow> req m (u ''status'') (v_str);
        automatic_application_allowed_v \<leftarrow> dflt m (u ''automatic_application_allowed'') False (v_bool);
        commit_count_v \<leftarrow> req m (u ''commit_count'') (v_nat);
        commits_v \<leftarrow> dflt m (u ''commits'') [] (v_list validate_repository_commit);
        changed_paths_v \<leftarrow> dflt m (u ''changed_paths'') [] (v_list v_str);
        deterministic_controls_v \<leftarrow> dflt m (u ''deterministic_controls'') [] (v_list v_str);
        model_report_v \<leftarrow> req m (u ''model_report'') (v_str);
        Some \<lparr>rr_review_id = review_id_v, rr_generated_at = generated_at_v, rr_status = status_v,
          rr_automatic_application_allowed = automatic_application_allowed_v, rr_commit_count = commit_count_v, rr_commits =
          commits_v, rr_changed_paths = changed_paths_v, rr_deterministic_controls = deterministic_controls_v, rr_model_report =
          model_report_v\<rparr>})"
section \<open>Failures and the client\<close>

text \<open>\<^verbatim>\<open>DashboardApiError\<close>, or any other exception.\<close>

record api_failure =
  af_code :: str
  af_message :: str
  af_status_code :: "int option"
  af_retryable :: bool

datatype dash_error = ApiFailed api_failure | DashRaised err

type_synonym 'a dash = "dash_error + 'a"

definition bindD :: "'a dash \<Rightarrow> ('a \<Rightarrow> 'b dash) \<Rightarrow> 'b dash" where
  "bindD r f = (case r of Inl e \<Rightarrow> Inl e | Inr x \<Rightarrow> f x)"

text \<open>A request: method, path, query parameters, the operator's token header, JSON body.\<close>

record dash_request =
  dq_method :: str
  dq_path :: str
  dq_params :: "(str \<times> json) list"
  dq_token :: "str option"
  dq_json :: "json option"

record dash_client =
  dc_base_url :: str
  dc_operator_token :: "str option"
  dc_send :: "dash_request \<Rightarrow> http_result"

definition dashboard_base_url :: "address_env \<Rightarrow> str \<Rightarrow> str res" where
  "dashboard_base_url A value =
     bindR (urlsplit (ap_netloc_valid A) value) (\<lambda>parsed.
     case hostname (ap_udb A) (up_netloc parsed) of
       None \<Rightarrow> Inl ValueError
     | Some host \<Rightarrow>
         if up_scheme parsed \<notin> {u ''http'', u ''https''} then Inl ValueError
         else if has_credentials (up_netloc parsed) then Inl ValueError
         else if up_query parsed \<noteq> [] \<or> up_fragment parsed \<noteq> [] then Inl ValueError
         else if up_scheme parsed = u ''http'' \<and> \<not> is_loopback_host A host then Inl ValueError
         else Inr (strip_right 47 value))"

definition dash_client_init :: "address_env \<Rightarrow> str \<Rightarrow> str option \<Rightarrow> (dash_request \<Rightarrow> http_result) \<Rightarrow> dash_client res" where
  "dash_client_init A base_url operator_token send =
     bindR (dashboard_base_url A base_url) (\<lambda>url.
     Inr \<lparr>dc_base_url = url, dc_operator_token = truthy_text operator_token, dc_send = send\<rparr>)"

definition default_api_url :: str where "default_api_url = u ''http://127.0.0.1:8000''"

definition dash_from_environment :: "address_env \<Rightarrow> (str \<Rightarrow> str option) \<Rightarrow> (dash_request \<Rightarrow> http_result) \<Rightarrow> dash_client res" where
  "dash_from_environment A variable send =
     dash_client_init A (variable_or variable (u ''INDEXGUARD_API_URL'') default_api_url) (variable (u ''INDEXGUARD_OPERATOR_TOKEN'')) send"

definition has_operator_token :: "dash_client \<Rightarrow> bool" where
  "has_operator_token D \<longleftrightarrow> dc_operator_token D \<noteq> None"

definition invalid_response :: api_failure where
  "invalid_response = \<lparr>af_code = u ''INVALID_GATEWAY_RESPONSE'',
     af_message = u ''The gateway returned data that does not match the IndexGuard contract.'', af_status_code = None, af_retryable = False\<rparr>"

definition error_field :: "str \<Rightarrow> json option \<Rightarrow> json option" where
  "error_field k body =
     (case body of
        Some (JObj payload) \<Rightarrow> (case map_of payload (u ''error'') of Some (JObj error) \<Rightarrow> map_of error k | _ \<Rightarrow> None)
      | _ \<Rightarrow> None)"

definition text_field_or :: "str \<Rightarrow> json option \<Rightarrow> str" where
  "text_field_or fallback j = (case j of Some (JStr t) \<Rightarrow> if t = [] then fallback else t | _ \<Rightarrow> fallback)"

definition response_error :: "http_response \<Rightarrow> api_failure" where
  "response_error r =
     \<lparr>af_code = text_field_or (u ''GATEWAY_REQUEST_FAILED'') (error_field (u ''code'') (hp_json r)),
      af_message = text_field_or (u ''The document gateway rejected the request.'') (error_field (u ''message'') (hp_json r)),
      af_status_code = Some (hp_status r),
      af_retryable = (case error_field (u ''retryable'') (hp_json r) of Some (JBool b) \<Rightarrow> b | _ \<Rightarrow> 500 \<le> hp_status r)\<rparr>"

text \<open>\<^verbatim>\<open>response.is_error\<close>.\<close>

definition is_error_status :: "http_response \<Rightarrow> bool" where
  "is_error_status r \<longleftrightarrow> 400 \<le> hp_status r \<and> hp_status r \<le> 599"

definition request_json :: "dash_client \<Rightarrow> dash_request \<Rightarrow> json dash" where
  "request_json D rq =
     (case dc_send D rq of
        HttpFailed t \<Rightarrow>
          Inl (ApiFailed \<lparr>af_code = u ''GATEWAY_UNAVAILABLE'', af_message = u ''The document gateway could not be reached.'',
                          af_status_code = None, af_retryable = True\<rparr>)
      | HttpRaised e \<Rightarrow> Inl (DashRaised e)
      | HttpReturned r \<Rightarrow>
          if is_error_status r then Inl (ApiFailed (response_error r))
          else (case hp_json r of None \<Rightarrow> Inl (ApiFailed invalid_response) | Some j \<Rightarrow> Inr j))"

definition viewed :: "(json \<Rightarrow> 'a option) \<Rightarrow> json \<Rightarrow> 'a dash" where
  "viewed validate payload = (case validate payload of None \<Rightarrow> Inl (ApiFailed invalid_response) | Some x \<Rightarrow> Inr x)"

definition operator_headers :: "dash_client \<Rightarrow> str dash" where
  "operator_headers D =
     (case dc_operator_token D of
        None \<Rightarrow> Inl (ApiFailed \<lparr>af_code = u ''OPERATOR_TOKEN_MISSING'', af_message = u ''The dashboard has no operator token configured.'',
                                 af_status_code = None, af_retryable = False\<rparr>)
      | Some token \<Rightarrow> Inr token)"

definition plain_request :: "str \<Rightarrow> str \<Rightarrow> dash_request" where
  "plain_request http_method path = \<lparr>dq_method = http_method, dq_path = path, dq_params = [], dq_token = None, dq_json = None\<rparr>"

definition call_view :: "dash_client \<Rightarrow> dash_request \<Rightarrow> (json \<Rightarrow> 'a option) \<Rightarrow> 'a dash" where
  "call_view D rq validate = bindD (request_json D rq) (viewed validate)"

definition call_as_operator :: "dash_client \<Rightarrow> dash_request \<Rightarrow> (json \<Rightarrow> 'a option) \<Rightarrow> 'a dash" where
  "call_as_operator D rq validate = bindD (operator_headers D) (\<lambda>token. call_view D (rq\<lparr>dq_token := Some token\<rparr>) validate)"

section \<open>The operations\<close>

definition api_health :: "dash_client \<Rightarrow> health_status dash" where
  "api_health D = call_view D (plain_request (u ''GET'') (u ''/health'')) validate_health_status"

definition api_list_analyses :: "dash_client \<Rightarrow> int \<Rightarrow> analysis_status_view list dash" where
  "api_list_analyses D limit =
     call_view D ((plain_request (u ''GET'') (u ''/api/v1/analyses''))\<lparr>dq_params := [(u ''limit'', JInt limit)]\<rparr>)
       (v_list validate_analysis_status_view)"

definition analysis_path :: "str \<Rightarrow> str \<Rightarrow> str" where
  "analysis_path aid rest = u ''/api/v1/analyses/'' @ aid @ rest"

definition api_get_status :: "dash_client \<Rightarrow> str \<Rightarrow> analysis_status_view dash" where
  "api_get_status D aid = call_view D (plain_request (u ''GET'') (analysis_path aid (u ''/status''))) validate_analysis_status_view"

definition api_get_analysis :: "dash_client \<Rightarrow> str \<Rightarrow> prepared_analysis dash" where
  "api_get_analysis D aid = call_as_operator D (plain_request (u ''GET'') (analysis_path aid [])) validate_prepared_analysis"

definition api_dispatch_analysis :: "dash_client \<Rightarrow> str \<Rightarrow> analysis_status_view dash" where
  "api_dispatch_analysis D aid =
     call_as_operator D (plain_request (u ''POST'') (analysis_path aid (u ''/dispatch''))) validate_analysis_status_view"

text \<open>\<^verbatim>\<open>_command_result_matches\<close>.\<close>

definition outcome_names :: "str \<Rightarrow> str \<Rightarrow> str \<Rightarrow> index_outcome option \<Rightarrow> bool" where
  "outcome_names aid document_id sha outcome =
     (case outcome of
        None \<Rightarrow> True
      | Some x \<Rightarrow> io_analysis_id x = aid \<and> io_document_id x = document_id \<and> io_candidate_sha256 x = sha)"

definition command_result_matches :: "operator_command_result \<Rightarrow> str \<Rightarrow> str \<Rightarrow> operator_command \<Rightarrow> bool" where
  "command_result_matches r aid document_id command =
     (let st = cr_status r; sha = oc_expected_candidate_sha256 command; action = oc_action command in
      if cr_command r \<noteq> command then False
      else if av_analysis_id st \<noteq> aid \<or> av_document_id st \<noteq> document_id \<or> av_candidate_sha256 st \<noteq> sha then False
      else if \<not> outcome_names aid document_id sha (cr_outcome r) \<or> \<not> outcome_names aid document_id sha (av_latest_outcome st) then False
      else (case cr_outcome r of
         None \<Rightarrow> False
       | Some outcome \<Rightarrow>
           if action \<in> {OP_HOLD, REANALYZE} \<and> (io_action outcome \<noteq> HOLD \<or> io_indexed outcome) then False
           else if action = APPROVE \<and>
             \<not> (io_action outcome = INDEX \<and> io_indexed outcome \<or> io_action outcome = QUARANTINE \<and> \<not> io_indexed outcome) then False
           else if \<not> (if action = REANALYZE
                      then (case cr_replacement_analysis_id r of
                              None \<Rightarrow> False
                            | Some k \<Rightarrow> strip k \<noteq> [] \<and> k \<noteq> aid \<and> av_state st = SUPERSEDED)
                      else cr_replacement_analysis_id r = None) then False
           else if cr_idempotent_replay r then True
           else if av_latest_outcome st \<noteq> Some outcome then False
           else if action = OP_HOLD then av_state st = WF_HOLD
           else if action = REANALYZE then av_state st = SUPERSEDED
           else av_state st = (if io_indexed outcome then INDEXED else QUARANTINED)))"

definition api_execute_command :: "dash_client \<Rightarrow> str \<Rightarrow> operator_command \<Rightarrow> str \<Rightarrow> operator_command_result dash" where
  "api_execute_command D aid command expected_document_id =
     bindD (call_as_operator D ((plain_request (u ''POST'') (analysis_path aid (u ''/commands'')))\<lparr>dq_json := Some (dump_operator_command command)\<rparr>)
       validate_operator_command_result) (\<lambda>r.
     if command_result_matches r aid expected_document_id command then Inr r else Inl (ApiFailed invalid_response))"

definition api_search :: "dash_client \<Rightarrow> str \<Rightarrow> int \<Rightarrow> str option \<Rightarrow> dashboard_response dash" where
  "api_search D query limit document_id =
     call_view D ((plain_request (u ''GET'') (u ''/api/v1/index/search''))\<lparr>dq_params :=
         [(u ''q'', JStr query), (u ''limit'', JInt limit)] @ (case document_id of None \<Rightarrow> [] | Some d \<Rightarrow> [(u ''document_id'', JStr d)])\<rparr>)
       validate_dashboard_response"

definition api_review_repository :: "dash_client \<Rightarrow> review_report dash" where
  "api_review_repository D = call_as_operator D (plain_request (u ''POST'') (u ''/api/v1/repository-reviews'')) validate_review_report"

definition queue_path :: "str \<Rightarrow> str \<Rightarrow> str" where
  "queue_path item_id rest = u ''/api/v2/review-queue/'' @ item_id @ rest"

definition api_list_review_queue :: "dash_client \<Rightarrow> review_item list dash" where
  "api_list_review_queue D = call_view D (plain_request (u ''GET'') (u ''/api/v2/review-queue'')) (v_list validate_review_item)"

definition api_wait_for_update :: "dash_client \<Rightarrow> int \<Rightarrow> str \<Rightarrow> update_view dash" where
  "api_wait_for_update D after_revision wait_seconds =
     call_view D ((plain_request (u ''GET'') (u ''/api/v2/review-queue/updates''))\<lparr>dq_params :=
         [(u ''after_revision'', JInt after_revision), (u ''wait_seconds'', JFloat wait_seconds)]\<rparr>) validate_update_view"

definition api_get_queue_item :: "dash_client \<Rightarrow> str \<Rightarrow> review_item dash" where
  "api_get_queue_item D k = call_view D (plain_request (u ''GET'') (queue_path k [])) validate_review_item"

definition api_accept_item :: "dash_client \<Rightarrow> str \<Rightarrow> queue_action_result dash" where
  "api_accept_item D k = call_view D (plain_request (u ''POST'') (queue_path k (u ''/accept''))) validate_queue_action_result"

definition api_reject_item :: "dash_client \<Rightarrow> str \<Rightarrow> queue_action_result dash" where
  "api_reject_item D k = call_view D (plain_request (u ''POST'') (queue_path k (u ''/reject''))) validate_queue_action_result"

definition api_hold_item :: "dash_client \<Rightarrow> str \<Rightarrow> review_item dash" where
  "api_hold_item D k = call_view D (plain_request (u ''POST'') (queue_path k (u ''/hold''))) validate_review_item"

definition api_list_history :: "dash_client \<Rightarrow> history_view list dash" where
  "api_list_history D = call_view D (plain_request (u ''GET'') (u ''/api/v2/review-history'')) (v_list validate_history_view)"

definition api_restore_history :: "dash_client \<Rightarrow> str \<Rightarrow> restore_view dash" where
  "api_restore_history D h = call_view D (plain_request (u ''POST'') (u ''/api/v2/review-history/'' @ h @ u ''/restore'')) validate_restore_view"

section \<open>The modelled gateway behind the client\<close>

text \<open>What the client receives of a gateway answer: its status and the JSON text, read back.\<close>

definition gateway_answer :: "http_answer \<Rightarrow> http_result" where
  "gateway_answer a =
     HttpReturned \<lparr>hp_status = int (ha_status a), hp_length = length (write_json (ha_body a)), hp_json = json_loads (write_json (ha_body a))\<rparr>"

definition behind :: "gateway \<Rightarrow> change_queue \<Rightarrow> str option \<Rightarrow> dash_client \<Rightarrow> route \<Rightarrow> dash_client" where
  "behind C s operator D route =
     D\<lparr>dc_send := (\<lambda>rq. gateway_answer (fst (respond C \<lparr>hr_route = route, hr_b_token = None, hr_operator_token = operator\<rparr> s)))\<rparr>"

text \<open>What the dashboard should show: the gateway's value in the dashboard's terms, or the gateway's error.\<close>

definition document_seen :: "document_info \<Rightarrow> document_view" where
  "document_seen i =
     \<lparr>dv_filename = di_filename i, dv_format = di_format i, dv_parser_name = di_parser_name i, dv_parser_version = di_parser_version i,
      dv_extracted_characters = int (di_extracted_characters i), dv_artifact_count = int (di_artifact_count i),
      dv_artifacts = di_artifacts i, dv_extraction_status = di_extraction_status i\<rparr>"

definition item_seen :: "queue_item \<Rightarrow> review_item" where
  "item_seen i =
     \<lparr>rv_id = qi_id i, rv_path = qi_path i, rv_change_type = qi_change_type i, rv_status = qi_status i,
      rv_baseline_sha256 = qi_baseline_sha256 i, rv_candidate_sha256 = qi_candidate_sha256 i,
      rv_summary_status = qi_summary_status i, rv_summary = qi_summary i, rv_summary_error = qi_summary_error i,
      rv_created_at = qi_created_at i, rv_updated_at = qi_updated_at i, rv_before_text = qi_before_text i, rv_after_text = qi_after_text i,
      rv_review_required = (case qi_review_required i of Some (Some b) \<Rightarrow> Some b | _ \<Rightarrow> None),
      rv_review_reason = qi_review_reason i, rv_auto_processing = qi_auto_processing i, rv_auto_process_at = qi_auto_process_at i,
      rv_baseline_document = map_option document_seen (qi_baseline_document i),
      rv_candidate_document = map_option document_seen (qi_candidate_document i), rv_changed_values = qi_changed_values i,
      rv_agent_status = (case qi_agent_status i of None \<Rightarrow> u ''NOT_REQUIRED'' | Some a \<Rightarrow> a),
      rv_agent_report = qi_agent_report i, rv_agent_error = qi_agent_error i,
      rv_agent_evidence = map (\<lambda>a. [(u ''source'', as_source a), (u ''document_id'', as_document_id a), (u ''text'', as_text a)]) (qi_agent_evidence i)\<rparr>"

definition history_seen :: "history_entry \<Rightarrow> history_view" where
  "history_seen h =
     \<lparr>hv_id = hi_id h, hv_path = hi_path h, hv_change_type = hi_change_type h, hv_action = hi_action h,
      hv_processed_at = hi_processed_at h, hv_summary = hi_summary h\<rparr>"

definition text_or :: "str \<Rightarrow> str \<Rightarrow> str" where
  "text_or fallback t = (if t = [] then fallback else t)"

definition gateway_failure :: "env \<Rightarrow> err \<Rightarrow> api_failure" where
  "gateway_failure E e =
     (case (error_code e, status_code e) of
        (Some code, Some status) \<Rightarrow>
          \<lparr>af_code = text_or (u ''GATEWAY_REQUEST_FAILED'') code,
           af_message = text_or (u ''The document gateway rejected the request.'') (en_error_text E e),
           af_status_code = Some (int status), af_retryable = retryable e\<rparr>
      | _ \<Rightarrow> \<lparr>af_code = u ''INTERNAL_GATEWAY_ERROR'', af_message = u ''the gateway could not complete the request safely'',
               af_status_code = Some 500, af_retryable = True\<rparr>)"

definition missing_failure :: api_failure where
  "missing_failure = \<lparr>af_code = u ''GATEWAY_REQUEST_FAILED'', af_message = u ''The document gateway rejected the request.'',
     af_status_code = Some 404, af_retryable = False\<rparr>"

definition shown :: "gateway \<Rightarrow> bool \<Rightarrow> ('a \<Rightarrow> 'b) \<Rightarrow> 'a res \<Rightarrow> 'b dash" where
  "shown C named seen r =
     (case r of
        Inr x \<Rightarrow> Inr (seen x)
      | Inl e \<Rightarrow> Inl (ApiFailed (if named \<and> e = KeyError then missing_failure else gateway_failure (gw_env C) e)))"

subsection \<open>Reading the written values\<close>

lemma v_opt_text: "v_opt v_str (text_or_null x) = Some x"
  by (cases x) (simp_all add: v_opt_def text_or_null_def)

lemma those_map_Some_all: "those (map Some xs) = Some xs"
  by (induction xs) simp_all

lemma v_list_read: "(\<And>x. x \<in> set xs \<Longrightarrow> v (d x) = Some (f x)) \<Longrightarrow> v_list v (JArr (map d xs)) = Some (map f xs)"
  by (induction xs) (auto split: option.splits)

lemma v_opt_document: "v_opt validate_document_view (document_info_dict d) = Some (map_option document_seen d)"
  by (cases d) (simp_all add: v_opt_def document_info_dict_def validate_document_view_def req_def dflt_def document_seen_def u_def
      v_list_read[where d = JStr and f = id, simplified])

definition changed_value_json :: "changed_value \<Rightarrow> json" where
  "changed_value_json c = JObj [(u ''kind'', JStr (cg_kind c)), (u ''before'', JStr (cg_before c)), (u ''after'', JStr (cg_after c))]"

definition evidence_json :: "agent_source \<Rightarrow> json" where
  "evidence_json a = JObj [(u ''source'', JStr (as_source a)), (u ''document_id'', JStr (as_document_id a)), (u ''text'', JStr (as_text a))]"

lemma read_changed_values: "v_list validate_changed_value (JArr (map changed_value_json cs)) = Some cs"
  using v_list_read[of cs validate_changed_value changed_value_json id]
  by (simp add: changed_value_json_def validate_changed_value_def req_def dflt_def u_def)

lemma read_evidence:
  "v_list v_text_dict (JArr (map evidence_json as)) =
   Some (map (\<lambda>a. [(u ''source'', as_source a), (u ''document_id'', as_document_id a), (u ''text'', as_text a)]) as)"
  by (rule v_list_read) (simp add: evidence_json_def)

lemma read_review_required:
  "v_opt v_bool (case r of Some (Some b) \<Rightarrow> JBool b | _ \<Rightarrow> JNull) = Some (case r of Some (Some b) \<Rightarrow> Some b | _ \<Rightarrow> None)"
  by (auto simp: v_opt_def split: option.splits)

lemma item_json:
  "queue_item_json i = JObj
     [(u ''id'', JStr (qi_id i)), (u ''path'', JStr (qi_path i)), (u ''change_type'', JStr (qi_change_type i)),
      (u ''status'', JStr (qi_status i)), (u ''baseline_sha256'', text_or_null (qi_baseline_sha256 i)),
      (u ''candidate_sha256'', text_or_null (qi_candidate_sha256 i)), (u ''summary_status'', JStr (qi_summary_status i)),
      (u ''summary'', text_or_null (qi_summary i)), (u ''summary_error'', text_or_null (qi_summary_error i)),
      (u ''created_at'', JStr (qi_created_at i)), (u ''updated_at'', JStr (qi_updated_at i)),
      (u ''before_text'', JStr (qi_before_text i)), (u ''after_text'', JStr (qi_after_text i)),
      (u ''review_required'', case qi_review_required i of Some (Some b) \<Rightarrow> JBool b | _ \<Rightarrow> JNull),
      (u ''review_reason'', text_or_null (qi_review_reason i)), (u ''auto_processing'', JBool (qi_auto_processing i)),
      (u ''auto_process_at'', text_or_null (qi_auto_process_at i)),
      (u ''baseline_document'', document_info_dict (qi_baseline_document i)),
      (u ''candidate_document'', document_info_dict (qi_candidate_document i)),
      (u ''changed_values'', JArr (map changed_value_json (qi_changed_values i))),
      (u ''agent_status'', JStr (case qi_agent_status i of None \<Rightarrow> u ''NOT_REQUIRED'' | Some a \<Rightarrow> a)),
      (u ''agent_report'', text_or_null (qi_agent_report i)), (u ''agent_error'', text_or_null (qi_agent_error i)),
      (u ''agent_evidence'', JArr (map evidence_json (qi_agent_evidence i)))]"
  by (simp add: queue_item_json_def public_record_def changed_value_json_def[abs_def] evidence_json_def[abs_def])

lemma item_read_back: "validate_review_item (queue_item_json i) = Some (item_seen i)"
  unfolding item_json validate_review_item_def
  by (simp add: req_def dflt_def item_seen_def v_opt_text v_opt_document read_review_required read_changed_values read_evidence
      del: v_list.simps)

lemma read_items: "v_list validate_review_item (d_list queue_item_json is) = Some (map item_seen is)"
  unfolding d_list_def by (rule v_list_read) (rule item_read_back)

lemma read_history: "validate_history_view (JObj (public_history h)) = Some (history_seen h)"
  by (simp add: validate_history_view_def public_history_def req_def dflt_def history_seen_def v_opt_text u_def)

lemma read_histories: "v_list validate_history_view (d_list (\<lambda>h. JObj (public_history h)) hs) = Some (map history_seen hs)"
  unfolding d_list_def by (rule v_list_read) (rule read_history)

lemma read_action: "validate_queue_action_result (action_result_json r) = Some r"
  by (simp add: validate_queue_action_result_def action_result_json_def req_def u_def)

lemma wf_text_or_null: "wf_json (text_or_null x)"
  by (cases x) (simp_all add: text_or_null_def)

lemma wf_document: "wf_json (document_info_dict d)"
  by (cases d) (simp_all add: document_info_dict_def u_def list_all_iff)

lemma wf_item: "wf_json (queue_item_json i)"
proof -
  have "wf_json (case qi_review_required i of Some (Some b) \<Rightarrow> JBool b | _ \<Rightarrow> JNull)" by (auto split: option.splits)
  moreover have "wf_json (JArr (map changed_value_json cs))" "wf_json (JArr (map evidence_json as))" for cs as
    by (auto simp: list_all_iff changed_value_json_def evidence_json_def u_def)
  ultimately show ?thesis unfolding item_json by (simp add: wf_text_or_null wf_document u_def)
qed

lemma wf_items: "wf_json (d_list queue_item_json is)"
  by (simp add: rt wf_item)

lemma wf_history: "wf_json (JObj (public_history h))"
  by (simp add: public_history_def wf_text_or_null u_def)

lemma wf_histories: "wf_json (d_list (\<lambda>h. JObj (public_history h)) hs)"
  unfolding rt_list(2) using wf_history by blast

lemma wf_action: "wf_json (action_result_json r)"
  by (simp add: action_result_json_def u_def)

subsection \<open>Reading the written errors\<close>

lemma received: "wf_json (ha_body a) \<Longrightarrow> gateway_answer a =
   HttpReturned \<lparr>hp_status = int (ha_status a), hp_length = length (write_json (ha_body a)), hp_json = Some (ha_body a)\<rparr>"
  by (simp add: gateway_answer_def json_loads_write)

lemma wf_payload: "wf_json (fail_closed_payload code message [] retry)"
  by (simp add: fail_closed_payload_def dump_finding_def rt u_def)

lemma read_error:
  "error_field (u ''code'') (Some (fail_closed_payload code message [] retry)) = Some (JStr code)"
  "error_field (u ''message'') (Some (fail_closed_payload code message [] retry)) = Some (JStr message)"
  "error_field (u ''retryable'') (Some (fail_closed_payload code message [] retry)) = Some (JBool retry)"
  by (simp_all add: error_field_def fail_closed_payload_def u_def)

lemma error_status_range: "status_code e = Some n \<Longrightarrow> 400 \<le> n \<and> n \<le> 599"
  by (cases e) auto

lemma error_answer_failure:
  "\<exists>r. gateway_answer (error_answer E e) = HttpReturned r \<and> is_error_status r \<and> response_error r = gateway_failure E e"
proof (cases "error_code e = None \<or> status_code e = None")
  case True
  then have "error_answer E e = \<lparr>ha_status = 500, ha_body = fail_closed_payload (u ''INTERNAL_GATEWAY_ERROR'')
      (u ''the gateway could not complete the request safely'') [] True\<rparr>"
    "gateway_failure E e = \<lparr>af_code = u ''INTERNAL_GATEWAY_ERROR'', af_message = u ''the gateway could not complete the request safely'',
               af_status_code = Some 500, af_retryable = True\<rparr>"
    by (auto simp: error_answer_def gateway_failure_def split: option.splits)
  then show ?thesis
    by (simp add: received wf_payload is_error_status_def response_error_def read_error text_field_or_def)
next
  case False
  then obtain code status where e: "error_code e = Some code" "status_code e = Some status" by auto
  show ?thesis
    using error_status_range[OF e(2)]
    by (simp add: error_answer_def gateway_failure_def e received wf_payload is_error_status_def response_error_def read_error
        text_field_or_def text_or_def)
qed

lemma not_found_failure:
  "\<exists>r. gateway_answer \<lparr>ha_status = 404, ha_body = JObj [(u ''detail'', JStr detail)]\<rparr> = HttpReturned r \<and> is_error_status r \<and>
     response_error r = missing_failure"
  by (simp add: received is_error_status_def response_error_def error_field_def text_field_or_def missing_failure_def u_def)

subsection \<open>The dashboard shows what the gateway holds\<close>

lemma call_behind_error:
  assumes "\<exists>r. gateway_answer a = HttpReturned r \<and> is_error_status r \<and> response_error r = f"
  shows "call_view (D\<lparr>dc_send := (\<lambda>rq. gateway_answer a)\<rparr>) rq validate = Inl (ApiFailed f)"
  using assms by (auto simp: call_view_def request_json_def bindD_def)

lemma call_behind_answer:
  assumes "wf_json j" "validate j = Some x"
  shows "call_view (D\<lparr>dc_send := (\<lambda>rq. gateway_answer \<lparr>ha_status = 200, ha_body = j\<rparr>)\<rparr>) rq validate = Inr x"
  using assms by (simp add: call_view_def request_json_def bindD_def received is_error_status_def viewed_def)

lemma shown_call:
  assumes h: "handle C None operator route = (if named then or_not_found detail (answering dump m) else answering dump m)"
    and read: "\<And>x. validate (dump x) = Some (seen x)" and wf: "\<And>x. wf_json (dump x)"
  shows "call_view (behind C s operator D route) rq validate = shown C named seen (fst (m s))"
proof (cases "m s")
  case (Pair r t)
  show ?thesis
  proof (cases r)
    case (Inr x)
    with Pair h have "fst (respond C \<lparr>hr_route = route, hr_b_token = None, hr_operator_token = operator\<rparr> s) =
        \<lparr>ha_status = 200, ha_body = dump x\<rparr>"
      by (simp add: respond_def or_not_found_def answering_def bindE_def retE_def tryE_def answer_of_def)
    then show ?thesis
      using Pair Inr call_behind_answer[of "dump x" validate "seen x" D rq, OF wf read] by (simp add: behind_def shown_def)
  next
    case (Inl e)
    show ?thesis
    proof (cases "named \<and> e = KeyError")
      case True
      with Pair h Inl have "fst (respond C \<lparr>hr_route = route, hr_b_token = None, hr_operator_token = operator\<rparr> s) =
          \<lparr>ha_status = 404, ha_body = JObj [(u ''detail'', JStr detail)]\<rparr>"
        by (simp add: respond_def or_not_found_def answering_def bindE_def retE_def tryE_def answer_of_def)
      then show ?thesis
        using True Pair Inl call_behind_error[OF not_found_failure[of detail], of D rq validate] by (simp add: behind_def shown_def)
    next
      case False
      with Pair h Inl have "fst (respond C \<lparr>hr_route = route, hr_b_token = None, hr_operator_token = operator\<rparr> s) = error_answer (gw_env C) e"
        by (auto simp: respond_def or_not_found_def answering_def bindE_def retE_def raiseE_def tryE_def answer_of_def)
      then show ?thesis
        using False Pair Inl call_behind_error[OF error_answer_failure[of "gw_env C" e], of D rq validate] by (auto simp: behind_def shown_def)
    qed
  qed
qed

lemma queue_action_open: "queue_action C detail m = or_not_found detail m"
  by (rule ext) (simp add: queue_action_def HttpGateway.guarded_def require_operator_if_configured_def liftE_def bindE_def)

definition update_seen :: "nat \<times> queue_item list \<Rightarrow> update_view" where
  "update_seen x = \<lparr>uv_revision = int (fst x), uv_items = map item_seen (snd x)\<rparr>"

definition restore_seen :: "nat \<Rightarrow> restore_view" where
  "restore_seen n = \<lparr>rz_restored_count = int n, rz_message = (case jget (u ''message'') (restore_result_json n) of Some (JStr t) \<Rightarrow> t | _ \<Rightarrow> [])\<rparr>"

lemma read_restore: "validate_restore_view (restore_result_json n) = Some (restore_seen n)"
  by (simp add: validate_restore_view_def restore_result_json_def restore_seen_def req_def u_def)

lemma wf_restore: "wf_json (restore_result_json n)"
  by (simp add: restore_result_json_def u_def)

subsection \<open>Search\<close>

lemma show_nat_zero: "show_nat 0 = [48]"
  by (subst show_nat.simps) (simp add: show_digit_def)

lemma scan_number_score: "scan_number (show_nat n @ [46, 48]) = Some (JFloat (show_nat n @ [46, 48]), [])"
proof -
  have d: "\<forall>c\<in>set (show_nat n). is_digit c" by (rule show_nat_digits)
  then have t: "takeWhile is_digit (show_nat n @ [46, 48]) = show_nat n" "dropWhile is_digit (show_nat n @ [46, 48]) = [46, 48]"
    by (simp_all add: takeWhile_append2 dropWhile_append2 is_digit_def)
  have "hd (show_nat n) = 48 \<Longrightarrow> show_nat n = [48]"
    using hd_show_nat[of n] by (metis show_nat_zero)
  then have "scan_int (show_nat n @ [46, 48]) = Some (show_nat n, [46, 48])"
    using t d show_nat_ne[of n] by (cases "show_nat n") (auto simp: scan_int_def is_digit_def)
  moreover have "hd (show_nat n @ [46, 48]) \<noteq> 45" using hd_show_nat_minus[of n] show_nat_ne[of n] by (simp add: hd_append)
  ultimately show ?thesis
    by (simp add: scan_number_def Let_def scan_frac_def scan_exp_def is_digit_def)
qed

lemma wf_search_response: "wf_json (dump_search_response r)"
proof -
  have "wf_json (JFloat (show_nat n @ u ''.0''))" for n
    using scan_number_score[of n] by (simp add: float_lexeme_def u_def)
  then have "wf_json (dump_index_search_hit h)" for h
    by (simp add: dump_index_search_hit_def u_def)
  then show ?thesis by (simp add: dump_search_response_def rt u_def)
qed

lemma search_response_refused: "validate_dashboard_response (dump_search_response r) = None"
  by (simp add: validate_dashboard_response_def dump_search_response_def u_def)

lemma error_answer_range: "400 \<le> ha_status (error_answer E e) \<and> ha_status (error_answer E e) \<le> 599"
  using error_status_range[of e] by (auto simp: error_answer_def split: option.splits)

lemma search_answer:
  "(\<exists>r. fst (respond C \<lparr>hr_route = SearchIndex q n d, hr_b_token = b, hr_operator_token = operator\<rparr> s) =
      \<lparr>ha_status = 200, ha_body = dump_search_response r\<rparr>) \<or>
   400 \<le> ha_status (fst (respond C \<lparr>hr_route = SearchIndex q n d, hr_b_token = b, hr_operator_token = operator\<rparr> s)) \<and>
   ha_status (fst (respond C \<lparr>hr_route = SearchIndex q n d, hr_b_token = b, hr_operator_token = operator\<rparr> s)) \<le> 599"
  using error_answer_range
  by (auto simp: respond_def search_handler_def with_param_def HttpGateway.guarded_def answering_def bindE_def liftE_def retE_def answer_of_def
      invalid_answer_def split: option.splits prod.splits sum.splits reply.splits)

section \<open>Properties\<close>



text \<open>C36: The dashboard's search can never show a result: whatever the gateway answers, with or without an operator token,
  the client reports a failure.  The client sends no token, which the route requires, and its view model refuses the fields
  document_id, current_sha256 and score that every answer of the gateway has.\<close>

theorem dashboard_search_fails:
  "case api_search (behind C s operator D (SearchIndex q n d)) query limit document_id of
     Inl e \<Rightarrow> (\<exists>f. e = ApiFailed f)
   | Inr response \<Rightarrow> False"
proof -
  let ?a = "fst (respond C \<lparr>hr_route = SearchIndex q n d, hr_b_token = None, hr_operator_token = operator\<rparr> s)"
  have "(\<exists>r. ?a = \<lparr>ha_status = 200, ha_body = dump_search_response r\<rparr>) \<or> 400 \<le> ha_status ?a \<and> ha_status ?a \<le> 599"
    using search_answer by blast
  then have "\<exists>f. call_view (behind C s operator D (SearchIndex q n d)) rq validate_dashboard_response = Inl (ApiFailed f)" for rq
  proof
    assume "\<exists>r. ?a = \<lparr>ha_status = 200, ha_body = dump_search_response r\<rparr>"
    then obtain r where "?a = \<lparr>ha_status = 200, ha_body = dump_search_response r\<rparr>" ..
    then show ?thesis
      by (simp add: behind_def call_view_def request_json_def bindD_def received wf_search_response is_error_status_def viewed_def
          search_response_refused)
  next
    assume "400 \<le> ha_status ?a \<and> ha_status ?a \<le> 599"
    then show ?thesis by (auto simp: behind_def call_view_def request_json_def bindD_def gateway_answer_def is_error_status_def)
  qed
  then show ?thesis unfolding api_search_def by (auto split: sum.splits) (metis Inl_inject sum.distinct(1))+
qed

end
