(* ===== verification/ProtectedChat.thy ===== *)
theory ProtectedChat
  imports DashboardClient
begin

text \<open>
  The dashboard's question answering over the approved index (\<^verbatim>\<open>apps/dashboard/rag_chat.py\<close>).  The module takes its search
  client and its language model as arguments and reads attributes of what the client returns; an attribute a class does not
  have is an AttributeError.  The Streamlit page around it is not modelled.
\<close>

section \<open>Exchanges\<close>

record rag_exchange =
  ex_question :: str
  ex_answer :: str
  ex_index_sha256 :: "str option"
  ex_citations :: "dashboard_hit list"
  ex_generated :: bool

definition check_exchange :: "rag_exchange \<Rightarrow> bool" where
  "check_exchange x \<longleftrightarrow> length_between 1 2000 (ex_question x) \<and> length_between 1 64000 (ex_answer x) \<and>
     (case ex_index_sha256 x of None \<Rightarrow> True | Some sha \<Rightarrow> is_sha256_hex sha) \<and> length (ex_citations x) \<le> 8"

definition dump_dashboard_hit :: "dashboard_hit \<Rightarrow> json" where
  "dump_dashboard_hit h =
     JObj [(u ''document_id'', JStr (dh_document_id h)), (u ''sha256'', JStr (dh_sha256 h)), (u ''chunk_index'', JInt (dh_chunk_index h)),
           (u ''text'', JStr (dh_text h))]"

definition dump_exchange :: "rag_exchange \<Rightarrow> json" where
  "dump_exchange x =
     JObj [(u ''question'', JStr (ex_question x)), (u ''answer'', JStr (ex_answer x)), (u ''index_sha256'', text_or_null (ex_index_sha256 x)),
           (u ''citations'', JArr (map dump_dashboard_hit (ex_citations x))), (u ''generated'', JBool (ex_generated x))]"

definition validate_exchange :: "json \<Rightarrow> rag_exchange option" where
  "validate_exchange = v_model
     [u ''question'', u ''answer'', u ''index_sha256'', u ''citations'', u ''generated'']
     (\<lambda>m. do {
        question_v \<leftarrow> req m (u ''question'') v_str;
        answer_v \<leftarrow> req m (u ''answer'') v_str;
        index_v \<leftarrow> req m (u ''index_sha256'') (v_opt v_str);
        citations_v \<leftarrow> req m (u ''citations'') (v_list validate_dashboard_hit);
        generated_v \<leftarrow> req m (u ''generated'') v_bool;
        Contracts.guarded check_exchange
          \<lparr>ex_question = question_v, ex_answer = answer_v, ex_index_sha256 = index_v, ex_citations = citations_v,
           ex_generated = generated_v\<rparr>})"

definition no_evidence_answer :: str where
  "no_evidence_answer = u ''No current approved indexed evidence matched this question. No model was called.''"

section \<open>The client and the labels\<close>

text \<open>
  \<open>pc_current_sha\<close> and \<open>pc_score\<close> read the attributes \<^verbatim>\<open>current_sha256\<close> and \<^verbatim>\<open>score\<close>, \<open>pc_current_index\<close> is the method
  \<^verbatim>\<open>get_current_index\<close>; \<open>None\<close> where there is none.
\<close>

record protected_client =
  pc_search :: "str \<Rightarrow> int \<Rightarrow> str \<Rightarrow> dashboard_response dash"
  pc_current_sha :: "dashboard_response \<Rightarrow> str option option"
  pc_score :: "dashboard_hit \<Rightarrow> str option"
  pc_current_index :: "(str \<Rightarrow> current_index_view dash) option"

text \<open>The client of \<open>DashboardClient\<close>, whose classes have none of the three.\<close>

definition dashboard_retrieval :: "dash_client \<Rightarrow> protected_client" where
  "dashboard_retrieval D =
     \<lparr>pc_search = (\<lambda>query limit document_id. api_search D query limit (Some document_id)),
      pc_current_sha = (\<lambda>r. None), pc_score = (\<lambda>h. None), pc_current_index = None\<rparr>"

definition attribute_of :: "'a option \<Rightarrow> 'a dash" where
  "attribute_of a = (case a of None \<Rightarrow> Inl (DashRaised (OtherError (u ''AttributeError''))) | Some x \<Rightarrow> Inr x)"

definition inconsistent_identities :: api_failure where
  "inconsistent_identities = \<lparr>af_code = u ''INVALID_GATEWAY_RESPONSE'',
     af_message = u ''Protected retrieval returned inconsistent source identities.'', af_status_code = None, af_retryable = False\<rparr>"

definition require_unchanged_index :: "protected_client \<Rightarrow> str \<Rightarrow> str option \<Rightarrow> unit dash" where
  "require_unchanged_index P document_id expected =
     bindD (attribute_of (pc_current_index P)) (\<lambda>get_current_index.
     bindD (get_current_index document_id) (\<lambda>current.
     if cv_sha256 current \<noteq> expected
     then Inl (ApiFailed \<lparr>af_code = u ''INDEX_GENERATION_CHANGED'',
       af_message = u ''The approved index changed while the answer was being prepared.'', af_status_code = None, af_retryable = True\<rparr>)
     else Inr ()))"

text \<open>
  \<^verbatim>\<open>re.findall(r"\[S(\d+)\]", answer)\<close> and \<^verbatim>\<open>int\<close>, which refuses more than 4300 digits; \<open>lb_digit\<close> is the value of a digit.
\<close>

record label_env =
  lb_udb :: unicode_db
  lb_digit :: "nat \<Rightarrow> nat"

definition label_pattern :: "unicode_db \<Rightarrow> regex" where
  "label_pattern U = seqs [lit (u ''[S''), plus (Cls (uc_digit U)), lit (u '']'')]"

definition label_number :: "label_env \<Rightarrow> str \<Rightarrow> nat option" where
  "label_number L t =
     (let digits = take (length t - 3) (drop 2 t) in
      if 4300 < length digits then None else Some (foldl (\<lambda>n d. 10 * n + lb_digit L d) 0 digits))"

definition source_labels :: "label_env \<Rightarrow> str \<Rightarrow> nat list option" where
  "source_labels L answer = those (map (label_number L) (findall (lb_udb L) (label_pattern (lb_udb L)) answer))"

section \<open>Answering\<close>

definition same_generation :: "str \<Rightarrow> str \<Rightarrow> dashboard_hit \<Rightarrow> bool" where
  "same_generation document_id sha h \<longleftrightarrow> dh_document_id h = document_id \<and> dh_sha256 h = sha"

text \<open>Of the last three exchanges, the questions asked about the same version.\<close>

definition prompt_history :: "str \<Rightarrow> str \<Rightarrow> rag_exchange list \<Rightarrow> json list" where
  "prompt_history document_id sha previous =
     map (\<lambda>x. JObj [(u ''role'', JStr (u ''user'')), (u ''content'', JStr (ex_question x))])
       (filter (\<lambda>x. ex_index_sha256 x = Some sha \<and> ex_citations x \<noteq> [] \<and> list_all (same_generation document_id sha) (ex_citations x))
         (drop (length previous - 3) previous))"

definition protected_evidence :: "protected_client \<Rightarrow> dashboard_hit list \<Rightarrow> json list option" where
  "protected_evidence P hits =
     those (map (\<lambda>(n, h). map_option (\<lambda>score.
       JObj [(u ''citation_id'', JStr (83 # show_nat n)), (u ''document_id'', JStr (dh_document_id h)), (u ''sha256'', JStr (dh_sha256 h)),
             (u ''chunk_index'', JInt (dh_chunk_index h)), (u ''text'', JStr (dh_text h)), (u ''lexical_score'', JFloat score)]) (pc_score P h))
       (enumerate 1 hits))"

definition new_exchange :: "str \<Rightarrow> str \<Rightarrow> str option \<Rightarrow> dashboard_hit list \<Rightarrow> bool \<Rightarrow> rag_exchange dash" where
  "new_exchange question answer sha citations generated =
     (let x = \<lparr>ex_question = question, ex_answer = answer, ex_index_sha256 = sha, ex_citations = citations, ex_generated = generated\<rparr> in
      if check_exchange x then Inr x else Inl (DashRaised ValidationError))"

definition checked_labels :: "label_env \<Rightarrow> nat \<Rightarrow> str \<Rightarrow> unit dash" where
  "checked_labels L n answer =
     (case source_labels L answer of
        None \<Rightarrow> Inl (DashRaised ValueError)
      | Some labels \<Rightarrow>
          if labels = [] \<or> \<not> set labels \<subseteq> {1..n} then Inl (DashRaised (ExternalServiceError False)) else Inr ())"

definition answer_from_hits ::
  "label_env \<Rightarrow> protected_client \<Rightarrow> (str \<Rightarrow> json list \<Rightarrow> json list \<Rightarrow> str res) \<Rightarrow> str \<Rightarrow> str \<Rightarrow> rag_exchange list \<Rightarrow>
   dashboard_response \<Rightarrow> rag_exchange dash" where
  "answer_from_hits L P ask question document_id previous result =
     (let hits = dp_results result; sha = dh_sha256 (hd hits) in
      if list_ex (\<lambda>h. dh_document_id h \<noteq> document_id) hits then Inl (ApiFailed inconsistent_identities)
      else if list_ex (\<lambda>h. dh_sha256 h \<noteq> sha) hits then Inl (ApiFailed inconsistent_identities)
      else
        bindD (attribute_of (pc_current_sha P result)) (\<lambda>current.
        if current \<noteq> Some sha then Inl (ApiFailed inconsistent_identities)
        else
          bindD (attribute_of (protected_evidence P hits)) (\<lambda>evidence.
          case ask question (prompt_history document_id sha previous) evidence of
            Inl e \<Rightarrow> Inl (DashRaised e)
          | Inr answer \<Rightarrow>
              bindD (checked_labels L (length hits) answer) (\<lambda>_.
              bindD (new_exchange question answer (Some sha) hits True) (\<lambda>exchange.
              bindD (require_unchanged_index P document_id (Some sha)) (\<lambda>_. Inr exchange))))))"

definition answer_from_protected_index ::
  "label_env \<Rightarrow> protected_client \<Rightarrow> (str \<Rightarrow> json list \<Rightarrow> json list \<Rightarrow> str res) \<Rightarrow> str \<Rightarrow> str \<Rightarrow> rag_exchange list \<Rightarrow> int \<Rightarrow>
   rag_exchange dash" where
  "answer_from_protected_index L P ask question document_id previous limit =
     (let normalized = strip question in
      if normalized = [] then Inl (DashRaised ValueError)
      else
        bindD (pc_search P normalized limit document_id) (\<lambda>result.
        if dp_results result = []
        then bindD (attribute_of (pc_current_sha P result)) (\<lambda>current.
             bindD (new_exchange normalized no_evidence_answer current [] False) (\<lambda>exchange.
             bindD (require_unchanged_index P document_id current) (\<lambda>_. Inr exchange)))
        else answer_from_hits L P ask normalized document_id previous result))"

section \<open>The kept exchanges\<close>

definition exchanges_for_current_index :: "rag_exchange list \<Rightarrow> str option \<Rightarrow> rag_exchange list \<times> nat" where
  "exchanges_for_current_index exchanges sha =
     (let current = filter (\<lambda>x. ex_index_sha256 x = sha) exchanges in (current, length exchanges - length current))"

definition load_exchanges :: "(str \<Rightarrow> json option) \<Rightarrow> str \<Rightarrow> rag_exchange list" where
  "load_exchanges state key =
     (case state key of
        Some (JArr items) \<Rightarrow> (case those (map validate_exchange items) of None \<Rightarrow> [] | Some xs \<Rightarrow> xs)
      | _ \<Rightarrow> [])"

definition append_exchange ::
  "(str \<Rightarrow> json option) \<Rightarrow> str \<Rightarrow> rag_exchange \<Rightarrow> int \<Rightarrow> err + (str \<Rightarrow> json option)" where
  "append_exchange state key x max_exchanges =
     (if max_exchanges \<le> 0 then Inl ValueError
      else
        let kept = load_exchanges state key @ [x] in
        Inr (state(key \<mapsto> JArr (map dump_exchange (drop (length kept - nat max_exchanges) kept)))))"

section \<open>What an exchange guarantees\<close>

lemma bindD_Inr_iff: "bindD r f = Inr y \<longleftrightarrow> (\<exists>x. r = Inr x \<and> f x = Inr y)"
  by (cases r) (auto simp: bindD_def)

lemma attribute_Inr_iff: "attribute_of a = Inr x \<longleftrightarrow> a = Some x"
  by (cases a) (auto simp: attribute_of_def)

lemma unchanged_Inr_iff:
  "require_unchanged_index P d sha = Inr v \<longleftrightarrow> (\<exists>f cur. pc_current_index P = Some f \<and> f d = Inr cur \<and> cv_sha256 cur = sha)"
  by (auto simp: require_unchanged_index_def bindD_Inr_iff attribute_Inr_iff)

lemma new_exchange_Inr_iff:
  "new_exchange q a sha cs g = Inr x \<longleftrightarrow>
     x = \<lparr>ex_question = q, ex_answer = a, ex_index_sha256 = sha, ex_citations = cs, ex_generated = g\<rparr> \<and> check_exchange x"
  by (auto simp: new_exchange_def Let_def)

lemmas exchange_iffs = bindD_Inr_iff attribute_Inr_iff unchanged_Inr_iff new_exchange_Inr_iff

lemma checked_labels_Inr: "checked_labels L n a = Inr v \<Longrightarrow> \<exists>ls. source_labels L a = Some ls \<and> ls \<noteq> [] \<and> set ls \<subseteq> {1..n}"
  by (auto simp: checked_labels_def split: option.splits if_splits)

text \<open>The guarantee of an exchange \<open>x\<close> for the search result \<open>r\<close>.\<close>

definition grounded :: "label_env \<Rightarrow> protected_client \<Rightarrow> str \<Rightarrow> dashboard_response \<Rightarrow> rag_exchange \<Rightarrow> bool" where
  "grounded L P document_id r x \<longleftrightarrow>
     ex_citations x = dp_results r \<and> pc_current_sha P r = Some (ex_index_sha256 x) \<and>
     list_all (\<lambda>h. dh_document_id h = document_id \<and> Some (dh_sha256 h) = ex_index_sha256 x) (ex_citations x) \<and>
     (case pc_current_index P of
        None \<Rightarrow> False
      | Some get_current_index \<Rightarrow>
          (case get_current_index document_id of Inl e \<Rightarrow> False | Inr now \<Rightarrow> cv_sha256 now = ex_index_sha256 x)) \<and>
     (if ex_generated x
      then (case source_labels L (ex_answer x) of
              None \<Rightarrow> False
            | Some labels \<Rightarrow> labels \<noteq> [] \<and> set labels \<subseteq> {1..length (ex_citations x)})
      else ex_citations x = [] \<and> ex_answer x = no_evidence_answer)"

lemma answer_from_hits_Inr:
  assumes "answer_from_hits L P ask q d previous r = Inr x"
  obtains answer labels f now where
    "\<not> list_ex (\<lambda>h. dh_document_id h \<noteq> d) (dp_results r)"
    "\<not> list_ex (\<lambda>h. dh_sha256 h \<noteq> dh_sha256 (hd (dp_results r))) (dp_results r)"
    "pc_current_sha P r = Some (Some (dh_sha256 (hd (dp_results r))))"
    "source_labels L answer = Some labels" "labels \<noteq> []" "set labels \<subseteq> {1..length (dp_results r)}"
    "x = \<lparr>ex_question = q, ex_answer = answer, ex_index_sha256 = Some (dh_sha256 (hd (dp_results r))),
          ex_citations = dp_results r, ex_generated = True\<rparr>" "check_exchange x"
    "pc_current_index P = Some f" "f d = Inr now" "cv_sha256 now = Some (dh_sha256 (hd (dp_results r)))"
proof -
  let ?sha = "dh_sha256 (hd (dp_results r))"
  have ids: "\<not> list_ex (\<lambda>h. dh_document_id h \<noteq> d) (dp_results r)" "\<not> list_ex (\<lambda>h. dh_sha256 h \<noteq> ?sha) (dp_results r)"
    using assms unfolding answer_from_hits_def Let_def by (metis Inl_Inr_False)+
  with assms obtain current evidence where c: "pc_current_sha P r = Some current" and
    rest: "(if current \<noteq> Some ?sha then Inl (ApiFailed inconsistent_identities)
      else case ask q (prompt_history d ?sha previous) evidence of
            Inl e \<Rightarrow> Inl (DashRaised e)
          | Inr answer \<Rightarrow>
              bindD (checked_labels L (length (dp_results r)) answer) (\<lambda>_.
              bindD (new_exchange q answer (Some ?sha) (dp_results r) True) (\<lambda>exchange.
              bindD (require_unchanged_index P d (Some ?sha)) (\<lambda>_. Inr exchange)))) = Inr x"
    unfolding answer_from_hits_def Let_def if_not_P[OF ids(1)] if_not_P[OF ids(2)]
    by (fastforce simp: bindD_Inr_iff attribute_Inr_iff split: if_splits)
  then obtain answer where sha: "current = Some ?sha" and "bindD (checked_labels L (length (dp_results r)) answer) (\<lambda>_.
      bindD (new_exchange q answer (Some ?sha) (dp_results r) True) (\<lambda>exchange.
      bindD (require_unchanged_index P d (Some ?sha)) (\<lambda>_. Inr exchange))) = Inr x"
    by (auto split: if_splits sum.splits)
  then show thesis using that ids c sha checked_labels_Inr[of L "length (dp_results r)" answer]
    by (auto simp: exchange_iffs)
qed

lemma answer_from_hits_grounded:
  assumes run: "answer_from_hits L P ask q d previous r = Inr x"
  shows "grounded L P d r x \<and> ex_question x = q \<and> check_exchange x"
  by (rule answer_from_hits_Inr[OF run]) (simp add: grounded_def list_all_iff list_ex_iff)

section \<open>Properties\<close>

text \<open>C14: An answer shown to the operator is grounded in one version of one document: whatever the client and the model return, an
  exchange cites exactly the hits of its search, all of the asked document and of the version the search named, and that
  version is still the current one when read again after the answer.  A generated answer carries at least one source label
  and no label beyond its citations; without a hit the fixed answer is given.  Anything else is an error.\<close>

theorem protected_answer_grounded:
  "case answer_from_protected_index L P ask question document_id previous limit of
     Inl e \<Rightarrow> True
   | Inr x \<Rightarrow>
       ex_question x = strip question \<and> check_exchange x \<and>
       (case pc_search P (strip question) limit document_id of Inl e \<Rightarrow> False | Inr r \<Rightarrow> grounded L P document_id r x)"
proof (cases "answer_from_protected_index L P ask question document_id previous limit")
  case (Inr x)
  then obtain r where r: "pc_search P (strip question) limit document_id = Inr r"
    by (auto simp: answer_from_protected_index_def Let_def bindD_Inr_iff split: if_splits)
  show ?thesis
  proof (cases "dp_results r = []")
    case True
    with Inr r show ?thesis
      by (auto simp: answer_from_protected_index_def Let_def exchange_iffs grounded_def split: if_splits)
  next
    case False
    with Inr r have "answer_from_hits L P ask (strip question) document_id previous r = Inr x"
      by (auto simp: answer_from_protected_index_def Let_def bindD_Inr_iff split: if_splits)
    with answer_from_hits_grounded[OF this] Inr r show ?thesis by simp
  qed
qed simp

text \<open>With the client the dashboard has, no question is ever answered.\<close>

lemma dashboard_chat_fails:
  "answer_from_protected_index L (dashboard_retrieval D) ask question document_id previous limit \<noteq> Inr x"
  by (auto simp: answer_from_protected_index_def answer_from_hits_def dashboard_retrieval_def Let_def exchange_iffs)

text \<open>Keeping an exchange: what is loaded afterwards are the latest ones, at most the given number.\<close>

lemma those_validated: "(\<And>x. x \<in> set xs \<Longrightarrow> f (g x) = Some x) \<Longrightarrow> those (map (f \<circ> g) xs) = Some xs"
  by (induction xs) simp_all

lemma validate_dumped: "check_exchange x \<Longrightarrow> validate_exchange (dump_exchange x) = Some x"
proof -
  have "validate_dashboard_hit (dump_dashboard_hit h) = Some h" for h
    by (simp add: validate_dashboard_hit_def dump_dashboard_hit_def req_def u_eq_iff)
  then have "those (map (validate_dashboard_hit \<circ> dump_dashboard_hit) hs) = Some hs" for hs
    by (simp add: those_validated)
  then show "check_exchange x \<Longrightarrow> validate_exchange (dump_exchange x) = Some x"
    by (cases "ex_index_sha256 x")
       (auto simp: validate_exchange_def dump_exchange_def req_def v_opt_def text_or_null_def Contracts.guarded_def u_eq_iff check_exchange_def)
qed

lemma append_then_load:
  assumes "append_exchange state key x n = Inr state'" "list_all check_exchange (load_exchanges state key @ [x])"
  shows "load_exchanges state' key = (let kept = load_exchanges state key @ [x] in drop (length kept - nat n) kept)"
proof -
  define kept where "kept = load_exchanges state key @ [x]"
  define latest where "latest = drop (length kept - nat n) kept"
  have "check_exchange y" if "y \<in> set latest" for y
    using assms(2) in_set_dropD[of y "length kept - nat n" kept] that unfolding latest_def kept_def[symmetric] by (auto simp: list_all_iff)
  then have "those (map validate_exchange (map dump_exchange latest)) = Some latest"
    unfolding map_map by (intro those_validated validate_dumped)
  moreover have "state' key = Some (JArr (map dump_exchange latest))"
    using assms(1) unfolding append_exchange_def kept_def[symmetric] Let_def latest_def[symmetric]
    by (auto split: if_splits)
  ultimately show ?thesis
    by (simp add: load_exchanges_def[of state'] kept_def[symmetric] latest_def[symmetric] Let_def)
qed

end
