(* ===== verification/Renderers.thy ===== *)
theory Renderers
  imports ChangeQueue "HOL-Library.Multiset"
begin

text \<open>
  What the operator's console shows of an analysis: the texts and the rows of the queue (\<^verbatim>\<open>apps/dashboard/presentation.py\<close>) and
  the HTML fragments with escaped document text (\<^verbatim>\<open>apps/dashboard/renderers.py\<close>).  The pages that put them on a screen are not
  modelled.
\<close>

section \<open>What the texts rely on\<close>

text \<open>
  \<open>pt_kst\<close> writes a datetime in Korean time, \<open>pt_instant\<close> is its position on the time line and \<open>pt_minimum\<close> that of
  \<^verbatim>\<open>datetime.min\<close>; \<open>pt_title\<close> is the title case of a character.
\<close>

record present_env =
  pt_udb :: unicode_db
  pt_title :: "nat \<Rightarrow> str"
  pt_kst :: "str \<Rightarrow> str"
  pt_instant :: "str \<Rightarrow> int"
  pt_minimum :: int

section \<open>Presentation\<close>

fun state_label :: "workflow_state \<Rightarrow> str" where
  "state_label PREPARED = [48516, 49437, 32, 51456, 48708, 46120]"
| "state_label ANALYSIS_REQUESTED = [48516, 49437, 32, 50836, 52397, 46120]"
| "state_label ANALYSIS_FAILED = [48516, 49437, 32, 49892, 54056]"
| "state_label AWAITING_APPROVAL = [49849, 51064, 32, 45824, 44592]"
| "state_label WF_HOLD = [48372, 47448]"
| "state_label INDEXED = [49353, 51064, 46120]"
| "state_label QUARANTINED = [44201, 47532, 46120]"
| "state_label SUPERSEDED = [45824, 52404, 46120]"

fun queue_state_label :: "workflow_state \<Rightarrow> str option" where
  "queue_state_label ANALYSIS_REQUESTED = Some ([50836, 52397, 46120])"
| "queue_state_label ANALYSIS_FAILED = Some ([49892, 54056])"
| "queue_state_label AWAITING_APPROVAL = Some ([49849, 51064, 32, 45824, 44592])"
| "queue_state_label _ = None"

fun action_label :: "operator_action \<Rightarrow> str" where
  "action_label APPROVE = [44160, 53664, 32, 44208, 44284, 32, 49849, 51064, 32, 48143, 32, 49353, 51064]"
| "action_label OP_HOLD = [48320, 44221, 32, 47928, 49436, 32, 44228, 49549, 32, 48372, 47448]"
| "action_label REANALYZE = [49352, 32, 48516, 49437, 32, 49884, 46020, 32, 47564, 46308, 44592]"

fun action_help :: "operator_action \<Rightarrow> str" where
  "action_help APPROVE = [52572, 49888, 32, 66, 32, 44208, 44284, 44032, 32, 65, 76, 76, 79, 87, 32, 43, 32, 73, 78, 68, 69, 88, 51060, 44256, 32, 48320, 44221, 32, 47928, 49436, 44032, 32, 44160, 53664, 54620, 32, 48260, 51204, 44284, 32, 51068, 52824, 54624, 32, 46412, 47564, 32, 65, 44032, 32, 49353, 51064, 54633, 45768, 45796, 46]"
| "action_help OP_HOLD = [65, 45716, 32, 48320, 44221, 32, 47928, 49436, 47484, 32, 49353, 51064, 54616, 51648, 32, 50506, 44256, 32, 54788, 51116, 32, 49888, 47280, 32, 48260, 51204, 51012, 32, 50976, 51648, 54633, 45768, 45796, 46]"
| "action_help REANALYZE = [65, 45716, 32, 51060, 32, 48516, 49437, 51012, 32, 48372, 47448, 183, 45824, 52404, 54616, 44256, 32, 44057, 51008, 32, 48320, 44221, 32, 47928, 49436, 50640, 32, 45824, 54620, 32, 49352, 32, 48516, 49437, 32, 49884, 46020, 47484, 32, 47564, 46317, 45768, 45796, 46]"

definition state_tone :: "workflow_state \<Rightarrow> str" where
  "state_tone state =
     (if state = INDEXED then u ''allow''
      else if state \<in> {QUARANTINED, ANALYSIS_FAILED} then u ''block''
      else if state \<in> {AWAITING_APPROVAL, WF_HOLD, ANALYSIS_REQUESTED} then u ''review''
      else if state = SUPERSEDED then u ''muted''
      else u ''info'')"

definition short_hash :: "nat \<Rightarrow> str \<Rightarrow> str" where
  "short_hash n value = (if n < length value then take n value @ [8230] else value)"

definition format_timestamp :: "present_env \<Rightarrow> str option \<Rightarrow> str" where
  "format_timestamp E value = (case value of None \<Rightarrow> [44592, 47197, 32, 50630, 51020] | Some t \<Rightarrow> pt_kst E t)"

record queue_row =
  qw_analysis_id :: str
  qw_document :: str
  qw_revision :: str
  qw_workflow :: str
  qw_policy :: str
  qw_requested_action :: str
  qw_gateway_outcome :: str
  qw_prepared :: str
  qw_changed_by :: str
  qw_candidate_sha :: str
  qw_audit_chain :: str

definition as_record :: "queue_row \<Rightarrow> (str \<times> str) list" where
  "as_record r =
     [(u ''Document'', qw_audit_chain r @ [32, 183, 32] @ qw_document r), (u ''Revision'', qw_revision r), (u ''Workflow'', qw_workflow r),
      (u ''Policy'', qw_policy r), (u ''Requested action'', qw_requested_action r), (u ''Gateway outcome'', qw_gateway_outcome r),
      (u ''Prepared'', qw_prepared r), (u ''Audit'', qw_audit_chain r)]"

definition gateway_outcome_text :: "analysis_status_view \<Rightarrow> str" where
  "gateway_outcome_text st =
     (case av_latest_outcome st of
        None \<Rightarrow> [48120, 49353, 51064]
      | Some outcome \<Rightarrow>
          if io_indexed outcome then [49353, 51064, 46120, 32, 183, 32, 52397, 53356, 32] @ show_int (io_chunk_count outcome) @ [44060]
          else if av_state st = AWAITING_APPROVAL then [48120, 49353, 51064, 32, 183, 32, 49849, 51064, 32, 45824, 44592]
          else if io_action outcome = QUARANTINE then [44201, 47532, 46120, 32, 183, 32, 48120, 49353, 51064]
          else [48372, 47448, 32, 183, 32, 48120, 49353, 51064])"

definition queue_row_of :: "present_env \<Rightarrow> analysis_status_view \<Rightarrow> queue_row" where
  "queue_row_of E st =
     \<lparr>qw_analysis_id = av_analysis_id st, qw_document = av_document_id st,
      qw_revision = [48260, 51204, 32] @ show_int (av_version st) @ [32, 183, 32, 48516, 49437, 32, 49884, 46020, 32] @ show_int (av_attempt st),
      qw_workflow = (case queue_state_label (av_state st) of Some t \<Rightarrow> t | None \<Rightarrow> state_label (av_state st)),
      qw_policy = (case av_latest_policy st of None \<Rightarrow> [44208, 44284, 32, 50630, 51020] | Some po \<Rightarrow> decision_value (po_decision po)),
      qw_requested_action = (case av_latest_policy st of None \<Rightarrow> [44208, 44284, 32, 50630, 51020] | Some po \<Rightarrow> index_action_value (po_index_action po)),
      qw_gateway_outcome = gateway_outcome_text st,
      qw_prepared = format_timestamp E (av_prepared_at st),
      qw_changed_by = av_changed_by st,
      qw_candidate_sha = short_hash 12 (av_candidate_sha256 st),
      qw_audit_chain = (if av_audit_chain_valid st then [44160, 51613, 46120] else [44160, 51613, 32, 49892, 54056])\<rparr>"

text \<open>\<^verbatim>\<open>sorted(..., reverse=True)\<close> keeps the order of equal keys.\<close>

definition status_key :: "present_env \<Rightarrow> analysis_status_view \<Rightarrow> int \<times> str" where
  "status_key E st = (case av_prepared_at st of None \<Rightarrow> pt_minimum E | Some t \<Rightarrow> pt_instant E t, av_analysis_id st)"

definition status_selected :: "present_env \<Rightarrow> str \<Rightarrow> workflow_state set \<Rightarrow> analysis_status_view \<Rightarrow> bool" where
  "status_selected E query states st \<longleftrightarrow>
     (let needle = casefold (pt_udb E) (strip query);
          haystack = casefold (pt_udb E) (join [32] [av_analysis_id st, av_document_id st, av_changed_by st, av_candidate_sha256 st])
      in (states = {} \<or> av_state st \<in> states) \<and> (needle = [] \<or> occurs_in needle haystack))"

definition filter_statuses ::
  "present_env \<Rightarrow> str \<Rightarrow> workflow_state set \<Rightarrow> analysis_status_view list \<Rightarrow> analysis_status_view list" where
  "filter_statuses E query states statuses =
     rev (sort_key (status_key E) (rev (filter (status_selected E query states) statuses)))"


section \<open>HTML fragments\<close>

text \<open>\<^verbatim>\<open>html.escape\<close>.\<close>

definition escape_html_char :: "nat \<Rightarrow> str" where
  "escape_html_char c =
     (if c = 38 then u ''&amp;'' else if c = 60 then u ''&lt;'' else if c = 62 then u ''&gt;''
      else if c = 34 then u ''&quot;'' else if c = 39 then u ''&#x27;'' else [c])"

definition escape_html :: "str \<Rightarrow> str" where
  "escape_html s = concat (map escape_html_char s)"

fun change_label :: "change_kind \<Rightarrow> str" where
  "change_label ADD = [52628, 44032]"
| "change_label DELETE = [49325, 51228]"
| "change_label REPLACE = [48320, 44221]"

text \<open>\<^verbatim>\<open>change.kind.value.lower()\<close>.\<close>

fun change_tone :: "change_kind \<Rightarrow> str" where
  "change_tone ADD = u ''add''"
| "change_tone DELETE = u ''delete''"
| "change_tone REPLACE = u ''replace''"

definition revision_text :: "int \<Rightarrow> int \<Rightarrow> str" where
  "revision_text version attempt = [48260, 51204, 32] @ show_int version @ [32, 183, 32, 48516, 49437, 32, 49884, 46020, 32] @ show_int attempt"

definition identity_rows :: "present_env \<Rightarrow> prepared_analysis \<Rightarrow> (str \<times> str) list" where
  "identity_rows E p =
     [([47928, 49436, 32, 73, 68], pa_document_id p), ([48516, 49437, 32, 73, 68], pa_analysis_id p), ([48320, 44221, 32, 47928, 49436, 32, 54028, 51068], ds_filename (pa_candidate p)),
      ([54805, 49885], document_format_value (ds_format (pa_candidate p))),
      ([48516, 49437, 32, 48260, 51204], revision_text (pa_version p) (pa_analysis_attempt p)),
      ([48320, 44221, 32, 51452, 52404], pa_changed_by p), ([51456, 48708, 32, 49884, 44033], format_timestamp E (pa_prepared_at p)),
      ([53076, 46300, 32, 48260, 51204], case truthy_text (pa_code_revision p) of Some t \<Rightarrow> t | None \<Rightarrow> [44592, 47197, 32, 50630, 51020])]"

definition identity_row :: "str \<times> str \<Rightarrow> str" where
  "identity_row r =
     u ''<div class=\"ig-identity-row\"><dt>'' @ escape_html (fst r) @ u ''</dt><dd>'' @ escape_html (snd r) @ u ''</dd></div>''"

definition render_identity :: "present_env \<Rightarrow> prepared_analysis \<Rightarrow> str" where
  "render_identity E p =
     u ''<section class=\"ig-identity\" aria-label=\"'' @ [47928, 49436, 32, 51221, 48372] @ u ''\">'' @
     u ''<h3 class=\"ig-section-title\">'' @ [47928, 49436, 32, 51221, 48372] @ u ''</h3>'' @
     u ''<dl>'' @ concat (map identity_row (identity_rows E p)) @ u ''</dl>'' @
     u ''</section>''"

definition location_part :: "text_location \<Rightarrow> str option" where
  "location_part l =
     (case tl_page l of
        Some n \<Rightarrow> Some ([54168, 51060, 51648, 32] @ show_int n)
      | None \<Rightarrow>
          (case tl_section l of
             Some n \<Rightarrow> Some ([49465, 49496, 32] @ show_int n)
           | None \<Rightarrow>
               (case truthy_text (tl_paragraph_id l) of
                  Some t \<Rightarrow> Some ([47928, 45800, 32] @ t)
                | None \<Rightarrow> truthy_text (tl_part l))))"

definition location_parts :: "text_location list \<Rightarrow> str list" where
  "location_parts locations = List.map_filter location_part (take 3 locations)"

definition location_summary :: "text_location list \<Rightarrow> str" where
  "location_summary locations =
     (if locations = [] then []
      else if location_parts locations = [] then []
      else u ''<div class=\"ig-diff-location\">'' @ escape_html (join (u '', '') (location_parts locations)) @ u ''</div>'')"

definition diff_text :: "str option \<Rightarrow> str" where
  "diff_text t = (case t of Some s \<Rightarrow> escape_html s | None \<Rightarrow> [8212])"

definition diff_row :: "nat \<times> document_change \<Rightarrow> str" where
  "diff_row r = (case r of (n, c) \<Rightarrow>
     u ''<tr>'' @
     u ''<td class=\"ig-diff-index\">'' @ show_nat n @ u ''</td>'' @
     u ''<td><span class=\"ig-change-label ig-change-'' @ change_tone (dc_kind c) @ u ''\">'' @ change_label (dc_kind c) @ u ''</span></td>'' @
     u ''<td><div class=\"ig-diff-text\">'' @ diff_text (dc_before c) @ u ''</div>'' @ location_summary (dc_before_locations c) @ u ''</td>'' @
     u ''<td><div class=\"ig-diff-text\">'' @ diff_text (dc_after c) @ u ''</div>'' @ location_summary (dc_after_locations c) @ u ''</td>'' @
     u ''</tr>'')"

definition render_diff :: "prepared_analysis \<Rightarrow> str" where
  "render_diff p =
     (let changes = dr_changes (pa_diff p) in
      if changes = [] then
        u ''<section class=\"ig-empty\" aria-label=\"'' @ [47928, 49436, 32, 48320, 44221] @ u ''\">'' @
        u ''<strong>'' @ [51221, 44508, 54868, 46108, 32, 53581, 49828, 53944, 32, 48320, 44221, 51060, 32, 50630, 49845, 45768, 45796] @ u ''</strong>'' @
        u ''<span>'' @ [44172, 51060, 53944, 50920, 51060, 44032, 32, 52628, 44032, 183, 49325, 51228, 183, 44368, 52404, 46108, 32, 53581, 49828, 53944, 47484, 32, 48152, 54872, 54616, 51648, 32, 50506, 50520, 49845, 45768, 45796, 46] @ u ''</span>'' @
        u ''</section>''
      else
        u ''<div class=\"ig-table-wrap\">'' @
        u ''<table class=\"ig-diff-table\">'' @
        u ''<caption class=\"ig-visually-hidden\">'' @ [51221, 44508, 54868, 46108, 32, 47928, 49436, 32, 48320, 44221] @ u ''</caption>'' @
        u ''<thead><tr><th>#</th><th>'' @ [48320, 44221, 32, 50976, 54805] @ u ''</th><th>'' @ [44592, 51456, 32, 47928, 49436] @ u ''</th>'' @
        u ''<th>'' @ [48320, 44221, 32, 47928, 49436] @ u ''</th></tr></thead>'' @
        u ''<tbody>'' @ concat (map diff_row (enumerate 1 changes)) @ u ''</tbody>'' @
        u ''</table></div>'')"

text \<open>\<^verbatim>\<open>str.capitalize\<close> and \<^verbatim>\<open>reason.replace(":", ": ")\<close>.\<close>

definition capitalize :: "present_env \<Rightarrow> str \<Rightarrow> str" where
  "capitalize E s = (case s of [] \<Rightarrow> [] | c # cs \<Rightarrow> pt_title E c @ lower (pt_udb E) cs)"

definition spaced_colons :: "str \<Rightarrow> str" where
  "spaced_colons s = concat (map (\<lambda>c. if c = 58 then [58, 32] else [c]) s)"

definition reason_labels :: "(str \<times> str) list" where
  "reason_labels =
     [(u ''POLICY_ALLOW_INDEXED'', [51221, 52293, 32, 54728, 50857, 32, 183, 32, 52397, 53356, 32, 49353, 51064, 32, 50756, 47308]),
      (u ''INDEX_NOT_REQUESTED'', [49353, 51064, 32, 51204, 32, 49849, 51064, 51060, 32, 54596, 50836, 54633, 45768, 45796]),
      (u ''POLICY_REVIEW_HOLD'', [51221, 52293, 32, 44160, 53664, 44032, 32, 54596, 50836, 54633, 45768, 45796]),
      (u ''POLICY_BLOCK'', [51221, 52293, 51060, 32, 48320, 44221, 32, 47928, 49436, 47484, 32, 52264, 45800, 54664, 49845, 45768, 45796]),
      (u ''OPERATOR_HOLD'', [50868, 50689, 51088, 44032, 32, 48372, 47448, 47484, 32, 50976, 51648, 54664, 49845, 45768, 45796]),
      (u ''OPERATOR_REANALYZE_HOLD'', [51116, 48516, 49437, 51012, 32, 50948, 54644, 32, 48372, 47448, 54664, 49845, 45768, 45796])]"

definition outcome_reason :: "present_env \<Rightarrow> str \<Rightarrow> str" where
  "outcome_reason E reason =
     (case map_of reason_labels reason of
        Some label \<Rightarrow> label
      | None \<Rightarrow>
          if prefixes_str (u ''HARD_BLOCK_ARTIFACT:'') reason
          then [44592, 49696, 51201, 32, 52264, 45800, 58, 32] @ lower (pt_udb E) (replace_char 95 32 (drop (length (u ''HARD_BLOCK_ARTIFACT:'')) reason))
          else capitalize E (spaced_colons (replace_char 95 32 reason)))"

definition policy_tone :: "analysis_status_view \<Rightarrow> str" where
  "policy_tone st =
     (case av_latest_policy st of
        None \<Rightarrow> u ''muted''
      | Some po \<Rightarrow> if po_decision po = ALLOW then u ''allow'' else if po_decision po = BLOCK then u ''block'' else u ''review'')"

definition policy_step :: "analysis_status_view \<Rightarrow> str \<times> str \<times> str" where
  "policy_step st =
     (case av_latest_policy st of
        None \<Rightarrow> ([51221, 52293, 32, 44208, 44284, 32, 50630, 51020], [49688, 46973, 46108, 32, 66, 32, 48516, 49437, 32, 44208, 44284, 44032, 32, 50630, 49845, 45768, 45796], policy_tone st)
      | Some po \<Rightarrow>
          (decision_value (po_decision po) @ u '' + '' @ index_action_value (po_index_action po),
           [50948, 54744, 32, 51216, 49688, 32] @ show_int (po_risk_score po) @ [32, 183, 32, 49436, 48260, 32, 44160, 51613, 32, 50756, 47308], policy_tone st))"

definition outcome_step :: "present_env \<Rightarrow> analysis_status_view \<Rightarrow> str \<times> str \<times> str" where
  "outcome_step E st =
     (case av_latest_outcome st of
        None \<Rightarrow> ([48120, 49353, 51064], state_label (av_state st), state_tone (av_state st))
      | Some outcome \<Rightarrow>
          if io_indexed outcome
          then ([49353, 51064, 46120], [52397, 53356, 32] @ show_int (io_chunk_count outcome) @ [44060, 32, 183, 32] @ outcome_reason E (io_reason outcome), u ''allow'')
          else if av_state st = AWAITING_APPROVAL then ([48120, 49353, 51064], [49849, 51064, 32, 45824, 44592], u ''review'')
          else if io_action outcome = QUARANTINE then ([44201, 47532, 46120, 32, 183, 32, 48120, 49353, 51064], outcome_reason E (io_reason outcome), u ''block'')
          else ([48372, 47448, 32, 183, 32, 48120, 49353, 51064], outcome_reason E (io_reason outcome), u ''review''))"

definition chain_step :: "str \<times> str \<times> str \<times> str \<Rightarrow> str" where
  "chain_step x = (case x of (label, value, detail, tone) \<Rightarrow>
     u ''<li class=\"ig-chain-step\">'' @
     u ''<span class=\"ig-chain-node ig-tone-'' @ escape_html tone @ u ''\" aria-hidden=\"true\"></span>'' @
     u ''<span class=\"ig-chain-label\">'' @ escape_html label @ u ''</span>'' @
     u ''<strong>'' @ escape_html value @ u ''</strong>'' @
     u ''<span class=\"ig-chain-detail\">'' @ escape_html detail @ u ''</span>'' @
     u ''</li>'')"

definition outcome_steps :: "present_env \<Rightarrow> analysis_status_view \<Rightarrow> (str \<times> str \<times> str \<times> str) list" where
  "outcome_steps E st = [([51221, 52293, 32, 44208, 44284], policy_step st), ([44172, 51060, 53944, 50920, 51060, 32, 44208, 44284], outcome_step E st)]"

definition render_review_outcomes :: "present_env \<Rightarrow> analysis_status_view \<Rightarrow> str" where
  "render_review_outcomes E st =
     u ''<section class=\"ig-chain\" aria-label=\"'' @ [44160, 51613, 46108, 32, 52376, 47532, 32, 55120, 47492] @ u ''\">'' @
     u ''<ol>'' @ concat (map chain_step (outcome_steps E st)) @ u ''</ol>'' @
     u ''<p class=\"ig-chain-audit ig-tone-'' @ (if av_audit_chain_valid st then u ''allow'' else u ''block'') @ u ''\">'' @
     escape_html (if av_audit_chain_valid st then [44048, 49324, 32, 52404, 51064, 32, 44160, 51613, 32, 50756, 47308] else [44048, 49324, 32, 52404, 51064, 32, 44160, 51613, 32, 49892, 54056]) @ u ''</p>'' @
     u ''</section>''"

section \<open>What a browser reads\<close>

text \<open>
  A page is a sequence of tags and texts.  \<open>read_html\<close> reads one from HTML text: a tag ends at its first closing bracket, the
  character references of \<^verbatim>\<open>html.escape\<close> in a text stand for their characters.
\<close>

datatype html = Mark str | Words str

definition references :: "(str \<times> nat) list" where
  "references = [(u ''amp;'', 38), (u ''lt;'', 60), (u ''gt;'', 62), (u ''quot;'', 34), (u ''#x27;'', 39)]"

function unescape_html :: "str \<Rightarrow> str" where
  "unescape_html [] = []"
| "unescape_html (c # cs) =
     (if c \<noteq> 38 then c # unescape_html cs
      else case find (\<lambda>r. prefixes_str (fst r) cs) references of
             None \<Rightarrow> c # unescape_html cs
           | Some r \<Rightarrow> snd r # unescape_html (drop (length (fst r)) cs))"
  by pat_completeness auto

termination by (relation "measure length") auto

function read_html :: "str \<Rightarrow> html list" where
  "read_html [] = []"
| "read_html (c # cs) =
     (if c = 60 then Mark (takeWhile (\<lambda>d. d \<noteq> 62) cs) # read_html (tl (dropWhile (\<lambda>d. d \<noteq> 62) cs))
      else Words (unescape_html (takeWhile (\<lambda>d. d \<noteq> 60) (c # cs))) # read_html (dropWhile (\<lambda>d. d \<noteq> 60) cs))"
  by pat_completeness auto

termination
  by (relation "measure length") (auto simp: less_Suc_eq_le intro: order_trans[OF length_dropWhile_le] diff_le_self le_trans)

fun markup_of :: "html \<Rightarrow> str" where
  "markup_of (Mark t) = 60 # t @ [62]"
| "markup_of (Words s) = escape_html s"

definition markup :: "html list \<Rightarrow> str" where
  "markup ts = concat (map markup_of ts)"

text \<open>Neighbouring texts are one text, and an empty text is none.\<close>

fun joined_words :: "html list \<Rightarrow> html list" where
  "joined_words [] = []"
| "joined_words (Mark t # ts) = Mark t # joined_words ts"
| "joined_words (Words s # ts) =
     (case joined_words ts of
        Words r # us \<Rightarrow> Words (s @ r) # us
      | us \<Rightarrow> if s = [] then us else Words s # us)"

fun closed_mark :: "html \<Rightarrow> bool" where
  "closed_mark (Mark t) \<longleftrightarrow> 62 \<notin> set t"
| "closed_mark (Words s) \<longleftrightarrow> True"

section \<open>Writing and reading back\<close>

lemma escape_html_simps [simp]:
  "escape_html [] = []" "escape_html (c # cs) = escape_html_char c @ escape_html cs"
  "escape_html (s @ t) = escape_html s @ escape_html t"
  by (simp_all add: escape_html_def)

lemma escaped_no_bracket: "60 \<notin> set (escape_html s)" "escape_html s = [] \<longleftrightarrow> s = []"
  by (induction s) (auto simp: escape_html_char_def u_def)

lemma unescape_escape [simp]: "unescape_html (escape_html s) = s"
proof (induction s)
  case (Cons c s)
  have "unescape_html (escape_html_char c @ r) = c # unescape_html r" for r
    by (auto simp: escape_html_char_def references_def prefixes_str_def u_def)
  with Cons show ?case by simp
qed simp

lemma split_at_char:
  "c \<notin> set s \<Longrightarrow> takeWhile (\<lambda>d. d \<noteq> c) (s @ c # r) = s" "c \<notin> set s \<Longrightarrow> dropWhile (\<lambda>d. d \<noteq> c) (s @ c # r) = c # r"
  "c \<notin> set s \<Longrightarrow> takeWhile (\<lambda>d. d \<noteq> c) s = s" "c \<notin> set s \<Longrightarrow> dropWhile (\<lambda>d. d \<noteq> c) s = []"
  by (induction s) auto

declare read_html.simps(2) [simp del]

lemma read_html_mark: "62 \<notin> set t \<Longrightarrow> read_html (60 # t @ 62 # r) = Mark t # read_html r"
  by (simp add: split_at_char read_html.simps)

lemma read_html_words:
  assumes "60 \<notin> set s" "s \<noteq> []" "r = [] \<or> hd r = 60"
  shows "read_html (s @ r) = Words (unescape_html s) # read_html r"
proof -
  have "takeWhile (\<lambda>d. d \<noteq> 60) (s @ r) = s" "dropWhile (\<lambda>d. d \<noteq> 60) (s @ r) = r"
    using assms by (cases r; simp add: split_at_char)+
  moreover obtain c cs where "s = c # cs" "c \<noteq> 60" using assms by (cases s) auto
  ultimately show ?thesis by (simp add: read_html.simps(2))
qed

lemma joined_words_empty [simp]: "joined_words (Words [] # ts) = joined_words ts"
  by (auto split: list.splits html.splits)

lemma joined_words_append: "joined_words (Words (s @ t) # ts) = joined_words (Words s # Words t # ts)"
  by (auto split: list.splits html.splits)

declare joined_words.simps(3) [simp del]

lemma markup_simps [simp]:
  "markup [] = []" "markup (t # ts) = markup_of t @ markup ts" "markup (ts @ us) = markup ts @ markup us"
  by (simp_all add: markup_def)

lemma markup_concat: "markup (concat (map f xs)) = concat (map (\<lambda>x. markup (f x)) xs)"
  by (induction xs) simp_all

lemma read_markup_words:
  "list_all closed_mark ts \<Longrightarrow> read_html (escape_html s @ markup ts) = joined_words (Words s # ts)"
proof (induction ts arbitrary: s)
  case Nil
  then show ?case
    using read_html_words[of "escape_html s" "[]"] by (cases "s = []") (auto simp: escaped_no_bracket joined_words.simps(3))
next
  case (Cons t ts)
  show ?case
  proof (cases t)
    case (Words w)
    then show ?thesis using Cons.IH[of "s @ w"] Cons.prems joined_words_append[of s w ts] by simp
  next
    case (Mark m)
    have "read_html (markup ts) = joined_words ts"
      using Cons.IH[of "[]"] Cons.prems by simp
    with Mark Cons.prems have "read_html (markup (t # ts)) = Mark m # joined_words ts"
      using read_html_mark[of m "markup ts"] by simp
    with Mark show ?thesis
      using read_html_words[of "escape_html s" "markup (t # ts)"] by (cases "s = []") (auto simp: escaped_no_bracket joined_words.simps(3))
  qed
qed

text \<open>Reading what was written gives the page back.\<close>

lemma read_markup: "list_all closed_mark ts \<Longrightarrow> read_html (markup ts) = joined_words ts"
  using read_markup_words[of ts "[]"] by simp

section \<open>The pages\<close>

text \<open>What each fragment should be: fixed tags, and between them the texts as they are.\<close>

definition identity_page :: "present_env \<Rightarrow> prepared_analysis \<Rightarrow> html list" where
  "identity_page E p =
     [Mark (u ''section class=\"ig-identity\" aria-label=\"'' @ [47928, 49436, 32, 51221, 48372] @ u ''\"''),
      Mark (u ''h3 class=\"ig-section-title\"''), Words ([47928, 49436, 32, 51221, 48372]), Mark (u ''/h3''), Mark (u ''dl'')] @
     concat (map (\<lambda>(label, value).
       [Mark (u ''div class=\"ig-identity-row\"''), Mark (u ''dt''), Words label, Mark (u ''/dt''),
        Mark (u ''dd''), Words value, Mark (u ''/dd''), Mark (u ''/div'')]) (identity_rows E p)) @
     [Mark (u ''/dl''), Mark (u ''/section'')]"

definition location_page :: "text_location list \<Rightarrow> html list" where
  "location_page locations =
     (if location_parts locations = [] then []
      else [Mark (u ''div class=\"ig-diff-location\"''), Words (join (u '', '') (location_parts locations)), Mark (u ''/div'')])"

definition side_page :: "str option \<Rightarrow> text_location list \<Rightarrow> html list" where
  "side_page t locations =
     [Mark (u ''td''), Mark (u ''div class=\"ig-diff-text\"''), Words (case t of Some s \<Rightarrow> s | None \<Rightarrow> [8212]), Mark (u ''/div'')] @
     location_page locations @ [Mark (u ''/td'')]"

definition change_page :: "nat \<times> document_change \<Rightarrow> html list" where
  "change_page r = (case r of (n, c) \<Rightarrow>
     [Mark (u ''tr''), Mark (u ''td class=\"ig-diff-index\"''), Words (show_nat n), Mark (u ''/td''),
      Mark (u ''td''), Mark (u ''span class=\"ig-change-label ig-change-'' @ change_tone (dc_kind c) @ u ''\"''),
      Words (change_label (dc_kind c)), Mark (u ''/span''), Mark (u ''/td'')] @
     side_page (dc_before c) (dc_before_locations c) @ side_page (dc_after c) (dc_after_locations c) @ [Mark (u ''/tr'')])"

definition diff_page :: "prepared_analysis \<Rightarrow> html list" where
  "diff_page p =
     (if dr_changes (pa_diff p) = []
      then [Mark (u ''section class=\"ig-empty\" aria-label=\"'' @ [47928, 49436, 32, 48320, 44221] @ u ''\"''),
            Mark (u ''strong''), Words ([51221, 44508, 54868, 46108, 32, 53581, 49828, 53944, 32, 48320, 44221, 51060, 32, 50630, 49845, 45768, 45796]), Mark (u ''/strong''),
            Mark (u ''span''), Words ([44172, 51060, 53944, 50920, 51060, 44032, 32, 52628, 44032, 183, 49325, 51228, 183, 44368, 52404, 46108, 32, 53581, 49828, 53944, 47484, 32, 48152, 54872, 54616, 51648, 32, 50506, 50520, 49845, 45768, 45796, 46]), Mark (u ''/span''),
            Mark (u ''/section'')]
      else [Mark (u ''div class=\"ig-table-wrap\"''), Mark (u ''table class=\"ig-diff-table\"''),
            Mark (u ''caption class=\"ig-visually-hidden\"''), Words ([51221, 44508, 54868, 46108, 32, 47928, 49436, 32, 48320, 44221]), Mark (u ''/caption''),
            Mark (u ''thead''), Mark (u ''tr''), Mark (u ''th''), Words (u ''#''), Mark (u ''/th''),
            Mark (u ''th''), Words ([48320, 44221, 32, 50976, 54805]), Mark (u ''/th''), Mark (u ''th''), Words ([44592, 51456, 32, 47928, 49436]), Mark (u ''/th''),
            Mark (u ''th''), Words ([48320, 44221, 32, 47928, 49436]), Mark (u ''/th''), Mark (u ''/tr''), Mark (u ''/thead''), Mark (u ''tbody'')] @
           concat (map change_page (enumerate 1 (dr_changes (pa_diff p)))) @
           [Mark (u ''/tbody''), Mark (u ''/table''), Mark (u ''/div'')])"

definition step_page :: "str \<times> str \<times> str \<times> str \<Rightarrow> html list" where
  "step_page x = (case x of (label, value, detail, tone) \<Rightarrow>
     [Mark (u ''li class=\"ig-chain-step\"''),
      Mark (u ''span class=\"ig-chain-node ig-tone-'' @ tone @ u ''\" aria-hidden=\"true\"''), Mark (u ''/span''),
      Mark (u ''span class=\"ig-chain-label\"''), Words label, Mark (u ''/span''),
      Mark (u ''strong''), Words value, Mark (u ''/strong''),
      Mark (u ''span class=\"ig-chain-detail\"''), Words detail, Mark (u ''/span''), Mark (u ''/li'')])"

definition outcome_page :: "present_env \<Rightarrow> analysis_status_view \<Rightarrow> html list" where
  "outcome_page E st =
     [Mark (u ''section class=\"ig-chain\" aria-label=\"'' @ [44160, 51613, 46108, 32, 52376, 47532, 32, 55120, 47492] @ u ''\"''), Mark (u ''ol'')] @
     concat (map step_page (outcome_steps E st)) @
     [Mark (u ''/ol''),
      Mark (u ''p class=\"ig-chain-audit ig-tone-'' @ (if av_audit_chain_valid st then u ''allow'' else u ''block'') @ u ''\"''),
      Words (if av_audit_chain_valid st then [44048, 49324, 32, 52404, 51064, 32, 44160, 51613, 32, 50756, 47308] else [44048, 49324, 32, 52404, 51064, 32, 44160, 51613, 32, 49892, 54056]), Mark (u ''/p''), Mark (u ''/section'')]"

lemma plain_tones:
  "tone \<in> {u ''allow'', u ''block'', u ''review'', u ''muted'', u ''info''} \<Longrightarrow> escape_html tone = tone \<and> 62 \<notin> set tone"
  by (auto simp: escape_html_char_def u_def)

lemma step_tones:
  "snd (snd (policy_step st)) \<in> {u ''allow'', u ''block'', u ''review'', u ''muted'', u ''info''}"
  "snd (snd (outcome_step E st)) \<in> {u ''allow'', u ''block'', u ''review'', u ''muted'', u ''info''}"
  by (auto simp: policy_step_def policy_tone_def outcome_step_def state_tone_def split: option.splits)

lemma plain_label: "escape_html (change_label k) = change_label k" "62 \<notin> set (change_tone k)"
  by (cases k; simp add: escape_html_char_def u_def)+

lemma show_plain: "escape_html (show_nat n) = show_nat n"
proof -
  have "\<forall>c\<in>set s. is_digit c \<Longrightarrow> escape_html s = s" for s
    by (induction s) (auto simp: escape_html_char_def is_digit_def)
  then show ?thesis using show_nat_digits by blast
qed

lemma identity_markup: "render_identity E p = markup (identity_page E p)"
proof -
  have "identity_row = (\<lambda>r. markup (case r of (label, value) \<Rightarrow>
       [Mark (u ''div class=\"ig-identity-row\"''), Mark (u ''dt''), Words label, Mark (u ''/dt''),
        Mark (u ''dd''), Words value, Mark (u ''/dd''), Mark (u ''/div'')]))"
    by (rule ext) (simp add: identity_row_def u_def split: prod.split)
  then show ?thesis
    by (simp add: render_identity_def identity_page_def markup_concat escape_html_char_def u_def)
qed

lemma location_markup: "location_summary ls = markup (location_page ls)"
  by (auto simp: location_summary_def location_page_def location_parts_def List.map_filter_def u_def)

lemma diff_markup: "render_diff p = markup (diff_page p)"
proof -
  have "diff_text t = markup [Words (case t of Some s \<Rightarrow> s | None \<Rightarrow> [8212])]" for t
    by (simp add: diff_text_def escape_html_char_def split: option.split)
  then have "diff_row = (\<lambda>r. markup (change_page r))"
    by (intro ext) (simp add: diff_row_def change_page_def side_page_def location_markup plain_label show_plain u_def split: prod.split)
  then show ?thesis
    by (simp add: render_diff_def diff_page_def Let_def markup_concat escape_html_char_def u_def)
qed

lemma outcome_markup: "render_review_outcomes E st = markup (outcome_page E st)"
proof -
  have "chain_step (label, step) = markup (step_page (label, step))"
    if "snd (snd step) \<in> {u ''allow'', u ''block'', u ''review'', u ''muted'', u ''info''}" for label step
    using plain_tones[OF that] by (cases step) (simp add: chain_step_def step_page_def u_def)
  from this[OF step_tones(1)] this[OF step_tones(2)]
  have "concat (map chain_step (outcome_steps E st)) = markup (concat (map step_page (outcome_steps E st)))"
    by (simp add: outcome_steps_def)
  then show ?thesis
    by (simp add: render_review_outcomes_def outcome_page_def u_def)
qed

lemma closed_concat: "list_all closed_mark (concat (map f xs)) \<longleftrightarrow> list_all (\<lambda>x. list_all closed_mark (f x)) xs"
  by (induction xs) simp_all

lemma identity_closed: "list_all closed_mark (identity_page E p)"
  by (simp add: identity_page_def closed_concat list.pred_True u_def split: prod.split)

lemma diff_closed: "list_all closed_mark (diff_page p)"
proof -
  have "list_all closed_mark (change_page r)" for r
    by (cases r) (simp add: change_page_def side_page_def location_page_def plain_label u_def)
  then show ?thesis by (simp add: diff_page_def closed_concat list.pred_True u_def)
qed

lemma outcome_closed: "list_all closed_mark (outcome_page E st)"
proof -
  have "list_all closed_mark (step_page (label, step))"
    if "snd (snd step) \<in> {u ''allow'', u ''block'', u ''review'', u ''muted'', u ''info''}" for label step
    using plain_tones[OF that] by (cases step) (simp add: step_page_def u_def)
  from this[OF step_tones(1)] this[OF step_tones(2)] show ?thesis
    by (simp add: outcome_page_def outcome_steps_def u_def)
qed

section \<open>Properties\<close>

text \<open>C13: Nothing a document, a command or the risk engine contains can change the page an operator decides on: whatever the
  texts are, a browser reads each fragment as the page's own fixed tags with exactly those texts in their places, every
  escaped character read back.\<close>

theorem fragments_show_texts:
  "read_html (render_identity E p) = joined_words (identity_page E p) \<and>
   read_html (render_diff p) = joined_words (diff_page p) \<and>
   read_html (render_review_outcomes E st) = joined_words (outcome_page E st)"
  by (simp add: identity_markup diff_markup outcome_markup read_markup identity_closed diff_closed outcome_closed)

text \<open>The queue's list: exactly the matching analyses, latest first.\<close>

lemma filter_statuses_exact:
  "mset (filter_statuses E query states sts) = filter_mset (status_selected E query states) (mset sts)"
  "sorted (rev (map (status_key E) (filter_statuses E query states sts)))"
  by (simp_all add: filter_statuses_def rev_map[symmetric])

text \<open>What the row says of the gateway's outcome is what the gateway reported.\<close>

lemma row_says_indexed:
  "prefixes_str ([49353, 51064, 46120]) (qw_gateway_outcome (queue_row_of E st)) \<longleftrightarrow>
   (case av_latest_outcome st of None \<Rightarrow> False | Some outcome \<Rightarrow> io_indexed outcome)"
  by (simp add: queue_row_of_def gateway_outcome_text_def prefixes_str_def split: option.split)

end
