(* ===== verification/RagChat.thy ===== *)
theory RagChat
  imports HttpSafety ModelClient
begin

text \<open>
  The read-only question-answering service over the index (\<^verbatim>\<open>rag_chat_api.py\<close>): what it searches, what it sends to the
  language model, what it cites.  It opens the index database the gateway writes; the model's client is the one of
  \<open>ModelClient\<close>.  The page it serves and the web framework are not modelled.
\<close>

section \<open>Requests and answers\<close>

record chat_request =
  cq_question :: str
  cq_limit :: int

definition check_chat_request :: "chat_request \<Rightarrow> bool" where
  "check_chat_request rq \<longleftrightarrow> length_between 1 2000 (cq_question rq) \<and> 1 \<le> cq_limit rq \<and> cq_limit rq \<le> 8"

text \<open>The request model ignores further keys.\<close>

definition validate_chat_request :: "json \<Rightarrow> chat_request option" where
  "validate_chat_request j =
     (case j of
        JObj kvs \<Rightarrow>
          Option.bind (req (map_of kvs) (u ''question'') v_str) (\<lambda>question.
          Option.bind (dflt (map_of kvs) (u ''limit'') 5 v_int) (\<lambda>limit.
          Contracts.guarded check_chat_request \<lparr>cq_question = question, cq_limit = limit\<rparr>))
      | _ \<Rightarrow> None)"

record citation =
  ct_document_id :: str
  ct_sha256 :: str
  ct_chunk_index :: nat

record chat_response =
  ch_answer :: str
  ch_citations :: "citation list"

definition chat_health :: json where
  "chat_health = JObj [(u ''status'', JStr (u ''ok'')), (u ''service'', JStr (u ''intranet-rag-chat''))]"

section \<open>The runtime directory\<close>

text \<open>\<open>absolute\<close> and \<open>under_root\<close> are \<^verbatim>\<open>Path.is_absolute\<close> and \<^verbatim>\<open>_PROJECT_ROOT / path\<close>.\<close>

definition configured_runtime :: "(str \<Rightarrow> str option) \<Rightarrow> str" where
  "configured_runtime variable =
     variable_or variable (u ''INDEXGUARD_RAG_RUNTIME_DIR'') (variable_or variable (u ''INDEXGUARD_RUNTIME_DIR'') (u ''data/runtime''))"

definition selected_runtime :: "(str \<Rightarrow> bool) \<Rightarrow> (str \<Rightarrow> str) \<Rightarrow> str option \<Rightarrow> (str \<Rightarrow> str option) \<Rightarrow> str" where
  "selected_runtime absolute under_root runtime_dir variable =
     (case runtime_dir of
        Some d \<Rightarrow> d
      | None \<Rightarrow> let configured = configured_runtime variable in if absolute configured then configured else under_root configured)"

section \<open>The answer\<close>

definition cited :: "search_hit \<Rightarrow> citation" where
  "cited h = \<lparr>ct_document_id = sh_document_id h, ct_sha256 = sh_sha256 h, ct_chunk_index = sh_chunk_index h\<rparr>"

definition evidence_of :: "nat \<Rightarrow> search_hit \<Rightarrow> json" where
  "evidence_of position h =
     JObj [(u ''citation_id'', JStr (83 # show_nat position)), (u ''document_id'', JStr (sh_document_id h)), (u ''sha256'', JStr (sh_sha256 h)),
           (u ''chunk_index'', JInt (int (sh_chunk_index h))), (u ''text'', JStr (sh_text h)),
           (u ''lexical_score'', JFloat (show_nat (sh_score h) @ [46, 48]))]"

definition chat_evidence :: "search_hit list \<Rightarrow> json list" where
  "chat_evidence hits = map (\<lambda>(n, h). evidence_of (Suc n) h) (enumerate 0 hits)"

definition no_match_answer :: str where
  "no_match_answer = [49849, 51064, 46104, 50612, 32, 49353, 51064, 46108, 32, 47928, 49436, 50640, 49436, 32, 51656, 47928, 44284, 32, 51068, 52824, 54616, 45716, 32, 44540, 44144, 47484, 32, 52286, 51648, 32, 47803, 54664, 49845, 45768, 45796, 46]"

text \<open>
  \<open>settings\<close> is what the environment gives when the model is asked, \<open>connect\<close> the client with its network.  \<open>None\<close> is the
  503 of an unavailable model; an exception is the framework's 500.
\<close>

definition chat ::
  "env \<Rightarrow> model_settings res \<Rightarrow> (model_settings \<Rightarrow> model_client) \<Rightarrow> chat_request \<Rightarrow> index_store \<Rightarrow> chat_response option res" where
  "chat E settings connect rq st =
     bindR (search E st (cq_question rq) (cq_limit rq) None None) (\<lambda>hits.
     if hits = [] then Inr (Some \<lparr>ch_answer = no_match_answer, ch_citations = []\<rparr>)
     else (case bindR settings (\<lambda>s. answer_rag_question (connect s) (cq_question rq) [] (chat_evidence hits)) of
             Inr answer \<Rightarrow> Inr (Some \<lparr>ch_answer = answer, ch_citations = map cited hits\<rparr>)
           | Inl (ExternalServiceError b) \<Rightarrow> Inr None
           | Inl e \<Rightarrow> Inl e))"

text \<open>The route: status and answer.\<close>

definition chat_route ::
  "env \<Rightarrow> model_settings res \<Rightarrow> (model_settings \<Rightarrow> model_client) \<Rightarrow> json option \<Rightarrow> index_store \<Rightarrow> nat \<times> chat_response option" where
  "chat_route E settings connect body st =
     (case Option.bind body validate_chat_request of
        None \<Rightarrow> (422, None)
      | Some rq \<Rightarrow>
          (case chat E settings connect rq st of
             Inl e \<Rightarrow> (500, None)
           | Inr None \<Rightarrow> (503, None)
           | Inr (Some answer) \<Rightarrow> (200, Some answer)))"

section \<open>What is cited\<close>

text \<open>A citation names a stored chunk of a version that is its document's current one.\<close>

definition current_chunk :: "index_store \<Rightarrow> citation \<Rightarrow> bool" where
  "current_chunk st c \<longleftrightarrow> current_sha st (ct_document_id c) = Some (ct_sha256 c) \<and>
     list_ex (\<lambda>k. ic_document_id k = ct_document_id c \<and> ic_sha256 k = ct_sha256 c \<and> ic_chunk_index k = ct_chunk_index c) (ix_chunks st)"

lemma hit_current:
  assumes inv: "ix_inv st" and run: "search E st query limit None None = Inr hits" and h: "h \<in> set hits"
  shows "current_chunk st (cited h)"
proof -
  obtain cur where s: "search_current_snapshot E st query limit None = Inr (cur, hits)"
    using run by (auto simp: search_def split: sum.splits)
  then have "h \<in> set (score_rows E (joined (\<lambda>c r. id_is_current r) st) (strip query) limit)"
    using h by (auto simp: search_current_snapshot_def Let_def split: if_splits)
  from score_rows_mem[OF this] obtain c where c: "c \<in> set (joined (\<lambda>c r. id_is_current r) st)" "sh_document_id h = ic_document_id c"
    "sh_sha256 h = ic_sha256 c" "sh_chunk_index h = ic_chunk_index c" by blast
  then obtain r where r: "chunk_row st c = Some r" "id_is_current r" "c \<in> set (ix_chunks st)"
    by (auto simp: joined_def split: option.splits)
  have rr: "r \<in> set (ix_docs st)" "doc_key r = chunk_key c" using r(1) by (auto simp: chunk_row_def dest: find_SomeD)
  have "current_sha st (ic_document_id c) = Some (id_sha256 r)"
    using inv rr r by (intro current_sha_eq) (auto simp: ix_inv_def doc_key_def chunk_key_def)
  with c r(3) rr show ?thesis by (auto simp: current_chunk_def cited_def doc_key_def chunk_key_def list_ex_iff)
qed

lemma chat_Inr:
  assumes "chat E settings connect rq st = Inr (Some a)"
  obtains hits where "search E st (cq_question rq) (cq_limit rq) None None = Inr hits" "ch_citations a = map cited hits"
  using assms by (auto simp: chat_def bindR_def split: sum.splits if_splits err.splits)

lemma current_is_version: "current_chunk st c \<Longrightarrow> (ct_document_id c, ct_sha256 c) \<in> versions st"
  by (simp add: current_chunk_def current_sha_version)

section \<open>Properties\<close>


text \<open>Without a matching chunk no model is asked: the answer is the same whatever the settings and the network.\<close>

lemma no_match_no_model:
  "search E st (cq_question rq) (cq_limit rq) None None = Inr [] \<Longrightarrow> chat E settings connect rq st = chat E settings' connect' rq st"
  by (simp add: chat_def bindR_def)

end
