(* ===== verification/ProductPipeline.thy ===== *)
theory ProductPipeline
  imports HttpSafety GitWatcher "HOL-Library.Code_Target_Nat" "HOL-Library.Code_Target_Int"
begin

text \<open>
  The product pipeline (\<^verbatim>\<open>product_pipeline.py\<close>): one directory poll and one git poll, every changed document taken through the
  audited workflow, and C's explicit command; and the polling watcher of a directory (\<^verbatim>\<open>watcher.py\<close>).  The model's summaries, the
  analyzer and git are parameters.
\<close>

section \<open>State\<close>

text \<open>
  The watched directory, the snapshots and the blobs are files of the world.  \<open>pp_faults\<close> is the script of failures of file
  operations: each consumes one entry and raises it, if it is one.
\<close>

record product =
  pp_world :: "index_store world"
  pp_scan :: "bytes option"
  pp_git :: git_monitor
  pp_faults :: "err option list"

record summary_client =
  sm_git :: "git_event \<Rightarrow> str res"
  sm_document :: "risk_analysis_request \<Rightarrow> str res"

text \<open>\<open>px_resolve files path\<close> is \<^verbatim>\<open>Path.resolve(strict=True)\<close>; \<open>px_view\<close> the directory as the scanner sees it.\<close>

record product_env =
  px_env :: env
  px_directory :: str
  px_runtime :: str
  px_repository :: str
  px_blobs :: blob_store
  px_extraction :: extraction
  px_analyzer :: "risk_analyzer option"
  px_summaries :: "summary_client option"
  px_resolve :: "(str \<Rightarrow> bytes option) \<Rightarrow> str \<Rightarrow> str res"
  px_view :: "(str \<Rightarrow> bytes option) \<Rightarrow> scan_view"

definition product_init :: "product_env \<Rightarrow> index_store world \<Rightarrow> bytes option \<Rightarrow> err option list \<Rightarrow> int \<Rightarrow> rat \<Rightarrow> product" where
  "product_init P w saved faults max_patch_bytes timeout_seconds =
     \<lparr>pp_world = w, pp_scan = saved, pp_git = git_monitor_init (px_repository P) True max_patch_bytes timeout_seconds,
      pp_faults = faults\<rparr>"

definition scan_state_path :: "product_env \<Rightarrow> str" where
  "scan_state_path P = path_join (px_runtime P) (u ''source-scan-state.json'')"

section \<open>Primitive steps\<close>

definition productW :: "(index_store world, 'a) op \<Rightarrow> (product, 'a) op" where
  "productW = onE pp_world (\<lambda>w s. s\<lparr>pp_world := w\<rparr>)"

definition disk_fault :: "(product, unit) op" where
  "disk_fault s =
     (case pp_faults s of
        [] \<Rightarrow> (Inr (), s)
      | None # fs \<Rightarrow> (Inr (), s\<lparr>pp_faults := fs\<rparr>)
      | Some e # fs \<Rightarrow> (Inl e, s\<lparr>pp_faults := fs\<rparr>))"

definition put_file :: "str \<Rightarrow> bytes option \<Rightarrow> (product, unit) op" where
  "put_file path content =
     updE (\<lambda>s. s\<lparr>pp_world := (pp_world s)\<lparr>w_files := (w_files (pp_world s))(path := content)\<rparr>\<rparr>)"

definition open_bytes :: "str \<Rightarrow> (product, bytes) op" where
  "open_bytes path = bindE disk_fault (\<lambda>_. productW (read_file path))"

definition is_file :: "str \<Rightarrow> (product, bool) op" where
  "is_file path = readE (\<lambda>s. w_files (pp_world s) path \<noteq> None)"

section \<open>Documents\<close>

definition snapshot_path :: "product_env \<Rightarrow> str \<Rightarrow> str \<Rightarrow> str" where
  "snapshot_path P digest ending =
     path_join (path_join (px_runtime P) (u ''source-snapshots'')) (digest @ lower (en_udb (px_env P)) ending)"

text \<open>\<^verbatim>\<open>_current_path\<close>: the resolved path must lie below the resolved directory.\<close>

definition under :: "str \<Rightarrow> str \<Rightarrow> bool" where
  "under directory path \<longleftrightarrow> take (length (path_parts directory)) (path_parts path) = path_parts directory"

definition current_path :: "product_env \<Rightarrow> str \<Rightarrow> (product, str) op" where
  "current_path P relative_path =
     bindE (\<lambda>s. (px_resolve P (w_files (pp_world s)) (path_join (px_directory P) relative_path), s)) (\<lambda>candidate.
     if \<not> under (px_directory P) candidate then raiseE ValueError else retE candidate)"

text \<open>A copy that fails leaves the truncated destination.\<close>

definition write_snapshot :: "product_env \<Rightarrow> str \<Rightarrow> str \<Rightarrow> str \<Rightarrow> (product, str) op" where
  "write_snapshot P source destination expected_sha256 =
     bindE (open_bytes source) (\<lambda>content.
     bindE (put_file destination (Some [])) (\<lambda>_.
     bindE disk_fault (\<lambda>_.
     bindE (put_file destination (Some content)) (\<lambda>_.
     bindE (open_bytes destination) (\<lambda>actual.
     if en_sha_bytes (px_env P) actual \<noteq> expected_sha256
     then bindE disk_fault (\<lambda>_. bindE (put_file destination None) (\<lambda>_. raiseE ValueError))
     else retE destination)))))"

definition store_source_snapshot :: "product_env \<Rightarrow> str \<Rightarrow> str \<Rightarrow> (product, str) op" where
  "store_source_snapshot P source expected_sha256 =
     (let destination = snapshot_path P expected_sha256 (path_suffix source) in
      bindE (is_file destination) (\<lambda>present.
      if present
      then bindE (open_bytes destination) (\<lambda>actual.
           if en_sha_bytes (px_env P) actual = expected_sha256 then retE destination
           else bindE disk_fault (\<lambda>_.
                bindE (put_file destination None) (\<lambda>_. write_snapshot P source destination expected_sha256)))
      else write_snapshot P source destination expected_sha256))"

record document_event =
  de_path :: str
  de_event_type :: str
  de_analysis_id :: "str option"
  de_state :: str
  de_summary :: "str option"
  de_summary_error :: "str option"
  de_risk_error :: "str option"
  de_outcome :: "json option"

definition document_event_dict :: "document_event \<Rightarrow> json" where
  "document_event_dict d =
     JObj [(u ''path'', JStr (de_path d)), (u ''event_type'', JStr (de_event_type d)), (u ''analysis_id'', text_or_null (de_analysis_id d)),
           (u ''state'', JStr (de_state d)), (u ''summary'', text_or_null (de_summary d)), (u ''summary_error'', text_or_null (de_summary_error d)),
           (u ''risk_error'', text_or_null (de_risk_error d)), (u ''outcome'', case de_outcome d of None \<Rightarrow> JNull | Some j \<Rightarrow> j)]"

definition stopped_event :: "scan_event \<Rightarrow> str \<Rightarrow> str \<Rightarrow> document_event" where
  "stopped_event ev state reason =
     \<lparr>de_path = se_path ev, de_event_type = scan_event_type_value (se_type ev), de_analysis_id = None, de_state = state,
      de_summary = None, de_summary_error = None, de_risk_error = Some reason, de_outcome = None\<rparr>"

text \<open>\<^verbatim>\<open>except (OSError, ValueError)\<close>.\<close>

definition storage_failure :: "err \<Rightarrow> bool" where
  "storage_failure e \<longleftrightarrow> is_os_error e \<or> e \<in> {ValueError, ValidationError}"

text \<open>The model's text, or the code of its failure; any other exception is raised.\<close>

definition summary_result :: "str res \<Rightarrow> (str option \<times> str option) res" where
  "summary_result r =
     (case r of
        Inr t \<Rightarrow> Inr (Some t, None)
      | Inl (ExternalServiceError b) \<Rightarrow> Inr (None, error_code (ExternalServiceError b))
      | Inl e \<Rightarrow> Inl e)"

definition summarize_with :: "('a \<Rightarrow> str res) option \<Rightarrow> 'a \<Rightarrow> ('s, str option \<times> str option) op" where
  "summarize_with client x = (case client of None \<Rightarrow> retE (None, None) | Some f \<Rightarrow> liftE (summary_result (f x)))"

text \<open>B's dispatch; when B is unavailable the candidate is held.\<close>

definition dispatch_or_hold :: "product_env \<Rightarrow> prepared_analysis \<Rightarrow> (product, str option \<times> json option) op" where
  "dispatch_or_hold P prepared =
     (case px_analyzer P of
        None \<Rightarrow> retE (None, None)
      | Some analyzer \<Rightarrow>
          tryE (productW (dispatch (sqlite_indexer (px_env P)) (px_env P) (pa_analysis_id prepared) analyzer))
            (\<lambda>e. case e of
               ExternalServiceError b \<Rightarrow>
                 bindE (productW (gate_hold (sqlite_indexer (px_env P)) (px_env P) prepared (u ''RISK_ANALYSIS_UNAVAILABLE''))) (\<lambda>outcome.
                 retE (error_code e, Some (dump_index_outcome outcome)))
             | _ \<Rightarrow> raiseE e)
            (\<lambda>v. retE (None, None)))"

definition prepare_source ::
  "product_env \<Rightarrow> scan_event \<Rightarrow> file_record \<Rightarrow> str \<Rightarrow> str \<Rightarrow> str \<Rightarrow> (product, prepared_analysis) op" where
  "prepare_source P ev after name baseline_snapshot candidate_snapshot =
     bindE (open_bytes baseline_snapshot) (\<lambda>baseline.
     bindE (open_bytes candidate_snapshot) (\<lambda>candidate.
     productW (prepare_streams (px_blobs P) (px_extraction P) (px_env P) (u ''watch:'' @ se_path ev) baseline name candidate name
       (u ''directory-watcher:'' @ lower (en_udb (px_env P)) (scan_event_type_value (se_type ev)) @ [58] @ se_path ev) (Some (fr_mtime_ns after)))))"

definition analyzed_event :: "product_env \<Rightarrow> scan_event \<Rightarrow> prepared_analysis \<Rightarrow> (product, document_event) op" where
  "analyzed_event P ev prepared =
     bindE (productW (get_request (px_env P) (pa_analysis_id prepared) None)) (\<lambda>request.
     bindE (summarize_with (map_option sm_document (px_summaries P)) request) (\<lambda>(summary, summary_error).
     bindE (dispatch_or_hold P prepared) (\<lambda>(risk_error, outcome).
     bindE (productW (get_status (px_env P) (pa_analysis_id prepared))) (\<lambda>status.
     retE \<lparr>de_path = se_path ev, de_event_type = scan_event_type_value (se_type ev),
           de_analysis_id = Some (pa_analysis_id prepared), de_state = workflow_state_value (av_state status),
           de_summary = summary, de_summary_error = summary_error, de_risk_error = risk_error, de_outcome = outcome\<rparr>))))"

text \<open>The baseline of an event: the snapshot of the content before it, the candidate itself for a new file.\<close>

definition baseline_path :: "product_env \<Rightarrow> scan_event \<Rightarrow> str \<Rightarrow> str \<Rightarrow> (product, str option) op" where
  "baseline_path P ev candidate candidate_snapshot =
     (case se_before ev of
        None \<Rightarrow> retE (Some candidate_snapshot)
      | Some before \<Rightarrow>
          let prior = snapshot_path P (fr_sha256 before) (path_suffix candidate) in
          bindE (is_file prior) (\<lambda>present. retE (if present then Some prior else None)))"

definition process_document :: "product_env \<Rightarrow> scan_event \<Rightarrow> (product, document_event) op" where
  "process_document P ev =
     (if se_type ev = DELETED then retE (stopped_event ev (u ''SOURCE_DELETED'') (u ''deletion_requires_explicit_operator_review''))
      else
      case se_after ev of
        None \<Rightarrow> raiseE AssertionError
      | Some after \<Rightarrow>
          bindE (current_path P (se_path ev)) (\<lambda>candidate.
          tryE (store_source_snapshot P candidate (fr_sha256 after))
            (\<lambda>e. if storage_failure e then retE (stopped_event ev (u ''HOLD'') (u ''source_snapshot_failed:'' @ exn_name e)) else raiseE e)
            (\<lambda>candidate_snapshot.
          bindE (baseline_path P ev candidate candidate_snapshot) (\<lambda>baseline.
          case baseline of
            None \<Rightarrow> retE (stopped_event ev (u ''HOLD'') (u ''baseline_snapshot_missing''))
          | Some baseline_snapshot \<Rightarrow>
              tryE (prepare_source P ev after (path_name candidate) baseline_snapshot candidate_snapshot)
                (\<lambda>e. retE (stopped_event ev (u ''HOLD'') (u ''prepare_failed:'' @ exn_name e)))
                (analyzed_event P ev)))))"

section \<open>Polls and commands\<close>

record cycle =
  cy_documents :: "document_event list"
  cy_git_event :: "json option"
  cy_git_summary :: "str option"
  cy_git_summary_error :: "str option"

definition cycle_dict :: "cycle \<Rightarrow> json" where
  "cycle_dict c =
     JObj [(u ''documents'', JArr (map document_event_dict (cy_documents c))),
           (u ''git_event'', case cy_git_event c of None \<Rightarrow> JNull | Some j \<Rightarrow> j), (u ''git_summary'', text_or_null (cy_git_summary c)),
           (u ''git_summary_error'', text_or_null (cy_git_summary_error c))]"

definition scan_sources :: "product_env \<Rightarrow> (product, scan_result) op" where
  "scan_sources P s =
     (case scan_once (px_env P) (px_view P (w_files (pp_world s))) (px_directory P) (Some (scan_state_path P)) True (pp_scan s) of
        (r, content) \<Rightarrow> (r, s\<lparr>pp_scan := content\<rparr>))"

primrec process_documents :: "product_env \<Rightarrow> scan_event list \<Rightarrow> (product, document_event list) op" where
  "process_documents P [] = retE []"
| "process_documents P (ev # evs) =
     bindE (process_document P ev) (\<lambda>d. bindE (process_documents P evs) (\<lambda>ds. retE (d # ds)))"

definition summarize_git :: "product_env \<Rightarrow> git_event option \<Rightarrow> (product, str option \<times> str option) op" where
  "summarize_git P event =
     (case event of None \<Rightarrow> retE (None, None) | Some e \<Rightarrow> summarize_with (map_option sm_git (px_summaries P)) e)"

definition product_poll :: "product_env \<Rightarrow> repository_view \<Rightarrow> str \<Rightarrow> (product, cycle) op" where
  "product_poll P R now =
     bindE (scan_sources P) (\<lambda>result.
     bindE (process_documents P (sr_events result)) (\<lambda>documents.
     bindE (onE pp_git (\<lambda>m s. s\<lparr>pp_git := m\<rparr>) (poll (px_env P) R now)) (\<lambda>event.
     bindE (summarize_git P event) (\<lambda>(summary, summary_error).
     retE \<lparr>cy_documents = documents, cy_git_event = map_option git_event_dict event, cy_git_summary = summary,
           cy_git_summary_error = summary_error\<rparr>))))"

definition command_key :: "product_env \<Rightarrow> str option \<Rightarrow> (product, str) op" where
  "command_key P key =
     (case truthy_text key of
        Some k \<Rightarrow> retE k
      | None \<Rightarrow> bindE (productW (next_uuid (px_env P))) (\<lambda>hex. retE (u ''demo-'' @ hex)))"

definition execute_operator_command ::
  "product_env \<Rightarrow> str \<Rightarrow> operator_action \<Rightarrow> str \<Rightarrow> str \<Rightarrow> str option \<Rightarrow> (product, json) op" where
  "execute_operator_command P aid action actor reason key =
     bindE (productW (get_prepared aid)) (\<lambda>prepared.
     bindE (command_key P key) (\<lambda>k.
     let command = \<lparr>oc_action = action, oc_actor = actor, oc_reason = reason, oc_idempotency_key = k,
                    oc_expected_candidate_sha256 = ds_sha256 (pa_candidate prepared)\<rparr> in
     if \<not> check_operator_command command then raiseE ValidationError
     else bindE (productW (execute_command (sqlite_indexer (px_env P)) (px_env P) aid command)) (\<lambda>result.
          retE (dump_command_result result))))"

section \<open>The watch loops\<close>

text \<open>
  \<^verbatim>\<open>ProductPipeline.watch\<close>: cycle \<open>i\<close> sees the repository \<open>lv_repository i\<close> at \<open>lv_now i\<close> and the files after the outside
  changes \<open>lv_files i\<close>; \<open>lv_set i\<close> is the stop event at its head, \<open>lv_wait i\<close> the wait after it.  The result is the yielded
  cycles and the exception that ended the loop; \<open>None\<close> is a loop without end.
\<close>

record loop_view =
  lv_repository :: "nat \<Rightarrow> repository_view"
  lv_now :: "nat \<Rightarrow> str"
  lv_files :: "nat \<Rightarrow> (str \<Rightarrow> bytes option) \<Rightarrow> str \<Rightarrow> bytes option"
  lv_set :: "nat \<Rightarrow> bool"
  lv_wait :: "nat \<Rightarrow> bool"

definition change_files :: "((str \<Rightarrow> bytes option) \<Rightarrow> str \<Rightarrow> bytes option) \<Rightarrow> product \<Rightarrow> product" where
  "change_files f s = s\<lparr>pp_world := (pp_world s)\<lparr>w_files := f (w_files (pp_world s))\<rparr>\<rparr>"

partial_function (option) product_loop ::
  "product_env \<Rightarrow> loop_view \<Rightarrow> nat option \<Rightarrow> nat \<Rightarrow> product \<Rightarrow> (cycle list \<times> err option \<times> product) option" where
  "product_loop P L max_cycles n s =
     (if lv_set L n then Some ([], None, s)
      else
        case product_poll P (lv_repository L n) (lv_now L n) (change_files (lv_files L n) s) of
          (Inl e, t) \<Rightarrow> Some ([], Some e, t)
        | (Inr c, t) \<Rightarrow>
            if (case max_cycles of None \<Rightarrow> False | Some k \<Rightarrow> k \<le> Suc n) \<or> lv_wait L n then Some ([c], None, t)
            else Option.bind (product_loop P L max_cycles (Suc n) t) (\<lambda>(cs, x, v). Some (c # cs, x, v)))"

definition product_watch ::
  "product_env \<Rightarrow> loop_view \<Rightarrow> rat \<Rightarrow> int option \<Rightarrow> product \<Rightarrow> (cycle list \<times> err option \<times> product) option" where
  "product_watch P L interval_seconds max_cycles s =
     (if interval_seconds \<le> 0 then Some ([], Some ValueError, s)
      else if (case max_cycles of None \<Rightarrow> False | Some n \<Rightarrow> n \<le> 0) then Some ([], Some ValueError, s)
      else product_loop P L (map_option nat max_cycles) 0 s)"

text \<open>\<^verbatim>\<open>watch_directory\<close>: the callback of an event runs before the event is yielded, and may raise.\<close>

record directory_view =
  dw_view :: "nat \<Rightarrow> scan_view"
  dw_set :: "nat \<Rightarrow> bool"
  dw_wait :: "nat \<Rightarrow> bool"
  dw_callback :: "scan_event \<Rightarrow> err option"

fun yielded_events :: "(scan_event \<Rightarrow> err option) \<Rightarrow> scan_event list \<Rightarrow> scan_event list \<times> err option" where
  "yielded_events callback [] = ([], None)"
| "yielded_events callback (ev # evs) =
     (case callback ev of
        Some x \<Rightarrow> ([], Some x)
      | None \<Rightarrow> (case yielded_events callback evs of (later, x) \<Rightarrow> (ev # later, x)))"

partial_function (option) directory_loop ::
  "env \<Rightarrow> directory_view \<Rightarrow> str \<Rightarrow> str option \<Rightarrow> bool \<Rightarrow> nat option \<Rightarrow> nat \<Rightarrow> bytes option \<Rightarrow>
   (scan_event list \<times> err option \<times> bytes option) option" where
  "directory_loop E W directory state_path recursive max_cycles n content =
     (if dw_set W n then Some ([], None, content)
      else
        case scan_once E (dw_view W n) directory state_path recursive content of
          (Inl e, saved) \<Rightarrow> Some ([], Some e, saved)
        | (Inr result, saved) \<Rightarrow>
            (case yielded_events (dw_callback W) (sr_events result) of
               (events, Some x) \<Rightarrow> Some (events, Some x, saved)
             | (events, None) \<Rightarrow>
                 if (case max_cycles of None \<Rightarrow> False | Some k \<Rightarrow> k \<le> Suc n) \<or> dw_wait W n then Some (events, None, saved)
                 else Option.bind (directory_loop E W directory state_path recursive max_cycles (Suc n) saved)
                        (\<lambda>(later, x, v). Some (events @ later, x, v))))"

definition watch_directory ::
  "env \<Rightarrow> directory_view \<Rightarrow> str \<Rightarrow> str option \<Rightarrow> bool \<Rightarrow> rat \<Rightarrow> int option \<Rightarrow> bytes option \<Rightarrow>
   (scan_event list \<times> err option \<times> bytes option) option" where
  "watch_directory E W directory state_path recursive interval_seconds max_cycles content =
     (if interval_seconds \<le> 0 then Some ([], Some ValueError, content)
      else if (case max_cycles of None \<Rightarrow> False | Some n \<Rightarrow> n \<le> 0) then Some ([], Some ValueError, content)
      else directory_loop E W directory state_path recursive (map_option nat max_cycles) 0 content)"

section \<open>What polls and commands do to the index\<close>

definition product_step :: "env \<Rightarrow> (str \<times> str \<Rightarrow> bool) \<Rightarrow> product \<Rightarrow> product \<Rightarrow> bool" where
  "product_step E A s t \<longleftrightarrow>
     au_grows (w_audit (pp_world s)) (w_audit (pp_world t)) \<and>
     (au_inv E (w_audit (pp_world s)) \<longrightarrow> au_inv E (w_audit (pp_world t))) \<and>
     (ix_inv (w_index (pp_world s)) \<longrightarrow> ix_inv (w_index (pp_world t))) \<and>
     (\<forall>k\<in>versions (w_index (pp_world t)). k \<in> versions (w_index (pp_world s)) \<or> A k)"

lemma product_step_preorder [step_rules]: "preorderR (product_step E A)"
  by (rule preorderRI) (force simp: product_step_def intro: au_grows_trans)+

lemma same_stores_step:
  "w_audit (pp_world t) = w_audit (pp_world s) \<Longrightarrow> w_index (pp_world t) = w_index (pp_world s) \<Longrightarrow> product_step E A s t"
  by (simp add: product_step_def)

lemma quiet_product: "steps (quiet ix_inv versions E) m \<Longrightarrow> steps (product_step E A) (productW m)"
  by (rule stepsI)
     (auto simp: productW_def onE_run quiet_def evolves_def shrinks_def product_step_def dest!: stepsD)

lemma pure_product: "pureE m \<Longrightarrow> steps (product_step E A) (productW m)"
  by (rule quiet_product) (rule pure_quiet)

lemma disk_fault_step [step_rules]: "steps (product_step E A) disk_fault"
  by (rule stepsI, rule same_stores_step) (auto simp: disk_fault_def split: list.splits option.splits)

lemma put_file_step [step_rules]: "steps (product_step E A) (put_file path content)"
  by (rule stepsI, rule same_stores_step) (auto simp: put_file_def updE_def)

lemma open_bytes_step [step_rules]: "steps (product_step E A) (open_bytes path)"
  unfolding open_bytes_def by (intro step_rules pure_product pure_rules)

lemma is_file_step [step_rules]: "steps (product_step E A) (is_file path)"
  unfolding is_file_def by (intro step_rules)

lemma current_path_step [step_rules]: "steps (product_step E A) (current_path P path)"
proof -
  have "steps (product_step E A) (\<lambda>s. (px_resolve P (w_files (pp_world s)) x, s))" for x
    by (rule stepsI, rule same_stores_step) auto
  then show ?thesis unfolding current_path_def by (intro step_rules)
qed

lemma scan_sources_step [step_rules]: "steps (product_step E A) (scan_sources P)"
  by (rule stepsI, rule same_stores_step) (auto simp: scan_sources_def split: prod.splits)

lemma git_step [step_rules]: "steps (product_step E A) (onE pp_git (\<lambda>m s. s\<lparr>pp_git := m\<rparr>) m)"
  by (rule stepsI, rule same_stores_step) (auto simp: onE_run)

lemma summarize_step [step_rules]: "steps (product_step E A) (summarize_with client x)"
  unfolding summarize_with_def by (intro step_rules)

lemma steps_case_err_external [step_rules]:
  "(\<And>b. steps R (f b)) \<Longrightarrow> steps R m \<Longrightarrow> steps R (case e of ExternalServiceError b \<Rightarrow> f b | _ \<Rightarrow> m)"
  by (cases e) auto

lemma gateway_product_steps [step_rules]:
  "steps (product_step (px_env P) A) (productW (dispatch (sqlite_indexer (px_env P)) (px_env P) aid analyzer))"
  "steps (product_step (px_env P) A) (productW (gate_hold (sqlite_indexer (px_env P)) (px_env P) prepared reason))"
  "steps (product_step (px_env P) A) (productW (prepare_streams B XF (px_env P) d bs bn cs cn by' mt))"
  "steps (product_step (px_env P) A) (productW (get_request (px_env P) aid rid))"
  "steps (product_step (px_env P) A) (productW (get_status E aid))"
  subgoal by (intro quiet_product sqlite.dispatch_quiet)
  subgoal by (intro quiet_product sqlite.hold_quiet)
  subgoal by (intro quiet_product prepare_quiet)
  subgoal by (intro quiet_product get_request_quiet)
  subgoal by (intro pure_product pure_rules)
  done

lemma write_snapshot_step [step_rules]: "steps (product_step E A) (write_snapshot P a b c)"
  unfolding write_snapshot_def by (intro step_rules)

lemma store_snapshot_step [step_rules]: "steps (product_step E A) (store_source_snapshot P a b)"
  unfolding store_source_snapshot_def by (intro step_rules)

lemma process_document_step [step_rules]: "steps (product_step (px_env P) A) (process_document P ev)"
  unfolding process_document_def prepare_source_def analyzed_event_def dispatch_or_hold_def baseline_path_def
  by (intro step_rules)

lemma process_documents_step [step_rules]: "steps (product_step (px_env P) A) (process_documents P evs)"
proof (induction evs)
  case (Cons ev evs)
  then show ?case unfolding process_documents.simps by (intro step_rules)
qed (simp add: steps_retE product_step_preorder)

lemma product_poll_step: "steps (product_step (px_env P) A) (product_poll P R now)"
  unfolding product_poll_def summarize_git_def by (intro step_rules)

lemma command_key_run: "command_key P key s = (r, t) \<Longrightarrow> w_audit (pp_world t) = w_audit (pp_world s) \<and> w_index (pp_world t) = w_index (pp_world s)"
  by (auto simp: command_key_def productW_def onE_def next_uuid_def bindE_def retE_def split: option.splits prod.splits sum.splits)

text \<open>What a command of C may add.\<close>

definition commandable :: "env \<Rightarrow> audit_store \<Rightarrow> str \<Rightarrow> operator_action \<Rightarrow> str \<times> str \<Rightarrow> bool" where
  "commandable E a aid action k \<longleftrightarrow> action = APPROVE \<and> justified E a aid k"

lemma execute_product_step:
  assumes "execute_operator_command P aid action actor reason key s = (r, t)"
  shows "product_step (px_env P) (commandable (px_env P) (w_audit (pp_world s)) aid action) s t"
proof -
  obtain g s1 where g: "productW (get_prepared aid) s = (g, s1)" by fastforce
  have s1: "s1 = s"
    using g by (auto simp: productW_def onE_def get_prepared_def auditR_def split: prod.splits)
  show ?thesis
  proof (cases g)
    case (Inl e)
    with assms g s1 have "t = s" by (simp add: execute_operator_command_def bindE_def)
    then show ?thesis by (simp add: preorderR_refl[OF product_step_preorder])
  next
    case (Inr prepared)
    obtain k s2 where k: "command_key P key s = (k, s2)" by fastforce
    note same = command_key_run[OF k]
    show ?thesis
    proof (cases k)
      case (Inl e)
      with assms g s1 Inr k have "t = s2" by (simp add: execute_operator_command_def bindE_def)
      with same show ?thesis by (simp add: same_stores_step)
    next
      case key: (Inr kt)
      define command where "command = \<lparr>oc_action = action, oc_actor = actor, oc_reason = reason, oc_idempotency_key = kt,
          oc_expected_candidate_sha256 = ds_sha256 (pa_candidate prepared)\<rparr>"
      obtain q w where x: "execute_command (sqlite_indexer (px_env P)) (px_env P) aid command (pp_world s2) = (q, w)" by fastforce
      show ?thesis
      proof (cases "check_operator_command command")
        case False
        with assms g s1 Inr k key have "t = s2"
          by (simp add: execute_operator_command_def bindE_def Let_def command_def raiseE_def)
        with same show ?thesis by (simp add: same_stores_step)
      next
        case True
        with assms g s1 Inr k key x have t: "pp_world t = w"
          by (cases q) (auto simp: execute_operator_command_def bindE_def Let_def command_def[symmetric] productW_def onE_def retE_def)
        have "approves (px_env P) (pp_world s2) aid command k' \<Longrightarrow> commandable (px_env P) (w_audit (pp_world s)) aid action k'" for k'
          using approves_justified[of "px_env P" "pp_world s2" aid command k'] same
          by (simp add: commandable_def approves_def command_def)
        with wpD[OF sqlite.execute_post x] t same show ?thesis
          by (fastforce simp: product_step_def evolves_def)
      qed
    qed
  qed
qed

section \<open>The whole product\<close>

datatype product_call =
    PollSources repository_view str
  | OperatorCall str operator_action str str "str option"
  | ChangeFiles "(str \<Rightarrow> bytes option) \<Rightarrow> str \<Rightarrow> bytes option"

fun product_call_step :: "product_env \<Rightarrow> product_call \<Rightarrow> product \<Rightarrow> product" where
  "product_call_step P (PollSources R now) s = discard (product_poll P R now) s"
| "product_call_step P (OperatorCall aid action actor reason key) s = discard (execute_operator_command P aid action actor reason key) s"
| "product_call_step P (ChangeFiles f) s = change_files f s"

text \<open>The last call is the head of the list.\<close>

definition product_run :: "product_env \<Rightarrow> product_call list \<Rightarrow> product \<Rightarrow> product" where
  "product_run P trace s = foldr (product_call_step P) trace s"

definition approved_call :: "str \<Rightarrow> product_call \<Rightarrow> bool" where
  "approved_call aid call \<longleftrightarrow> (case call of OperatorCall a action actor reason key \<Rightarrow> a = aid \<and> action = APPROVE | _ \<Rightarrow> False)"

lemma product_call_effect:
  "product_step (px_env P) (\<lambda>k. \<exists>aid. approved_call aid call \<and> justified (px_env P) (w_audit (pp_world s)) aid k) s (product_call_step P call s)"
proof (cases call)
  case (PollSources R now)
  then show ?thesis using product_poll_step by (simp add: discard_def steps_def)
next
  case (OperatorCall aid action actor reason key)
  obtain r t where x: "execute_operator_command P aid action actor reason key s = (r, t)" by fastforce
  show ?thesis
    using execute_product_step[OF x] OperatorCall x
    by (auto simp: discard_def product_step_def commandable_def approved_call_def)
next
  case (ChangeFiles f)
  then show ?thesis by (auto simp: change_files_def intro: same_stores_step)
qed

lemma product_invariant:
  assumes "pp_world s = world_init (fresh_index csize overlap faults) audit_faults unreadable"
  shows "au_inv (px_env P) (w_audit (pp_world (product_run P trace s))) \<and> ix_inv (w_index (pp_world (product_run P trace s))) \<and>
    (\<forall>k\<in>versions (w_index (pp_world (product_run P trace s))).
       \<exists>aid. list_ex (approved_call aid) trace \<and> justified (px_env P) (w_audit (pp_world (product_run P trace s))) aid k)"
proof (induction trace)
  case Nil
  have "reachable undefined undefined (px_env P) [] (pp_world s)"
    unfolding assms by (rule reachable.start) (rule fresh_index_init)
  then show ?case using reachable_invariant[of undefined undefined "px_env P" "[]" "pp_world s"]
    by (auto simp: product_run_def approved_in_def)
next
  case (Cons call trace)
  let ?s = "product_run P trace s" and ?t = "product_run P (call # trace) s"
  have ef: "product_step (px_env P) (\<lambda>k. \<exists>aid. approved_call aid call \<and> justified (px_env P) (w_audit (pp_world ?s)) aid k) ?s ?t"
    using product_call_effect[of P call ?s] by (simp add: product_run_def)
  have grows: "au_grows (w_audit (pp_world ?s)) (w_audit (pp_world ?t))" using ef by (simp add: product_step_def)
  have "\<exists>aid. list_ex (approved_call aid) (call # trace) \<and> justified (px_env P) (w_audit (pp_world ?t)) aid k"
    if "k \<in> versions (w_index (pp_world ?t))" for k
  proof -
    have "k \<in> versions (w_index (pp_world ?s)) \<or> (\<exists>aid. approved_call aid call \<and> justified (px_env P) (w_audit (pp_world ?s)) aid k)"
      using ef that by (auto simp: product_step_def)
    with Cons.IH show ?thesis using justified_grows[OF grows] by (auto; blast)
  qed
  with Cons.IH ef show ?case by (auto simp: product_step_def)
qed

section \<open>Snapshots\<close>

lemma store_snapshot_run:
  assumes "store_source_snapshot P source sha s = (Inr d, t)"
  shows "d = snapshot_path P sha (path_suffix source) \<and> (\<exists>c. w_files (pp_world t) d = Some c \<and> en_sha_bytes (px_env P) c = sha)"
proof -
  have opened: "open_bytes path s = (Inr c, t) \<Longrightarrow> w_files (pp_world t) path = Some c" for path s c t
    by (auto simp: open_bytes_def productW_def onE_def read_file_def bindE_def disk_fault_def
        split: prod.splits sum.splits option.splits list.splits)
  have written: "d = destination \<and> (\<exists>c. w_files (pp_world t) d = Some c \<and> en_sha_bytes (px_env P) c = sha)"
    if "write_snapshot P source destination sha s = (Inr d, t)" for destination s
    using that unfolding write_snapshot_def
    by (auto simp: bindE_def retE_def raiseE_def split: prod.splits sum.splits if_splits dest: opened)
  show ?thesis
    using assms unfolding store_source_snapshot_def Let_def
    by (auto simp: bindE_def[of "is_file _"] bindE_def[of "open_bytes _"] bindE_def[of disk_fault] bindE_def[of "put_file _ _"] is_file_def readE_def retE_def
        split: prod.splits sum.splits if_splits dest!: opened written)
qed

definition same_index :: "product \<Rightarrow> product \<Rightarrow> bool" where
  "same_index s t \<longleftrightarrow> w_index (pp_world t) = w_index (pp_world s)"

lemma same_index_preorder [step_rules]: "preorderR same_index"
  unfolding same_index_def by (rule preorderR_field)

lemma disk_same_index [step_rules]:
  "steps same_index disk_fault" "steps same_index (put_file path content)" "steps same_index (open_bytes path)" "steps same_index (is_file path)"
proof -
  show d: "steps same_index disk_fault"
    by (rule stepsI) (auto simp: disk_fault_def same_index_def split: list.splits option.splits)
  show "steps same_index (put_file path content)" by (rule stepsI) (auto simp: put_file_def updE_def same_index_def)
  have "steps same_index (productW (read_file path))"
    by (rule stepsI) (auto simp: productW_def onE_run read_file_def same_index_def split: option.splits)
  with d show "steps same_index (open_bytes path)" unfolding open_bytes_def by (intro step_rules)
  show "steps same_index (is_file path)" unfolding is_file_def by (intro step_rules)
qed

lemma store_snapshot_same_index: "steps same_index (store_source_snapshot P source sha)"
  unfolding store_source_snapshot_def write_snapshot_def by (intro step_rules)

section \<open>Bounded watches\<close>

lemma product_loop_ends:
  "n < k \<Longrightarrow> \<exists>cs x t. product_loop P L (Some k) n s = Some (cs, x, t) \<and> length cs \<le> k - n"
proof (induction "k - n" arbitrary: n s)
  case (Suc d)
  note step = product_loop.simps[of P L "Some k" n s]
  obtain r t where p: "product_poll P (lv_repository L n) (lv_now L n) (change_files (lv_files L n) s) = (r, t)" by fastforce
  show ?case
  proof (cases "lv_set L n \<or> k \<le> Suc n \<or> lv_wait L n \<or> (\<exists>e. r = Inl e)")
    case True
    with p Suc.prems show ?thesis by (cases r) (auto simp: step)
  next
    case False
    then obtain c where r: "r = Inr c" by (cases r) auto
    obtain cs x v where "product_loop P L (Some k) (Suc n) t = Some (cs, x, v)" "length cs \<le> k - Suc n"
      using Suc.hyps(1)[of "Suc n" t] Suc.hyps(2) False by fastforce
    with False p r Suc.prems show ?thesis by (auto simp: step)
  qed
qed simp

text \<open>With \<^verbatim>\<open>max_cycles\<close> the product's watch ends with at most that many cycles, whatever the sources, B and the disk do.\<close>

lemma bounded_product_watch:
  "\<exists>cs x t. product_watch P L interval (Some k) s = Some (cs, x, t) \<and> length cs \<le> nat k"
  using product_loop_ends[of 0 "nat k" P L s] by (auto simp: product_watch_def)

lemma directory_loop_ends:
  "n < k \<Longrightarrow> \<exists>r. directory_loop E W directory path recursive (Some k) n content = Some r"
proof (induction "k - n" arbitrary: n content)
  case (Suc d)
  note step = directory_loop.simps[of E W directory path recursive "Some k" n content]
  obtain r saved where p: "scan_once E (dw_view W n) directory path recursive content = (r, saved)" by fastforce
  show ?case
  proof (cases "dw_set W n \<or> (\<exists>e. r = Inl e)")
    case True
    with p show ?thesis by (cases r) (auto simp: step)
  next
    case False
    then obtain result where r: "r = Inr result" by (cases r) auto
    obtain events y where y: "yielded_events (dw_callback W) (sr_events result) = (events, y)" by fastforce
    show ?thesis
    proof (cases "y \<noteq> None \<or> k \<le> Suc n \<or> dw_wait W n")
      case True
      with False p r y show ?thesis by (cases y) (auto simp: step)
    next
      case going: False
      then obtain z where "directory_loop E W directory path recursive (Some k) (Suc n) saved = Some z"
        using Suc.hyps(1)[of "Suc n" saved] Suc.hyps(2) by fastforce
      with False going p r y show ?thesis by (cases z) (auto simp: step)
    qed
  qed
qed simp

lemma bounded_directory_watch:
  "\<exists>r. watch_directory E W directory path recursive interval (Some k) content = Some r"
  using directory_loop_ends[of 0 "nat k" E W directory path recursive content] by (auto simp: watch_directory_def)

section \<open>An edit over an edit that was not indexed\<close>

lemma stage_accepts:
  assumes "path_name name \<noteq> []" "0 \<notin> set (path_name name)" "length stream \<le> bs_max_upload_bytes B"
  shows "\<exists>f v. stage_stream B E stream name w = (Inr f, v) \<and> sf_sha256 f = en_sha_bytes E stream \<and>
    w_index v = w_index w \<and> w_audit v = w_audit w"
  using assms by (auto simp: stage_stream_def stage_loop_result Let_def)

lemma stale_baseline_refused:
  assumes name: "path_name name \<noteq> []" "0 \<notin> set (path_name name)"
    and sizes: "length old \<le> bs_max_upload_bytes B" "length new \<le> bs_max_upload_bytes B"
    and current: "get_current_version (w_index w) d = Inr (Some v)" "iv_sha256 v \<noteq> en_sha_bytes E old"
  shows "\<exists>w'. prepare_streams B XF E d old name new name by' mtime w = (Inl IntegrityError, w') \<and>
    w_index w' = w_index w \<and> w_audit w' = w_audit w"
proof -
  obtain f w1 where f: "stage_stream B E old name w = (Inr f, w1)" "sf_sha256 f = en_sha_bytes E old" "w_index w1 = w_index w" "w_audit w1 = w_audit w"
    using stage_accepts[OF name sizes(1)] by blast
  obtain g w2 where g: "stage_stream B E new name w1 = (Inr g, w2)" "w_index w2 = w_index w1" "w_audit w2 = w_audit w1"
    using stage_accepts[OF name sizes(2)] by blast
  show ?thesis
    using f g current by (simp add: prepare_streams_def bindE_def indexR_def raiseE_def)
qed

lemma new_snapshot_written:
  assumes "pp_faults s = []" "w_files (pp_world s) source = Some c" "en_sha_bytes (px_env P) c = sha"
    "w_files (pp_world s) (snapshot_path P sha (path_suffix source)) = None"
  shows "store_source_snapshot P source sha s = (Inr (snapshot_path P sha (path_suffix source)),
    s\<lparr>pp_world := (pp_world s)\<lparr>w_files := (w_files (pp_world s))(snapshot_path P sha (path_suffix source) \<mapsto> c)\<rparr>\<rparr>)"
  using assms
  by (simp add: store_source_snapshot_def write_snapshot_def is_file_def readE_def bindE_def retE_def open_bytes_def disk_fault_def
      productW_def onE_def read_file_def put_file_def updE_def Let_def)

lemma snapshot_path_eq: "snapshot_path P a x = snapshot_path P b x \<longleftrightarrow> a = b"
  by (simp add: snapshot_path_def path_join_def)

lemma open_present:
  "pp_faults s = [] \<Longrightarrow> w_files (pp_world s) path = Some c \<Longrightarrow> open_bytes path s = (Inr c, s)"
  by (simp add: open_bytes_def disk_fault_def bindE_def productW_def onE_def read_file_def)

section \<open>Properties\<close>

text \<open>C5: The product never indexes on its own: after any sequence of polls, operator commands and outside changes of files on
  a new runtime directory, whatever the analyzer, the summaries, git and the disk do, the audit and index tables are
  consistent and every indexed version has an APPROVE command of the operator for its analysis and B's ALLOW + INDEX for
  exactly that content in the audit log.\<close>

theorem product_indexes_only_approved:
  "case product_run P trace (product_init P (world_init (fresh_index csize overlap faults) audit_faults unreadable) saved disk patch timeout) of s \<Rightarrow>
     au_inv (px_env P) (w_audit (pp_world s)) \<and> ix_inv (w_index (pp_world s)) \<and>
     versions (w_index (pp_world s)) \<subseteq>
       {k. \<exists>aid. list_ex (approved_call aid) trace \<and> justified (px_env P) (w_audit (pp_world s)) aid k}"
  using product_invariant[of "product_init P (world_init (fresh_index csize overlap faults) audit_faults unreadable) saved disk patch timeout"
      csize overlap faults audit_faults unreadable P trace]
  by (auto simp: product_init_def)

text \<open>A snapshot is what the scanner saw: when storing one returns, the file at the returned path has the digest of the scan
  event, whatever the disk held there before and whatever the source has become since.\<close>

lemma snapshot_has_scanned_content:
  "case store_source_snapshot P source sha s of
     (Inl e, t) \<Rightarrow> w_index (pp_world t) = w_index (pp_world s)
   | (Inr d, t) \<Rightarrow> d = snapshot_path P sha (path_suffix source) \<and>
       (case w_files (pp_world t) d of None \<Rightarrow> False | Some c \<Rightarrow> en_sha_bytes (px_env P) c = sha)"
proof (cases "store_source_snapshot P source sha s")
  case (Pair r t)
  have "w_index (pp_world t) = w_index (pp_world s)" using stepsD[OF store_snapshot_same_index Pair] by (simp add: same_index_def)
  with Pair show ?thesis using store_snapshot_run[of P source sha s _ t] by (cases r) auto
qed

text \<open>C35: An edit that was not indexed blocks its document: when a watched document changes again while its indexed version is
  still the one before the first edit, the poll cannot prepare the new content.  It ends in HOLD with
  prepare_failed:IntegrityError and no analysis, so no command of the operator can index it; index and audit log are as
  before.\<close>

theorem edit_over_unindexed_edit_held:
  assumes event: "se_type ev = MODIFIED" "se_before ev = Some before" "se_after ev = Some after" "fr_sha256 before \<noteq> fr_sha256 after"
    and source: "px_resolve P (w_files (pp_world s)) (path_join (px_directory P) (se_path ev)) = Inr path" "under (px_directory P) path"
      "w_files (pp_world s) path = Some new" "en_sha_bytes (px_env P) new = fr_sha256 after"
    and prior: "w_files (pp_world s) (snapshot_path P (fr_sha256 before) (path_suffix path)) = Some old"
      "en_sha_bytes (px_env P) old = fr_sha256 before"
    and fresh: "w_files (pp_world s) (snapshot_path P (fr_sha256 after) (path_suffix path)) = None" "pp_faults s = []"
    and limits: "length old \<le> bs_max_upload_bytes (px_blobs P)" "length new \<le> bs_max_upload_bytes (px_blobs P)"
      "path_name (path_name path) \<noteq> []" "0 \<notin> set (path_name (path_name path))"
    and indexed: "get_current_version (w_index (pp_world s)) (u ''watch:'' @ se_path ev) = Inr (Some v)" "iv_sha256 v \<noteq> fr_sha256 before"
  shows "case process_document P ev s of (r, t) \<Rightarrow>
    r = Inr (stopped_event ev (u ''HOLD'') (u ''prepare_failed:IntegrityError'')) \<and>
    w_index (pp_world t) = w_index (pp_world s) \<and> w_audit (pp_world t) = w_audit (pp_world s)"
proof -
  let ?old = "snapshot_path P (fr_sha256 before) (path_suffix path)" and ?new = "snapshot_path P (fr_sha256 after) (path_suffix path)"
  let ?t = "s\<lparr>pp_world := (pp_world s)\<lparr>w_files := (w_files (pp_world s))(?new \<mapsto> new)\<rparr>\<rparr>"
  have stored: "store_source_snapshot P path (fr_sha256 after) s = (Inr ?new, ?t)"
    by (rule new_snapshot_written[OF fresh(2) source(3,4) fresh(1)])
  have files: "w_files (pp_world ?t) ?old = Some old" "w_files (pp_world ?t) ?new = Some new" "pp_faults ?t = []"
    using prior(1) event(4) fresh(2) by (simp_all add: snapshot_path_eq)
  have baseline: "baseline_path P ev path ?new ?t = (Inr (Some ?old), ?t)"
    using event(2) files(1) by (simp add: baseline_path_def is_file_def readE_def bindE_def retE_def Let_def)
  obtain w' where w': "prepare_streams (px_blobs P) (px_extraction P) (px_env P) (u ''watch:'' @ se_path ev) old (path_name path) new (path_name path)
      (u ''directory-watcher:'' @ lower (en_udb (px_env P)) (scan_event_type_value (se_type ev)) @ [58] @ se_path ev) (Some (fr_mtime_ns after))
      (pp_world ?t) = (Inl IntegrityError, w')" "w_index w' = w_index (pp_world ?t)" "w_audit w' = w_audit (pp_world ?t)"
    using stale_baseline_refused[OF limits(3,4,1,2), of "pp_world ?t" "u ''watch:'' @ se_path ev" v "px_env P"] indexed prior(2)
    by fastforce
  then have prepare: "prepare_source P ev after (path_name path) ?old ?new ?t = (Inl IntegrityError, ?t\<lparr>pp_world := w'\<rparr>)"
    using open_present[OF files(3,1)] open_present[OF files(3,2)]
    by (simp add: prepare_source_def bindE_def productW_def onE_def)
  have "process_document P ev s = (Inr (stopped_event ev (u ''HOLD'') (u ''prepare_failed:IntegrityError'')), ?t\<lparr>pp_world := w'\<rparr>)"
    using event source stored baseline prepare
    by (simp add: process_document_def current_path_def bindE_def retE_def tryE_def u_def)
  with w' show ?thesis by simp
qed

definition sample_product_env :: product_env where
  "sample_product_env =
     \<lparr>px_env = sample_env, px_directory = u ''/d'', px_runtime = u ''/r'', px_repository = u ''/g'',
      px_blobs = \<lparr>bs_root = u ''/b'', bs_max_upload_bytes = 10\<rparr>,
      px_extraction = \<lparr>ex_detect = (\<lambda>f b. Inr MARKDOWN), ex_extract = (\<lambda>f b d. Inl ValueError),
        ex_diff = (\<lambda>a b. \<lparr>dr_baseline_sha256 = [], dr_candidate_sha256 = [], dr_normalization_version = [], dr_changes = [],
          dr_numeric_changes = []\<rparr>)\<rparr>,
      px_analyzer = None, px_summaries = None, px_resolve = (\<lambda>files p. Inr p),
      px_view = (\<lambda>files. \<lparr>sv_resolve_strict = Inr, sv_resolve = Inr, sv_is_dir = (\<lambda>p. True), sv_tree = [], sv_unreadable = False,
        sv_write_error = None, sv_float_one = (\<lambda>t. False)\<rparr>)\<rparr>"

text \<open>Version \<open>1\<close> is indexed, the edit \<open>2\<close> was held, and now the document is \<open>3\<close>.\<close>

definition sample_product :: product where
  "sample_product =
     \<lparr>pp_world = \<lparr>w_audit = audit_init [],
        w_index = empty_index\<lparr>ix_docs := [\<lparr>id_document_id = u ''watch:a.md'', id_sha256 = u ''1'', id_indexed_at = u ''T1'', id_text_sha256 = [],
          id_chunk_count = 1, id_metadata_json = u ''{}'', id_is_current = True\<rparr>]\<rparr>,
        w_files = [u ''/d/a.md'' \<mapsto> u ''3'', u ''/r/source-snapshots/2.md'' \<mapsto> u ''2''], w_unreadable = [], w_clock = 0, w_uuid = 0\<rparr>,
      pp_scan = None, pp_git = git_monitor_init (u ''/g'') True 1 1, pp_faults = []\<rparr>"

definition sample_edit :: scan_event where
  "sample_edit =
     \<lparr>se_type = MODIFIED, se_path = u ''a.md'',
      se_before = Some \<lparr>fr_path = u ''a.md'', fr_sha256 = u ''2'', fr_size = 1, fr_mtime_ns = 1, fr_format = u ''MD''\<rparr>,
      se_after = Some \<lparr>fr_path = u ''a.md'', fr_sha256 = u ''3'', fr_size = 1, fr_mtime_ns = 2, fr_format = u ''MD''\<rparr>\<rparr>"

theorem edit_over_unindexed_edit_held_witness:
  "case process_document sample_product_env sample_edit sample_product of (r, t) \<Rightarrow>
    r = Inr (stopped_event sample_edit (u ''HOLD'') (u ''prepare_failed:IntegrityError'')) \<and>
    w_index (pp_world t) = w_index (pp_world sample_product) \<and> w_audit (pp_world t) = w_audit (pp_world sample_product)"
proof (rule edit_over_unindexed_edit_held)
  show "se_type sample_edit = MODIFIED" by code_simp
  show "se_before sample_edit = Some \<lparr>fr_path = u ''a.md'', fr_sha256 = u ''2'', fr_size = 1, fr_mtime_ns = 1, fr_format = u ''MD''\<rparr>"
    by (simp add: sample_edit_def)
  show "se_after sample_edit = Some \<lparr>fr_path = u ''a.md'', fr_sha256 = u ''3'', fr_size = 1, fr_mtime_ns = 2, fr_format = u ''MD''\<rparr>"
    by (simp add: sample_edit_def)
  show "get_current_version (w_index (pp_world sample_product)) (u ''watch:'' @ se_path sample_edit) =
      Inr (Some \<lparr>iv_document_id = u ''watch:a.md'', iv_sha256 = u ''1'', iv_indexed_at = u ''T1'', iv_chunk_count = 1, iv_metadata = JObj []\<rparr>)"
    by code_simp
  show "px_resolve sample_product_env (w_files (pp_world sample_product)) (path_join (px_directory sample_product_env) (se_path sample_edit)) = Inr (u ''/d/a.md'')"
    by code_simp
  show "under (px_directory sample_product_env) (u ''/d/a.md'')" by code_simp
  show "w_files (pp_world sample_product) (u ''/d/a.md'') = Some (u ''3'')" by code_simp
  show "w_files (pp_world sample_product) (snapshot_path sample_product_env
      (fr_sha256 \<lparr>fr_path = u ''a.md'', fr_sha256 = u ''2'', fr_size = 1, fr_mtime_ns = 1, fr_format = u ''MD''\<rparr>) (path_suffix (u ''/d/a.md''))) = Some (u ''2'')"
    by code_simp
qed (code_simp)+

end
