(* ===== verification/Provenance.thy ===== *)
theory Provenance
  imports ChangeQueue GitWatcher
begin

text \<open>
  Where digests and revisions come from (\<^verbatim>\<open>integrity.py\<close>): hashing a stream in chunks, and the code revision recorded with
  every analysis.  The hash of a text or of all bytes at once is a field of \<open>env\<close>.
\<close>

section \<open>Hashing a stream\<close>

text \<open>\<open>hasher\<close> is the state of a hash object: the bytes it was given.  A stream returns at most the chunk size, and nothing at its end.\<close>

function sha256_loop :: "bytes \<Rightarrow> bytes \<Rightarrow> nat \<Rightarrow> bytes \<times> nat" where
  "sha256_loop stream hasher count =
     (let chunk = take stream_chunk_size stream in
      if chunk = [] then (hasher, count)
      else sha256_loop (drop stream_chunk_size stream) (hasher @ chunk) (count + length chunk))"
  by pat_completeness auto

termination
  by (relation "measure (\<lambda>(stream, hasher, count). length stream)") auto

declare sha256_loop.simps [simp del]

definition sha256_stream :: "env \<Rightarrow> bytes \<Rightarrow> str \<times> nat" where
  "sha256_stream E stream = (case sha256_loop stream [] 0 of (hasher, count) \<Rightarrow> (en_sha_bytes E hasher, count))"

definition sha256_file :: "env \<Rightarrow> (str \<Rightarrow> bytes res) \<Rightarrow> str \<Rightarrow> (str \<times> nat) res" where
  "sha256_file E open_binary path = bindR (open_binary path) (\<lambda>stream. Inr (sha256_stream E stream))"

lemma sha256_loop_all: "sha256_loop stream hasher n = (hasher @ stream, n + length stream)"
proof (induction stream hasher n rule: sha256_loop.induct)
  case (1 stream hasher n)
  show ?case
  proof (cases "stream = []")
    case True
    then show ?thesis by (simp add: sha256_loop.simps)
  next
    case False
    then have "take stream_chunk_size stream \<noteq> []" by simp
    with 1 show ?thesis
      by (subst sha256_loop.simps)
        (simp only: Let_def if_False append_assoc append_take_drop_id prod.inject length_take length_drop, simp add: min_def)
  qed
qed

text \<open>Reading in chunks gives the digest and the length of the whole content.\<close>

lemma sha256_stream_whole: "sha256_stream E stream = (en_sha_bytes E stream, length stream)"
  by (simp add: sha256_stream_def sha256_loop_all)

section \<open>The code revision\<close>

text \<open>\<open>GIT_COMMIT\<close> wins; otherwise the head git names, unless git is missing, fails or takes too long.\<close>

definition resolve_code_revision :: "(str \<Rightarrow> str option) \<Rightarrow> process_result \<Rightarrow> str option res" where
  "resolve_code_revision variable git =
     (case truthy_text (variable (u ''GIT_COMMIT'')) of
        Some revision \<Rightarrow> Inr (Some revision)
      | None \<Rightarrow>
          (case git of
             ProcessError e \<Rightarrow> Inl e
           | NotFound \<Rightarrow> Inr None
           | TimeoutExpired \<Rightarrow> Inr None
           | Completed returncode stdout stderr \<Rightarrow>
               (case (decode_strict stdout, decode_strict stderr) of
                  (Some text, Some error) \<Rightarrow>
                    if returncode \<noteq> 0 then Inr None
                    else Inr (truthy_text (Some (strip text)))
                | _ \<Rightarrow> Inl unicode_decode_error)))"

lemma revision_not_empty: "resolve_code_revision variable git = Inr (Some revision) \<Longrightarrow> revision \<noteq> []"
  by (auto simp: resolve_code_revision_def truthy_text_def split: option.splits process_result.splits if_splits list.splits)

end
