(* ===== verification/Evaluation.thy ===== *)
theory Evaluation
  imports RiskEngine GitWatcher ChangeQueue
begin

text \<open>
  The synthetic evaluation of B's engine (\<^verbatim>\<open>risk_evaluation.py\<close>): the cases, the request made of each, the engine's answers and
  the counts of the report, with what the report therefore measures.  The clock and the rounding of floats are parameters;
  the command line is not modelled.
\<close>

section \<open>Cases\<close>

record evaluation_case =
  ec_id :: str
  ec_category :: str
  ec_before :: str
  ec_after :: str
  ec_numeric_before :: "str list"
  ec_numeric_after :: "str list"
  ec_hidden_text :: "str option"
  ec_artifact_type :: "str option"
  ec_expected_decision :: str

definition check_evaluation_case :: "evaluation_case \<Rightarrow> bool" where
  "check_evaluation_case c \<longleftrightarrow> ec_id c \<noteq> [] \<and> ec_category c \<in> {u ''normal'', u ''review'', u ''attack''} \<and>
     ec_expected_decision c \<in> {u ''ALLOW'', u ''REVIEW'', u ''BLOCK''}"

definition validate_evaluation_case :: "json \<Rightarrow> evaluation_case option" where
  "validate_evaluation_case = v_model
     [u ''id'', u ''category'', u ''before'', u ''after'', u ''numeric_before'', u ''numeric_after'', u ''hidden_text'',
      u ''artifact_type'', u ''expected_decision'']
     (\<lambda>m. do {
        id_v \<leftarrow> req m (u ''id'') v_str;
        category_v \<leftarrow> req m (u ''category'') v_str;
        before_v \<leftarrow> req m (u ''before'') v_str;
        after_v \<leftarrow> req m (u ''after'') v_str;
        numeric_before_v \<leftarrow> dflt m (u ''numeric_before'') [] (v_list v_str);
        numeric_after_v \<leftarrow> dflt m (u ''numeric_after'') [] (v_list v_str);
        hidden_text_v \<leftarrow> dflt m (u ''hidden_text'') None (v_opt v_str);
        artifact_type_v \<leftarrow> dflt m (u ''artifact_type'') None (v_opt v_str);
        expected_v \<leftarrow> req m (u ''expected_decision'') v_str;
        Contracts.guarded check_evaluation_case
          \<lparr>ec_id = id_v, ec_category = category_v, ec_before = before_v, ec_after = after_v, ec_numeric_before = numeric_before_v,
           ec_numeric_after = numeric_after_v, ec_hidden_text = hidden_text_v, ec_artifact_type = artifact_type_v,
           ec_expected_decision = expected_v\<rparr>})"

text \<open>\<^verbatim>\<open>for item in payload\<close>: the elements of an array, the keys of an object, the characters of a text.\<close>

definition load_cases :: "bytes res \<Rightarrow> evaluation_case list res" where
  "load_cases content =
     bindR content (\<lambda>raw.
     case decode_strict raw of
       None \<Rightarrow> Inl unicode_decode_error
     | Some text \<Rightarrow>
         (case json_loads text of
            None \<Rightarrow> Inl ValueError
          | Some (JArr items) \<Rightarrow>
              (case those (map validate_evaluation_case items) of None \<Rightarrow> Inl ValidationError | Some cases \<Rightarrow> Inr cases)
          | Some (JObj members) \<Rightarrow> if members = [] then Inr [] else Inl ValidationError
          | Some (JStr s) \<Rightarrow> if s = [] then Inr [] else Inl ValidationError
          | Some j \<Rightarrow> Inl TypeError))"

section \<open>The request of a case\<close>

text \<open>
  \<open>ev_now i\<close> and \<open>ev_elapsed i\<close> are the time of request \<open>i\<close> and the rounded milliseconds of its analysis; \<open>ev_ratio\<close> and
  \<open>ev_mean\<close> round a quotient and a mean.
\<close>

record evaluation_env =
  ev_udb :: unicode_db
  ev_sha_bytes :: "bytes \<Rightarrow> str"
  ev_now :: "nat \<Rightarrow> str"
  ev_elapsed :: "nat \<Rightarrow> float_text"
  ev_ratio :: "nat \<Rightarrow> nat \<Rightarrow> float_text"
  ev_mean :: "float_text list \<Rightarrow> float_text"

definition text_digest :: "evaluation_env \<Rightarrow> str \<Rightarrow> str res" where
  "text_digest V s = (case encode_strict s of None \<Rightarrow> Inl ValueError | Some b \<Rightarrow> Inr (ev_sha_bytes V b))"

definition section_location :: "str \<Rightarrow> text_location" where
  "section_location paragraph =
     \<lparr>tl_page = None, tl_section = Some 1, tl_paragraph_id = Some paragraph, tl_run_index = None, tl_part = None, tl_bbox = None\<rparr>"

definition case_changes :: "evaluation_case \<Rightarrow> document_change list" where
  "case_changes c =
     (if ec_before c \<noteq> ec_after c
      then [\<lparr>dc_kind = REPLACE, dc_before = Some (ec_before c), dc_after = Some (ec_after c),
             dc_before_locations = [section_location (u ''p1'')], dc_after_locations = [section_location (u ''p1'')]\<rparr>]
      else [])"

definition case_numeric_changes :: "evaluation_case \<Rightarrow> numeric_change list" where
  "case_numeric_changes c =
     (if ec_numeric_before c \<noteq> [] \<or> ec_numeric_after c \<noteq> []
      then [\<lparr>nc_before = ec_numeric_before c, nc_after = ec_numeric_after c, nc_change_index = 0\<rparr>] else [])"

definition case_units :: "evaluation_case \<Rightarrow> text_unit list" where
  "case_units c =
     (case truthy_text (ec_hidden_text c) of
        None \<Rightarrow> []
      | Some t \<Rightarrow>
          [\<lparr>tu_id = u ''hidden-p1:r0'', tu_text = t, tu_location = section_location (u ''hidden-p1''), tu_style = default_text_style,
            tu_visibility = HIDDEN_SUSPECTED, tu_source_scope = BODY\<rparr>])"

definition case_artifacts :: "evaluation_case \<Rightarrow> artifact list" where
  "case_artifacts c =
     (case truthy_text (ec_hidden_text c) of
        None \<Rightarrow> []
      | Some t \<Rightarrow>
          [\<lparr>ar_type = u ''HIDDEN_TEXT'', ar_reason = u ''Synthetic hidden text evidence.'', ar_path = None,
            ar_location = Some (section_location (u ''hidden-p1'')), ar_metadata = []\<rparr>]) @
     (case truthy_text (ec_artifact_type c) of
        None \<Rightarrow> []
      | Some t \<Rightarrow>
          [\<lparr>ar_type = t, ar_reason = u ''Synthetic active-content evidence.'', ar_path = Some (u ''Scripts/payload.bin''),
            ar_location = None, ar_metadata = []\<rparr>])"

definition request_for_case :: "evaluation_env \<Rightarrow> evaluation_case \<Rightarrow> nat \<Rightarrow> risk_analysis_request res" where
  "request_for_case V c index =
     bindR (text_digest V (ec_before c)) (\<lambda>baseline_sha.
     bindR (text_digest V (ec_after c)) (\<lambda>candidate_sha.
     let request =
       \<lparr>rq_schema_version = u ''0.1'', rq_request_id = u ''req_eval_'' @ show_nat index, rq_analysis_id = u ''anl_eval_'' @ show_nat index,
        rq_document_id = ec_id c, rq_version = 1, rq_attempt = 1, rq_requested_at = ev_now V index,
        rq_changed_by = u ''evaluation-fixture'', rq_baseline_sha256 = baseline_sha, rq_candidate_sha256 = candidate_sha,
        rq_baseline_normalized_sha256 = baseline_sha, rq_candidate_normalized_sha256 = candidate_sha,
        rq_before_text = ec_before c, rq_after_text = ec_after c,
        rq_diff = \<lparr>dr_baseline_sha256 = baseline_sha, dr_candidate_sha256 = candidate_sha,
          dr_normalization_version = u ''evaluation-v1'', dr_changes = case_changes c, dr_numeric_changes = case_numeric_changes c\<rparr>,
        rq_candidate_units = case_units c, rq_candidate_artifacts = case_artifacts c\<rparr>
     in if check_risk_analysis_request request then Inr request else Inl ValidationError))"

section \<open>The report\<close>

record case_result =
  es_id :: str
  es_category :: str
  es_expected :: str
  es_actual :: str
  es_passed :: bool
  es_risk_score :: int
  es_finding_types :: "str list"
  es_elapsed_ms :: float_text

record evaluation_report =
  et_scope :: str
  et_total :: nat
  et_passed :: nat
  et_attack_detection_rate :: "float_text option"
  et_normal_allow_rate :: "float_text option"
  et_average_analysis_ms :: float_text
  et_results :: "case_result list"

definition evaluate_case :: "evaluation_env \<Rightarrow> risk_engine \<Rightarrow> evaluation_case \<Rightarrow> nat \<Rightarrow> case_result res" where
  "evaluate_case V engine c index =
     bindR (request_for_case V c index) (\<lambda>request.
     bindR (analyze (ev_udb V) engine request) (\<lambda>submission.
     let actual = decision_value (po_decision (sb_policy submission)) in
     Inr \<lparr>es_id = ec_id c, es_category = ec_category c, es_expected = ec_expected_decision c, es_actual = actual,
          es_passed = (actual = ec_expected_decision c), es_risk_score = po_risk_score (sb_policy submission),
          es_finding_types = map fi_type (po_findings (sb_policy submission)), es_elapsed_ms = ev_elapsed V index\<rparr>))"

fun evaluate_from :: "evaluation_env \<Rightarrow> risk_engine \<Rightarrow> nat \<Rightarrow> evaluation_case list \<Rightarrow> case_result list res" where
  "evaluate_from V engine index [] = Inr []"
| "evaluate_from V engine index (c # cs) =
     bindR (evaluate_case V engine c index) (\<lambda>r. bindR (evaluate_from V engine (Suc index) cs) (\<lambda>rs. Inr (r # rs)))"

definition evaluation_rate :: "evaluation_env \<Rightarrow> nat \<Rightarrow> nat \<Rightarrow> float_text option" where
  "evaluation_rate V numerator denominator = (if denominator = 0 then None else Some (ev_ratio V numerator denominator))"

definition of_category :: "str \<Rightarrow> case_result list \<Rightarrow> case_result list" where
  "of_category category = filter (\<lambda>r. es_category r = category)"

definition report_of :: "evaluation_env \<Rightarrow> case_result list \<Rightarrow> evaluation_report" where
  "report_of V results =
     (let attacks = of_category (u ''attack'') results; normals = of_category (u ''normal'') results in
      \<lparr>et_scope = u ''synthetic fixtures only; not a general performance claim'',
       et_total = length results, et_passed = length (filter es_passed results),
       et_attack_detection_rate = evaluation_rate V (length (filter (\<lambda>r. es_actual r = u ''BLOCK'') attacks)) (length attacks),
       et_normal_allow_rate = evaluation_rate V (length (filter (\<lambda>r. es_actual r = u ''ALLOW'') normals)) (length normals),
       et_average_analysis_ms = (if results = [] then u ''0.0'' else ev_mean V (map es_elapsed_ms results)), et_results = results\<rparr>)"

definition evaluate_cases :: "evaluation_env \<Rightarrow> evaluation_case list \<Rightarrow> evaluation_report res" where
  "evaluate_cases V cases =
     bindR (risk_engine_init None (u ''indexguard-risk-evaluation'')) (\<lambda>engine.
     bindR (evaluate_from V engine 1 cases) (\<lambda>results. Inr (report_of V results)))"

section \<open>What the report measures\<close>

definition unchanged_case :: "evaluation_case \<Rightarrow> bool" where
  "unchanged_case c \<longleftrightarrow> ec_before c = ec_after c \<and> ec_numeric_before c = [] \<and> ec_numeric_after c = [] \<and>
     truthy_text (ec_hidden_text c) = None \<and> truthy_text (ec_artifact_type c) = None"

definition digested :: "evaluation_env \<Rightarrow> str \<Rightarrow> bool" where
  "digested V s \<longleftrightarrow> (case text_digest V s of Inl e \<Rightarrow> False | Inr d \<Rightarrow> hex64 d)"

text \<open>The result of a case: ALLOW only for an unchanged case, BLOCK for hidden text or for digests that are none.\<close>

definition measured :: "evaluation_env \<Rightarrow> evaluation_case \<Rightarrow> case_result \<Rightarrow> bool" where
  "measured V c r \<longleftrightarrow> es_id r = ec_id c \<and> es_category r = ec_category c \<and> es_expected r = ec_expected_decision c \<and>
     es_passed r = (es_actual r = ec_expected_decision c) \<and>
     (es_actual r = u ''ALLOW'') = (unchanged_case c \<and> digested V (ec_before c) \<and> digested V (ec_after c)) \<and>
     (if truthy_text (ec_hidden_text c) = None then True else es_actual r = u ''BLOCK'')"

lemma decision_value_allow: "decision_value d = u ''ALLOW'' \<longleftrightarrow> d = ALLOW"
  by (cases d) (simp_all add: u_eq_iff)

lemma case_request_form:
  assumes "request_for_case V c i = Inr rq"
  obtains b a where "text_digest V (ec_before c) = Inr b" "text_digest V (ec_after c) = Inr a"
    "dr_changes (rq_diff rq) = case_changes c" "dr_numeric_changes (rq_diff rq) = case_numeric_changes c"
    "rq_candidate_units rq = case_units c" "rq_candidate_artifacts rq = case_artifacts c"
    "request_integrity_issue rq = None \<longleftrightarrow> hex64 b \<and> hex64 a"
proof -
  obtain b a where "text_digest V (ec_before c) = Inr b" "text_digest V (ec_after c) = Inr a"
    using assms by (auto simp: request_for_case_def bindR_Inr_iff)
  with assms that[of b a] show thesis
    by (auto simp: request_for_case_def bindR_def Let_def request_integrity_issue_def check_risk_analysis_request_def)
qed

lemma case_request:
  assumes "request_for_case V c i = Inr rq"
  shows "nothing_to_assess rq \<longleftrightarrow> unchanged_case c"
    and "request_integrity_issue rq = None \<longleftrightarrow> digested V (ec_before c) \<and> digested V (ec_after c)"
    and "truthy_text (ec_hidden_text c) \<noteq> None \<Longrightarrow> hidden_units rq \<noteq> []"
proof -
  obtain b a where f: "text_digest V (ec_before c) = Inr b" "text_digest V (ec_after c) = Inr a"
    "dr_changes (rq_diff rq) = case_changes c" "dr_numeric_changes (rq_diff rq) = case_numeric_changes c"
    "rq_candidate_units rq = case_units c" "rq_candidate_artifacts rq = case_artifacts c"
    "request_integrity_issue rq = None \<longleftrightarrow> hex64 b \<and> hex64 a" by (rule case_request_form[OF assms])
  show "request_integrity_issue rq = None \<longleftrightarrow> digested V (ec_before c) \<and> digested V (ec_after c)"
    using f by (simp add: digested_def)
  have units: "hidden_units rq = case_units c"
    using f(5) by (simp add: hidden_units_def case_units_def split: option.split)
  then show "truthy_text (ec_hidden_text c) \<noteq> None \<Longrightarrow> hidden_units rq \<noteq> []" by (auto simp: case_units_def)
  show "nothing_to_assess rq \<longleftrightarrow> unchanged_case c"
    unfolding nothing_to_assess_def f units
    by (cases "truthy_text (ec_hidden_text c)"; cases "truthy_text (ec_artifact_type c)")
      (simp_all add: case_changes_def case_numeric_changes_def case_units_def case_artifacts_def unchanged_case_def)
qed

lemma case_measured:
  assumes engine: "risk_engine_init None name = Inr engine" and run: "evaluate_case V engine c i = Inr r"
  shows "measured V c r"
proof -
  obtain rq s where rq: "request_for_case V c i = Inr rq" and s: "analyze (ev_udb V) engine rq = Inr s"
    using run by (auto simp: evaluate_case_def bindR_def split: sum.splits)
  have asked: "engine_analyzer (ev_udb V) None name rq = Inr s" using engine s by (simp add: engine_analyzer_def)
  have name: "length_between 1 200 (strip name)" using engine by (auto simp: risk_engine_init_def split: if_splits)
  from static_allow_iff[OF name, of "ev_udb V" rq] asked
  have "po_decision (sb_policy s) = ALLOW \<longleftrightarrow> nothing_to_assess rq \<and> request_integrity_issue rq = None" by auto
  moreover have "truthy_text (ec_hidden_text c) \<noteq> None \<Longrightarrow> po_decision (sb_policy s) = BLOCK"
    using dangerous_answer[OF asked] case_request(3)[OF rq] by blast
  ultimately show ?thesis
    using run rq s case_request(1,2)[OF rq]
    by (auto simp: evaluate_case_def bindR_def Let_def measured_def decision_value_allow)
qed

lemma results_measured:
  assumes engine: "risk_engine_init None name = Inr engine"
  shows "evaluate_from V engine i cs = Inr rs \<Longrightarrow> list_all2 (measured V) cs rs"
proof (induction cs arbitrary: i rs)
  case (Cons c cs)
  then obtain r rs' where "evaluate_case V engine c i = Inr r" "evaluate_from V engine (Suc i) cs = Inr rs'" "rs = r # rs'"
    by (auto simp: bindR_def split: sum.splits)
  with case_measured[OF engine] Cons.IH show ?case by simp
qed simp

lemma case_fails:
  assumes engine: "risk_engine_init None name = Inr engine" and run: "evaluate_case V engine c i = Inl e"
  shows "e = ValueError \<and> (encode_strict (ec_before c) = None \<or> encode_strict (ec_after c) = None)"
proof -
  have "re_judge engine = None" using engine by (auto simp: risk_engine_init_def split: if_splits)
  then have "\<exists>s. analyze (ev_udb V) engine rq = Inr s" for rq by (cases "request_integrity_issue rq") (auto simp: analyze_def Let_def)
  then have "request_for_case V c i \<noteq> Inr rq" for rq
    using run by (metis (no_types, lifting) Inl_Inr_False bindR_def evaluate_case_def sum.simps(6))
  with run have "request_for_case V c i = Inl e" by (cases "request_for_case V c i") (auto simp: evaluate_case_def bindR_def)
  then show ?thesis
    by (auto simp: request_for_case_def text_digest_def bindR_def Let_def check_risk_analysis_request_def split: sum.splits option.splits)
qed

lemma evaluation_fails:
  assumes engine: "risk_engine_init None name = Inr engine"
  shows "evaluate_from V engine i cs = Inl e \<Longrightarrow>
    e = ValueError \<and> list_ex (\<lambda>c. encode_strict (ec_before c) = None \<or> encode_strict (ec_after c) = None) cs"
proof (induction cs arbitrary: i)
  case (Cons c cs)
  then consider "evaluate_case V engine c i = Inl e" | "evaluate_from V engine (Suc i) cs = Inl e"
    by (auto simp: bindR_def split: sum.splits)
  then show ?case using case_fails[OF engine, of V c i e] Cons.IH by cases auto
qed simp

lemma measured_passed: "list_all2 (measured V) cs rs \<Longrightarrow> filter es_passed rs = filter (\<lambda>r. es_actual r = es_expected r) rs"
  by (induction rule: list_all2_induct) (auto simp: measured_def)

lemma evaluation_engine: "risk_engine_init None (u ''indexguard-risk-evaluation'') =
    Inr \<lparr>re_judge = None, re_submitted_by = u ''indexguard-risk-evaluation''\<rparr>"
proof -
  have "strip (u ''indexguard-risk-evaluation'') = u ''indexguard-risk-evaluation''"
    by (simp add: strip_def lstrip_def rstrip_def is_space_def u_def)
  then show ?thesis by (simp add: risk_engine_init_def length_between_def length_u)
qed

section \<open>Properties\<close>

text \<open>What the evaluation measures: every result is the engine's answer to its own case, in order: ALLOW exactly for the
  unchanged cases whose digests are SHA-256 texts, BLOCK for every case with hidden text; and the counts of the report are
  those of its results.  It fails only for a text that UTF-8 cannot encode.\<close>

lemma evaluation_measures:
  "case evaluate_cases V cases of
     Inl e \<Rightarrow> e = ValueError \<and> list_ex (\<lambda>c. encode_strict (ec_before c) = None \<or> encode_strict (ec_after c) = None) cases
   | Inr report \<Rightarrow>
       list_all2 (measured V) cases (et_results report) \<and> et_total report = length cases \<and>
       et_passed report = length (filter (\<lambda>r. es_actual r = es_expected r) (et_results report))"
proof (cases "evaluate_from V \<lparr>re_judge = None, re_submitted_by = u ''indexguard-risk-evaluation''\<rparr> 1 cases")
  case (Inl e)
  with evaluation_fails[OF evaluation_engine Inl] show ?thesis by (simp add: evaluate_cases_def evaluation_engine bindR_def)
next
  case (Inr rs)
  note measured = results_measured[OF evaluation_engine Inr]
  with Inr measured_passed[OF measured] list_all2_lengthD[OF measured] show ?thesis
    by (simp add: evaluate_cases_def evaluation_engine bindR_def report_of_def Let_def)
qed

end
