(* ===== verification/Startup.thy ===== *)
theory Startup
  imports ModelClient QueueSafety
begin

text \<open>
  What the processes do before and beside their requests: which analyzer the gateway uses (\<^verbatim>\<open>api.py\<close>), whether the queue has a
  model, what it makes of its saved state file and how its watcher thread polls (\<^verbatim>\<open>change_queue.py\<close>), and where the layout
  converter finds Java (\<^verbatim>\<open>opendataloader_pdf.py\<close>).
\<close>

section \<open>The analyzer of the gateway\<close>

definition http_as_analyzer :: "http_analyzer \<Rightarrow> risk_analyzer" where
  "http_as_analyzer H = \<lparr>ran_name = http_analyzer_name, ran_analyze = http_analyze H\<rparr>"

text \<open>\<open>parse_float\<close> is Python's \<^verbatim>\<open>float\<close>: no number, or one that is not finite, or a number.\<close>

definition risk_analyzer_from_environment ::
  "address_env \<Rightarrow> (str \<Rightarrow> rat option option) \<Rightarrow> (str \<Rightarrow> str option) \<Rightarrow> (str \<Rightarrow> (str \<times> str) list \<Rightarrow> json \<Rightarrow> http_result) \<Rightarrow>
   (model_settings \<Rightarrow> model_client) \<Rightarrow> risk_analyzer option res" where
  "risk_analyzer_from_environment A parse_float variable post connect =
     (case truthy_text (variable (u ''INDEXGUARD_B_ANALYZE_URL'')) of
        Some endpoint \<Rightarrow>
          (case parse_float (variable_or variable (u ''INDEXGUARD_B_TIMEOUT_SECONDS'') (u ''15'')) of
             None \<Rightarrow> Inl ValueError
           | Some timeout \<Rightarrow>
               bindR (http_risk_analyzer A endpoint (variable (u ''INDEXGUARD_B_OUTBOUND_TOKEN'')) timeout post) (\<lambda>H.
               Inr (Some (http_as_analyzer H))))
      | None \<Rightarrow>
          if lower (ap_udb A) (strip (variable_or variable (u ''INDEXGUARD_OPENAI_RISK_ENABLED'') [])) \<in> {u ''1'', u ''true'', u ''yes''}
          then bindR (settings_from_environment A parse_float variable) (\<lambda>settings. Inr (Some (openai_analyzer (connect settings))))
          else Inr None)"

text \<open>Whatever the environment says, an analyzer it gives answers with valid submissions for the request it was given.\<close>

lemma configured_analyzer_valid:
  assumes "risk_analyzer_from_environment A parse_float variable post connect = Inr (Some analyzer)"
    and "ran_analyze analyzer r = Inr s"
  shows "sb_request_id s = rq_request_id r \<and> check_policy_submission s \<and> check_policy_result (sb_policy s)"
proof -
  from assms(1) consider H where "analyzer = http_as_analyzer H" | M where "analyzer = openai_analyzer M"
    by (auto simp: risk_analyzer_from_environment_def bindR_def split: option.splits sum.splits if_splits)
  then show ?thesis
  proof cases
    case 1
    with assms(2) show ?thesis using http_analyze_Inr[of _ r s] by (simp add: http_as_analyzer_def)
  next
    case 2
    with assms(2) show ?thesis using openai.bound[of _ r s] by (simp add: openai_analyzer_def)
  qed
qed

section \<open>The queue's model and state\<close>

definition queue_model :: "address_env \<Rightarrow> (str \<Rightarrow> rat option option) \<Rightarrow> (str \<Rightarrow> str option) \<Rightarrow> (model_settings \<Rightarrow> model_client) \<Rightarrow>
   model_client option res" where
  "queue_model A parse_float variable connect =
     (if lower (ap_udb A) (strip (variable_or variable (u ''INDEXGUARD_OPENAI_SUMMARIES'') (u ''true''))) \<in> {u ''0'', u ''false'', u ''no''}
      then Inr None
      else bindR (settings_from_environment A parse_float variable) (\<lambda>settings. Inr (Some (connect settings))))"

definition fresh_state :: json where
  "fresh_state = JObj [(u ''accepted'', JObj []), (u ''items'', JObj []), (u ''history'', JArr []), (u ''restored_history_ids'', JArr [])]"

text \<open>\<^verbatim>\<open>setdefault\<close> and the reset of a value that is no list.\<close>

definition list_field :: "str \<Rightarrow> (str \<times> json) list \<Rightarrow> (str \<times> json) list" where
  "list_field k kvs = (case map_of kvs k of Some (JArr xs) \<Rightarrow> kvs | _ \<Rightarrow> dict_set k (JArr []) kvs)"

text \<open>The file's content, \<open>None\<close> when there is none; what cannot be read as a state is a new state.\<close>

definition load_state :: "bytes res option \<Rightarrow> json res" where
  "load_state content =
     (case content of
        None \<Rightarrow> Inr fresh_state
      | Some (Inl e) \<Rightarrow> if is_os_error e \<or> e = ValueError then Inr fresh_state else Inl e
      | Some (Inr raw) \<Rightarrow>
          (case Option.bind (decode_strict raw) json_loads of
             Some (JObj kvs) \<Rightarrow>
               (case (map_of kvs (u ''accepted''), map_of kvs (u ''items'')) of
                  (Some (JObj accepted), Some (JObj items)) \<Rightarrow>
                    Inr (JObj (list_field (u ''restored_history_ids'') (list_field (u ''history'') kvs)))
                | _ \<Rightarrow> Inr fresh_state)
           | _ \<Rightarrow> Inr fresh_state))"

lemma map_of_dict_set: "map_of (dict_set k v kvs) = (map_of kvs)(k \<mapsto> v)"
  by (induction k v kvs rule: dict_set.induct) auto

lemma list_field_other: "k \<noteq> k' \<Longrightarrow> map_of (list_field k kvs) k' = map_of kvs k'"
  by (auto simp: list_field_def map_of_dict_set split: option.splits json.splits)

lemma list_field_array: "\<exists>xs. map_of (list_field k kvs) k = Some (JArr xs)"
  by (auto simp: list_field_def map_of_dict_set split: option.splits json.splits)

text \<open>Every state the queue starts from has the two objects and the two lists its operations use.\<close>

lemma loaded_state_shape:
  assumes "load_state content = Inr j"
  shows "\<exists>kvs accepted items history ids. j = JObj kvs \<and> map_of kvs (u ''accepted'') = Some (JObj accepted) \<and>
    map_of kvs (u ''items'') = Some (JObj items) \<and> map_of kvs (u ''history'') = Some (JArr history) \<and>
    map_of kvs (u ''restored_history_ids'') = Some (JArr ids)"
proof -
  consider "j = fresh_state" | kvs accepted items where "map_of kvs (u ''accepted'') = Some (JObj accepted)"
    "map_of kvs (u ''items'') = Some (JObj items)" "j = JObj (list_field (u ''restored_history_ids'') (list_field (u ''history'') kvs))"
    using assms by (auto simp: load_state_def split: option.splits sum.splits json.splits if_splits)
  then show ?thesis
  proof cases
    case 1
    then show ?thesis by (simp add: fresh_state_def u_eq_iff)
  next
    case 2
    obtain history ids where "map_of (list_field (u ''history'') kvs) (u ''history'') = Some (JArr history)"
      "map_of (list_field (u ''restored_history_ids'') (list_field (u ''history'') kvs)) (u ''restored_history_ids'') = Some (JArr ids)"
      using list_field_array by metis
    with 2 show ?thesis by (auto simp: list_field_other u_eq_iff)
  qed
qed

section \<open>The watcher thread\<close>

text \<open>\<^verbatim>\<open>_watch_loop\<close>: \<open>stopped i\<close> is the answer of the wait before poll \<open>i\<close>; a poll that raises is ignored.\<close>

partial_function (option) watch_loop :: "queue_env \<Rightarrow> (nat \<Rightarrow> bool) \<Rightarrow> nat \<Rightarrow> change_queue \<Rightarrow> change_queue option" where
  "watch_loop V stopped n s = (if stopped n then Some s else watch_loop V stopped (Suc n) (snd (poll_once V s)))"

text \<open>The thread only polls, so what holds of every sequence of the queue's calls holds of it; once stopped it ends.\<close>

lemma watch_loop_polls:
  "\<forall>i<k. \<not> stopped (n + i) \<Longrightarrow> stopped (n + k) \<Longrightarrow> watch_loop V stopped n s = Some (queue_run V (replicate k PollCall) s)"
proof (induction k arbitrary: n s)
  case 0
  then show ?case by (subst watch_loop.simps) (simp add: queue_run_def)
next
  case (Suc k)
  have "\<not> stopped n" using Suc.prems(1) by fastforce
  moreover have "\<forall>i<k. \<not> stopped (Suc n + i)" "stopped (Suc n + k)"
    using Suc.prems by (auto simp: less_Suc_eq_0_disj)
  ultimately show ?case
    using Suc.IH[of "Suc n" "snd (poll_once V s)"]
    by (subst watch_loop.simps) (simp add: queue_run_def discard_def)
qed

section \<open>Java for the layout converter\<close>

text \<open>\<open>jv_which\<close> is \<^verbatim>\<open>shutil.which("java")\<close>, \<open>jv_installed\<close> the paths \<^verbatim>\<open>glob\<close> finds under a directory.\<close>

record java_view =
  jv_variable :: "str \<Rightarrow> str option"
  jv_which :: "str option"
  jv_is_file :: "str \<Rightarrow> bool"
  jv_installed :: "str \<Rightarrow> str list"

definition installed_java :: "java_view \<Rightarrow> str option" where
  "installed_java J =
     find (jv_is_file J)
       (rev (sort_key path_parts (jv_installed J (variable_or (jv_variable J) (u ''PROGRAMFILES'') (u ''C:/Program Files'')))))"

definition java_executable :: "java_view \<Rightarrow> str option" where
  "java_executable J =
     (case truthy_text (jv_variable J (u ''INDEXGUARD_JAVA_PATH'')) of
        Some configured \<Rightarrow> if jv_is_file J configured then Some configured else None
      | None \<Rightarrow>
          (case truthy_text (jv_which J) of
             Some resolved \<Rightarrow> Some resolved
           | None \<Rightarrow>
               (case truthy_text (jv_variable J (u ''JAVA_HOME'')) of
                  Some home \<Rightarrow>
                    let candidate = path_join (path_join home (u ''bin'')) (u ''java.exe'') in
                    if jv_is_file J candidate then Some candidate else installed_java J
                | None \<Rightarrow> installed_java J)))"

text \<open>The child's environment; \<open>parent\<close> is the directory of the path, \<open>sep\<close> the separator of the search path.\<close>

definition opendataloader_environment :: "(str \<Rightarrow> str) \<Rightarrow> str \<Rightarrow> (str \<Rightarrow> str option) \<Rightarrow> str \<Rightarrow> str \<Rightarrow> str option" where
  "opendataloader_environment parent sep environ java =
     environ(u ''PATH'' \<mapsto> parent java @ sep @ variable_or environ (u ''PATH'') [])"

text \<open>A Java that is not taken from the search path is a file that exists; a configured one is never replaced by another.\<close>

lemma java_is_file:
  "java_executable J = Some p \<Longrightarrow> jv_is_file J p \<or> jv_which J = Some p"
  "truthy_text (jv_variable J (u ''INDEXGUARD_JAVA_PATH'')) = Some c \<Longrightarrow> java_executable J = Some p \<Longrightarrow> p = c"
  by (auto simp: java_executable_def installed_java_def Let_def truthy_text_def
      split: option.splits if_splits list.splits dest!: find_SomeD)

end
