(* ===== verification/Spec2Isabelle.thy ===== *)
theory Spec2Isabelle
  imports Pipeline Progress DashboardState RiskEngine DocumentDiff GitWatcher QueueSafety QueueEffects Wiring HttpSafety ModelClient
    DashboardClient ProtectedChat Renderers RagChat ProductPipeline Provenance Evaluation Startup
begin

text \<open>
  IndexGuard: a gateway that lets a changed document into a RAG search index only when a risk
  analyzer (B) has returned a completed ALLOW + INDEX result for exactly that file and an operator
  (C) has approved it.

  \<^bold>\<open>How the program works.\<close>
  \<^verbatim>\<open>AnalysisPipeline\<close> (\<^verbatim>\<open>src/indexguard/pipeline.py\<close>) stages a baseline and a candidate file under their digests
  (\<^verbatim>\<open>storage.py\<close>), extracts and compares them, records the prepared analysis in an append-only audit
  database whose events form a hash chain (\<^verbatim>\<open>audit.py\<close>) and asks B for a result.
  \<^verbatim>\<open>AnalysisOperations\<close> (\<^verbatim>\<open>operations.py\<close>) takes B's results and C's commands; every decision passes
  \<^verbatim>\<open>IndexGate\<close> (\<^verbatim>\<open>rag/gate.py\<close>), the only caller of the index (\<^verbatim>\<open>rag/indexer.py\<close>).

  \<^bold>\<open>Theories, in the order they build on each other.\<close>
  \<^item> \<open>Prelude\<close>: Python text as lists of code points and the string methods the code calls.
  \<^item> \<open>Errors\<close>: the exceptions (\<^verbatim>\<open>errors.py\<close>) as one datatype; operations as functions
    from a state to a result or an exception and the state it left; a small Hoare logic for them.
  \<^item> \<open>Json\<close>: JSON values, \<^verbatim>\<open>canonical_json\<close> (\<^verbatim>\<open>integrity.py\<close>) and the reader; round trip.
  \<^item> \<open>Contracts\<close>: the pydantic models (\<^verbatim>\<open>contracts.py\<close>) as records with \<open>dump_\<close> and
    \<open>validate_\<close> functions; a round trip for each.
  \<^item> \<open>Indexer\<close>: chunk splitting, the two SQLite tables, the transactional writes, readers and search.
  \<^item> \<open>AuditLog\<close>: the two audit tables, append, read, chain verification.
  \<^item> \<open>Gate\<close>: the world (audit, index, files) and \<^verbatim>\<open>IndexGate\<close>.
  \<^item> \<open>Operations\<close>: requests to B, results of B, commands of C, the status projection.
  \<^item> \<open>Pipeline\<close>: staging, preparing, searching, and the gateway as a transition system over all its
    state-changing calls.
  \<^item> \<open>Progress\<close>: the converse of the gate's safety: without failures an admissible candidate is indexed.
  \<^item> \<open>Regex\<close>: the regular expressions of Python's \<^verbatim>\<open>re\<close> the code uses, with a matcher proved equal to the
    declarative meaning of the expression; \<open>SequenceMatcher\<close>: the opcodes of \<^verbatim>\<open>difflib\<close>.
  \<^item> \<open>RiskEngine\<close>: B's deterministic assessment, its judge phases and its fail-closed answers (\<^verbatim>\<open>risk_engine.py\<close>);
    the engine interprets the contract of an analyzer that \<open>Operations\<close> relies on.
  \<^item> \<open>DocumentDiff\<close>: normalization and comparison of documents (\<^verbatim>\<open>detectors/document_diff.py\<close>), and what the
    comparison and the engine guarantee together.
  \<^item> \<open>Paths\<close>, \<open>Utf8\<close>: the POSIX path and UTF-8 functions of Python's library that the next three use.
  \<^item> \<open>Scanner\<close>: the directory scanner with its saved snapshot (\<^verbatim>\<open>scanner.py\<close>); \<open>GitWatcher\<close>: the snapshots and
    events of a git repository (\<^verbatim>\<open>git_watcher.py\<close>).
  \<^item> \<open>ChangeQueue\<close>: the review queue of a watched directory (\<^verbatim>\<open>change_queue.py\<close>), on top of the scanner, the blob
    store and the index; \<open>QueueSafety\<close> proves what all its operations keep (the locale \<open>item_invariant\<close>, interpreted
    twice), \<open>QueueEffects\<close> what each of them does.
  \<^item> \<open>ExtractorBase\<close>: limits, the staged file, the bounded collector, the visible body and the snapshot
    (\<^verbatim>\<open>extractors/base.py\<close>), and Markdown; \<open>SafeZip\<close>: the bounded ZIP and XML reader (\<^verbatim>\<open>safe_zip.py\<close>); \<open>XmlTree\<close>:
    what the two XML formats share, with the locale \<open>token_gathering\<close> both interpret; \<open>Docx\<close>, \<open>Hwpx\<close>, \<open>Pdf\<close>: the formats;
    \<open>Registry\<close>: detection and dispatch (\<^verbatim>\<open>registry.py\<close>), the locale \<open>sound_extractor\<close> that every format interprets, and
    what it means for the risk engine; \<open>Wiring\<close>: the pipeline and the queue with these extractors.
  \<^item> \<open>QueueWorld\<close>: what the queue does to the audit log and the index it shares with the gateway; \<open>RepositoryReview\<close>: the
    read-only review of a repository (\<^verbatim>\<open>repository_review.py\<close>); \<open>HttpGateway\<close>: the routes, tokens and fail-closed answers of
    \<^verbatim>\<open>api.py\<close>; \<open>BServices\<close>: the MCP tools (\<^verbatim>\<open>mcp_server.py\<close>) and B's own service (\<^verbatim>\<open>risk_api.py\<close>), which interprets
    \<open>bound_analyzer\<close>; \<open>HttpSafety\<close>: who may change what, and the invariant of the whole gateway over every sequence of
    requests, tool calls, polls, background results and outside changes of files.
  \<^item> \<open>ModelClient\<close>: the adapters to a language model (\<^verbatim>\<open>openai_compat.py\<close>) and to a remote B service (\<^verbatim>\<open>risk_client.py\<close>): the
    addresses they accept, what they send, what of an answer they use; the model's adapter interprets \<open>bound_analyzer\<close>, and its
    assessment is composed with the queue's verdict.
  \<^item> \<open>RagChat\<close>: the question-answering service over the index (\<^verbatim>\<open>rag_chat_api.py\<close>), composed with the whole gateway.
  \<^item> \<open>ProductPipeline\<close>: the poll of a directory and a git repository, with the operator's command (\<^verbatim>\<open>product_pipeline.py\<close>,
    \<^verbatim>\<open>watcher.py\<close>): the invariant of every sequence of polls, commands and outside changes of files.
  \<^item> \<open>DashboardClient\<close>: the dashboard's client of the gateway (\<^verbatim>\<open>apps/dashboard/api_client.py\<close>), with the modelled gateway
    behind it: where the two sides of the contract fit, and where they do not; \<open>ProtectedChat\<close>: the dashboard's answers
    from the approved index (\<^verbatim>\<open>rag_chat.py\<close>); \<open>Renderers\<close>: its texts and HTML fragments (\<^verbatim>\<open>presentation.py\<close>, \<^verbatim>\<open>renderers.py\<close>)
    and what a browser reads of them.
  \<^item> \<open>Provenance\<close>: hashing a stream and the code revision (\<^verbatim>\<open>integrity.py\<close>); \<open>Evaluation\<close>: the synthetic evaluation of B's
    engine (\<^verbatim>\<open>risk_evaluation.py\<close>) and what its report measures; \<open>Startup\<close>: the analyzer the gateway is configured with, the queue's state
    file and its watcher's loop, the search for Java.
  \<^item> \<open>DashboardState\<close>: the dashboard's fail-closed checks (\<^verbatim>\<open>apps/dashboard/state.py\<close>).

  \<^bold>\<open>Failures.\<close> Each database carries a script of faults; a transaction consumes one entry and, when it is an
  exception, rolls back and raises it.  Theorems quantify over the scripts, so they cover every schedule of
  failures of the databases and of the blob reads.

  \<^bold>\<open>Parameters.\<close> SHA-256, Unicode tables, clock readings and fresh UUIDs are fields of \<open>env\<close>; nothing is assumed
  of them (tamper evidence is stated as: the histories agree, or two texts with the same digest exist).
  The extractors and the document comparison enter the pipeline as functions of the bytes (\<open>extraction\<close>); the extractors
  take reading a ZIP directory, inflating, XML and PDF parsing and float arithmetic as parameters, of which nothing is assumed.

  \<^bold>\<open>Fuel and termination.\<close> \<open>chunk_loop\<close> and \<open>scan_value\<close> take fuel; \<open>split_text_bounds\<close> shows that the length of the
  text plus one is enough for the former, and \<open>canonical_json_roundtrip\<close> uses the length of the input, enough for every
  text the program writes.  The watch loops may run forever and are \<open>partial_function (option)\<close>; the lemmas \<open>bounded_product_watch\<close> and
  \<open>bounded_directory_watch\<close> show that a limit on the cycles ends them.

  \<^bold>\<open>Not modelled.\<close> The web and MCP frameworks (a request arrives parsed), command lines, the Streamlit page
  (\<^verbatim>\<open>app.py\<close>), the ZIP, XML and PDF parsers, the HTTP library, git, and the queue's threads (a model call is the gap
  between two steps of the queue); the manifest lists each with its reason.  Threads: every public operation of the
  modelled classes holds its object's lock for its whole body, so an operation is one step of the model.
\<close>

end
